(* ===== verification/Prelude.thy ===== *)
theory Prelude
  imports Main "HOL-Library.Char_ord" "HOL-Library.List_Lexorder"
    "HOL-Library.Product_Lexorder" "HOL-Library.Option_ord"
begin

text \<open>
  Shared vocabulary of the development: the errors the Python code raises, results of
  fallible operations, tables of rows with a primary key, and the generic list lemmas that
  the component proofs use.  Strings are lists of characters; the order on strings is the
  byte-wise lexicographic order (theories Char-ord and List-Lexorder), which is the order of
  SQLite's default BINARY collation.
\<close>

named_theorems tbl_simps \<open>rewrite rules for tables with a primary key\<close>
named_theorems queue_simps \<open>effect of the job-table operations on one row\<close>
named_theorems session_simps \<open>effect of the session-table operations on one row\<close>

section \<open>Errors as values\<close>

text \<open>
  The exceptions of the modelled code.  An operation that can raise returns a sum:
  \<open>Inl e\<close> when exception \<open>e\<close> leaves the operation, \<open>Inr x\<close> when it returns \<open>x\<close>.
  \<open>HTTPErr status detail\<close> stands for FastAPI's HTTPException; \<open>CancelledErr\<close> for the
  \<open>CancelledError\<close> a suspended task can receive; \<open>HerdrErr\<close> carries code and message, \<open>ShimErr\<close>
  machine, verb, return code and stderr.
\<close>

datatype error =
    KeyErr string
  | ValueErr string
  | PermissionErr string
  | RuntimeErr string
  | IntegrityErr string
  | WorktreeErr string
  | TimeoutErr string
  | OSErr string
  | CancelledErr
  | LaneTimeoutErr string
  | HerdrErr string string
  | HerdrUnavailableErr string
  | ShimErr string string int string
  | PrRejectedErr "string list"
  | HTTPErr nat string

type_synonym 'a res = "error + 'a"

definition ok :: "'a res \<Rightarrow> bool" where
  "ok r = (case r of Inl _ \<Rightarrow> False | Inr _ \<Rightarrow> True)"

lemma ok_simps [simp]: "ok (Inl e) = False" "ok (Inr x) = True"
  by (simp_all add: ok_def)

lemma ok_iff: "ok r \<longleftrightarrow> (\<exists>x. r = Inr x)"
  by (cases r) auto

section \<open>Tables with a primary key\<close>

text \<open>
  A table is the list of its rows in rowid order.  \<open>tbl_get\<close> is SELECT by primary key,
  \<open>tbl_upd\<close> is UPDATE with a WHERE clause, \<open>tbl_del\<close> is DELETE with a WHERE clause and
  \<open>tbl_ins\<close> is INSERT, which fails on a duplicate primary key.
\<close>

definition tbl_get :: "('r \<Rightarrow> 'k) \<Rightarrow> 'k \<Rightarrow> 'r list \<Rightarrow> 'r option" where
  "tbl_get key k rows = find (\<lambda>r. key r = k) rows"

definition tbl_upd :: "('r \<Rightarrow> bool) \<Rightarrow> ('r \<Rightarrow> 'r) \<Rightarrow> 'r list \<Rightarrow> 'r list" where
  "tbl_upd p f rows = map (\<lambda>r. if p r then f r else r) rows"

definition tbl_del :: "('r \<Rightarrow> bool) \<Rightarrow> 'r list \<Rightarrow> 'r list" where
  "tbl_del p rows = filter (\<lambda>r. \<not> p r) rows"

definition tbl_ins :: "('r \<Rightarrow> string) \<Rightarrow> 'r \<Rightarrow> 'r list \<Rightarrow> 'r list res" where
  "tbl_ins key r rows =
     (if key r \<in> set (map key rows) then Inl (IntegrityErr (key r)) else Inr (rows @ [r]))"

definition rowcount :: "('r \<Rightarrow> bool) \<Rightarrow> 'r list \<Rightarrow> nat" where
  "rowcount p rows = length (filter p rows)"

definition pk_ok :: "('r \<Rightarrow> 'k) \<Rightarrow> 'r list \<Rightarrow> bool" where
  "pk_ok key rows = distinct (map key rows)"

lemma tbl_get_simps [simp, tbl_simps]:
  "tbl_get key k [] = None"
  "tbl_get key k (r # rows) = (if key r = k then Some r else tbl_get key k rows)"
  by (simp_all add: tbl_get_def)

lemma tbl_upd_simps [simp, tbl_simps]:
  "tbl_upd p f [] = []"
  "tbl_upd p f (r # rows) = (if p r then f r else r) # tbl_upd p f rows"
  by (simp_all add: tbl_upd_def)

lemma tbl_get_key: "tbl_get key k rows = Some r \<Longrightarrow> key r = k"
  by (induction rows) (auto split: if_splits)

lemma tbl_get_in: "tbl_get key k rows = Some r \<Longrightarrow> r \<in> set rows"
  by (induction rows) (auto split: if_splits)

lemma tbl_get_None_iff: "tbl_get key k rows = None \<longleftrightarrow> k \<notin> set (map key rows)"
  by (induction rows) auto

lemma tbl_get_append [tbl_simps]:
  "tbl_get key k (xs @ ys) =
     (case tbl_get key k xs of None \<Rightarrow> tbl_get key k ys | Some r \<Rightarrow> Some r)"
  by (induction xs) auto

lemma tbl_get_upd [tbl_simps]:
  assumes "\<And>r. key (f r) = key r"
  shows "tbl_get key k (tbl_upd p f rows) =
    (case tbl_get key k rows of None \<Rightarrow> None | Some r \<Rightarrow> Some (if p r then f r else r))"
  by (induction rows) (auto simp: assms)

lemma tbl_get_del_other: "(\<And>r. p r \<Longrightarrow> key r \<noteq> k) \<Longrightarrow> tbl_get key k (tbl_del p rows) = tbl_get key k rows"
  by (induction rows) (auto simp: tbl_del_def)

lemma tbl_get_del_all: "(\<And>r. key r = k \<Longrightarrow> p r) \<Longrightarrow> tbl_get key k (tbl_del p rows) = None"
  by (induction rows) (auto simp: tbl_del_def)

lemma tbl_upd_keys [tbl_simps]:
  "(\<And>r. key (f r) = key r) \<Longrightarrow> map key (tbl_upd p f rows) = map key rows"
  by (induction rows) auto

lemma pk_ok_upd [tbl_simps]:
  "(\<And>r. key (f r) = key r) \<Longrightarrow> pk_ok key (tbl_upd p f rows) = pk_ok key rows"
  by (simp add: pk_ok_def tbl_upd_keys)

lemma pk_ok_del: "pk_ok key rows \<Longrightarrow> pk_ok key (tbl_del p rows)"
  by (induction rows) (auto simp: pk_ok_def tbl_del_def)

lemma pk_ok_ins: "pk_ok key rows \<Longrightarrow> tbl_ins key r rows = Inr rows' \<Longrightarrow> pk_ok key rows'"
  by (auto simp: pk_ok_def tbl_ins_def split: if_splits)

lemma pk_ok_get: "pk_ok key rows \<Longrightarrow> r \<in> set rows \<Longrightarrow> tbl_get key (key r) rows = Some r"
  by (induction rows) (auto simp: pk_ok_def)

lemma pk_ok_unique: "pk_ok key rows \<Longrightarrow> a \<in> set rows \<Longrightarrow> b \<in> set rows \<Longrightarrow> key a = key b \<Longrightarrow> a = b"
  by (auto simp: pk_ok_def distinct_map dest: inj_onD)

lemma tbl_upd_filter:
  "(\<And>r. q (if p r then f r else r) = q r) \<Longrightarrow>
     filter q (tbl_upd p f rows) = tbl_upd p f (filter q rows)"
  by (induction rows) auto

lemma tbl_upd_id: "(\<And>r. r \<in> set rows \<Longrightarrow> \<not> p r) \<Longrightarrow> tbl_upd p f rows = rows"
  by (induction rows) auto

lemma set_tbl_upd: "set (tbl_upd p f rows) = (\<lambda>r. if p r then f r else r) ` set rows"
  by (simp add: tbl_upd_def)

lemma tbl_upd_row: "r' \<in> set (tbl_upd p f rows) \<longleftrightarrow> (\<exists>r \<in> set rows. r' = (if p r then f r else r))"
  unfolding set_tbl_upd image_iff by (rule refl)

lemma tbl_upd_rowE:
  assumes "r' \<in> set (tbl_upd p f rows)"
  obtains r where "r \<in> set rows" "p r" "r' = f r" | "r' \<in> set rows" "\<not> p r'"
  using assms unfolding tbl_upd_row by (auto split: if_splits)

lemma tbl_upd_rowI: "r \<in> set rows \<Longrightarrow> r' = (if p r then f r else r) \<Longrightarrow> r' \<in> set (tbl_upd p f rows)"
  unfolding tbl_upd_row by blast

lemma upd_key_row:
  assumes "pk_ok key rows" "r \<in> set rows" "key r = k" "x \<in> set (tbl_upd (\<lambda>x. key x = k) f rows)"
  shows "x = f r \<or> x \<in> set rows \<and> key x \<noteq> k"
  using assms(4)
proof (rule tbl_upd_rowE)
  fix y assume "y \<in> set rows" "key y = k" "x = f y"
  with pk_ok_unique [OF assms(1) \<open>y \<in> set rows\<close> assms(2)] assms(3) show ?thesis by simp
qed simp

lemma rowcount_0_iff: "rowcount p rows = 0 \<longleftrightarrow> (\<forall>r \<in> set rows. \<not> p r)"
  by (simp add: rowcount_def filter_empty_conv)

lemma find_SomeD: "find p rows = Some r \<Longrightarrow> r \<in> set rows \<and> p r"
  by (induction rows) (auto split: if_splits)

section \<open>The table interface\<close>

text \<open>
  What the repository methods rely on when they treat a list of rows as a table.  The clients
  (workers, jobs, sessions, commands, port forwards, marimo sessions) state their functional
  behaviour through these laws.
\<close>

locale row_store =
  fixes key :: "'r \<Rightarrow> string"
    and get :: "string \<Rightarrow> 'r list \<Rightarrow> 'r option"
    and ins :: "'r \<Rightarrow> 'r list \<Rightarrow> 'r list res"
    and upd :: "('r \<Rightarrow> bool) \<Rightarrow> ('r \<Rightarrow> 'r) \<Rightarrow> 'r list \<Rightarrow> 'r list"
  assumes get_key: "get k rows = Some r \<Longrightarrow> key r = k"
    and get_ins: "ins r rows = Inr rows' \<Longrightarrow> get k rows' = (if k = key r then Some r else get k rows)"
    and ins_fails: "get (key r) rows \<noteq> None \<Longrightarrow> ins r rows = Inl (IntegrityErr (key r))"
    and ins_succeeds: "get (key r) rows = None \<Longrightarrow> \<exists>rows'. ins r rows = Inr rows'"
    and get_upd: "(\<And>r. key (f r) = key r) \<Longrightarrow>
      get k (upd p f rows) = (case get k rows of None \<Rightarrow> None | Some r \<Rightarrow> Some (if p r then f r else r))"
begin

lemma ins_then_get: "ins r rows = Inr rows' \<Longrightarrow> get (key r) rows' = Some r"
  by (simp add: get_ins)

lemma ins_frame: "ins r rows = Inr rows' \<Longrightarrow> k \<noteq> key r \<Longrightarrow> get k rows' = get k rows"
  by (simp add: get_ins)

lemma ins_twice: "ins r rows = Inr rows' \<Longrightarrow> ins r rows' = Inl (IntegrityErr (key r))"
  by (rule ins_fails) (simp add: get_ins)

lemma upd_frame:
  "(\<And>r. key (f r) = key r) \<Longrightarrow> (\<And>r. p r \<Longrightarrow> key r \<noteq> k) \<Longrightarrow> get k (upd p f rows) = get k rows"
  by (auto simp: get_upd split: option.split dest: get_key)

lemma upd_preserves_presence:
  "(\<And>r. key (f r) = key r) \<Longrightarrow> get k (upd p f rows) = None \<longleftrightarrow> get k rows = None"
  by (simp add: get_upd split: option.split)

end

lemma tbl_row_store: "row_store key (tbl_get key) (tbl_ins key) tbl_upd"
proof
  show "tbl_get key k rows = Some r \<Longrightarrow> key r = k" for k r and rows :: "'a list"
    by (rule tbl_get_key)
  show "tbl_ins key r rows = Inr rows' \<Longrightarrow>
      tbl_get key k rows' = (if k = key r then Some r else tbl_get key k rows)" for r rows rows' k
    using tbl_get_None_iff [of key "key r" rows]
    by (cases "tbl_get key k rows") (auto simp: tbl_ins_def tbl_get_append split: if_splits)
  show "tbl_get key (key r) rows \<noteq> None \<Longrightarrow> tbl_ins key r rows = Inl (IntegrityErr (key r))" for r rows
    by (simp add: tbl_ins_def tbl_get_None_iff)
  show "tbl_get key (key r) rows = None \<Longrightarrow> \<exists>rows'. tbl_ins key r rows = Inr rows'" for r rows
    by (simp add: tbl_ins_def tbl_get_None_iff)
  show "(\<And>r. key (f r) = key r) \<Longrightarrow> tbl_get key k (tbl_upd p f rows) =
      (case tbl_get key k rows of None \<Rightarrow> None | Some r \<Rightarrow> Some (if p r then f r else r))" for f k p rows
    by (rule tbl_get_upd)
qed

section \<open>Sorting with a selection\<close>

lemma filter_sort_key: "filter p (sort_key k xs) = sort_key k (filter p xs)"
  by (simp add: filter_sort)

lemma sort_key_cong: "(\<And>x. x \<in> set xs \<Longrightarrow> k x = k' x) \<Longrightarrow> sort_key k xs = sort_key k' xs"
proof (induction xs)
  case (Cons x xs)
  then have "sort_key k xs = sort_key k' xs" by simp
  moreover have "insort_key k x ys = insort_key k' x ys" if "set ys \<subseteq> set (x # xs)" for ys
    using that Cons.prems by (induction ys) auto
  from this [of "sort_key k' xs"] have "insort_key k x (sort_key k' xs) = insort_key k' x (sort_key k' xs)"
    by auto
  ultimately show ?case by simp
qed simp

lemma sort_key_snoc_max:
  assumes "\<And>y. y \<in> set xs \<Longrightarrow> k y < k x"
  shows "sort_key k (xs @ [x]) = sort_key k xs @ [x]"
proof -
  have ins: "insort_key k a (ys @ [x]) = insort_key k a ys @ [x]" if "k a < k x" for a ys
    using that by (induction ys) auto
  show ?thesis using assms by (induction xs) (auto simp: ins)
qed

section \<open>Enumerations that start at one\<close>

text \<open>Python's \<open>enumerate(xs, 1)\<close> with an executemany UPDATE: element \<open>i\<close> gets number \<open>i + 1\<close>.\<close>

fun index_of :: "'a \<Rightarrow> 'a list \<Rightarrow> nat" where
  "index_of x [] = 0"
| "index_of x (y # ys) = (if x = y then 0 else Suc (index_of x ys))"

lemma index_of_less [simp]: "x \<in> set xs \<Longrightarrow> index_of x xs < length xs"
  by (induction xs) auto

lemma index_of_le: "index_of x xs \<le> length xs"
  by (induction xs) auto

lemma nth_index_of: "x \<in> set xs \<Longrightarrow> xs ! index_of x xs = x"
  by (induction xs) auto

lemma index_of_inj: "x \<in> set xs \<Longrightarrow> y \<in> set xs \<Longrightarrow> index_of x xs = index_of y xs \<Longrightarrow> x = y"
  by (metis nth_index_of)

text \<open>Python's \<open>list.insert(i, x)\<close> for a non-negative index: past the end it appends.\<close>

definition list_insert :: "nat \<Rightarrow> 'a \<Rightarrow> 'a list \<Rightarrow> 'a list" where
  "list_insert i x xs = take i xs @ x # drop i xs"

lemma set_list_insert [simp]: "set (list_insert i x xs) = insert x (set xs)"
  by (metis list_insert_def append_take_drop_id set_append list.simps(15) Un_insert_right)

lemma distinct_list_insert: "distinct xs \<Longrightarrow> x \<notin> set xs \<Longrightarrow> distinct (list_insert i x xs)"
  unfolding list_insert_def
  by (auto dest: in_set_takeD in_set_dropD simp: set_take_disj_set_drop_if_distinct)

lemma length_list_insert [simp]: "length (list_insert i x xs) = Suc (length xs)"
  by (simp add: list_insert_def)

end
