(* ===== verification/Py_Lib.thy ===== *)
theory Py_Lib
  imports Prelude
begin

text \<open>
  The parts of Python's standard library that the modelled code calls: string methods,
  \<open>PurePosixPath\<close> and \<open>shlex.quote\<close>.  Strings are byte strings in UTF-8, so the functions
  below are exact on ASCII text and treat the bytes of other characters as opaque.
  The last section defines the word splitting of a POSIX shell for the quoting that
  \<open>shlex\<close> produces and proves that it recovers every quoted argument.
\<close>

section \<open>String methods\<close>

definition is_ws :: "char \<Rightarrow> bool" where
  "is_ws c = (let n = (of_char c :: nat) in (9 \<le> n \<and> n \<le> 13) \<or> (28 \<le> n \<and> n \<le> 32))"

definition lstrip :: "string \<Rightarrow> string" where
  "lstrip s = dropWhile is_ws s"

definition rstrip :: "string \<Rightarrow> string" where
  "rstrip s = rev (dropWhile is_ws (rev s))"

definition strip :: "string \<Rightarrow> string" where
  "strip s = rstrip (lstrip s)"

definition rstrip_char :: "char \<Rightarrow> string \<Rightarrow> string" where
  "rstrip_char c s = rev (dropWhile (\<lambda>x. x = c) (rev s))"

definition lstrip_char :: "char \<Rightarrow> string \<Rightarrow> string" where
  "lstrip_char c s = dropWhile (\<lambda>x. x = c) s"

definition startswith :: "string \<Rightarrow> string \<Rightarrow> bool" where
  "startswith p s = (take (length p) s = p)"

definition lower_char :: "char \<Rightarrow> char" where
  "lower_char c = (let n = (of_char c :: nat) in if 65 \<le> n \<and> n \<le> 90 then char_of (n + 32) else c)"

definition lower :: "string \<Rightarrow> string" where
  "lower s = map lower_char s"

definition is_lower_alpha :: "char \<Rightarrow> bool" where
  "is_lower_alpha c = (let n = (of_char c :: nat) in 97 \<le> n \<and> n \<le> 122)"

definition is_upper_alpha :: "char \<Rightarrow> bool" where
  "is_upper_alpha c = (let n = (of_char c :: nat) in 65 \<le> n \<and> n \<le> 90)"

definition is_digit :: "char \<Rightarrow> bool" where
  "is_digit c = (let n = (of_char c :: nat) in 48 \<le> n \<and> n \<le> 57)"

definition is_alnum :: "char \<Rightarrow> bool" where
  "is_alnum c = (is_lower_alpha c \<or> is_upper_alpha c \<or> is_digit c)"

text \<open>\<open>s.split(c)\<close> for a one-character separator: always at least one piece.\<close>

fun split_on :: "char \<Rightarrow> string \<Rightarrow> string list" where
  "split_on c [] = [[]]"
| "split_on c (x # xs) =
     (if x = c then [] # split_on c xs
      else (case split_on c xs of [] \<Rightarrow> [[x]] | p # ps \<Rightarrow> (x # p) # ps))"

fun join :: "string \<Rightarrow> string list \<Rightarrow> string" where
  "join sep [] = []"
| "join sep [x] = x"
| "join sep (x # y # ys) = x @ sep @ join sep (y # ys)"

definition replace_char :: "char \<Rightarrow> string \<Rightarrow> string \<Rightarrow> string" where
  "replace_char c t s = concat (map (\<lambda>x. if x = c then t else [x]) s)"

text \<open>\<open>s.partition(c)\<close>: text before the first separator, the separator, the rest.\<close>

definition partition_char :: "char \<Rightarrow> string \<Rightarrow> string \<times> string \<times> string" where
  "partition_char c s =
     (let h = takeWhile (\<lambda>x. x \<noteq> c) s; t = dropWhile (\<lambda>x. x \<noteq> c) s
      in case t of [] \<Rightarrow> (s, [], []) | x # r \<Rightarrow> (h, [x], r))"

text \<open>\<open>s.rsplit("/", 1)[-1]\<close>: the text after the last separator.\<close>

definition after_last :: "char \<Rightarrow> string \<Rightarrow> string" where
  "after_last c s = rev (takeWhile (\<lambda>x. x \<noteq> c) (rev s))"

text \<open>\<open>str.splitlines()\<close>: line boundaries are LF, CR, CRLF, VT, FF and the separators 28 to 30.\<close>

definition is_line_break :: "char \<Rightarrow> bool" where
  "is_line_break c = (let n = (of_char c :: nat) in (10 \<le> n \<and> n \<le> 13) \<or> (28 \<le> n \<and> n \<le> 30))"

fun splitlines_acc :: "string \<Rightarrow> string \<Rightarrow> string list" where
  "splitlines_acc acc [] = (if acc = [] then [] else [rev acc])"
| "splitlines_acc acc (c # cs) =
     (if of_char c = (13::nat) then
        (case cs of
           d # ds \<Rightarrow> if of_char d = (10::nat) then rev acc # splitlines_acc [] ds
                     else rev acc # splitlines_acc [] cs
         | [] \<Rightarrow> [rev acc])
      else if is_line_break c then rev acc # splitlines_acc [] cs
      else splitlines_acc (c # acc) cs)"

definition splitlines :: "string \<Rightarrow> string list" where
  "splitlines s = splitlines_acc [] s"

text \<open>Decimal rendering of integers, as \<open>str(n)\<close> does.\<close>

fun nat_to_string :: "nat \<Rightarrow> string" where
  "nat_to_string n =
     (if n < 10 then [char_of (48 + n)] else nat_to_string (n div 10) @ [char_of (48 + n mod 10)])"

declare nat_to_string.simps [simp del]

definition int_to_string :: "int \<Rightarrow> string" where
  "int_to_string i = (if i < 0 then ''-'' @ nat_to_string (nat (- i)) else nat_to_string (nat i))"

lemma startswith_append [simp]: "startswith p (p @ s)"
  by (simp add: startswith_def)

lemma startswith_iff: "startswith p s \<longleftrightarrow> (\<exists>t. s = p @ t)"
  by (metis append_take_drop_id startswith_append startswith_def)

lemma rstrip_no_ws_end: "s \<noteq> [] \<Longrightarrow> rstrip s = [] \<or> \<not> is_ws (last (rstrip s))"
  unfolding rstrip_def by (metis hd_dropWhile last_rev rev.simps(1))

lemma strip_ends: "strip s = [] \<or> \<not> is_ws (last (strip s))"
  unfolding strip_def
  by (cases "lstrip s = []") (auto simp: rstrip_def dest: rstrip_no_ws_end [unfolded rstrip_def])

lemma split_on_ne [simp]: "split_on c s \<noteq> []"
  by (induction s) (auto split: list.splits)

lemma join_split_on: "join [c] (split_on c s) = s"
proof (induction s)
  case (Cons x xs)
  obtain p ps where "split_on c xs = p # ps"
    by (cases "split_on c xs") auto
  with Cons show ?case by (cases ps) auto
qed simp

section \<open>The text of a string literal\<close>

text \<open>\<open>repr(s)\<close>: single quotes unless the string has a single but no double quote; backslash, the
  chosen quote and control characters are escaped.\<close>

definition hex_digit :: "nat \<Rightarrow> char" where
  "hex_digit n = ''0123456789abcdef'' ! (n mod 16)"

definition repr_char :: "char \<Rightarrow> char \<Rightarrow> string" where
  "repr_char q c =
     (let n = (of_char c :: nat)
      in if c = q \<or> n = 92 then [CHR 92, c]
         else if n = 10 then [CHR 92, CHR ''n''] else if n = 13 then [CHR 92, CHR ''r'']
         else if n = 9 then [CHR 92, CHR ''t'']
         else if n < 32 \<or> n = 127 then [CHR 92, CHR ''x'', hex_digit (n div 16), hex_digit n] else [c])"

definition py_repr :: "string \<Rightarrow> string" where
  "py_repr s = (let q = (if CHR 39 \<in> set s \<and> CHR 34 \<notin> set s then CHR 34 else CHR 39)
                in q # concat (map (repr_char q) s) @ [q])"

section \<open>Pure POSIX paths\<close>

text \<open>
  \<open>PurePosixPath(s)\<close> keeps the root (a slash, or exactly two slashes, which pathlib keeps
  apart), drops empty components and single dots and keeps double dots.
\<close>

record posix_path =
  pp_root :: string
  pp_names :: "string list"

definition posix_path :: "string \<Rightarrow> posix_path" where
  "posix_path s =
     \<lparr>pp_root = (if startswith ''//'' s \<and> \<not> startswith ''///'' s then ''//''
                 else if startswith ''/'' s then ''/'' else ''''),
      pp_names = filter (\<lambda>p. p \<noteq> '''' \<and> p \<noteq> ''.'') (split_on (CHR ''/'') s)\<rparr>"

definition path_str :: "posix_path \<Rightarrow> string" where
  "path_str p =
     (if pp_root p = '''' \<and> pp_names p = [] then ''.'' else pp_root p @ join ''/'' (pp_names p))"

definition path_parts :: "posix_path \<Rightarrow> string list" where
  "path_parts p = (if pp_root p = '''' then [] else [pp_root p]) @ pp_names p"

text \<open>\<open>p.suffix\<close>: from the last dot of the final component, unless that dot is at either end.\<close>

definition path_suffix :: "posix_path \<Rightarrow> string" where
  "path_suffix p =
     (case rev (pp_names p) of
        [] \<Rightarrow> ''''
      | name # _ \<Rightarrow>
          let ext = after_last (CHR ''.'') name
          in if CHR ''.'' \<in> set name \<and> ext \<noteq> '''' \<and> length ext + 1 < length name
             then CHR ''.'' # ext else '''')"

definition path_parent :: "posix_path \<Rightarrow> posix_path" where
  "path_parent p = p\<lparr>pp_names := butlast (pp_names p)\<rparr>"

text \<open>\<open>p.is_relative_to(q)\<close>: same root and the names of \<open>q\<close> are a prefix of those of \<open>p\<close>.\<close>

definition path_is_relative_to :: "posix_path \<Rightarrow> posix_path \<Rightarrow> bool" where
  "path_is_relative_to p q =
     (pp_root p = pp_root q \<and> take (length (pp_names q)) (pp_names p) = pp_names q)"

section \<open>Shell quoting\<close>

text \<open>\<open>shlex.quote\<close>: safe characters are ASCII word characters and a few punctuation marks.\<close>

definition shell_safe :: "char \<Rightarrow> bool" where
  "shell_safe c = (is_alnum c \<or> c \<in> set ''_@%+=:,./-'')"

definition quote_body :: "string \<Rightarrow> string" where
  "quote_body s = replace_char CHR 39 ([CHR 39, CHR 34, CHR 39, CHR 34, CHR 39]) s"

definition shlex_quote :: "string \<Rightarrow> string" where
  "shlex_quote s =
     (if s = [] then [CHR 39, CHR 39]
      else if list_all shell_safe s then s
      else [CHR 39] @ quote_body s @ [CHR 39])"

definition shlex_join :: "string list \<Rightarrow> string" where
  "shlex_join xs = join '' '' (map shlex_quote xs)"

text \<open>
  The reference: word splitting by a POSIX shell, for lines without backslashes, expansions
  or operators.  The mode says whether the scanner is between words, in an unquoted part of a
  word, or in a single- or double-quoted part; \<open>acc\<close> holds the current word reversed.
  A character that is neither safe nor a quote nor a blank has no meaning here and yields
  None, as does an unterminated quotation.
\<close>

datatype sh_mode = Between | Plain | Single | Double

fun sh_split :: "sh_mode \<Rightarrow> string \<Rightarrow> string \<Rightarrow> string list option" where
  "sh_split Between acc [] = Some []"
| "sh_split Plain acc [] = Some [rev acc]"
| "sh_split Single acc [] = None"
| "sh_split Double acc [] = None"
| "sh_split Single acc (c # cs) =
     (if c = CHR 39 then sh_split Plain acc cs else sh_split Single (c # acc) cs)"
| "sh_split Double acc (c # cs) =
     (if c = CHR 34 then sh_split Plain acc cs
      else if c = CHR 39 \<or> shell_safe c then sh_split Double (c # acc) cs else None)"
| "sh_split Plain acc (c # cs) =
     (if c = CHR '' '' then map_option (\<lambda>ws. rev acc # ws) (sh_split Between [] cs)
      else if c = CHR 39 then sh_split Single acc cs
      else if c = CHR 34 then sh_split Double acc cs
      else if shell_safe c then sh_split Plain (c # acc) cs
      else None)"
| "sh_split Between acc (c # cs) =
     (if c = CHR '' '' then sh_split Between [] cs
      else if c = CHR 39 then sh_split Single [] cs
      else if c = CHR 34 then sh_split Double [] cs
      else if shell_safe c then sh_split Plain [c] cs
      else None)"

definition shell_words :: "string \<Rightarrow> string list option" where
  "shell_words line = sh_split Between [] line"

lemma not_safe [simp]:
  "\<not> shell_safe CHR 39" "\<not> shell_safe CHR 34" "\<not> shell_safe (CHR '' '')"
  by code_simp+

lemma shell_safe_ne: "shell_safe c \<Longrightarrow> c \<noteq> CHR 39 \<and> c \<noteq> CHR 34 \<and> c \<noteq> CHR '' ''"
  using not_safe by metis

lemma sh_split_safe:
  "list_all shell_safe s \<Longrightarrow> sh_split Plain acc (s @ t) = sh_split Plain (rev s @ acc) t"
  by (induction s arbitrary: acc) (auto dest: shell_safe_ne)

lemma sh_split_quoted:
  "sh_split Single acc (quote_body s @ CHR 39 # t) = sh_split Plain (rev s @ acc) t"
  by (induction s arbitrary: acc) (auto simp: quote_body_def replace_char_def)

lemma sh_split_quote:
  "sh_split Between [] (shlex_quote s @ t) = sh_split Plain (rev s) t"
proof (cases "s = [] \<or> \<not> list_all shell_safe s")
  case True
  then show ?thesis
    using sh_split_quoted [of "[]" s t] by (auto simp: shlex_quote_def)
next
  case False
  then obtain c cs where s: "s = c # cs" "shell_safe c" "list_all shell_safe cs"
    by (cases s) auto
  then show ?thesis
    by (auto simp: shlex_quote_def sh_split_safe dest: shell_safe_ne)
qed

lemma shell_words_join: "shell_words (shlex_join xs) = Some xs"
proof -
  have "sh_split Between [] (join '' '' (map shlex_quote xs)) = Some xs"
  proof (induction xs)
    case (Cons x xs)
    then show ?case
    proof (cases xs)
      case Nil
      then show ?thesis using sh_split_quote [of x "[]"] by simp
    next
      case (Cons y ys)
      with Cons.IH show ?thesis by (simp add: sh_split_quote)
    qed
  qed simp
  then show ?thesis by (simp add: shell_words_def shlex_join_def)
qed

lemma shell_words_quote_append:
  "shell_words (shlex_quote x @ '' '' @ rest) = map_option ((#) x) (shell_words rest)"
  by (simp add: shell_words_def sh_split_quote)

lemma shell_words_safe_append:
  assumes "w \<noteq> []" "list_all shell_safe w"
  shows "shell_words (w @ '' '' @ rest) = map_option ((#) w) (shell_words rest)"
  using shell_words_quote_append [of w rest] assms by (simp add: shlex_quote_def)

end
