(* ===== verification/Models.thy ===== *)
theory Models
  imports Py_Lib Complex_Main
begin

text \<open>
  The data model of \<open>models.py\<close>: the string enums as datatypes with their stored values, the
  Pydantic classes as records with the source's fields (a prefix per class keeps the selectors
  apart) and the defaults of the classes as constructor functions.  Gigabyte figures are
  rationals; the rounding of IEEE doubles is not modelled.  Free-form JSON is the datatype
  \<open>json\<close>; a session's \<open>meta\<close> object only ever holds scalars and is an association list.
\<close>

section \<open>Enums\<close>

datatype worker_status = ONLINE | OFFLINE | DRAINING

datatype job_status = PENDING | STARTING | RUNNING | DONE | FAILED

datatype job_kind = SSH | DELEGATED

datatype session_type = INTERACTIVE | GLOBAL_ROUTER

datatype session_state =
    QUEUED | S_STARTING | WORKING | BLOCKED | IDLE | STOPPED | S_FAILED | TERMINATION_UNKNOWN

fun worker_status_value :: "worker_status \<Rightarrow> string" where
  "worker_status_value ONLINE = ''online''"
| "worker_status_value OFFLINE = ''offline''"
| "worker_status_value DRAINING = ''draining''"

fun job_status_value :: "job_status \<Rightarrow> string" where
  "job_status_value PENDING = ''pending''"
| "job_status_value STARTING = ''starting''"
| "job_status_value RUNNING = ''running''"
| "job_status_value DONE = ''done''"
| "job_status_value FAILED = ''failed''"

fun session_state_value :: "session_state \<Rightarrow> string" where
  "session_state_value QUEUED = ''queued''"
| "session_state_value S_STARTING = ''starting''"
| "session_state_value WORKING = ''working''"
| "session_state_value BLOCKED = ''blocked''"
| "session_state_value IDLE = ''idle''"
| "session_state_value STOPPED = ''stopped''"
| "session_state_value S_FAILED = ''failed''"
| "session_state_value TERMINATION_UNKNOWN = ''termination_unknown''"

text \<open>\<open>JobStatus(value)\<close>, which raises ValueError on any other text.\<close>

definition job_status_of :: "string \<Rightarrow> job_status res" where
  "job_status_of s =
     (if s = ''pending'' then Inr PENDING
      else if s = ''starting'' then Inr STARTING
      else if s = ''running'' then Inr RUNNING
      else if s = ''done'' then Inr DONE
      else if s = ''failed'' then Inr FAILED
      else Inl (ValueErr s))"

lemma job_status_roundtrip: "job_status_of (job_status_value st) = Inr st"
  by (cases st) (simp_all add: job_status_of_def)

fun bridge_backed :: "session_type \<Rightarrow> bool" where
  "bridge_backed INTERACTIVE = True"
| "bridge_backed GLOBAL_ROUTER = True"

lemma bridge_backed_always [simp]: "bridge_backed t"
  by (cases t) simp_all

section \<open>JSON values\<close>

datatype json = JNull | JBool bool | JInt int | JStr string | JArr "json list" | JObj "(string \<times> json) list"

datatype scalar = SNull | SBool bool | SInt int | SStr string

type_synonym meta = "(string \<times> scalar) list"

text \<open>\<open>meta.get(key)\<close>, Python truthiness, and the idiom \<open>str(meta.get(key) or "")\<close>.\<close>

definition meta_get :: "meta \<Rightarrow> string \<Rightarrow> scalar option" where
  "meta_get m k = map_of m k"

fun truthy :: "scalar option \<Rightarrow> bool" where
  "truthy None = False"
| "truthy (Some SNull) = False"
| "truthy (Some (SBool b)) = b"
| "truthy (Some (SInt i)) = (i \<noteq> 0)"
| "truthy (Some (SStr s)) = (s \<noteq> '''')"

fun scalar_str :: "scalar \<Rightarrow> string" where
  "scalar_str SNull = ''None''"
| "scalar_str (SBool b) = (if b then ''True'' else ''False'')"
| "scalar_str (SInt i) = int_to_string i"
| "scalar_str (SStr s) = s"

definition meta_str :: "meta \<Rightarrow> string \<Rightarrow> string" where
  "meta_str m k = (case meta_get m k of
     Some v \<Rightarrow> if truthy (Some v) then scalar_str v else '''' | None \<Rightarrow> '''')"

text \<open>\<open>json_set(meta, '$.key', value)\<close>: replaces the value in place or appends the key.\<close>

fun meta_set :: "meta \<Rightarrow> string \<Rightarrow> scalar \<Rightarrow> meta" where
  "meta_set [] k v = [(k, v)]"
| "meta_set ((k', v') # m) k v = (if k' = k then (k, v) # m else (k', v') # meta_set m k v)"

text \<open>\<open>json_patch(meta, patch)\<close> for a patch of scalars: a null removes its key (RFC 7396).\<close>

definition meta_remove :: "meta \<Rightarrow> string \<Rightarrow> meta" where
  "meta_remove m k = filter (\<lambda>(k', _). k' \<noteq> k) m"

fun meta_patch :: "meta \<Rightarrow> meta \<Rightarrow> meta" where
  "meta_patch m [] = m"
| "meta_patch m ((k, v) # ps) =
     meta_patch (if v = SNull then meta_remove m k else meta_set m k v) ps"

text \<open>Python truthiness of a decoded value, \<open>a or b\<close>, \<open>d.get(key)\<close> with None for a missing key, and
  \<open>str(v)\<close>, where \<open>repr\<close> stands for the text of lists and dicts.\<close>

fun json_truthy :: "json \<Rightarrow> bool" where
  "json_truthy JNull = False"
| "json_truthy (JBool b) = b"
| "json_truthy (JInt i) = (i \<noteq> 0)"
| "json_truthy (JStr s) = (s \<noteq> '''')"
| "json_truthy (JArr xs) = (xs \<noteq> [])"
| "json_truthy (JObj kvs) = (kvs \<noteq> [])"

definition json_or :: "json \<Rightarrow> json \<Rightarrow> json" where
  "json_or a b = (if json_truthy a then a else b)"

definition json_get :: "(string \<times> json) list \<Rightarrow> string \<Rightarrow> json \<Rightarrow> json" where
  "json_get kvs key dflt = (case map_of kvs key of None \<Rightarrow> dflt | Some v \<Rightarrow> v)"

fun py_str :: "(json \<Rightarrow> string) \<Rightarrow> json \<Rightarrow> string" where
  "py_str repr (JStr s) = s"
| "py_str repr (JInt i) = int_to_string i"
| "py_str repr (JBool b) = (if b then ''True'' else ''False'')"
| "py_str repr JNull = ''None''"
| "py_str repr v = repr v"

lemma meta_get_set [simp]:
  "meta_get (meta_set m k v) k' = (if k' = k then Some v else meta_get m k')"
  by (induction m k v rule: meta_set.induct) (auto simp: meta_get_def)

section \<open>Workers\<close>

record gpu_info =
  g_index :: int
  g_name :: string
  g_total :: rat
  g_used :: rat
  g_busy :: "bool option"

record registration =
  r_worker_id :: string
  r_name :: string
  r_worker_ip :: string
  r_dns_name :: string
  r_ssh_user :: string
  r_harness_dir :: string
  r_gpu_count :: int
  r_gpus :: "gpu_info list"
  r_cpu_cores :: int
  r_total_ram :: rat
  r_used_ram :: rat
  r_total_disk :: rat
  r_used_disk :: rat
  r_data_paths :: "string list"

record worker =
  w_id :: string
  w_name :: string
  w_ip :: string
  w_dns :: string
  w_ssh_user :: string
  w_harness_dir :: string
  w_gpu_count :: int
  w_gpu_names :: "string list"
  w_gpu_vram :: "rat list"
  w_gpu_used :: "rat list"
  w_gpu_busy :: "bool option list"
  w_cpu_cores :: int
  w_total_ram :: rat
  w_used_ram :: rat
  w_total_disk :: rat
  w_used_disk :: rat
  w_data_paths :: "string list"
  w_status :: worker_status
  w_heartbeat :: int
  w_created :: int

definition ssh_host :: "worker \<Rightarrow> string" where
  "ssh_host w = (if w_dns w \<noteq> '''' then w_dns w else w_ip w)"

definition from_registration :: "int \<Rightarrow> registration \<Rightarrow> worker" where
  "from_registration now reg =
     \<lparr>w_id = r_worker_id reg, w_name = r_name reg, w_ip = r_worker_ip reg, w_dns = r_dns_name reg,
      w_ssh_user = r_ssh_user reg, w_harness_dir = r_harness_dir reg, w_gpu_count = r_gpu_count reg,
      w_gpu_names = map g_name (r_gpus reg), w_gpu_vram = map g_total (r_gpus reg),
      w_gpu_used = map g_used (r_gpus reg), w_gpu_busy = map g_busy (r_gpus reg),
      w_cpu_cores = r_cpu_cores reg, w_total_ram = r_total_ram reg, w_used_ram = r_used_ram reg,
      w_total_disk = r_total_disk reg, w_used_disk = r_used_disk reg,
      w_data_paths = r_data_paths reg, w_status = ONLINE, w_heartbeat = now, w_created = now\<rparr>"

definition update_from_registration :: "int \<Rightarrow> registration \<Rightarrow> worker \<Rightarrow> worker" where
  "update_from_registration now reg w =
     w\<lparr>w_name := r_name reg, w_ip := r_worker_ip reg, w_dns := r_dns_name reg,
       w_ssh_user := r_ssh_user reg, w_harness_dir := r_harness_dir reg,
       w_gpu_count := r_gpu_count reg,
       w_gpu_names := map g_name (r_gpus reg), w_gpu_vram := map g_total (r_gpus reg),
       w_gpu_used := map g_used (r_gpus reg), w_gpu_busy := map g_busy (r_gpus reg),
       w_cpu_cores := r_cpu_cores reg, w_total_ram := r_total_ram reg, w_used_ram := r_used_ram reg,
       w_total_disk := r_total_disk reg, w_used_disk := r_used_disk reg,
       w_data_paths := r_data_paths reg, w_status := ONLINE, w_heartbeat := now\<rparr>"

section \<open>Sessions, events and commands\<close>

record pi_session =
  s_id :: string
  s_worker_id :: "string option"
  s_parent :: "string option"
  s_type :: session_type
  s_state :: session_state
  s_task :: string
  s_cwd :: string
  s_tmux :: string
  s_detail :: string
  s_role :: string
  s_token_hash :: string
  s_question :: string
  s_meta :: meta
  s_name :: string
  s_host :: string
  s_agent :: string
  s_incarnation :: "string option"
  s_attachable :: bool
  s_term_host :: string
  s_term_port :: int
  s_term_version :: int
  s_has_pending :: bool
  s_last_seen :: int
  s_created :: int
  s_updated :: int

definition new_pi_session :: "string \<Rightarrow> pi_session" where
  "new_pi_session i =
     \<lparr>s_id = i, s_worker_id = None, s_parent = None, s_type = INTERACTIVE, s_state = QUEUED,
      s_task = '''', s_cwd = '''', s_tmux = '''', s_detail = '''', s_role = '''',
      s_token_hash = '''', s_question = '''', s_meta = [], s_name = '''', s_host = '''',
      s_agent = ''pi'', s_incarnation = None, s_attachable = False, s_term_host = '''',
      s_term_port = 0, s_term_version = 0, s_has_pending = False, s_last_seen = 0,
      s_created = 0, s_updated = 0\<rparr>"

record pi_event =
  e_id :: string
  e_session :: string
  e_type :: string
  e_payload :: "(string \<times> json) list"
  e_created :: int
  e_sequence :: int

record ingest_event =
  i_id :: "string option"
  i_type :: string
  i_payload :: "(string \<times> json) list"
  i_created :: int

record bridge_register =
  b_session_id :: string
  b_incarnation :: string
  b_cwd :: string
  b_resume_path :: string
  b_name :: string
  b_host :: string
  b_agent :: string
  b_attachable :: bool
  b_term_host :: string
  b_term_port :: int
  b_term_version :: int
  b_has_pending :: bool
  b_initial_events :: "ingest_event list"

record bridge_batch =
  bb_incarnation :: string
  bb_state :: "session_state option"
  bb_detail :: string
  bb_has_pending :: "bool option"
  bb_events :: "ingest_event list"

record pi_command =
  c_id :: string
  c_session :: string
  c_kind :: string
  c_message :: string
  c_deliver_as :: string
  c_payload :: "(string \<times> json) list"
  c_created :: int
  c_claimed_at :: int
  c_claimed_by :: string
  c_delivered_at :: int

definition new_pi_command :: "string \<Rightarrow> string \<Rightarrow> pi_command" where
  "new_pi_command i sid =
     \<lparr>c_id = i, c_session = sid, c_kind = ''prompt'', c_message = '''', c_deliver_as = ''followUp'',
      c_payload = [], c_created = 0, c_claimed_at = 0, c_claimed_by = '''', c_delivered_at = 0\<rparr>"

section \<open>Jobs, forwards, notebooks and failures\<close>

record job =
  j_id :: string
  j_worker :: "string option"
  j_name :: string
  j_tmux :: string
  j_command :: string
  j_status :: job_status
  j_queue_managed :: bool
  j_exit_code :: "int option"
  j_pty :: bool
  j_kind :: job_kind
  j_origin :: "string option"
  j_revision :: int
  j_expected :: int
  j_gpu_count :: int
  j_gpus :: "int list"
  j_order :: int
  j_started :: int
  j_finished :: int

definition new_job :: "string \<Rightarrow> job" where
  "new_job i =
     \<lparr>j_id = i, j_worker = None, j_name = '''', j_tmux = '''', j_command = '''', j_status = PENDING,
      j_queue_managed = False, j_exit_code = None, j_pty = True, j_kind = SSH, j_origin = None,
      j_revision = 0, j_expected = 0, j_gpu_count = 0, j_gpus = [], j_order = 0, j_started = 0,
      j_finished = 0\<rparr>"

record job_report =
  jr_id :: string
  jr_origin :: string
  jr_tmux :: string
  jr_command :: string
  jr_status :: job_status
  jr_exit_code :: "int option"
  jr_pty :: bool
  jr_started :: int
  jr_finished :: int
  jr_revision :: int

record port_forward =
  pf_id :: string
  pf_worker :: string
  pf_local :: int
  pf_remote :: int
  pf_service :: string
  pf_pid :: int
  pf_created :: int

record marimo_session =
  m_id :: string
  m_worker :: string
  m_notebook :: string
  m_environment :: string
  m_job :: string
  m_tunnel :: string
  m_local :: int
  m_remote :: int
  m_bind :: string
  m_url :: string
  m_status :: string
  m_created :: int

record failure =
  f_id :: int
  f_job :: string
  f_worker :: string
  f_exit :: int
  f_time :: int
  f_summary :: string

end
