(* ===== verification/Db.thy ===== *)
theory Db
  imports Models
begin

text \<open>
  The repository \<open>Database\<close> of \<open>db.py\<close>: its tables as lists of rows in rowid order and the
  methods on workers, port forwards, marimo sessions and failures (the job queue and the agent
  sessions have their own theories).  Each repository method is one atomic step: it runs its
  statements on the single SQLite connection, and the methods whose statements must not
  interleave hold an asyncio lock.  JSON columns hold their decoded value.
  ORDER BY on a non-unique column leaves ties to SQLite; here ties keep rowid order.
\<close>

section \<open>The tables\<close>

record database =
  t_workers :: "worker list"
  t_jobs :: "job list"
  t_forwards :: "port_forward list"
  t_marimo :: "marimo_session list"
  t_failures :: "failure list"
  t_failure_seq :: int
  t_sessions :: "pi_session list"
  t_events :: "pi_event list"
  t_commands :: "pi_command list"

definition empty_db :: database where
  "empty_db = \<lparr>t_workers = [], t_jobs = [], t_forwards = [], t_marimo = [], t_failures = [],
     t_failure_seq = 0, t_sessions = [], t_events = [], t_commands = []\<rparr>"

text \<open>SQL equality of a nullable column with a parameter: never true for NULL.\<close>

definition sql_eq :: "'a option \<Rightarrow> 'a option \<Rightarrow> bool" where
  "sql_eq a b = (case a of None \<Rightarrow> False | Some x \<Rightarrow> (case b of None \<Rightarrow> False | Some y \<Rightarrow> x = y))"

lemma sql_eq_simps [simp]:
  "sql_eq None b = False" "sql_eq a None = False" "sql_eq (Some x) (Some y) = (x = y)"
  by (simp_all add: sql_eq_def split: option.splits)

lemma sql_eq_Some [simp]: "sql_eq a (Some y) \<longleftrightarrow> a = Some y"
  by (cases a) simp_all

text \<open>COALESCE(MAX(column), 0)\<close>

definition coalesce_max :: "int list \<Rightarrow> int" where
  "coalesce_max xs = (case xs of [] \<Rightarrow> 0 | y # ys \<Rightarrow> fold max ys y)"

lemma fold_max_ge: "(y::int) \<le> fold max ys y \<and> (\<forall>x\<in>set ys. x \<le> fold max ys y)"
proof (induction ys arbitrary: y)
  case (Cons z zs)
  from Cons.IH [of "max z y"] show ?case by auto
qed simp

lemma coalesce_max_ge: "x \<in> set xs \<Longrightarrow> x \<le> coalesce_max xs"
  using fold_max_ge by (auto simp: coalesce_max_def split: list.splits)

lemma coalesce_max_in: "xs \<noteq> [] \<Longrightarrow> coalesce_max xs \<in> set xs"
proof -
  have "fold max ys y \<in> insert y (set ys)" for ys and y :: int
    by (induction ys arbitrary: y) (fastforce simp: max_def)+
  then show "xs \<noteq> [] \<Longrightarrow> coalesce_max xs \<in> set xs"
    by (auto simp: coalesce_max_def split: list.splits)
qed

text \<open>LIMIT n, where a negative bound means no limit.\<close>

definition sql_limit :: "int \<Rightarrow> 'a list \<Rightarrow> 'a list" where
  "sql_limit n xs = (if n < 0 then xs else take (nat n) xs)"

text \<open>The filter \<open>if worker_id: query += " WHERE worker_id = ?"\<close>: absent or empty means no filter.\<close>

definition opt_filter :: "string option \<Rightarrow> ('r \<Rightarrow> string option) \<Rightarrow> 'r list \<Rightarrow> 'r list" where
  "opt_filter v col rows =
     (case v of None \<Rightarrow> rows | Some s \<Rightarrow> if s = '''' then rows else filter (\<lambda>r. col r = Some s) rows)"

section \<open>Workers\<close>

definition get_worker :: "string \<Rightarrow> database \<Rightarrow> worker option" where
  "get_worker i d = tbl_get w_id i (t_workers d)"

definition list_workers :: "database \<Rightarrow> worker list" where
  "list_workers d = sort_key w_name (t_workers d)"

definition insert_worker :: "worker \<Rightarrow> database \<Rightarrow> database res" where
  "insert_worker w d = (case tbl_ins w_id w (t_workers d) of
     Inl e \<Rightarrow> Inl e | Inr ws \<Rightarrow> Inr (d\<lparr>t_workers := ws\<rparr>))"

text \<open>\<open>_update_worker\<close> writes every column but \<open>id\<close> and \<open>created_at\<close>.\<close>

definition update_worker :: "worker \<Rightarrow> database \<Rightarrow> database" where
  "update_worker w d =
     d\<lparr>t_workers := tbl_upd (\<lambda>r. w_id r = w_id w) (\<lambda>r. w\<lparr>w_id := w_id r, w_created := w_created r\<rparr>) (t_workers d)\<rparr>"

definition upsert_worker :: "int \<Rightarrow> registration \<Rightarrow> database \<Rightarrow> (worker \<times> database) res" where
  "upsert_worker now reg d =
     (case get_worker (r_worker_id reg) d of
        Some existing \<Rightarrow>
          let w = update_from_registration now reg existing
          in Inr (w, update_worker w d)
      | None \<Rightarrow>
          let w = from_registration now reg
          in (case insert_worker w d of Inl e \<Rightarrow> Inl e | Inr d' \<Rightarrow> Inr (w, d')))"

definition mark_workers_offline :: "int \<Rightarrow> database \<Rightarrow> nat \<times> database" where
  "mark_workers_offline cutoff d =
     (let p = (\<lambda>w. w_heartbeat w < cutoff \<and> w_status w \<noteq> OFFLINE)
      in (rowcount p (t_workers d),
          d\<lparr>t_workers := tbl_upd p (\<lambda>w. w\<lparr>w_status := OFFLINE\<rparr>) (t_workers d)\<rparr>))"

definition set_worker_status :: "string \<Rightarrow> worker_status \<Rightarrow> database \<Rightarrow> database" where
  "set_worker_status i st d =
     d\<lparr>t_workers := tbl_upd (\<lambda>w. w_id w = i) (\<lambda>w. w\<lparr>w_status := st\<rparr>) (t_workers d)\<rparr>"

text \<open>\<open>delete_worker\<close>: the worker's jobs, forwards and notebooks go first; the result says
  whether a worker row was deleted.\<close>

definition delete_worker :: "string \<Rightarrow> database \<Rightarrow> bool \<times> database" where
  "delete_worker i d =
     (rowcount (\<lambda>w. w_id w = i) (t_workers d) > 0,
      d\<lparr>t_jobs := tbl_del (\<lambda>j. j_worker j = Some i) (t_jobs d),
        t_forwards := tbl_del (\<lambda>p. pf_worker p = i) (t_forwards d),
        t_marimo := tbl_del (\<lambda>m. m_worker m = i) (t_marimo d),
        t_workers := tbl_del (\<lambda>w. w_id w = i) (t_workers d)\<rparr>)"

definition prune_workers :: "int \<Rightarrow> database \<Rightarrow> nat \<times> database" where
  "prune_workers ts d =
     (rowcount (\<lambda>w. w_heartbeat w < ts) (t_workers d),
      d\<lparr>t_workers := tbl_del (\<lambda>w. w_heartbeat w < ts) (t_workers d)\<rparr>)"

text \<open>\<open>prune_stale_workers_once\<close> of \<open>orchestrator.py\<close>, run every 30 seconds by \<open>serve\<close>.\<close>

definition prune_stale_workers_once :: "int \<Rightarrow> int \<Rightarrow> database \<Rightarrow> nat \<times> database" where
  "prune_stale_workers_once cutoff_seconds now d = prune_workers (now - cutoff_seconds) d"

section \<open>Port forwards\<close>

definition insert_port_forward :: "port_forward \<Rightarrow> database \<Rightarrow> database res" where
  "insert_port_forward pf d = (case tbl_ins pf_id pf (t_forwards d) of
     Inl e \<Rightarrow> Inl e | Inr xs \<Rightarrow> Inr (d\<lparr>t_forwards := xs\<rparr>))"

definition update_port_forward_pid :: "string \<Rightarrow> int \<Rightarrow> database \<Rightarrow> database" where
  "update_port_forward_pid i pid d =
     d\<lparr>t_forwards := tbl_upd (\<lambda>p. pf_id p = i) (\<lambda>p. p\<lparr>pf_pid := pid\<rparr>) (t_forwards d)\<rparr>"

definition list_port_forwards :: "string option \<Rightarrow> database \<Rightarrow> port_forward list" where
  "list_port_forwards wid d = opt_filter wid (\<lambda>p. Some (pf_worker p)) (t_forwards d)"

definition delete_port_forward :: "string \<Rightarrow> database \<Rightarrow> database" where
  "delete_port_forward i d = d\<lparr>t_forwards := tbl_del (\<lambda>p. pf_id p = i) (t_forwards d)\<rparr>"

section \<open>Marimo sessions\<close>

definition insert_marimo_session :: "marimo_session \<Rightarrow> database \<Rightarrow> database res" where
  "insert_marimo_session m d = (case tbl_ins m_id m (t_marimo d) of
     Inl e \<Rightarrow> Inl e | Inr xs \<Rightarrow> Inr (d\<lparr>t_marimo := xs\<rparr>))"

definition get_marimo_session :: "string \<Rightarrow> database \<Rightarrow> marimo_session option" where
  "get_marimo_session i d = tbl_get m_id i (t_marimo d)"

definition list_marimo_sessions :: "string option \<Rightarrow> database \<Rightarrow> marimo_session list" where
  "list_marimo_sessions wid d =
     sort_key (\<lambda>m. - m_created m) (opt_filter wid (\<lambda>m. Some (m_worker m)) (t_marimo d))"

definition delete_marimo_session :: "string \<Rightarrow> database \<Rightarrow> database" where
  "delete_marimo_session i d = d\<lparr>t_marimo := tbl_del (\<lambda>m. m_id m = i) (t_marimo d)\<rparr>"

section \<open>Failures\<close>

text \<open>The id column is AUTOINCREMENT: one more than the largest id ever used.\<close>

definition insert_failure :: "failure \<Rightarrow> database \<Rightarrow> database" where
  "insert_failure f d =
     (let i = t_failure_seq d + 1
      in d\<lparr>t_failures := t_failures d @ [f\<lparr>f_id := i\<rparr>], t_failure_seq := i\<rparr>)"

definition list_failures :: "int \<Rightarrow> database \<Rightarrow> failure list" where
  "list_failures limit d = sql_limit limit (sort_key (\<lambda>f. - f_time f) (t_failures d))"

section \<open>The tables implement the table interface\<close>

interpretation wt: row_store w_id "tbl_get w_id" "tbl_ins w_id" tbl_upd
  by (rule tbl_row_store)

interpretation jt: row_store j_id "tbl_get j_id" "tbl_ins j_id" tbl_upd
  by (rule tbl_row_store)

interpretation st: row_store s_id "tbl_get s_id" "tbl_ins s_id" tbl_upd
  by (rule tbl_row_store)

interpretation et: row_store e_id "tbl_get e_id" "tbl_ins e_id" tbl_upd
  by (rule tbl_row_store)

interpretation ct: row_store c_id "tbl_get c_id" "tbl_ins c_id" tbl_upd
  by (rule tbl_row_store)

interpretation pt: row_store pf_id "tbl_get pf_id" "tbl_ins pf_id" tbl_upd
  by (rule tbl_row_store)

interpretation mt: row_store m_id "tbl_get m_id" "tbl_ins m_id" tbl_upd
  by (rule tbl_row_store)

section \<open>Worker registration\<close>

lemma get_worker_update:
  "get_worker i (update_worker w d) =
     (case get_worker i d of None \<Rightarrow> None
      | Some r \<Rightarrow> Some (if i = w_id w then w\<lparr>w_created := w_created r\<rparr> else r))"
  unfolding get_worker_def update_worker_def
  by (auto simp: tbl_get_upd split: option.split dest: tbl_get_key)

lemma upsert_worker_new_Some:
  assumes "get_worker (r_worker_id reg) d = None"
  shows "\<exists>d'. upsert_worker now reg d = Inr (from_registration now reg, d')"
proof -
  from assms wt.ins_succeeds [of "from_registration now reg" "t_workers d"]
  obtain ws where "tbl_ins w_id (from_registration now reg) (t_workers d) = Inr ws"
    by (auto simp: get_worker_def from_registration_def)
  with assms show ?thesis
    by (auto simp: upsert_worker_def insert_worker_def Let_def)
qed

lemma upsert_worker_total: "\<exists>w d'. upsert_worker now reg d = Inr (w, d')"
proof (cases "get_worker (r_worker_id reg) d")
  case None
  then show ?thesis using upsert_worker_new_Some by blast
qed (auto simp: upsert_worker_def Let_def)

lemma update_worker_jobs [simp]: "t_jobs (update_worker w d) = t_jobs d"
  by (simp add: update_worker_def)

lemma upsert_worker_known:
  fixes now :: int
  assumes "get_worker (r_worker_id reg) d = Some old"
  defines "w \<equiv> update_from_registration now reg old"
  shows "upsert_worker now reg d = Inr (w, update_worker w d)"
    and "get_worker i (update_worker w d) = (if i = r_worker_id reg then Some w else get_worker i d)"
proof -
  from assms(1) have "w_id old = r_worker_id reg"
    by (auto simp: get_worker_def dest: tbl_get_key)
  with assms show "upsert_worker now reg d = Inr (w, update_worker w d)"
    and "get_worker i (update_worker w d) = (if i = r_worker_id reg then Some w else get_worker i d)"
    by (auto simp: upsert_worker_def Let_def get_worker_update update_from_registration_def
        split: option.split)
qed

lemma upsert_worker_spec:
  fixes now :: int
  obtains w d' where "upsert_worker now reg d = Inr (w, d')"
    and "\<And>i. get_worker i d' = (if i = r_worker_id reg then Some w else get_worker i d)"
    and "w_status w = ONLINE" "w_heartbeat w = now" "w_gpu_count w = r_gpu_count reg"
    and "w_gpu_busy w = map g_busy (r_gpus reg)"
    and "w_created w = (case get_worker (r_worker_id reg) d of None \<Rightarrow> now | Some old \<Rightarrow> w_created old)"
    and "t_jobs d' = t_jobs d"
proof (cases "get_worker (r_worker_id reg) d")
  case None
  with upsert_worker_new_Some obtain d' where
    u: "upsert_worker now reg d = Inr (from_registration now reg, d')" by blast
  with None obtain ws where ws: "tbl_ins w_id (from_registration now reg) (t_workers d) = Inr ws"
      "d' = d\<lparr>t_workers := ws\<rparr>"
    by (auto simp: upsert_worker_def insert_worker_def Let_def split: sum.splits)
  show ?thesis
    by (rule that [OF u]) (use wt.get_ins [OF ws(1)] None ws(2) in
        \<open>simp_all add: get_worker_def from_registration_def\<close>)
next
  case (Some old)
  show ?thesis
    by (rule that [OF upsert_worker_known(1) [OF Some]])
      (use Some upsert_worker_known(2) [OF Some] in \<open>simp_all add: update_from_registration_def\<close>)
qed

definition demo_worker :: registration where
  "demo_worker =
     \<lparr>r_worker_id = ''w'', r_name = ''gpu-box'', r_worker_ip = ''10.0.0.2'', r_dns_name = '''',
      r_ssh_user = ''root'', r_harness_dir = ''/h'', r_gpu_count = 2, r_gpus = [], r_cpu_cores = 8,
      r_total_ram = 64, r_used_ram = 1, r_total_disk = 100, r_used_disk = 5, r_data_paths = []\<rparr>"

text \<open>
  Registration is idempotent in the identity of a worker: whatever the table held before,
  registering (or heartbeating) succeeds, the worker read back is exactly the one the call
  returned, it is online with the reported capacity and the current heartbeat time, it keeps
  its original creation time if it was already known, and every other worker is untouched.
\<close>

theorem upsert_worker_correct:
  "case upsert_worker now reg d of
     Inl _ \<Rightarrow> False
   | Inr (w, d') \<Rightarrow>
       (\<forall>i. get_worker i d' = (if i = r_worker_id reg then Some w else get_worker i d)) \<and>
       w_status w = ONLINE \<and> w_heartbeat w = now \<and> w_gpu_count w = r_gpu_count reg \<and>
       w_gpu_busy w = map g_busy (r_gpus reg) \<and>
       w_created w = (case get_worker (r_worker_id reg) d of None \<Rightarrow> now | Some old \<Rightarrow> w_created old) \<and>
       t_jobs d' = t_jobs d"
  by (rule upsert_worker_spec [of now reg d]) simp

text \<open>Pruning deletes exactly the workers whose last heartbeat is older than the cutoff.\<close>

lemma prune_workers_rows:
  "set (t_workers (snd (prune_workers ts d))) = {w \<in> set (t_workers d). ts \<le> w_heartbeat w}"
  by (auto simp: prune_workers_def tbl_del_def)

lemma prune_workers_count:
  "fst (prune_workers ts d) + length (t_workers (snd (prune_workers ts d))) = length (t_workers d)"
  using sum_length_filter_compl [of "\<lambda>w. w_heartbeat w < ts" "t_workers d"]
  by (simp add: prune_workers_def rowcount_def tbl_del_def)

text \<open>
  A worker that heartbeats is never pruned in the same instant: after a registration at
  time \<open>now\<close>, the periodic pruner with any non-negative cutoff, run up to \<open>cutoff\<close> seconds
  later, leaves the worker in the table; and once more than \<open>cutoff\<close> seconds have passed
  without a heartbeat it removes it.
\<close>

theorem prune_after_heartbeat:
  assumes "upsert_worker now reg d = Inr (w, d')" and "pk_ok w_id (t_workers d')"
  shows "get_worker (r_worker_id reg) (snd (prune_stale_workers_once cutoff t d')) =
    (if t \<le> now + cutoff then Some w else None)"
proof -
  have g: "get_worker (r_worker_id reg) d' = Some w" "w_heartbeat w = now"
    using assms(1) by (auto intro: upsert_worker_spec [of now reg d])
  have wid: "w_id w = r_worker_id reg"
    using g(1) by (auto simp: get_worker_def dest: tbl_get_key)
  have uniq: "r = w" if "r \<in> set (t_workers d')" "w_id r = w_id w" for r
    using pk_ok_get [OF assms(2) that(1)] that(2) g(1) wid by (simp add: get_worker_def)
  show ?thesis
  proof (cases "t \<le> now + cutoff")
    case True
    have "tbl_get w_id (w_id w) (tbl_del (\<lambda>r. w_heartbeat r < t - cutoff) (t_workers d')) = Some w"
      using assms(2) g True wid
      by (intro pk_ok_get pk_ok_del) (auto simp: tbl_del_def get_worker_def dest: tbl_get_in)
    with True wid show ?thesis
      by (simp add: prune_stale_workers_once_def prune_workers_def get_worker_def)
  next
    case False
    then have "w_id w \<notin> w_id ` {r \<in> set (t_workers d'). \<not> w_heartbeat r < t - cutoff}"
      using uniq g(2) by fastforce
    with False wid show ?thesis
      by (simp add: prune_stale_workers_once_def prune_workers_def get_worker_def
          tbl_get_None_iff tbl_del_def)
  qed
qed

definition demo_registered :: "worker \<times> database" where
  "demo_registered = projr (upsert_worker 10 demo_worker empty_db)"

theorem prune_after_heartbeat_witness:
  "get_worker ''w'' (snd (prune_stale_workers_once 60 70 (snd demo_registered))) = Some (fst demo_registered) \<and>
   get_worker ''w'' (snd (prune_stale_workers_once 60 71 (snd demo_registered))) = None"
proof -
  have u: "upsert_worker 10 demo_worker empty_db = Inr (fst demo_registered, snd demo_registered)"
    by code_simp
  have pk: "pk_ok w_id (t_workers (snd demo_registered))" by code_simp
  have i: "r_worker_id demo_worker = ''w''" by (simp add: demo_worker_def)
  show ?thesis
    using prune_after_heartbeat [OF u pk, of 60 70] prune_after_heartbeat [OF u pk, of 60 71]
    by (simp add: i)
qed

end
