(* ===== verification/Db_Sessions.thy ===== *)
theory Db_Sessions
  imports Db
begin

text \<open>
  The agent sessions of \<open>db.py\<close>: session rows, the durable event log with per-session sequence
  numbers, the bridge registration that fences older incarnations, event batches, and the
  command mailbox with its claim lease.  The bridge operations hold \<open>_pi_bridge_lock\<close>, so each
  is one step.  Identifiers the code draws with uuid4 are parameters (\<open>uuid n\<close> is the one drawn
  for the \<open>n\<close>-th item of a batch), and so is the clock.
\<close>

section \<open>Session rows\<close>

definition insert_pi_session :: "pi_session \<Rightarrow> database \<Rightarrow> database res" where
  "insert_pi_session s d = (case tbl_ins s_id s (t_sessions d) of
     Inl e \<Rightarrow> Inl e | Inr ss \<Rightarrow> Inr (d\<lparr>t_sessions := ss\<rparr>))"

text \<open>\<open>update_pi_session\<close> writes every column but \<open>id\<close> and \<open>created_at\<close>.\<close>

definition update_pi_session :: "pi_session \<Rightarrow> database \<Rightarrow> database" where
  "update_pi_session s d =
     d\<lparr>t_sessions := tbl_upd (\<lambda>r. s_id r = s_id s)
        (\<lambda>r. s\<lparr>s_id := s_id r, s_created := s_created r\<rparr>) (t_sessions d)\<rparr>"

definition get_pi_session :: "string \<Rightarrow> database \<Rightarrow> pi_session option" where
  "get_pi_session i d = tbl_get s_id i (t_sessions d)"

definition get_pi_session_by_token_hash :: "string \<Rightarrow> database \<Rightarrow> pi_session option" where
  "get_pi_session_by_token_hash h d = find (\<lambda>s. s_token_hash s = h) (t_sessions d)"

definition list_pi_sessions_by_role :: "string \<Rightarrow> database \<Rightarrow> pi_session list" where
  "list_pi_sessions_by_role role d =
     sort_key (\<lambda>s. - s_updated s) (filter (\<lambda>s. s_role s = role) (t_sessions d))"

definition list_pi_sessions :: "string option \<Rightarrow> database \<Rightarrow> pi_session list" where
  "list_pi_sessions wid d = sort_key (\<lambda>s. - s_updated s) (opt_filter wid s_worker_id (t_sessions d))"

definition update_pi_session_meta :: "string \<Rightarrow> meta \<Rightarrow> database \<Rightarrow> database" where
  "update_pi_session_meta i m d =
     d\<lparr>t_sessions := tbl_upd (\<lambda>s. s_id s = i) (\<lambda>s. s\<lparr>s_meta := meta_patch (s_meta s) m\<rparr>) (t_sessions d)\<rparr>"

text \<open>
  The value of \<open>json_extract(meta, '$.key')\<close>: NULL for a missing key or a JSON null, 0 or 1 for a
  boolean.  As a number, a text counts with its leading integer.
\<close>

fun sql_scalar :: "scalar option \<Rightarrow> scalar option" where
  "sql_scalar None = None"
| "sql_scalar (Some SNull) = None"
| "sql_scalar (Some (SBool b)) = Some (SInt (if b then 1 else 0))"
| "sql_scalar (Some v) = Some v"

definition text_int :: "string \<Rightarrow> int" where
  "text_int s =
     (let t = lstrip s;
          neg = startswith ''-'' t;
          u = (if startswith ''-'' t \<or> startswith ''+'' t then tl t else t);
          n = fold (\<lambda>c a. a * 10 + (of_char c - 48)) (takeWhile is_digit u) (0 :: int)
      in if neg then - n else n)"

fun sql_number :: "scalar option \<Rightarrow> int" where
  "sql_number (Some (SInt n)) = n"
| "sql_number (Some (SBool b)) = (if b then 1 else 0)"
| "sql_number (Some (SStr s)) = text_int s"
| "sql_number _ = 0"

definition next_pi_session_pane_sequence :: "string \<Rightarrow> database \<Rightarrow> (int \<times> database) res" where
  "next_pi_session_pane_sequence i d =
     (case get_pi_session i d of
        None \<Rightarrow> Inl (KeyErr i)
      | Some s \<Rightarrow>
        let n = sql_number (meta_get (s_meta s) ''pane_sequence'') + 1
        in Inr (n, d\<lparr>t_sessions := tbl_upd (\<lambda>r. s_id r = i)
             (\<lambda>r. r\<lparr>s_meta := meta_set (s_meta r) ''pane_sequence''
                (SInt (sql_number (meta_get (s_meta r) ''pane_sequence'') + 1))\<rparr>) (t_sessions d)\<rparr>))"

definition reparent_pi_session_children :: "string \<Rightarrow> string \<Rightarrow> database \<Rightarrow> database" where
  "reparent_pi_session_children old_id new_id d =
     (let project = (case get_pi_session new_id d of None \<Rightarrow> None
                     | Some s \<Rightarrow> sql_scalar (meta_get (s_meta s) ''project''))
      in d\<lparr>t_sessions := tbl_upd
            (\<lambda>s. s_parent s = Some old_id \<and> s_role s = ''task'' \<and>
                 sql_eq (sql_scalar (meta_get (s_meta s) ''project'')) project)
            (\<lambda>s. s\<lparr>s_parent := Some new_id\<rparr>) (t_sessions d)\<rparr>)"

definition finish_pi_session :: "int \<Rightarrow> string \<Rightarrow> session_state \<Rightarrow> string \<Rightarrow> database \<Rightarrow> database" where
  "finish_pi_session now i st detail d =
     d\<lparr>t_sessions := tbl_upd (\<lambda>s. s_id s = i)
        (\<lambda>s. s\<lparr>s_state := st, s_detail := detail, s_updated := now, s_question := '''',
               s_token_hash := '''', s_incarnation := None, s_attachable := False\<rparr>) (t_sessions d)\<rparr>"

section \<open>The event log\<close>

text \<open>
  An INSERT into \<open>pi_session_events\<close> leaves \<open>sequence\<close> at its default 0, whereupon the trigger
  \<open>assign_pi_session_event_sequence\<close> gives the row the next number of its session.  OR IGNORE
  drops a row whose id is taken; the Boolean is \<open>cursor.rowcount\<close>.
\<close>

definition next_sequence :: "string \<Rightarrow> pi_event list \<Rightarrow> int" where
  "next_sequence sid evs = coalesce_max (map e_sequence (filter (\<lambda>x. e_session x = sid) evs)) + 1"

definition insert_event_or_ignore :: "pi_event \<Rightarrow> pi_event list \<Rightarrow> bool \<times> pi_event list" where
  "insert_event_or_ignore e evs =
     (if e_id e \<in> e_id ` set evs then (False, evs)
      else (True, evs @ [e\<lparr>e_sequence := next_sequence (e_session e) evs\<rparr>]))"

definition insert_event :: "pi_event \<Rightarrow> pi_event list \<Rightarrow> pi_event list res" where
  "insert_event e evs =
     (if e_id e \<in> e_id ` set evs then Inl (IntegrityErr (e_id e))
      else Inr (evs @ [e\<lparr>e_sequence := next_sequence (e_session e) evs\<rparr>]))"

definition insert_pi_session_event :: "pi_event \<Rightarrow> database \<Rightarrow> database" where
  "insert_pi_session_event e d = d\<lparr>t_events := snd (insert_event_or_ignore e (t_events d))\<rparr>"

text \<open>\<open>PiSessionEvent(...)\<close>: the sequence number defaults to 0.\<close>

definition new_event :: "string \<Rightarrow> string \<Rightarrow> string \<Rightarrow> (string \<times> json) list \<Rightarrow> int \<Rightarrow> pi_event" where
  "new_event i sid typ payload now =
     \<lparr>e_id = i, e_session = sid, e_type = typ, e_payload = payload, e_created = now, e_sequence = 0\<rparr>"

text \<open>The statement of \<open>_init_schema\<close> that numbers the rows of databases older than the
  \<open>sequence\<close> column: the count of the session's rows up to and including this one.\<close>

fun backfill_sequences :: "pi_event list \<Rightarrow> pi_event list \<Rightarrow> pi_event list" where
  "backfill_sequences prior [] = []"
| "backfill_sequences prior (e # es) =
     (if e_sequence e = 0
      then e\<lparr>e_sequence := int (rowcount (\<lambda>x. e_session x = e_session e) prior) + 1\<rparr> else e)
     # backfill_sequences (prior @ [e]) es"

definition list_pi_session_events :: "string \<Rightarrow> int \<Rightarrow> int \<Rightarrow> database \<Rightarrow> pi_event list" where
  "list_pi_session_events sid after limit d =
     sql_limit (max 1 (min limit 1000))
       (sort_key e_sequence (filter (\<lambda>e. e_session e = sid \<and> e_sequence e > max 0 after) (t_events d)))"

definition list_recent_pi_session_events :: "string \<Rightarrow> int \<Rightarrow> database \<Rightarrow> pi_event list" where
  "list_recent_pi_session_events sid limit d =
     sort_key e_sequence
       (sql_limit (max 1 (min limit 1000))
         (sort_key (\<lambda>e. - e_sequence e) (filter (\<lambda>e. e_session e = sid) (t_events d))))"

text \<open>\<open>json_extract(payload, '$.message.role')\<close>\<close>

definition message_role :: "(string \<times> json) list \<Rightarrow> string option" where
  "message_role p = (case map_of p ''message'' of
     Some (JObj m) \<Rightarrow> (case map_of m ''role'' of Some (JStr r) \<Rightarrow> Some r | _ \<Rightarrow> None)
   | _ \<Rightarrow> None)"

definition get_latest_pi_message_event :: "string \<Rightarrow> string \<Rightarrow> database \<Rightarrow> pi_event option" where
  "get_latest_pi_message_event sid role d =
     (case sort_key (\<lambda>e. - e_sequence e) (filter (\<lambda>e. e_session e = sid \<and> e_type e = ''message-end'' \<and>
              sql_eq (message_role (e_payload e)) (Some role)) (t_events d)) of
        [] \<Rightarrow> None | e # _ \<Rightarrow> Some e)"

definition set_pi_session_blocked :: "int \<Rightarrow> string \<Rightarrow> string \<Rightarrow> string \<Rightarrow> database \<Rightarrow> database res" where
  "set_pi_session_blocked now uuid i question d =
     (let active = (\<lambda>s. s_id s = i \<and> s_state s \<notin> {STOPPED, S_FAILED, TERMINATION_UNKNOWN})
      in if rowcount active (t_sessions d) = 0 then Inl (ValueErr ''task session is no longer active'')
         else (case insert_event (new_event uuid i ''blocked'' [(''question'', JStr question)] now) (t_events d) of
            Inl e \<Rightarrow> Inl e
          | Inr evs \<Rightarrow> Inr (d\<lparr>t_sessions := tbl_upd active
              (\<lambda>s. s\<lparr>s_state := BLOCKED, s_question := question, s_updated := now\<rparr>) (t_sessions d),
              t_events := evs\<rparr>)))"

section \<open>Bridge registration\<close>

text \<open>The row of a new bridge, and the DO UPDATE clause for a known one.\<close>

definition bridge_row :: "int \<Rightarrow> bridge_register \<Rightarrow> pi_session" where
  "bridge_row now b = (new_pi_session (b_session_id b))\<lparr>
     s_state := IDLE, s_cwd := b_cwd b, s_name := b_name b, s_host := b_host b, s_agent := b_agent b,
     s_incarnation := Some (b_incarnation b), s_attachable := b_attachable b,
     s_term_host := b_term_host b, s_term_port := b_term_port b, s_term_version := b_term_version b,
     s_has_pending := b_has_pending b, s_last_seen := now, s_created := now, s_updated := now\<rparr>"

definition bridge_update :: "int \<Rightarrow> bridge_register \<Rightarrow> pi_session \<Rightarrow> pi_session" where
  "bridge_update now b s = s\<lparr>
     s_state := (if s_state s = BLOCKED then s_state s else IDLE),
     s_cwd := (if s_role s \<noteq> '''' \<and> s_cwd s \<noteq> '''' then s_cwd s else b_cwd b),
     s_detail := '''',
     s_name := (if b_name b = '''' \<or> s_role s \<noteq> '''' then s_name s else b_name b),
     s_host := (if b_host b = '''' \<or> s_role s \<noteq> '''' then s_host s else b_host b),
     s_agent := b_agent b,
     s_incarnation := Some (b_incarnation b), s_attachable := b_attachable b,
     s_term_host := b_term_host b, s_term_port := b_term_port b, s_term_version := b_term_version b,
     s_has_pending := b_has_pending b, s_last_seen := now, s_updated := now\<rparr>"

definition release_foreign_claims :: "string \<Rightarrow> string \<Rightarrow> pi_command list \<Rightarrow> pi_command list" where
  "release_foreign_claims sid inc =
     tbl_upd (\<lambda>c. c_session c = sid \<and> c_delivered_at c = 0 \<and> c_claimed_by c \<noteq> inc)
       (\<lambda>c. c\<lparr>c_claimed_at := 0, c_claimed_by := ''''\<rparr>)"

definition or_uuid :: "string option \<Rightarrow> string \<Rightarrow> string" where
  "or_uuid i u = (case i of None \<Rightarrow> u | Some s \<Rightarrow> if s = '''' then u else s)"

definition or_now :: "int \<Rightarrow> int \<Rightarrow> int" where
  "or_now t now = (if t = 0 then now else t)"

definition message_id :: "(string \<times> json) list \<Rightarrow> string option" where
  "message_id p = (case map_of p ''message_id'' of Some (JStr m) \<Rightarrow> Some m | _ \<Rightarrow> None)"

definition register_event :: "string \<Rightarrow> int \<Rightarrow> string \<Rightarrow> ingest_event \<Rightarrow> pi_event list \<Rightarrow> pi_event list" where
  "register_event uuid now sid ev evs =
     (if i_type ev \<notin> {''message-start'', ''message-end''} then evs
      else (case message_id (i_payload ev) of
         None \<Rightarrow> evs
       | Some m \<Rightarrow>
         if m = '''' then evs
         else if \<exists>x \<in> set evs. e_session x = sid \<and> e_type x = i_type ev \<and> message_id (e_payload x) = Some m
         then evs
         else snd (insert_event_or_ignore
           (new_event (or_uuid (i_id ev) uuid) sid (i_type ev) (i_payload ev) (or_now (i_created ev) now)) evs)))"

fun register_events ::
  "(nat \<Rightarrow> string) \<Rightarrow> int \<Rightarrow> string \<Rightarrow> nat \<Rightarrow> ingest_event list \<Rightarrow> pi_event list \<Rightarrow> pi_event list" where
  "register_events uuid now sid n [] evs = evs"
| "register_events uuid now sid n (ev # es) evs =
     register_events uuid now sid (Suc n) es (register_event (uuid n) now sid ev evs)"

definition register_interactive_pi_session ::
  "(nat \<Rightarrow> string) \<Rightarrow> int \<Rightarrow> bridge_register \<Rightarrow> database \<Rightarrow> (pi_session \<times> database) res" where
  "register_interactive_pi_session uuid now b d =
     (let sid = b_session_id b; existing = get_pi_session sid d
      in if (case existing of None \<Rightarrow> False | Some s \<Rightarrow> \<not> bridge_backed (s_type s))
         then Inl (ValueErr ''session id does not belong to a bridge-backed session'')
         else
           let ss = (case existing of
                  None \<Rightarrow> t_sessions d @ [bridge_row now b]
                | Some _ \<Rightarrow> tbl_upd (\<lambda>s. s_id s = sid) (bridge_update now b) (t_sessions d));
               ss' = (if b_resume_path b = '''' then ss
                  else tbl_upd (\<lambda>s. s_id s = sid)
                    (\<lambda>s. s\<lparr>s_meta := meta_set (s_meta s) ''resume_path'' (SStr (b_resume_path b))\<rparr>) ss);
               d' = d\<lparr>t_sessions := ss',
                  t_commands := release_foreign_claims sid (b_incarnation b) (t_commands d),
                  t_events := register_events uuid now sid 0 (b_initial_events b) (t_events d)\<rparr>
           in (case get_pi_session sid d' of
                 None \<Rightarrow> Inl (RuntimeErr ''assertion failed'')
               | Some s \<Rightarrow> Inr (s, d')))"

section \<open>Event batches\<close>

definition terminal_state :: "session_state \<Rightarrow> bool" where
  "terminal_state st = (st \<in> {STOPPED, S_FAILED, TERMINATION_UNKNOWN})"

text \<open>The guard shared by the bridge calls: the session exists and the caller is its current
  incarnation.\<close>

definition bridge_session :: "string \<Rightarrow> string \<Rightarrow> database \<Rightarrow> pi_session res" where
  "bridge_session sid inc d =
     (case get_pi_session sid d of
        None \<Rightarrow> Inl (KeyErr sid)
      | Some s \<Rightarrow>
        if \<not> bridge_backed (s_type s) then Inl (KeyErr sid)
        else if s_incarnation s \<noteq> Some inc then Inl (PermissionErr ''stale bridge incarnation'')
        else Inr s)"

fun persist_events ::
  "(nat \<Rightarrow> string) \<Rightarrow> int \<Rightarrow> string \<Rightarrow> nat \<Rightarrow> ingest_event list \<Rightarrow> pi_event list \<Rightarrow> pi_event list \<times> pi_event list"
where
  "persist_events uuid now sid n [] evs = ([], evs)"
| "persist_events uuid now sid n (ev # es) evs =
     (let e = new_event (or_uuid (i_id ev) (uuid n)) sid (i_type ev) (i_payload ev) (or_now (i_created ev) now);
          (new, evs') = insert_event_or_ignore e evs;
          (rest, evs'') = persist_events uuid now sid (Suc n) es evs'
      in (if new then e # rest else rest, evs''))"

text \<open>
  The new row: a blocked session only leaves its state for a terminal one; pending messages are
  those the bridge reports or the mailbox still holds; \<open>updated_at\<close> moves only when something
  visible changed.
\<close>

definition batch_state :: "bridge_batch \<Rightarrow> session_state \<Rightarrow> session_state" where
  "batch_state b old =
     (case bb_state b of
        None \<Rightarrow> old
      | Some new \<Rightarrow> if old \<noteq> BLOCKED \<or> terminal_state new then new else old)"

definition batch_update :: "int \<Rightarrow> bridge_batch \<Rightarrow> pi_event list \<Rightarrow> pi_session \<Rightarrow> bool \<Rightarrow> pi_session \<Rightarrow> pi_session" where
  "batch_update now b persisted s undelivered r =
     (let st = batch_state b (s_state s);
          pending = (case bb_has_pending b of None \<Rightarrow> s_has_pending s | Some p \<Rightarrow> p \<or> undelivered)
      in r\<lparr>s_state := st, s_detail := bb_detail b,
           s_question := (if terminal_state st then '''' else s_question s),
           s_has_pending := pending, s_last_seen := now,
           s_updated := (if persisted \<noteq> [] \<or>
                            (s_state s, s_detail s, s_has_pending s) \<noteq> (st, bb_detail b, pending)
                         then now else s_updated s)\<rparr>)"

definition apply_interactive_pi_events ::
  "(nat \<Rightarrow> string) \<Rightarrow> int \<Rightarrow> string \<Rightarrow> bridge_batch \<Rightarrow> database \<Rightarrow> (pi_session \<times> pi_event list \<times> database) res"
where
  "apply_interactive_pi_events uuid now sid b d =
     (case bridge_session sid (bb_incarnation b) d of
        Inl e \<Rightarrow> Inl e
      | Inr s \<Rightarrow>
        (case persist_events uuid now sid 0 (bb_events b) (t_events d) of
           (persisted, evs) \<Rightarrow>
             let f = batch_update now b persisted s
                       (\<exists>c \<in> set (t_commands d). c_session c = sid \<and> c_delivered_at c = 0)
             in Inr (f s, persisted,
                  d\<lparr>t_events := evs, t_sessions := tbl_upd (\<lambda>r. s_id r = sid) f (t_sessions d)\<rparr>)))"

section \<open>The command mailbox\<close>

definition enqueue_pi_session_command :: "int \<Rightarrow> pi_command \<Rightarrow> database \<Rightarrow> database res" where
  "enqueue_pi_session_command now c d =
     (case tbl_ins c_id c (t_commands d) of
        Inl e \<Rightarrow> Inl e
      | Inr cs \<Rightarrow> Inr (d\<lparr>t_commands := cs,
          t_sessions := tbl_upd (\<lambda>s. s_id s = c_session c)
            (\<lambda>s. s\<lparr>s_updated := or_now (c_created c) now, s_has_pending := True\<rparr>) (t_sessions d)\<rparr>))"

definition claim_pi_session_commands ::
  "string \<Rightarrow> string \<Rightarrow> int \<Rightarrow> int \<Rightarrow> database \<Rightarrow> (pi_command list \<times> database) res" where
  "claim_pi_session_commands sid inc now lease_seconds d =
     (case bridge_session sid inc d of
        Inl e \<Rightarrow> Inl e
      | Inr _ \<Rightarrow>
        let cutoff = now - lease_seconds;
            cs = tbl_upd (\<lambda>c. c_session c = sid \<and> c_delivered_at c = 0 \<and>
                     (c_claimed_by c = '''' \<or> c_claimed_by c = inc \<or> c_claimed_at c \<le> cutoff))
                   (\<lambda>c. c\<lparr>c_claimed_at := now, c_claimed_by := inc\<rparr>) (t_commands d)
        in Inr (sort_key c_created
                  (filter (\<lambda>c. c_session c = sid \<and> c_delivered_at c = 0 \<and> c_claimed_by c = inc) cs),
                d\<lparr>t_commands := cs\<rparr>))"

definition ack_pi_session_command ::
  "string \<Rightarrow> string \<Rightarrow> string \<Rightarrow> int \<Rightarrow> database \<Rightarrow> (bool \<times> database) res" where
  "ack_pi_session_command sid cid inc now d =
     (case bridge_session sid inc d of
        Inl e \<Rightarrow> Inl e
      | Inr s \<Rightarrow>
        let row = find (\<lambda>c. c_id c = cid \<and> c_session c = sid) (t_commands d);
            hit = (\<lambda>c. c_id c = cid \<and> c_session c = sid \<and> c_claimed_by c = inc \<and> c_delivered_at c = 0);
            acked = rowcount hit (t_commands d) > 0;
            unblock = (acked \<and> (case row of None \<Rightarrow> False | Some c \<Rightarrow> c_kind c = ''prompt'') \<and> s_state s = BLOCKED)
        in Inr (acked, d\<lparr>t_commands := tbl_upd hit (\<lambda>c. c\<lparr>c_delivered_at := now\<rparr>) (t_commands d),
             t_sessions := (if unblock
               then tbl_upd (\<lambda>r. s_id r = sid)
                      (\<lambda>r. r\<lparr>s_state := WORKING, s_question := '''', s_updated := now\<rparr>) (t_sessions d)
               else t_sessions d)\<rparr>))"

section \<open>Expired heartbeats\<close>

definition stale_ids :: "int \<Rightarrow> database \<Rightarrow> string list" where
  "stale_ids cutoff d = map s_id (filter (\<lambda>s. bridge_backed (s_type s) \<and> s_last_seen s < cutoff \<and>
      s_state s \<notin> {STOPPED, S_FAILED}) (t_sessions d))"

fun stop_stale :: "(nat \<Rightarrow> string) \<Rightarrow> int \<Rightarrow> nat \<Rightarrow> string list \<Rightarrow> database \<Rightarrow> database res" where
  "stop_stale uuid now n [] d = Inr d"
| "stop_stale uuid now n (i # is) d =
     (case insert_event (new_event (uuid n) i ''bridge-stale'' [] now) (t_events d) of
        Inl e \<Rightarrow> Inl e
      | Inr evs \<Rightarrow> stop_stale uuid now (Suc n) is
          (d\<lparr>t_sessions := tbl_upd (\<lambda>s. s_id s = i)
               (\<lambda>s. s\<lparr>s_state := STOPPED, s_detail := ''bridge heartbeat expired'', s_updated := now,
                      s_question := '''', s_token_hash := '''', s_attachable := False\<rparr>) (t_sessions d),
             t_events := evs\<rparr>))"

definition sweep_stale_interactive_pi_sessions ::
  "(nat \<Rightarrow> string) \<Rightarrow> int \<Rightarrow> int \<Rightarrow> database \<Rightarrow> (string list \<times> database) res" where
  "sweep_stale_interactive_pi_sessions uuid cutoff now d =
     (let ids = stale_ids cutoff d
      in case stop_stale uuid now 0 ids d of Inl e \<Rightarrow> Inl e | Inr d' \<Rightarrow> Inr (ids, d'))"

end
