(* ===== verification/Session_Spec.thy ===== *)
theory Session_Spec
  imports Db_Sessions
begin

text \<open>
  What the session tables promise: gap-free event numbering and complete replay of the event
  log, fencing of bridge incarnations, complete and at-most-once delivery of commands, and the
  life of a blocked session.  This theory has the log interface, the step relation and the
  invariant, \<open>Session_Props\<close> the properties.  The promises hold in every state that the operations of
  \<open>Db_Sessions\<close> can reach in any order.
\<close>

section \<open>A log with sequence numbers, and a client that polls it\<close>

text \<open>\<open>poll_log\<close> is the loop of a reader that keeps a cursor: each round asks for the next page
  of the state it finds and moves the cursor to the last number it has seen.\<close>

fun poll_log :: "(int \<Rightarrow> 'd \<Rightarrow> 'e list) \<Rightarrow> ('e \<Rightarrow> int) \<Rightarrow> int \<Rightarrow> 'd list \<Rightarrow> 'e list \<times> int" where
  "poll_log page seqno cursor [] = ([], cursor)"
| "poll_log page seqno cursor (d # ds) =
     (let es = page cursor d;
          (rest, c) = poll_log page seqno (if es = [] then cursor else seqno (last es)) ds
      in (es @ rest, c))"

lemma take_self: "xs = take n ys \<Longrightarrow> xs = take (length xs) ys"
  by (cases "n \<le> length ys") auto

locale sequenced_log =
  fixes inv :: "'d \<Rightarrow> bool"
    and step :: "'d \<Rightarrow> 'd \<Rightarrow> bool"
    and log :: "'s \<Rightarrow> 'd \<Rightarrow> 'e list"
    and seqno :: "'e \<Rightarrow> int"
    and page :: "'s \<Rightarrow> int \<Rightarrow> 'd \<Rightarrow> 'e list"
    and bound :: nat
  assumes step_inv: "inv d \<Longrightarrow> step d d' \<Longrightarrow> inv d'"
    and numbered: "inv d \<Longrightarrow> map seqno (log s d) = map int [1..<Suc (length (log s d))]"
    and grows: "inv d \<Longrightarrow> step d d' \<Longrightarrow> \<exists>es. log s d' = log s d @ es"
    and page: "inv d \<Longrightarrow> 0 \<le> c \<Longrightarrow> page s c d = take bound (drop (nat c) (log s d))"
    and bound_pos: "0 < bound"
begin

lemma seqno_nth: "inv d \<Longrightarrow> k < length (log s d) \<Longrightarrow> seqno (log s d ! k) = int (Suc k)"
  using arg_cong [OF numbered [of d s], of "\<lambda>xs. xs ! k"] by (simp add: nth_map del: upt_Suc)

lemma page_cursor:
  assumes "inv d" "0 \<le> c" "page s c d \<noteq> []"
  shows "seqno (last (page s c d)) = c + int (length (page s c d))"
    and "nat c + length (page s c d) \<le> length (log s d)"
proof -
  let ?p = "page s c d"
  have p: "?p = take bound (drop (nat c) (log s d))" using page [OF assms(1,2)] .
  have len: "length ?p = min bound (length (log s d) - nat c)" by (simp add: p)
  have lt: "nat c < length (log s d)" using assms(3) p by (cases "nat c < length (log s d)") simp_all
  have "length ?p \<le> length (log s d) - nat c" by (simp add: len)
  with lt show le: "nat c + length ?p \<le> length (log s d)" by linarith
  from assms(3) have "0 < length ?p" by simp
  then have k: "nat c + (length ?p - 1) < length (log s d)" using le by linarith
  have "last ?p = ?p ! (length ?p - 1)" using assms(3) by (rule last_conv_nth)
  also have "\<dots> = log s d ! (nat c + (length ?p - 1))"
  proof -
    have "length ?p - 1 < length ?p" using \<open>0 < length ?p\<close> by simp
    then have "take (length ?p) (drop (nat c) (log s d)) ! (length ?p - 1) = log s d ! (nat c + (length ?p - 1))"
      using k by (simp only: nth_take nth_drop)
    with take_self [OF p] show ?thesis by metis
  qed
  finally show "seqno (last ?p) = c + int (length ?p)"
    using seqno_nth [OF assms(1) k] assms(2) \<open>0 < length ?p\<close> by simp
qed

lemma chain_grows: "inv d \<Longrightarrow> successively step (d # ds) \<Longrightarrow> \<exists>es. log s (last (d # ds)) = log s d @ es"
proof (induction ds arbitrary: d)
  case (Cons e ds)
  then obtain x where "log s e = log s d @ x" using grows [of d e s] by auto
  moreover obtain y where "log s (last (e # ds)) = log s e @ y"
    using Cons.IH [of e] Cons.prems step_inv by auto
  ultimately show ?case by simp
qed simp

lemma poll_contiguous:
  assumes "inv d" "successively step (d # ds)" "0 \<le> c" "poll_log (page s) seqno c (d # ds) = (es, c')"
  shows "c \<le> c' \<and> es = take (nat c' - nat c) (drop (nat c) (log s (last (d # ds)))) \<and>
    length es = nat c' - nat c"
  using assms
proof (induction ds arbitrary: d c es c')
  case Nil
  let ?p = "page s c d"
  have es: "es = ?p" "c' = (if ?p = [] then c else seqno (last ?p))"
    using Nil.prems(4) by (auto simp: Let_def)
  then have c': "c' = c + int (length ?p)"
    using page_cursor(1) [OF Nil.prems(1,3), of s] by simp
  moreover have "?p = take (length ?p) (drop (nat c) (log s d))"
    by (rule take_self [OF page [OF Nil.prems(1,3)]])
  moreover have "nat c' - nat c = length ?p" using c' Nil.prems(3) by simp
  ultimately show ?case using es(1) Nil.prems(3) by simp
next
  case (Cons e ds)
  let ?p = "page s c d"
  define m where "m = (if ?p = [] then c else seqno (last ?p))"
  obtain rest where rest: "poll_log (page s) seqno m (e # ds) = (rest, c')" "es = ?p @ rest"
    using Cons.prems(4) by (auto simp: m_def Let_def split: prod.splits)
  have m: "m = c + int (length ?p)"
    using page_cursor(1) [OF Cons.prems(1,3), of s] by (auto simp: m_def)
  have inv: "inv e" "successively step (e # ds)"
    using Cons.prems(1,2) step_inv by auto
  let ?L = "log s (last (d # e # ds))"
  have IH: "m \<le> c'" "rest = take (nat c' - nat m) (drop (nat m) ?L)" "length rest = nat c' - nat m"
    using Cons.IH [OF inv _ rest(1)] m Cons.prems(3) by auto
  obtain x where x: "?L = log s d @ x"
    using chain_grows [OF Cons.prems(1,2), of s] by blast
  have p: "?p = take (length ?p) (drop (nat c) ?L)"
  proof (cases "?p = []")
    case False
    then have le: "nat c + length ?p \<le> length (log s d)" by (rule page_cursor(2) [OF Cons.prems(1,3)])
    have "take (length ?p) (drop (nat c) ?L) = take (length ?p) (drop (nat c) (log s d))"
      unfolding x using le by simp
    with take_self [OF page [OF Cons.prems(1,3), of s]] show ?thesis by simp
  qed simp
  have nm: "nat m = nat c + length ?p" using m Cons.prems(3) by simp
  have "es = take (length ?p) (drop (nat c) ?L) @ take (nat c' - nat m) (drop (length ?p) (drop (nat c) ?L))"
    unfolding rest(2) IH(2) nm drop_drop using p by (simp only: add.commute)
  also have "\<dots> = take (length ?p + (nat c' - nat m)) (drop (nat c) ?L)"
    by (simp only: take_add)
  finally have es: "es = take (length ?p + (nat c' - nat m)) (drop (nat c) ?L)" .
  have k: "length ?p + (nat c' - nat m) = nat c' - nat c"
    using nm IH(1) m Cons.prems(3) by linarith
  have "length es = length ?p + length rest"
    unfolding rest(2) by (rule length_append)
  with k IH(3) have l: "length es = nat c' - nat c" by linarith
  have "c \<le> c'" using IH(1) m by linarith
  with es l show ?case unfolding k by blast
qed

lemma poll_caught_up:
  assumes "inv d" "successively step (d # ds)" "0 \<le> c" "poll_log (page s) seqno c (d # ds) = (es, c')"
    and "page s c' (last (d # ds)) = []"
  shows "es = drop (nat c) (log s (last (d # ds)))"
proof -
  have "inv (last (d # ds))"
    using assms(1,2) by (induction ds arbitrary: d) (auto simp: step_inv)
  moreover note P = poll_contiguous [OF assms(1-4)]
  ultimately have "length (log s (last (d # ds))) \<le> nat c'"
    using page [of "last (d # ds)" c' s] assms(3,5) bound_pos by auto
  with P show ?thesis by simp
qed

end

section \<open>The event table is such a log\<close>

definition session_log :: "string \<Rightarrow> pi_event list \<Rightarrow> pi_event list" where
  "session_log sid evs = filter (\<lambda>e. e_session e = sid) evs"

definition numbered_log :: "pi_event list \<Rightarrow> bool" where
  "numbered_log evs = (pk_ok e_id evs \<and>
     (\<forall>sid. map e_sequence (session_log sid evs) = map int [1..<Suc (length (session_log sid evs))]))"

inductive log_ext :: "pi_event list \<Rightarrow> pi_event list \<Rightarrow> bool" where
  same: "log_ext evs evs"
| grow: "log_ext evs evs' \<Longrightarrow> e_id e \<notin> e_id ` set evs' \<Longrightarrow>
    log_ext evs (evs' @ [e\<lparr>e_sequence := next_sequence (e_session e) evs'\<rparr>])"

lemma coalesce_max_count: "coalesce_max (map int [1..<Suc n]) = int n"
proof (cases n)
  case (Suc m)
  have "int n \<in> set (map int [1..<Suc n])" using Suc by auto
  then have "int n \<le> coalesce_max (map int [1..<Suc n])" by (rule coalesce_max_ge)
  moreover have "coalesce_max (map int [1..<Suc n]) \<in> set (map int [1..<Suc n])"
    by (rule coalesce_max_in) (use Suc in simp)
  ultimately show ?thesis by auto
qed (simp add: coalesce_max_def)

lemma next_sequence_log:
  "numbered_log evs \<Longrightarrow> next_sequence sid evs = int (length (session_log sid evs)) + 1"
  using coalesce_max_count [of "length (session_log sid evs)"]
  by (simp add: next_sequence_def numbered_log_def session_log_def)

lemma numbered_grow:
  assumes "numbered_log evs" "e_id e \<notin> e_id ` set evs"
  shows "numbered_log (evs @ [e\<lparr>e_sequence := next_sequence (e_session e) evs\<rparr>])"
  using assms next_sequence_log [OF assms(1), of "e_session e"]
  by (auto simp: numbered_log_def pk_ok_def session_log_def)

lemma log_ext_numbered: "log_ext evs evs' \<Longrightarrow> numbered_log evs \<Longrightarrow> numbered_log evs'"
  by (induction rule: log_ext.induct) (simp_all add: numbered_grow)

lemma log_ext_trans: "log_ext b c \<Longrightarrow> log_ext a b \<Longrightarrow> log_ext a c"
  by (induction rule: log_ext.induct) (auto intro: log_ext.intros)

lemma log_ext_prefix: "log_ext evs evs' \<Longrightarrow> \<exists>xs. evs' = evs @ xs"
  by (induction rule: log_ext.induct) auto

lemma insert_or_ignore_ext: "log_ext evs (snd (insert_event_or_ignore e evs))"
  by (auto simp: insert_event_or_ignore_def intro: log_ext.intros)

lemma insert_event_ext: "insert_event e evs = Inr evs' \<Longrightarrow> log_ext evs evs'"
  by (auto simp: insert_event_def intro: log_ext.intros split: if_splits)

lemma register_event_ext: "log_ext evs (register_event u now sid ev evs)"
  by (auto simp: register_event_def intro: log_ext.same insert_or_ignore_ext split: option.split)

lemma register_events_ext: "log_ext evs (register_events uuid now sid n es evs)"
proof (induction es arbitrary: n evs)
  case (Cons e es)
  show ?case using log_ext_trans [OF Cons.IH register_event_ext] by simp
qed (simp add: log_ext.same)

lemma persist_events_ext: "log_ext evs (snd (persist_events uuid now sid n es evs))"
proof (induction es arbitrary: n evs)
  case (Cons e es)
  show ?case
    using log_ext_trans [OF Cons.IH insert_or_ignore_ext] by (simp add: Let_def split: prod.splits) (metis snd_conv)
qed (simp add: log_ext.same)

lemma stop_stale_events: "stop_stale uuid now n is d = Inr d' \<Longrightarrow> log_ext (t_events d) (t_events d')"
proof (induction "is" arbitrary: n d)
  case (Cons i "is")
  then obtain evs where "insert_event (new_event (uuid n) i ''bridge-stale'' [] now) (t_events d) = Inr evs"
    by (auto split: sum.splits)
  with Cons insert_event_ext show ?case by (fastforce intro: log_ext_trans)
qed (simp add: log_ext.same)

section \<open>The steps of the session tables\<close>

text \<open>
  One step is one call of an operation of \<open>Db_Sessions\<close>.  \<open>open_session\<close> is the insertion of a
  session that is being launched, which has no bridge yet (\<open>_new_session\<close> of \<open>orchestration.py\<close>);
  commands are enqueued unclaimed (all callers build them with the defaults of
  \<open>PiSessionCommand\<close>); acknowledgements carry a positive clock; sessions are finished in a terminal
  state.  \<open>other\<close> is any operation on
  the other tables.
\<close>

inductive session_step :: "database \<Rightarrow> database \<Rightarrow> bool" where
  open_session: "insert_pi_session s d = Inr d' \<Longrightarrow> s_incarnation s = None \<Longrightarrow> session_step d d'"
| register: "register_interactive_pi_session uuid now b d = Inr (s, d') \<Longrightarrow> session_step d d'"
| batch: "apply_interactive_pi_events uuid now sid bb d = Inr (s, es, d') \<Longrightarrow> session_step d d'"
| enqueue: "enqueue_pi_session_command now c d = Inr d' \<Longrightarrow> c_claimed_by c = '''' \<Longrightarrow>
    c_delivered_at c = 0 \<Longrightarrow> session_step d d'"
| claim: "claim_pi_session_commands sid inc now lease d = Inr (cs, d') \<Longrightarrow> session_step d d'"
| ack: "ack_pi_session_command sid cid inc now d = Inr (b, d') \<Longrightarrow> 0 < now \<Longrightarrow> session_step d d'"
| sweep: "sweep_stale_interactive_pi_sessions uuid cutoff now d = Inr (ids, d') \<Longrightarrow> session_step d d'"
| finish: "terminal_state st \<Longrightarrow> session_step d (finish_pi_session now i st detail d)"
| block: "set_pi_session_blocked now u i q d = Inr d' \<Longrightarrow> session_step d d'"
| event: "session_step d (insert_pi_session_event e d)"
| set_meta: "session_step d (update_pi_session_meta i m d)"
| pane_sequence: "next_pi_session_pane_sequence i d = Inr (n, d') \<Longrightarrow> session_step d d'"
| reparent: "session_step d (reparent_pi_session_children a b d)"
| other: "t_sessions d' = t_sessions d \<Longrightarrow> t_events d' = t_events d \<Longrightarrow> t_commands d' = t_commands d \<Longrightarrow>
    session_step d d'"

text \<open>What the steps do to each table.\<close>

lemma bridge_session_Inr:
  "bridge_session sid inc d = Inr s \<longleftrightarrow> get_pi_session sid d = Some s \<and> s_incarnation s = Some inc"
  by (auto simp: bridge_session_def split: option.splits)

lemma registerE:
  assumes "register_interactive_pi_session uuid now b d = Inr (s, d')"
  obtains ss where "get_pi_session (b_session_id b) d' = Some s"
    and "t_commands d' = release_foreign_claims (b_session_id b) (b_incarnation b) (t_commands d)"
    and "t_events d' = register_events uuid now (b_session_id b) 0 (b_initial_events b) (t_events d)"
    and "ss = (case get_pi_session (b_session_id b) d of
                  None \<Rightarrow> t_sessions d @ [bridge_row now b]
                | Some _ \<Rightarrow> tbl_upd (\<lambda>s. s_id s = b_session_id b) (bridge_update now b) (t_sessions d))"
    and "t_sessions d' = (if b_resume_path b = '''' then ss
                  else tbl_upd (\<lambda>s. s_id s = b_session_id b)
                    (\<lambda>s. s\<lparr>s_meta := meta_set (s_meta s) ''resume_path'' (SStr (b_resume_path b))\<rparr>) ss)"
  using assms unfolding register_interactive_pi_session_def
  by (auto simp: Let_def split: option.splits)

lemma batch_update_fields [simp]:
  "s_id (batch_update now b ps s u r) = s_id r"
  "s_incarnation (batch_update now b ps s u r) = s_incarnation r"
  "s_state (batch_update now b ps s u r) = batch_state b (s_state s)"
  by (simp_all add: batch_update_def Let_def)

lemma applyE:
  assumes "apply_interactive_pi_events uuid now sid b d = Inr (s', es, d')"
  obtains s f where "bridge_session sid (bb_incarnation b) d = Inr s"
    and "(es, t_events d') = persist_events uuid now sid 0 (bb_events b) (t_events d)"
    and "s' = f s" "t_sessions d' = tbl_upd (\<lambda>r. s_id r = sid) f (t_sessions d)"
    and "\<And>r. s_id (f r) = s_id r" "\<And>r. s_incarnation (f r) = s_incarnation r"
    and "\<And>r. s_state (f r) = batch_state b (s_state s)"
    and "t_commands d' = t_commands d"
proof -
  obtain s where s: "bridge_session sid (bb_incarnation b) d = Inr s"
    using assms unfolding apply_interactive_pi_events_def by (cases "bridge_session sid (bb_incarnation b) d") simp_all
  obtain ps evs where p: "persist_events uuid now sid 0 (bb_events b) (t_events d) = (ps, evs)"
    by (rule prod.exhaust)
  define f where "f = batch_update now b ps s (\<exists>c \<in> set (t_commands d). c_session c = sid \<and> c_delivered_at c = 0)"
  have "Inr (f s, ps, d\<lparr>t_events := evs, t_sessions := tbl_upd (\<lambda>r. s_id r = sid) f (t_sessions d)\<rparr>) =
      (Inr (s', es, d') :: (pi_session \<times> pi_event list \<times> database) res)"
    using assms unfolding apply_interactive_pi_events_def s sum.case p prod.case Let_def f_def .
  then have D: "s' = f s" "ps = es" "d' = d\<lparr>t_events := evs, t_sessions := tbl_upd (\<lambda>r. s_id r = sid) f (t_sessions d)\<rparr>"
    by simp_all
  show ?thesis
    by (rule that [OF s, where f = f]) (simp_all add: p D f_def)
qed

lemma claimE:
  assumes "claim_pi_session_commands sid inc now lease d = Inr (cs, d')"
  obtains s where "bridge_session sid inc d = Inr s"
    and "t_commands d' = tbl_upd (\<lambda>c. c_session c = sid \<and> c_delivered_at c = 0 \<and>
                     (c_claimed_by c = '''' \<or> c_claimed_by c = inc \<or> c_claimed_at c \<le> now - lease))
                   (\<lambda>c. c\<lparr>c_claimed_at := now, c_claimed_by := inc\<rparr>) (t_commands d)"
    and "cs = sort_key c_created
          (filter (\<lambda>c. c_session c = sid \<and> c_delivered_at c = 0 \<and> c_claimed_by c = inc) (t_commands d'))"
    and "t_sessions d' = t_sessions d" "t_events d' = t_events d"
  using assms unfolding claim_pi_session_commands_def by (auto simp: Let_def split: sum.splits)

lemma ackE:
  assumes "ack_pi_session_command sid cid inc now d = Inr (b, d')"
  obtains s where "bridge_session sid inc d = Inr s"
    and "b \<longleftrightarrow> (\<exists>c \<in> set (t_commands d). c_id c = cid \<and> c_session c = sid \<and> c_claimed_by c = inc \<and> c_delivered_at c = 0)"
    and "t_commands d' = tbl_upd
          (\<lambda>c. c_id c = cid \<and> c_session c = sid \<and> c_claimed_by c = inc \<and> c_delivered_at c = 0)
          (\<lambda>c. c\<lparr>c_delivered_at := now\<rparr>) (t_commands d)"
    and "t_sessions d' = (if b \<and> (\<exists>c. find (\<lambda>c. c_id c = cid \<and> c_session c = sid) (t_commands d) = Some c \<and>
            c_kind c = ''prompt'') \<and> s_state s = BLOCKED
          then tbl_upd (\<lambda>r. s_id r = sid)
                 (\<lambda>r. r\<lparr>s_state := WORKING, s_question := '''', s_updated := now\<rparr>) (t_sessions d)
          else t_sessions d)"
    and "t_events d' = t_events d"
proof -
  obtain s where s: "bridge_session sid inc d = Inr s"
    using assms unfolding ack_pi_session_command_def by (cases "bridge_session sid inc d") simp_all
  have r: "0 < rowcount p xs \<longleftrightarrow> (\<exists>x \<in> set xs. p x)" for p :: "pi_command \<Rightarrow> bool" and xs
    using rowcount_0_iff [of p xs] by (auto simp: neq0_conv [symmetric])
  have k: "(case m of None \<Rightarrow> False | Some c \<Rightarrow> c_kind c = ''prompt'') \<longleftrightarrow> (\<exists>c. m = Some c \<and> c_kind c = ''prompt'')" for m
    by (cases m) simp_all
  note D = assms [unfolded ack_pi_session_command_def s sum.case Let_def r k, THEN sum.inject(2) [THEN iffD1]]
  show ?thesis
    by (rule that [OF s]) (use D in auto)
qed

lemma ack_sessions:
  assumes "ack_pi_session_command sid cid inc now d = Inr (b, d')"
  shows "t_sessions d' = t_sessions d \<or> t_sessions d' = tbl_upd (\<lambda>r. s_id r = sid)
    (\<lambda>r. r\<lparr>s_state := WORKING, s_question := '''', s_updated := now\<rparr>) (t_sessions d)"
  by (rule ackE [OF assms]) (simp split: if_split)

lemma stop_stale_sessions:
  assumes "stop_stale uuid now n is d = Inr d'"
  shows "t_commands d' = t_commands d \<and> map s_id (t_sessions d') = map s_id (t_sessions d) \<and>
    (\<forall>s' \<in> set (t_sessions d'). \<exists>s \<in> set (t_sessions d). s_id s' = s_id s \<and>
      s_incarnation s' = s_incarnation s \<and> (s_state s' = s_state s \<or> s_state s' = STOPPED))"
  using assms
proof (induction "is" arbitrary: n d)
  case (Cons i "is")
  let ?f = "\<lambda>s. s\<lparr>s_state := STOPPED, s_detail := ''bridge heartbeat expired'', s_updated := now,
                      s_question := '''', s_token_hash := '''', s_attachable := False\<rparr>"
  obtain evs where "stop_stale uuid now (Suc n) is
      (d\<lparr>t_sessions := tbl_upd (\<lambda>s. s_id s = i) ?f (t_sessions d), t_events := evs\<rparr>) = Inr d'"
    using Cons.prems by (auto split: sum.splits)
  note IH = Cons.IH [OF this]
  have "\<exists>s \<in> set (t_sessions d). s_id s' = s_id s \<and> s_incarnation s' = s_incarnation s \<and>
      (s_state s' = s_state s \<or> s_state s' = STOPPED)"
    if "s' \<in> set (tbl_upd (\<lambda>s. s_id s = i) ?f (t_sessions d))" for s'
    using that by (rule tbl_upd_rowE) auto
  moreover have "map s_id (tbl_upd (\<lambda>s. s_id s = i) ?f (t_sessions d)) = map s_id (t_sessions d)"
    by (rule tbl_upd_keys) simp
  ultimately show ?case using IH by (simp, metis)
qed auto

lemma sweepE:
  assumes "sweep_stale_interactive_pi_sessions uuid cutoff now d = Inr (ids, d')"
  shows "stop_stale uuid now 0 ids d = Inr d'" "ids = stale_ids cutoff d"
  using assms by (auto simp: sweep_stale_interactive_pi_sessions_def Let_def split: sum.splits)

lemma blockE:
  assumes "set_pi_session_blocked now u i q d = Inr d'"
  obtains evs where "insert_event (new_event u i ''blocked'' [(''question'', JStr q)] now) (t_events d) = Inr evs"
    and "d' = d\<lparr>t_sessions := tbl_upd (\<lambda>s. s_id s = i \<and> s_state s \<notin> {STOPPED, S_FAILED, TERMINATION_UNKNOWN})
              (\<lambda>s. s\<lparr>s_state := BLOCKED, s_question := q, s_updated := now\<rparr>) (t_sessions d), t_events := evs\<rparr>"
  using assms unfolding set_pi_session_blocked_def by (auto simp: Let_def split: if_splits sum.splits)

lemma step_log_ext: "session_step d d' \<Longrightarrow> log_ext (t_events d) (t_events d')"
proof (induction rule: session_step.induct)
  case (register uuid now b d s d')
  then show ?case by (rule registerE) (simp add: register_events_ext)
next
  case (batch uuid now sid bb d s es d')
  then show ?case by (rule applyE) (metis persist_events_ext snd_conv)
next
  case (claim sid inc now lease d cs d')
  then show ?case by (rule claimE) (simp add: log_ext.same)
next
  case (ack sid cid inc now d b d')
  then show ?case by (rule_tac ackE) (auto simp: log_ext.same)
next
  case (sweep uuid cutoff now d ids d')
  then show ?case by (rule stop_stale_events [OF sweepE(1)])
next
  case (block now u i q d d')
  then show ?case by (rule blockE) (simp add: insert_event_ext)
qed (auto simp: insert_pi_session_def enqueue_pi_session_command_def finish_pi_session_def
    insert_pi_session_event_def insert_or_ignore_ext update_pi_session_meta_def
    next_pi_session_pane_sequence_def Let_def reparent_pi_session_children_def
    intro: log_ext.same split: sum.splits option.splits)

section \<open>The invariant\<close>

text \<open>
  \<open>leases\<close>: an undelivered command is unclaimed or claimed by the current incarnation of its
  session, so the lease timeout of a claim is only ever needed for a session without a bridge.
\<close>

definition leases :: "pi_session list \<Rightarrow> pi_command list \<Rightarrow> bool" where
  "leases ss cs = (\<forall>c \<in> set cs. \<forall>s \<in> set ss. c_session c = s_id s \<longrightarrow> c_delivered_at c = 0 \<longrightarrow>
     c_claimed_by c = '''' \<or> s_incarnation s = None \<or> s_incarnation s = Some (c_claimed_by c))"

definition sess_inv :: "database \<Rightarrow> bool" where
  "sess_inv d = (pk_ok s_id (t_sessions d) \<and> pk_ok c_id (t_commands d) \<and> numbered_log (t_events d) \<and>
     leases (t_sessions d) (t_commands d))"

text \<open>No step but a registration gives an incarnation to a session.\<close>

definition incarnations_kept :: "pi_session list \<Rightarrow> pi_session list \<Rightarrow> bool" where
  "incarnations_kept ss ss' = (\<forall>s' \<in> set ss'. s_incarnation s' = None \<or>
     (\<exists>s \<in> set ss. s_id s = s_id s' \<and> s_incarnation s = s_incarnation s'))"

lemma incarnations_kept_refl: "incarnations_kept ss ss"
  by (auto simp: incarnations_kept_def)

lemma incarnations_kept_upd:
  assumes "\<And>s. s_id (f s) = s_id s" "\<And>s. s_incarnation (f s) = None \<or> s_incarnation (f s) = s_incarnation s"
  shows "incarnations_kept ss (tbl_upd p f ss)"
  unfolding incarnations_kept_def
proof
  fix s' assume "s' \<in> set (tbl_upd p f ss)"
  then show "s_incarnation s' = None \<or> (\<exists>s \<in> set ss. s_id s = s_id s' \<and> s_incarnation s = s_incarnation s')"
    by (rule tbl_upd_rowE) (use assms in \<open>metis+\<close>)
qed

lemma incarnations_kept_leases:
  assumes "incarnations_kept ss ss'" "leases ss cs"
  shows "leases ss' cs"
  unfolding leases_def
proof (intro ballI impI)
  fix c s' assume c: "c \<in> set cs" "s' \<in> set ss'" "c_session c = s_id s'" "c_delivered_at c = 0"
  with assms(1) consider "s_incarnation s' = None" |
    s where "s \<in> set ss" "s_id s = s_id s'" "s_incarnation s = s_incarnation s'"
    by (auto simp: incarnations_kept_def)
  then show "c_claimed_by c = '''' \<or> s_incarnation s' = None \<or> s_incarnation s' = Some (c_claimed_by c)"
  proof cases
    case 2
    then have "c_claimed_by c = '''' \<or> s_incarnation s = None \<or> s_incarnation s = Some (c_claimed_by c)"
      using assms(2) c(1,3,4) unfolding leases_def by metis
    with 2(3) show ?thesis by simp
  qed simp
qed

lemma step_incarnations:
  assumes "session_step d d'"
  shows "(\<exists>uuid now b s. register_interactive_pi_session uuid now b d = Inr (s, d')) \<or>
    incarnations_kept (t_sessions d) (t_sessions d')"
  using assms
proof (induction rule: session_step.induct)
  case (open_session s d d')
  then show ?case
    by (auto simp: insert_pi_session_def tbl_ins_def incarnations_kept_def split: if_splits)
next
  case (batch uuid now sid bb d s es d')
  then show ?case by (rule applyE) (simp add: incarnations_kept_upd)
next
  case (claim sid inc now lease d cs d')
  then show ?case by (rule claimE) (simp add: incarnations_kept_refl)
next
  case (ack sid cid inc now d b d')
  from ack_sessions [OF ack(1)] show ?case
    by (auto simp: incarnations_kept_refl intro!: disjI2 incarnations_kept_upd)
next
  case (sweep uuid cutoff now d ids d')
  then show ?case
    using stop_stale_sessions [OF sweepE(1) [OF sweep(1)]] by (auto simp: incarnations_kept_def) (metis)
next
  case (block now u i q d d')
  then show ?case by (rule blockE) (simp add: incarnations_kept_upd)
qed (auto simp: enqueue_pi_session_command_def finish_pi_session_def
    insert_pi_session_event_def update_pi_session_meta_def
    next_pi_session_pane_sequence_def Let_def reparent_pi_session_children_def
    incarnations_kept_refl intro!: incarnations_kept_upd split: sum.splits option.splits)

text \<open>What a step does to the commands.\<close>

lemma tbl_upd_kept: "r \<in> set rows \<Longrightarrow> \<not> p r \<Longrightarrow> r \<in> set (tbl_upd p f rows)"
  unfolding tbl_upd_row by (rule bexI [where x = r]) simp_all

lemma release_foreign_row:
  "c' \<in> set (release_foreign_claims sid inc cs) \<Longrightarrow> \<exists>c \<in> set cs. c_id c' = c_id c \<and> c_session c' = c_session c \<and>
     c_delivered_at c' = c_delivered_at c \<and> c_kind c' = c_kind c \<and>
     (c_claimed_by c' = c_claimed_by c \<and> (c_session c = sid \<longrightarrow> c_delivered_at c = 0 \<longrightarrow> c_claimed_by c = inc) \<or>
      c_claimed_by c' = '''')"
  unfolding release_foreign_claims_def by (erule tbl_upd_rowE) auto

lemma step_command_keys:
  assumes "session_step d d'"
  shows "\<exists>new. map c_id (t_commands d') = map c_id (t_commands d) @ new \<and> set new \<inter> c_id ` set (t_commands d) = {} \<and>
    distinct new \<and> (\<forall>c \<in> set (t_commands d). c_delivered_at c \<noteq> 0 \<longrightarrow> c \<in> set (t_commands d'))"
  using assms
proof (induction rule: session_step.induct)
  case (register uuid now b d s d')
  then show ?case
    by (rule registerE) (auto simp: release_foreign_claims_def tbl_upd_keys intro!: tbl_upd_kept)
next
  case (batch uuid now sid bb d s es d')
  then show ?case by (rule applyE) simp
next
  case (claim sid inc now lease d cs d')
  then show ?case by (rule claimE) (auto simp: tbl_upd_keys intro!: tbl_upd_kept)
next
  case (ack sid cid inc now d b d')
  then show ?case by (rule_tac ackE) (auto simp: tbl_upd_keys intro!: tbl_upd_kept)
next
  case (sweep uuid cutoff now d ids d')
  then show ?case using stop_stale_sessions [OF sweepE(1) [OF sweep(1)]] by simp
next
  case (block now u i q d d')
  then show ?case by (rule blockE) simp
next
  case (enqueue now c d d')
  then show ?case
    by (auto simp: enqueue_pi_session_command_def tbl_ins_def split: sum.splits if_splits)
qed (auto simp: insert_pi_session_def finish_pi_session_def
    insert_pi_session_event_def update_pi_session_meta_def
    next_pi_session_pane_sequence_def Let_def reparent_pi_session_children_def
    split: sum.splits option.splits)

lemma pk_ok_register:
  assumes "pk_ok s_id ss" "ss' = (case tbl_get s_id i ss of None \<Rightarrow> ss @ [r] | Some _ \<Rightarrow> tbl_upd p f ss)"
    and "s_id r = i" "\<And>s. s_id (f s) = s_id s"
  shows "pk_ok s_id ss'"
proof (cases "tbl_get s_id i ss")
  case None
  with assms show ?thesis by (auto simp: pk_ok_def tbl_get_None_iff)
qed (use assms in \<open>simp add: pk_ok_upd\<close>)

lemma step_pk_sessions:
  assumes "session_step d d'" "pk_ok s_id (t_sessions d)"
  shows "pk_ok s_id (t_sessions d')"
  using assms
proof (induction rule: session_step.induct)
  case (open_session s d d')
  then show ?case by (auto simp: insert_pi_session_def dest: pk_ok_ins split: sum.splits)
next
  case (register uuid now b d s d')
  from register(1) show ?case
  proof (rule registerE)
    fix ss assume ss: "ss = (case get_pi_session (b_session_id b) d of
                  None \<Rightarrow> t_sessions d @ [bridge_row now b]
                | Some _ \<Rightarrow> tbl_upd (\<lambda>s. s_id s = b_session_id b) (bridge_update now b) (t_sessions d))"
      and d': "t_sessions d' = (if b_resume_path b = '''' then ss
                  else tbl_upd (\<lambda>s. s_id s = b_session_id b)
                    (\<lambda>s. s\<lparr>s_meta := meta_set (s_meta s) ''resume_path'' (SStr (b_resume_path b))\<rparr>) ss)"
    have "pk_ok s_id ss"
      by (rule pk_ok_register [OF register(2) ss [unfolded get_pi_session_def]])
        (simp_all add: bridge_row_def bridge_update_def new_pi_session_def)
    then show ?thesis by (simp add: d' pk_ok_upd)
  qed
next
  case (batch uuid now sid bb d s es d')
  then show ?case by (rule_tac applyE) (auto simp: pk_ok_upd)
next
  case (claim sid inc now lease d cs d')
  then show ?case by (rule_tac claimE) auto
next
  case (ack sid cid inc now d b d')
  then show ?case by (rule_tac ackE) (auto simp: pk_ok_upd)
next
  case (sweep uuid cutoff now d ids d')
  then show ?case using stop_stale_sessions [OF sweepE(1) [OF sweep(1)]] by (simp add: pk_ok_def)
next
  case (block now u i q d d')
  then show ?case by (rule_tac blockE) (auto simp: pk_ok_upd)
qed (auto simp: enqueue_pi_session_command_def finish_pi_session_def
    insert_pi_session_event_def update_pi_session_meta_def pk_ok_upd
    next_pi_session_pane_sequence_def Let_def reparent_pi_session_children_def
    split: sum.splits option.splits)

lemma leases_register:
  assumes pk: "pk_ok s_id (t_sessions d)" and L: "leases (t_sessions d) (t_commands d)"
    and r: "register_interactive_pi_session uuid now b d = Inr (s, d')"
  shows "leases (t_sessions d') (t_commands d')"
    and "\<And>s'. s' \<in> set (t_sessions d') \<Longrightarrow> s_id s' \<noteq> b_session_id b \<Longrightarrow> s' \<in> set (t_sessions d)"
    and "s_id s = b_session_id b \<and> s_incarnation s = Some (b_incarnation b)"
proof -
  from r obtain ss where g: "get_pi_session (b_session_id b) d' = Some s"
    and cs: "t_commands d' = release_foreign_claims (b_session_id b) (b_incarnation b) (t_commands d)"
    and ss: "ss = (case get_pi_session (b_session_id b) d of
                  None \<Rightarrow> t_sessions d @ [bridge_row now b]
                | Some _ \<Rightarrow> tbl_upd (\<lambda>s. s_id s = b_session_id b) (bridge_update now b) (t_sessions d))"
    and d': "t_sessions d' = (if b_resume_path b = '''' then ss
                  else tbl_upd (\<lambda>s. s_id s = b_session_id b)
                    (\<lambda>s. s\<lparr>s_meta := meta_set (s_meta s) ''resume_path'' (SStr (b_resume_path b))\<rparr>) ss)"
    by (rule registerE)
  have row: "s_id x = b_session_id b \<and> s_incarnation x = Some (b_incarnation b) \<or>
      s_id x \<noteq> b_session_id b \<and> x \<in> set (t_sessions d)" if "x \<in> set ss" for x
  proof (cases "get_pi_session (b_session_id b) d")
    case None
    then have "y \<in> set (t_sessions d) \<Longrightarrow> s_id y \<noteq> b_session_id b" for y
      by (force simp: get_pi_session_def tbl_get_None_iff)
    with that None ss show ?thesis by (auto simp: bridge_row_def new_pi_session_def)
  next
    case (Some y)
    with that ss have "x \<in> set (tbl_upd (\<lambda>s. s_id s = b_session_id b) (bridge_update now b) (t_sessions d))" by simp
    then show ?thesis by (rule tbl_upd_rowE) (simp_all add: bridge_update_def)
  qed
  have row': "s_id x = b_session_id b \<and> s_incarnation x = Some (b_incarnation b) \<or>
      s_id x \<noteq> b_session_id b \<and> x \<in> set (t_sessions d)" if "x \<in> set (t_sessions d')" for x
  proof (cases "b_resume_path b = ''''")
    case False
    with that d' have "x \<in> set (tbl_upd (\<lambda>s. s_id s = b_session_id b)
        (\<lambda>s. s\<lparr>s_meta := meta_set (s_meta s) ''resume_path'' (SStr (b_resume_path b))\<rparr>) ss)" by simp
    then show ?thesis
    proof (rule tbl_upd_rowE)
      fix y assume "y \<in> set ss" "s_id y = b_session_id b"
        "x = y\<lparr>s_meta := meta_set (s_meta y) ''resume_path'' (SStr (b_resume_path b))\<rparr>"
      with row [OF \<open>y \<in> set ss\<close>] show ?thesis by simp
    qed (use row in blast)
  qed (use that d' row in simp)
  show "s' \<in> set (t_sessions d)" if "s' \<in> set (t_sessions d')" "s_id s' \<noteq> b_session_id b" for s'
    using row' [OF that(1)] that(2) by blast
  have "s \<in> set (t_sessions d')" "s_id s = b_session_id b"
    using g by (auto simp: get_pi_session_def dest: tbl_get_in tbl_get_key)
  then show "s_id s = b_session_id b \<and> s_incarnation s = Some (b_incarnation b)"
    using row' by blast
  show "leases (t_sessions d') (t_commands d')"
    unfolding leases_def
  proof (intro ballI impI)
    fix c x assume c: "c \<in> set (t_commands d')" "x \<in> set (t_sessions d')" "c_session c = s_id x" "c_delivered_at c = 0"
    obtain c0 where c0: "c0 \<in> set (t_commands d)" "c_session c = c_session c0" "c_delivered_at c = c_delivered_at c0"
      "c_claimed_by c = c_claimed_by c0 \<and> (c_session c0 = b_session_id b \<longrightarrow> c_delivered_at c0 = 0 \<longrightarrow>
         c_claimed_by c0 = b_incarnation b) \<or> c_claimed_by c = ''''"
      using release_foreign_row [OF c(1) [unfolded cs]] by blast
    from row' [OF c(2)] show "c_claimed_by c = '''' \<or> s_incarnation x = None \<or> s_incarnation x = Some (c_claimed_by c)"
    proof
      assume "s_id x = b_session_id b \<and> s_incarnation x = Some (b_incarnation b)"
      with c0 c(3,4) show ?thesis by auto
    next
      assume "s_id x \<noteq> b_session_id b \<and> x \<in> set (t_sessions d)"
      with L c0 c(3,4) show ?thesis unfolding leases_def by metis
    qed
  qed
qed

lemma pk_get_session: "pk_ok s_id (t_sessions d) \<Longrightarrow> get_pi_session i d = Some s \<Longrightarrow>
    x \<in> set (t_sessions d) \<Longrightarrow> s_id x = i \<Longrightarrow> x = s"
  unfolding get_pi_session_def using pk_ok_get [of s_id "t_sessions d" x] by simp

lemma leases_subset:
  assumes "leases ss cs"
    and "\<And>c'. c' \<in> set cs' \<Longrightarrow> c_claimed_by c' = '''' \<or> (\<exists>c \<in> set cs. c_session c' = c_session c \<and>
      c_claimed_by c' = c_claimed_by c \<and> (c_delivered_at c' = 0 \<longrightarrow> c_delivered_at c = 0)) \<or>
      (\<exists>s. s_incarnation s = Some (c_claimed_by c') \<and> (\<forall>x \<in> set ss. s_id x = c_session c' \<longrightarrow> x = s))"
  shows "leases ss cs'"
  unfolding leases_def
proof (intro ballI impI)
  fix c' x assume c: "c' \<in> set cs'" "x \<in> set ss" "c_session c' = s_id x" "c_delivered_at c' = 0"
  from assms(2) [OF c(1)] show "c_claimed_by c' = '''' \<or> s_incarnation x = None \<or> s_incarnation x = Some (c_claimed_by c')"
    using c(2-4) assms(1) unfolding leases_def by metis
qed

lemma step_sess_inv:
  assumes "session_step d d'" "sess_inv d"
  shows "sess_inv d'"
proof -
  have pk: "pk_ok s_id (t_sessions d)" and L: "leases (t_sessions d) (t_commands d)"
    using assms(2) by (simp_all add: sess_inv_def)
  have pk': "pk_ok s_id (t_sessions d')" by (rule step_pk_sessions [OF assms(1) pk])
  have num: "numbered_log (t_events d')"
    using log_ext_numbered [OF step_log_ext [OF assms(1)]] assms(2) by (simp add: sess_inv_def)
  have cpk: "pk_ok c_id (t_commands d')"
    using step_command_keys [OF assms(1)] assms(2) by (force simp: sess_inv_def pk_ok_def)
  have "leases (t_sessions d') (t_commands d')"
    using step_incarnations [OF assms(1)]
  proof
    assume "\<exists>uuid now b s. register_interactive_pi_session uuid now b d = Inr (s, d')"
    then show ?thesis using leases_register(1) [OF pk L] by blast
  next
    assume k: "incarnations_kept (t_sessions d) (t_sessions d')"
    have "leases (t_sessions d) (t_commands d')"
      using assms(1) L pk
    proof (induction rule: session_step.induct)
      case (register uuid now b d s d')
      from register(1) show ?case
      proof (rule registerE)
        assume cs: "t_commands d' = release_foreign_claims (b_session_id b) (b_incarnation b) (t_commands d)"
        show ?thesis
        proof (rule leases_subset [OF register(2)])
          fix c' assume "c' \<in> set (t_commands d')"
          then obtain c where "c \<in> set (t_commands d)" "c_session c' = c_session c" "c_delivered_at c' = c_delivered_at c"
            "c_claimed_by c' = c_claimed_by c \<or> c_claimed_by c' = ''''"
            unfolding cs using release_foreign_row by blast
          then show "c_claimed_by c' = '''' \<or> (\<exists>c \<in> set (t_commands d). c_session c' = c_session c \<and>
             c_claimed_by c' = c_claimed_by c \<and> (c_delivered_at c' = 0 \<longrightarrow> c_delivered_at c = 0)) \<or>
             (\<exists>s. s_incarnation s = Some (c_claimed_by c') \<and> (\<forall>x \<in> set (t_sessions d). s_id x = c_session c' \<longrightarrow> x = s))"
            by auto
        qed
      qed
    next
      case (batch uuid now sid bb d s es d')
      from batch(1) show ?case by (rule applyE) (simp only: batch(2))
    next
      case (enqueue now c d d')
      then show ?case
        by (intro leases_subset [OF enqueue(4)])
          (auto simp: enqueue_pi_session_command_def tbl_ins_def split: sum.splits if_splits)
    next
      case (claim sid inc now lease d cs d')
      from claim(1) show ?case
      proof (rule claimE)
        fix s assume b: "bridge_session sid inc d = Inr s"
          and cs: "t_commands d' = tbl_upd (\<lambda>c. c_session c = sid \<and> c_delivered_at c = 0 \<and>
                     (c_claimed_by c = '''' \<or> c_claimed_by c = inc \<or> c_claimed_at c \<le> now - lease))
                   (\<lambda>c. c\<lparr>c_claimed_at := now, c_claimed_by := inc\<rparr>) (t_commands d)"
        show ?thesis
        proof (rule leases_subset [OF claim(2)])
          fix c' assume "c' \<in> set (t_commands d')"
          then show "c_claimed_by c' = '''' \<or> (\<exists>c \<in> set (t_commands d). c_session c' = c_session c \<and>
             c_claimed_by c' = c_claimed_by c \<and> (c_delivered_at c' = 0 \<longrightarrow> c_delivered_at c = 0)) \<or>
             (\<exists>s. s_incarnation s = Some (c_claimed_by c') \<and> (\<forall>x \<in> set (t_sessions d). s_id x = c_session c' \<longrightarrow> x = s))"
            unfolding cs
          proof (rule tbl_upd_rowE)
            fix c assume "c_session c = sid \<and> c_delivered_at c = 0 \<and>
                     (c_claimed_by c = '''' \<or> c_claimed_by c = inc \<or> c_claimed_at c \<le> now - lease)"
              "c' = c\<lparr>c_claimed_at := now, c_claimed_by := inc\<rparr>"
            then have "s_incarnation s = Some (c_claimed_by c') \<and> (\<forall>x \<in> set (t_sessions d). s_id x = c_session c' \<longrightarrow> x = s)"
              using b pk_get_session [OF claim(3)] by (auto simp: bridge_session_Inr)
            then show ?thesis by blast
          qed blast
        qed
      qed
    next
      case (ack sid cid inc now d b d')
      from ack(1) show ?case
      proof (rule ackE)
        assume cs: "t_commands d' = tbl_upd
          (\<lambda>c. c_id c = cid \<and> c_session c = sid \<and> c_claimed_by c = inc \<and> c_delivered_at c = 0)
          (\<lambda>c. c\<lparr>c_delivered_at := now\<rparr>) (t_commands d)"
        show ?thesis
        proof (rule leases_subset [OF ack(3)])
          fix c' assume "c' \<in> set (t_commands d')"
          then have "\<exists>c \<in> set (t_commands d). c_session c' = c_session c \<and>
             c_claimed_by c' = c_claimed_by c \<and> (c_delivered_at c' = 0 \<longrightarrow> c_delivered_at c = 0)"
            unfolding cs by (rule tbl_upd_rowE) (use ack(2) in auto)
          then show "c_claimed_by c' = '''' \<or> (\<exists>c \<in> set (t_commands d). c_session c' = c_session c \<and>
             c_claimed_by c' = c_claimed_by c \<and> (c_delivered_at c' = 0 \<longrightarrow> c_delivered_at c = 0)) \<or>
             (\<exists>s. s_incarnation s = Some (c_claimed_by c') \<and> (\<forall>x \<in> set (t_sessions d). s_id x = c_session c' \<longrightarrow> x = s))"
            by blast
        qed
      qed
    next
      case (sweep uuid cutoff now d ids d')
      then show ?case using stop_stale_sessions [OF sweepE(1) [OF sweep(1)]] by simp
    next
      case (block now u i q d d')
      from block(1) show ?case by (rule blockE) (simp add: block(2))
    qed (auto simp: insert_pi_session_def finish_pi_session_def
        insert_pi_session_event_def update_pi_session_meta_def
        next_pi_session_pane_sequence_def Let_def reparent_pi_session_children_def
        split: sum.splits option.splits)
    then show ?thesis by (rule incarnations_kept_leases [OF k])
  qed
  with pk' num cpk show ?thesis by (simp add: sess_inv_def)
qed

definition sess_reachable :: "database \<Rightarrow> bool" where
  "sess_reachable d = session_step\<^sup>*\<^sup>* empty_db d"

lemma sess_reachable_inv:
  assumes "sess_reachable d"
  shows "sess_inv d"
  using assms unfolding sess_reachable_def
proof (induction rule: rtranclp_induct)
  case base
  show ?case by (simp add: sess_inv_def empty_db_def pk_ok_def numbered_log_def session_log_def leases_def)
qed (rule step_sess_inv)

end
