(* ===== verification/Session_Props.thy ===== *)
theory Session_Props
  imports Session_Spec
begin

text \<open>
  The properties of the session tables in every state that the operations can reach in any
  order: the event stream, the fencing of incarnations, the command mailbox and blocked sessions.
\<close>

section \<open>The event table implements the log interface\<close>

lemma filter_numbered:
  "map sq xs = map int [Suc k..<Suc (k + length xs)] \<Longrightarrow> filter (\<lambda>x. sq x > int a) xs = drop (a - k) xs"
proof (induction xs arbitrary: k)
  case (Cons x xs)
  have u: "[Suc k..<Suc (k + length (x # xs))] = Suc k # [Suc (Suc k)..<Suc (Suc k + length xs)]"
    by (subst upt_conv_Cons) simp_all
  then have x: "sq x = int (Suc k)" "map sq xs = map int [Suc (Suc k)..<Suc (Suc k + length xs)]"
    using Cons.prems by (simp_all del: upt_Suc)
  show ?case
    using Cons.IH [OF x(2)] x(1) by (cases "a \<le> k") (auto simp: drop_Cons')
qed simp

lemma sort_numbered:
  assumes "map sq xs = map int [Suc k..<n]"
  shows "sort_key sq (drop m xs) = drop m xs"
proof (rule sort_key_id_if_sorted)
  show "sorted (map sq (drop m xs))"
    unfolding drop_map [symmetric] assms by (simp add: sorted_wrt_drop sorted_map del: upt_Suc)
qed

lemma list_events_page:
  assumes "numbered_log (t_events d)" "0 \<le> c"
  shows "list_pi_session_events sid c limit d =
    take (nat (max 1 (min limit 1000))) (drop (nat c) (session_log sid (t_events d)))"
proof -
  let ?L = "session_log sid (t_events d)"
  have n: "map e_sequence ?L = map int [Suc 0..<Suc (0 + length ?L)]"
    using assms(1) by (simp add: numbered_log_def del: upt_Suc)
  have "filter (\<lambda>e. e_session e = sid \<and> e_sequence e > max 0 c) (t_events d) =
      filter (\<lambda>e. e_sequence e > int (nat c)) ?L"
    using assms(2) by (simp add: session_log_def conj_commute)
  also have "\<dots> = drop (nat c) ?L" using filter_numbered [OF n, of "nat c"] by simp
  finally show ?thesis
    using sort_numbered [OF n] by (simp add: list_pi_session_events_def sql_limit_def)
qed

definition session_run :: "database \<Rightarrow> database \<Rightarrow> bool" where
  "session_run = session_step\<^sup>*\<^sup>*"

lemma session_run_inv: "session_run d d' \<Longrightarrow> sess_inv d \<Longrightarrow> sess_inv d'"
  unfolding session_run_def by (induction rule: rtranclp_induct) (auto intro: step_sess_inv)

lemma session_run_log: "session_run d d' \<Longrightarrow> log_ext (t_events d) (t_events d')"
  unfolding session_run_def
  by (induction rule: rtranclp_induct) (auto intro: log_ext.same log_ext_trans step_log_ext)

lemma session_log_grows: "log_ext evs evs' \<Longrightarrow> \<exists>es. session_log sid evs' = session_log sid evs @ es"
  using log_ext_prefix [of evs evs'] by (auto simp: session_log_def)

interpretation event_log: sequenced_log sess_inv session_run "\<lambda>sid d. session_log sid (t_events d)" e_sequence
  "\<lambda>sid c d. list_pi_session_events sid c 500 d" 500
proof
  show "sess_inv d' " if "sess_inv d" "session_run d d'" for d d'
    using session_run_inv that by blast
  show "map e_sequence (session_log s (t_events d)) = map int [1..<Suc (length (session_log s (t_events d)))]"
    if "sess_inv d" for d s
    using that unfolding sess_inv_def numbered_log_def by blast
  show "\<exists>es. session_log s (t_events d') = session_log s (t_events d) @ es" if "session_run d d'" for d d' s
    by (rule session_log_grows [OF session_run_log [OF that]])
  show "list_pi_session_events s c 500 d = take 500 (drop (nat c) (session_log s (t_events d)))"
    if "sess_inv d" "0 \<le> c" for d c s
    using list_events_page [of d c s 500] that by (simp add: sess_inv_def)
qed simp

text \<open>\<open>stream_pi_session_events\<close> of \<open>heartbeat.py\<close>, run over the states that its successive
  queries find; the result is what it has sent and its cursor.\<close>

definition stream_pi_session_events :: "string \<Rightarrow> int \<Rightarrow> database list \<Rightarrow> pi_event list \<times> int" where
  "stream_pi_session_events sid after ds =
     poll_log (\<lambda>c d. list_pi_session_events sid c 500 d) e_sequence (max 0 after) ds"

lemma reachable_sess_inv: "sess_reachable d \<Longrightarrow> sess_inv d"
  by (rule sess_reachable_inv)

section \<open>A reachable sample\<close>

definition demo_bridge :: bridge_register where
  "demo_bridge = \<lparr>b_session_id = ''s'', b_incarnation = ''one'', b_cwd = ''/repo'', b_resume_path = '''',
     b_name = ''pi'', b_host = ''desktop'', b_agent = ''pi'', b_attachable = False, b_term_host = '''',
     b_term_port = 0, b_term_version = 0, b_has_pending = False, b_initial_events = []\<rparr>"

definition demo_ingest :: "string \<Rightarrow> ingest_event" where
  "demo_ingest i = \<lparr>i_id = Some i, i_type = ''message-end'', i_payload = [], i_created = 3\<rparr>"

definition demo_batch :: bridge_batch where
  "demo_batch = \<lparr>bb_incarnation = ''one'', bb_state = Some WORKING, bb_detail = ''busy'', bb_has_pending = None,
     bb_events = [demo_ingest ''e1'', demo_ingest ''e2'']\<rparr>"

definition demo_prompt :: pi_command where
  "demo_prompt = (new_pi_command ''c1'' ''s'')\<lparr>c_message := ''go'', c_created := 4\<rparr>"

definition sd1 :: database where
  "sd1 = snd (projr (register_interactive_pi_session (\<lambda>_. ''u'') 1 demo_bridge empty_db))"

definition sd2 :: database where
  "sd2 = snd (snd (projr (apply_interactive_pi_events (\<lambda>_. ''u'') 3 ''s'' demo_batch sd1)))"

definition sd3 :: database where
  "sd3 = projr (enqueue_pi_session_command 4 demo_prompt sd2)"

definition sd4 :: database where
  "sd4 = projr (set_pi_session_blocked 5 ''e3'' ''s'' ''which one?'' sd3)"

definition sd5 :: database where
  "sd5 = snd (projr (claim_pi_session_commands ''s'' ''one'' 6 30 sd4))"

definition sd6 :: database where
  "sd6 = snd (projr (ack_pi_session_command ''s'' ''c1'' ''one'' 7 sd5))"

lemma demo_calls:
  "register_interactive_pi_session (\<lambda>_. ''u'') 1 demo_bridge empty_db = Inr (the (get_pi_session ''s'' sd1), sd1)"
  "apply_interactive_pi_events (\<lambda>_. ''u'') 3 ''s'' demo_batch sd1 =
     Inr (the (get_pi_session ''s'' sd2), map (\<lambda>e. e\<lparr>e_sequence := 0\<rparr>) (t_events sd2), sd2)"
  "enqueue_pi_session_command 4 demo_prompt sd2 = Inr sd3"
  "set_pi_session_blocked 5 ''e3'' ''s'' ''which one?'' sd3 = Inr sd4"
  "claim_pi_session_commands ''s'' ''one'' 6 30 sd4 = Inr (t_commands sd5, sd5)"
  "ack_pi_session_command ''s'' ''c1'' ''one'' 7 sd5 = Inr (True, sd6)"
  by code_simp+

lemma demo_steps: "session_step empty_db sd1" "session_step sd1 sd2" "session_step sd2 sd3"
  "session_step sd3 sd4" "session_step sd4 sd5" "session_step sd5 sd6"
  by (rule session_step.register [OF demo_calls(1)] session_step.batch [OF demo_calls(2)]
      session_step.enqueue [OF demo_calls(3)] session_step.block [OF demo_calls(4)]
      session_step.claim [OF demo_calls(5)] session_step.ack [OF demo_calls(6)];
      simp add: demo_prompt_def new_pi_command_def)+

lemma demo_sessions_reachable:
  "sess_reachable sd1" "sess_reachable sd2" "sess_reachable sd3" "sess_reachable sd4" "sess_reachable sd5"
  "sess_reachable sd6"
proof -
  note step = rtranclp.rtrancl_into_rtrancl [of session_step empty_db, folded sess_reachable_def]
  show 1: "sess_reachable sd1" by (rule step [OF _ demo_steps(1)]) (simp add: sess_reachable_def)
  show 2: "sess_reachable sd2" by (rule step [OF 1 demo_steps(2)])
  show 3: "sess_reachable sd3" by (rule step [OF 2 demo_steps(3)])
  show 4: "sess_reachable sd4" by (rule step [OF 3 demo_steps(4)])
  show 5: "sess_reachable sd5" by (rule step [OF 4 demo_steps(5)])
  show 6: "sess_reachable sd6" by (rule step [OF 5 demo_steps(6)])
qed

section \<open>The event stream\<close>

text \<open>
  C6.  The event log of a session is numbered 1, 2, 3, ... without gaps in the order in which the
  events were stored, and it only ever grows at its end, whatever operations run in between.
\<close>

theorem event_log_append_only:
  assumes "sess_reachable d" and "session_step\<^sup>*\<^sup>* d d'"
  shows "map e_sequence (session_log sid (t_events d)) = map int [1..<Suc (length (session_log sid (t_events d)))] \<and>
    (\<exists>es. session_log sid (t_events d') = session_log sid (t_events d) @ es)"
proof
  have inv: "sess_inv d" by (rule sess_reachable_inv [OF assms(1)])
  show "map e_sequence (session_log sid (t_events d)) = map int [1..<Suc (length (session_log sid (t_events d)))]"
    by (rule event_log.numbered [OF inv])
  show "\<exists>es. session_log sid (t_events d') = session_log sid (t_events d) @ es"
    by (rule event_log.grows [OF inv]) (simp add: session_run_def assms(2))
qed

theorem event_log_append_only_witness:
  "map e_sequence (session_log ''s'' (t_events sd2)) = [1, 2] \<and>
   (\<exists>es. session_log ''s'' (t_events sd4) = session_log ''s'' (t_events sd2) @ es)"
proof -
  have run: "session_step\<^sup>*\<^sup>* sd2 sd4"
    using demo_steps(3,4) by (meson rtranclp.simps)
  have "length (session_log ''s'' (t_events sd2)) = 2" by code_simp
  then show ?thesis
    using event_log_append_only [OF demo_sessions_reachable(2) run, of "''s''"] by (simp add: upt_rec)
qed

text \<open>
  The event stream neither loses, repeats nor reorders: a client that connects with cursor
  \<open>after\<close> has, at any moment, received exactly the events with the numbers above \<open>after\<close> up to its
  cursor, in order, however the polls interleave with writers; when a poll comes back empty the
  client has received the whole rest of the log.
\<close>

theorem stream_complete:
  assumes "sess_reachable d" and "successively session_step\<^sup>*\<^sup>* (d # ds)"
    and "stream_pi_session_events sid after (d # ds) = (es, cursor)"
  defines "L \<equiv> session_log sid (t_events (last (d # ds)))"
  shows "es = take (nat cursor - nat after) (drop (nat after) L) \<and> length es = nat cursor - nat after \<and>
    (list_pi_session_events sid cursor 500 (last (d # ds)) = [] \<longrightarrow> es = drop (nat after) L)"
proof -
  have inv: "sess_inv d" by (rule sess_reachable_inv [OF assms(1)])
  have ch: "successively session_run (d # ds)" using assms(2) by (simp add: session_run_def)
  have run: "poll_log (\<lambda>c d. list_pi_session_events sid c 500 d) e_sequence (max 0 after) (d # ds) = (es, cursor)"
    using assms(3) by (simp only: stream_pi_session_events_def)
  have a: "nat (max 0 after) = nat after" "0 \<le> max 0 after" by simp_all
  show ?thesis
    using event_log.poll_contiguous [OF inv ch a(2) run] event_log.poll_caught_up [OF inv ch a(2) run]
    unfolding a(1) L_def by blast
qed

theorem stream_complete_witness:
  "fst (stream_pi_session_events ''s'' 1 [sd2, sd3, sd4]) = drop 1 (session_log ''s'' (t_events sd4))"
proof -
  have ch: "successively session_step\<^sup>*\<^sup>* [sd2, sd3, sd4]"
    using demo_steps(3,4) by (auto intro: r_into_rtranclp)
  have st: "stream_pi_session_events ''s'' 1 (sd2 # [sd3, sd4]) =
      (fst (stream_pi_session_events ''s'' 1 [sd2, sd3, sd4]), 3)"
    by code_simp
  have "list_pi_session_events ''s'' 3 500 (last (sd2 # [sd3, sd4])) = []" by code_simp
  then have "fst (stream_pi_session_events ''s'' 1 [sd2, sd3, sd4]) =
      drop (nat 1) (session_log ''s'' (t_events (last (sd2 # [sd3, sd4]))))"
    using stream_complete [OF demo_sessions_reachable(2) ch st] by blast
  then show ?thesis by simp
qed

section \<open>Fencing\<close>

text \<open>A step that does not register incarnation \<open>inc\<close> for session \<open>sid\<close>.\<close>

definition step_without :: "string \<Rightarrow> string \<Rightarrow> database \<Rightarrow> database \<Rightarrow> bool" where
  "step_without sid inc d d' = (session_step d d' \<and>
     \<not> (\<exists>uuid now b s. b_session_id b = sid \<and> b_incarnation b = inc \<and>
        register_interactive_pi_session uuid now b d = Inr (s, d')))"

definition fenced :: "string \<Rightarrow> string \<Rightarrow> database \<Rightarrow> bool" where
  "fenced sid inc d = (\<forall>s \<in> set (t_sessions d). s_id s = sid \<longrightarrow> s_incarnation s \<noteq> Some inc)"

lemma fenced_step:
  assumes "step_without sid inc d d'" "sess_inv d" "fenced sid inc d"
  shows "fenced sid inc d'"
  unfolding fenced_def
proof (intro ballI impI notI)
  fix s' assume s': "s' \<in> set (t_sessions d')" "s_id s' = sid" "s_incarnation s' = Some inc"
  have st: "session_step d d'" and no: "\<And>uuid now b s. register_interactive_pi_session uuid now b d = Inr (s, d') \<Longrightarrow>
      b_session_id b = sid \<Longrightarrow> b_incarnation b \<noteq> inc"
    using assms(1) by (auto simp: step_without_def)
  have pk': "pk_ok s_id (t_sessions d')" and I: "pk_ok s_id (t_sessions d)" "leases (t_sessions d) (t_commands d)"
    using step_sess_inv [OF st assms(2)] assms(2) by (simp_all add: sess_inv_def)
  from step_incarnations [OF st] show False
  proof
    assume "\<exists>uuid now b s. register_interactive_pi_session uuid now b d = Inr (s, d')"
    then obtain uuid now b s where r: "register_interactive_pi_session uuid now b d = Inr (s, d')" by blast
    note R = leases_register [OF I r]
    show False
    proof (cases "b_session_id b = sid")
      case True
      have "get_pi_session sid d' = Some s" using r True by (rule_tac registerE) auto
      then have "s' = s" by (rule pk_get_session [OF pk' _ s'(1,2)])
      with R(3) no [OF r True] s'(3) show False by simp
    next
      case False
      then have "s' \<in> set (t_sessions d)" using R(2) [OF s'(1)] s'(2) by simp
      with assms(3) s'(2,3) show False by (simp add: fenced_def)
    qed
  next
    assume "incarnations_kept (t_sessions d) (t_sessions d')"
    with s' assms(3) show False unfolding incarnations_kept_def fenced_def by fastforce
  qed
qed

lemma fenced_run:
  assumes "(step_without sid inc)\<^sup>*\<^sup>* d d'" "sess_inv d" "fenced sid inc d"
  shows "fenced sid inc d' \<and> sess_inv d'"
  using assms
proof (induction rule: rtranclp_induct)
  case (step y z)
  then show ?case using fenced_step step_sess_inv unfolding step_without_def by blast
qed simp

lemma fenced_bridge: "fenced sid inc d \<Longrightarrow> \<exists>e. bridge_session sid inc d = Inl e"
  unfolding fenced_def bridge_session_def get_pi_session_def
  by (auto split: option.split dest: tbl_get_in tbl_get_key)

lemma fenced_rejects:
  assumes "fenced sid inc d"
  shows "\<not> ok (apply_interactive_pi_events uuid now sid b d) \<or> bb_incarnation b \<noteq> inc"
    and "\<not> ok (claim_pi_session_commands sid inc now lease d)"
    and "\<not> ok (ack_pi_session_command sid cid inc now d)"
  using fenced_bridge [OF assms]
  by (auto simp: apply_interactive_pi_events_def claim_pi_session_commands_def ack_pi_session_command_def)


definition demo_bridge2 :: bridge_register where
  "demo_bridge2 = demo_bridge\<lparr>b_incarnation := ''two''\<rparr>"


section \<open>The command mailbox\<close>

lemma sort_key_map: "(\<And>x. k (f x) = k x) \<Longrightarrow> sort_key k (map f xs) = map f (sort_key k xs)"
proof (induction xs)
  case (Cons x xs)
  have ins: "insort_key k (f x) (map f ys) = map f (insort_key k x ys)" for x ys
    using Cons.prems by (induction ys) auto
  show ?case using Cons by (simp add: ins)
qed simp

lemma filter_tbl_upd_eq:
  assumes "\<And>r. r \<in> set rows \<Longrightarrow> p r = q r" "\<And>r. r \<in> set rows \<Longrightarrow> q r \<Longrightarrow> u (f r)"
    and "\<And>r. r \<in> set rows \<Longrightarrow> \<not> q r \<Longrightarrow> \<not> u r"
  shows "filter u (tbl_upd p f rows) = map f (filter q rows)"
  using assms by (induction rows) auto

text \<open>
  A claim by the current bridge returns the whole backlog: every command of the session that
  is not yet delivered, in the order of creation (insertion order among equal times), each one
  marked as claimed by this incarnation now, whatever older incarnations had claimed before and
  whatever the lease time is.
\<close>

theorem claim_returns_backlog:
  assumes "sess_reachable d" and "claim_pi_session_commands sid inc now lease d = Inr (cs, d')"
  shows "cs = map (\<lambda>c. c\<lparr>c_claimed_at := now, c_claimed_by := inc\<rparr>)
    (sort_key c_created (filter (\<lambda>c. c_session c = sid \<and> c_delivered_at c = 0) (t_commands d)))"
  using assms(2)
proof (rule claimE)
  fix s assume b: "bridge_session sid inc d = Inr s"
    and d': "t_commands d' = tbl_upd (\<lambda>c. c_session c = sid \<and> c_delivered_at c = 0 \<and>
               (c_claimed_by c = '''' \<or> c_claimed_by c = inc \<or> c_claimed_at c \<le> now - lease))
             (\<lambda>c. c\<lparr>c_claimed_at := now, c_claimed_by := inc\<rparr>) (t_commands d)"
    and cs: "cs = sort_key c_created
          (filter (\<lambda>c. c_session c = sid \<and> c_delivered_at c = 0 \<and> c_claimed_by c = inc) (t_commands d'))"
  have inv: "leases (t_sessions d) (t_commands d)"
    using sess_reachable_inv [OF assms(1)] by (simp add: sess_inv_def)
  have s: "s \<in> set (t_sessions d)" "s_id s = sid" "s_incarnation s = Some inc"
    using b by (auto simp: bridge_session_Inr get_pi_session_def dest: tbl_get_in tbl_get_key)
  have mine: "c_claimed_by c = '''' \<or> c_claimed_by c = inc"
    if "c \<in> set (t_commands d)" "c_session c = sid" "c_delivered_at c = 0" for c
  proof -
    have "c_claimed_by c = '''' \<or> s_incarnation s = None \<or> s_incarnation s = Some (c_claimed_by c)"
      using inv that s(1,2) unfolding leases_def by metis
    with s(3) show ?thesis by auto
  qed
  have "filter (\<lambda>c. c_session c = sid \<and> c_delivered_at c = 0 \<and> c_claimed_by c = inc) (t_commands d') =
      map (\<lambda>c. c\<lparr>c_claimed_at := now, c_claimed_by := inc\<rparr>)
        (filter (\<lambda>c. c_session c = sid \<and> c_delivered_at c = 0) (t_commands d))"
    unfolding d' by (rule filter_tbl_upd_eq) (use mine in auto)
  then show ?thesis unfolding cs by (simp add: sort_key_map)
qed

theorem claim_returns_backlog_witness:
  "map c_id (t_commands sd5) = [''c1''] \<and>
   t_commands sd5 = map (\<lambda>c. c\<lparr>c_claimed_at := 6, c_claimed_by := ''one''\<rparr>)
     (sort_key c_created (filter (\<lambda>c. c_session c = ''s'' \<and> c_delivered_at c = 0) (t_commands sd4)))"
proof -
  have "map c_id (t_commands sd5) = [''c1'']" by code_simp
  with claim_returns_backlog [OF demo_sessions_reachable(4) demo_calls(5)] show ?thesis by blast
qed

lemma delivered_run:
  assumes "session_step\<^sup>*\<^sup>* d d'" "c \<in> set (t_commands d)" "c_delivered_at c \<noteq> 0"
  shows "c \<in> set (t_commands d')"
  using assms(1)
proof (induction rule: rtranclp_induct)
  case (step y z)
  with step_command_keys [OF step(2)] assms(3) show ?case by blast
qed (rule assms(2))

lemma acknowledged_gone:
  assumes "sess_reachable d" and "ack_pi_session_command sid cid inc now d = Inr (True, d1)" and "0 < now"
    and "session_step\<^sup>*\<^sup>* d1 d2"
  shows "ack_pi_session_command sid' cid inc' now' d2 \<noteq> Inr (True, d3)"
    and "claim_pi_session_commands sid' inc' now' lease d2 = Inr (cs, d3) \<Longrightarrow> cid \<notin> c_id ` set cs"
proof -
  have r1: "session_step d d1" by (rule session_step.ack [OF assms(2,3)])
  have inv2: "sess_inv d2"
    using session_run_inv [unfolded session_run_def, OF assms(4)] step_sess_inv [OF r1 sess_reachable_inv [OF assms(1)]]
    by blast
  then have pk: "pk_ok c_id (t_commands d2)" by (simp add: sess_inv_def)
  obtain c where "c \<in> set (t_commands d1)" "c_id c = cid" "c_delivered_at c \<noteq> 0"
    using assms(2)
  proof (rule ackE)
    assume b: "True \<longleftrightarrow> (\<exists>c \<in> set (t_commands d). c_id c = cid \<and> c_session c = sid \<and> c_claimed_by c = inc \<and> c_delivered_at c = 0)"
      and d1: "t_commands d1 = tbl_upd (\<lambda>c. c_id c = cid \<and> c_session c = sid \<and> c_claimed_by c = inc \<and> c_delivered_at c = 0)
          (\<lambda>c. c\<lparr>c_delivered_at := now\<rparr>) (t_commands d)"
    from b obtain c where c: "c \<in> set (t_commands d)"
      "c_id c = cid \<and> c_session c = sid \<and> c_claimed_by c = inc \<and> c_delivered_at c = 0" by blast
    show ?thesis
    proof (rule that)
      show "c\<lparr>c_delivered_at := now\<rparr> \<in> set (t_commands d1)"
        unfolding d1 by (rule tbl_upd_rowI [OF c(1)]) (simp add: c(2))
    qed (use c(2) assms(3) in simp_all)
  qed
  then have c: "c \<in> set (t_commands d2)" "c_id c = cid" "c_delivered_at c \<noteq> 0"
    using delivered_run [OF assms(4)] by blast+
  have gone: "c_delivered_at x \<noteq> 0" if "x \<in> set (t_commands d2)" "c_id x = cid" for x
    using pk_ok_unique [OF pk that(1) c(1)] that(2) c(2,3) by simp
  show "ack_pi_session_command sid' cid inc' now' d2 \<noteq> Inr (True, d3)"
  proof
    assume "ack_pi_session_command sid' cid inc' now' d2 = Inr (True, d3)"
    then show False by (rule ackE) (use gone in blast)
  qed
  show "cid \<notin> c_id ` set cs" if cl: "claim_pi_session_commands sid' inc' now' lease d2 = Inr (cs, d3)"
  proof
    assume "cid \<in> c_id ` set cs"
    moreover have st: "session_step d2 d3" by (rule session_step.claim [OF cl])
    then have "pk_ok c_id (t_commands d3)" "c \<in> set (t_commands d3)"
      using step_sess_inv [OF st inv2] step_command_keys [OF st] c by (auto simp: sess_inv_def)
    moreover have "set cs \<subseteq> {x \<in> set (t_commands d3). c_delivered_at x = 0}"
      using cl by (rule claimE) auto
    ultimately obtain x where "x \<in> set (t_commands d3)" "c_delivered_at x = 0" "c_id x = c_id c"
      using c(2) by auto
    then show False
      using pk_ok_unique [OF \<open>pk_ok c_id (t_commands d3)\<close> _ \<open>c \<in> set (t_commands d3)\<close>] c(3) by auto
  qed
qed

text \<open>
  C9.  At-most-once delivery: after a command has been acknowledged, no later claim, by whatever
  bridge, hands it out again, and no later acknowledgement of it succeeds.
\<close>

theorem acknowledged_once:
  assumes "sess_reachable d" and "ack_pi_session_command sid cid inc now d = Inr (True, d1)" and "0 < now"
    and "session_step\<^sup>*\<^sup>* d1 d2"
  shows "(case ack_pi_session_command sid' cid inc' now' d2 of Inl _ \<Rightarrow> True | Inr (b, _) \<Rightarrow> \<not> b) \<and>
    (case claim_pi_session_commands sid' inc' now' lease d2 of Inl _ \<Rightarrow> True | Inr (cs, _) \<Rightarrow> cid \<notin> c_id ` set cs)"
  using acknowledged_gone [OF assms] by (auto split: sum.split)

theorem acknowledged_once_witness:
  "case ack_pi_session_command ''s'' ''c1'' ''one'' 9 sd6 of Inl _ \<Rightarrow> True | Inr (b, _) \<Rightarrow> \<not> b"
  using acknowledged_once [OF demo_sessions_reachable(5) demo_calls(6) _ rtranclp.rtrancl_refl,
      where sid' = "''s''" and inc' = "''one''" and now' = 9] by simp

section \<open>Event batches\<close>

lemma persist_all_ids:
  assumes "\<forall>ev \<in> set es. \<exists>i. i_id ev = Some i \<and> i \<noteq> ''''"
  shows "\<forall>ev \<in> set es. the (i_id ev) \<in> e_id ` set (snd (persist_events uuid now sid n es evs))"
  using assms
proof (induction es arbitrary: n evs)
  case (Cons ev es)
  let ?e = "new_event (or_uuid (i_id ev) (uuid n)) sid (i_type ev) (i_payload ev) (or_now (i_created ev) now)"
  let ?evs = "snd (insert_event_or_ignore ?e evs)"
  have snd: "snd (persist_events uuid now sid n (ev # es) evs) = snd (persist_events uuid now sid (Suc n) es ?evs)"
    by (simp add: Let_def split: prod.splits)
  obtain i where i: "i_id ev = Some i" "i \<noteq> ''''" using Cons.prems by auto
  then have "i \<in> e_id ` set ?evs"
    by (auto simp: insert_event_or_ignore_def new_event_def or_uuid_def)
  moreover obtain xs where "snd (persist_events uuid now sid (Suc n) es ?evs) = ?evs @ xs"
    using log_ext_prefix [OF persist_events_ext [of ?evs uuid now sid "Suc n" es]] by blast
  ultimately have "i \<in> e_id ` set (snd (persist_events uuid now sid (Suc n) es ?evs))" by auto
  with Cons.IH [of "Suc n" ?evs] Cons.prems i(1) show ?case unfolding snd by auto
qed simp

lemma persist_known:
  assumes "\<forall>ev \<in> set es. \<exists>i. i_id ev = Some i \<and> i \<noteq> '''' \<and> i \<in> e_id ` set evs"
  shows "persist_events uuid now sid n es evs = ([], evs)"
  using assms
proof (induction es arbitrary: n)
  case (Cons ev es)
  then obtain i where "i_id ev = Some i" "i \<noteq> ''''" "i \<in> e_id ` set evs" by auto
  then have "insert_event_or_ignore (new_event (or_uuid (i_id ev) (uuid n)) sid (i_type ev) (i_payload ev)
      (or_now (i_created ev) now)) evs = (False, evs)"
    by (simp add: insert_event_or_ignore_def new_event_def or_uuid_def)
  with Cons show ?case by simp
qed simp

lemma batch_state_idem: "batch_state b (batch_state b st) = batch_state b st"
  by (simp add: batch_state_def terminal_state_def split: option.split)

text \<open>
  Retrying an event batch is harmless: if every event carries an id, sending the same batch
  again stores nothing, leaves the whole event log as it is and changes the session row only in
  the time it was last seen.
\<close>

theorem batch_retry_idempotent:
  assumes "apply_interactive_pi_events uuid now sid b d = Inr (s, es, d')" and "pk_ok s_id (t_sessions d)"
    and "\<forall>ev \<in> set (bb_events b). \<exists>i. i_id ev = Some i \<and> i \<noteq> ''''"
  shows "\<exists>d''. apply_interactive_pi_events uuid' now' sid b d' = Inr (s\<lparr>s_last_seen := now'\<rparr>, [], d'') \<and>
    t_events d'' = t_events d' \<and> t_commands d'' = t_commands d'"
proof -
  obtain s0 where s0: "bridge_session sid (bb_incarnation b) d = Inr s0"
    using assms(1) unfolding apply_interactive_pi_events_def by (cases "bridge_session sid (bb_incarnation b) d") simp_all
  obtain ps evs where p: "persist_events uuid now sid 0 (bb_events b) (t_events d) = (ps, evs)"
    by (rule prod.exhaust)
  define u where "u = (\<exists>c \<in> set (t_commands d). c_session c = sid \<and> c_delivered_at c = 0)"
  define f where "f = batch_update now b ps s0 u"
  have "(Inr (f s0, ps, d\<lparr>t_events := evs, t_sessions := tbl_upd (\<lambda>r. s_id r = sid) f (t_sessions d)\<rparr>) ::
      (pi_session \<times> pi_event list \<times> database) res) = Inr (s, es, d')"
    using assms(1) unfolding apply_interactive_pi_events_def s0 sum.case p prod.case Let_def f_def u_def .
  then have D: "s = f s0" "d' = d\<lparr>t_events := evs, t_sessions := tbl_upd (\<lambda>r. s_id r = sid) f (t_sessions d)\<rparr>"
    by simp_all
  have g: "get_pi_session sid d = Some s0" "s_incarnation s0 = Some (bb_incarnation b)"
    using s0 by (simp_all add: bridge_session_Inr)
  have "s_id s0 = sid" using g(1) by (auto simp: get_pi_session_def dest: tbl_get_key)
  moreover have "tbl_get s_id sid (tbl_upd (\<lambda>r. s_id r = sid) f (t_sessions d)) =
      (case tbl_get s_id sid (t_sessions d) of None \<Rightarrow> None | Some r \<Rightarrow> Some (if s_id r = sid then f r else r))"
    by (rule tbl_get_upd) (simp add: f_def)
  ultimately have "get_pi_session sid d' = Some s"
    using g(1) by (simp add: get_pi_session_def D)
  then have b': "bridge_session sid (bb_incarnation b) d' = Inr s"
    using g(2) by (simp add: bridge_session_Inr D(1) f_def)
  have "\<forall>ev \<in> set (bb_events b). the (i_id ev) \<in> e_id ` set evs"
    using persist_all_ids [OF assms(3), of uuid now sid 0 "t_events d"] p by simp
  then have p': "persist_events uuid' now' sid 0 (bb_events b) (t_events d') = ([], t_events d')"
    using assms(3) by (intro persist_known) (auto simp: D(2), force)
  have u': "(\<exists>c \<in> set (t_commands d'). c_session c = sid \<and> c_delivered_at c = 0) = u"
    by (simp add: D(2) u_def)
  have "batch_update now' b [] s u s = s\<lparr>s_last_seen := now'\<rparr>"
    unfolding D(1) f_def
    by (cases "bb_has_pending b") (auto simp: batch_update_def Let_def batch_state_idem)
  then show ?thesis
    unfolding apply_interactive_pi_events_def b' sum.case p' prod.case Let_def u' by simp
qed

theorem batch_retry_idempotent_witness:
  "\<exists>d''. apply_interactive_pi_events (\<lambda>_. ''v'') 9 ''s'' demo_batch sd2 =
     Inr ((the (get_pi_session ''s'' sd2))\<lparr>s_last_seen := 9\<rparr>, [], d'') \<and>
     t_events d'' = t_events sd2 \<and> t_commands d'' = t_commands sd2"
proof (rule batch_retry_idempotent [OF demo_calls(2)])
  show "pk_ok s_id (t_sessions sd1)" by code_simp
  show "\<forall>ev \<in> set (bb_events demo_batch). \<exists>i. i_id ev = Some i \<and> i \<noteq> ''''"
    by (simp add: demo_batch_def demo_ingest_def)
qed

section \<open>Blocked sessions\<close>

lemma get_session_upd:
  assumes "t_sessions d' = tbl_upd p f (t_sessions d)" "\<And>r. s_id (f r) = s_id r" "get_pi_session sid d = Some s"
  shows "get_pi_session sid d' = Some (if p s then f s else s)"
proof -
  have "tbl_get s_id sid (tbl_upd p f (t_sessions d)) =
      (case tbl_get s_id sid (t_sessions d) of None \<Rightarrow> None | Some r \<Rightarrow> Some (if p r then f r else r))"
    by (rule tbl_get_upd) (rule assms(2))
  with assms(1,3) show ?thesis by (simp add: get_pi_session_def)
qed

lemma blocked_ack:
  assumes "ack_pi_session_command sid' cid inc now d = Inr (b, d')"
    and "get_pi_session sid d = Some s" "s_state s = BLOCKED" and pk: "pk_ok c_id (t_commands d)"
  shows "\<forall>s'. get_pi_session sid d' = Some s' \<longrightarrow> s_state s' = BLOCKED \<or> terminal_state (s_state s') \<or>
    (s_state s' = WORKING \<and> (\<exists>c \<in> set (t_commands d). \<exists>inc now. c_session c = sid \<and> c_kind c = ''prompt'' \<and>
       c_delivered_at c = 0 \<and> ack_pi_session_command sid (c_id c) inc now d = Inr (True, d')))"
  using assms(1)
proof (rule ackE)
  assume b: "b \<longleftrightarrow> (\<exists>c \<in> set (t_commands d). c_id c = cid \<and> c_session c = sid' \<and> c_claimed_by c = inc \<and> c_delivered_at c = 0)"
  let ?f = "\<lambda>r. r\<lparr>s_state := WORKING, s_question := '''', s_updated := now\<rparr>"
  fix s0 assume d': "t_sessions d' = (if b \<and> (\<exists>c. find (\<lambda>c. c_id c = cid \<and> c_session c = sid') (t_commands d) = Some c \<and>
            c_kind c = ''prompt'') \<and> s_state s0 = BLOCKED
          then tbl_upd (\<lambda>r. s_id r = sid') ?f (t_sessions d) else t_sessions d)"
  show ?thesis
  proof (cases "t_sessions d' = t_sessions d \<or> s_id s \<noteq> sid'")
    case True
    moreover have "t_sessions d' = t_sessions d \<or> t_sessions d' = tbl_upd (\<lambda>r. s_id r = sid') ?f (t_sessions d)"
      using d' by (simp split: if_split)
    ultimately have "get_pi_session sid d' = Some s"
      using get_session_upd [of d' "\<lambda>r. s_id r = sid'" ?f d sid s] assms(2) by (auto simp: get_pi_session_def)
    with assms(3) show ?thesis by simp
  next
    case False
    then have c: "b" "\<exists>c. find (\<lambda>c. c_id c = cid \<and> c_session c = sid') (t_commands d) = Some c \<and> c_kind c = ''prompt''"
      and u: "t_sessions d' = tbl_upd (\<lambda>r. s_id r = sid') ?f (t_sessions d)"
      using d' by (auto split: if_splits)
    have sid: "sid' = sid" using False assms(2) by (auto simp: get_pi_session_def dest: tbl_get_key)
    obtain c2 where c2: "c2 \<in> set (t_commands d)" "c_id c2 = cid" "c_session c2 = sid'" "c_kind c2 = ''prompt''"
      using c(2) by (auto dest: find_SomeD)
    obtain c1 where c1: "c1 \<in> set (t_commands d)" "c_id c1 = cid" "c_delivered_at c1 = 0"
      using c(1) b by blast
    have "c1 = c2" using pk_ok_unique [OF pk c1(1) c2(1)] c1(2) c2(2) by simp
    then have "\<exists>c \<in> set (t_commands d). \<exists>inc now. c_session c = sid \<and> c_kind c = ''prompt'' \<and>
       c_delivered_at c = 0 \<and> ack_pi_session_command sid (c_id c) inc now d = Inr (True, d')"
      using c1 c2 assms(1) c(1) sid by (intro bexI [OF _ c2(1)]) auto
    moreover have "get_pi_session sid d' = Some (?f s)"
      using get_session_upd [OF u _ assms(2)] False by simp
    ultimately show ?thesis by simp
  qed
qed



end
