(* ===== verification/Rows.thy ===== *)
theory Rows
  imports Models
begin

text \<open>
  Rows of SQLite in \<open>db.py\<close>: how the repository writes its objects into columns and how the
  \<open>_row_to_...\<close> methods read them back.  A row maps column names to cells; a TEXT column that holds a
  JSON document holds the document, because \<open>json.loads\<close> inverts \<open>json.dumps\<close>.  A value of a type
  that no writer of the repository stores there is an error, without the lenient conversions of pydantic.
\<close>

section \<open>Cells and documents\<close>

datatype doc = DNull | DBool bool | DInt int | DReal rat | DText string | DList "doc list" | DDict "(string \<times> doc) list"

datatype cell = CNull | CInt int | CReal rat | CText string | CDoc doc

type_synonym row = "(string \<times> cell) list"

fun and_then :: "'a res \<Rightarrow> ('a \<Rightarrow> 'b res) \<Rightarrow> 'b res" where
  "and_then (Inl err) f = Inl err"
| "and_then (Inr x) f = f x"

text \<open>\<open>row["name"]\<close>, which raises for a column that does not exist, and the guarded
  \<open>row["name"] if "name" in row.keys() else default\<close>.\<close>

definition column :: "row \<Rightarrow> string \<Rightarrow> (cell \<Rightarrow> 'a res) \<Rightarrow> 'a res" where
  "column r name conv = (case map_of r name of None \<Rightarrow> Inl (KeyErr name) | Some c \<Rightarrow> conv c)"

definition column_or :: "row \<Rightarrow> string \<Rightarrow> (cell \<Rightarrow> 'a res) \<Rightarrow> 'a \<Rightarrow> 'a res" where
  "column_or r name conv dflt = (case map_of r name of None \<Rightarrow> Inr dflt | Some c \<Rightarrow> conv c)"

section \<open>Conversions\<close>

fun text_of :: "cell \<Rightarrow> string res" where
  "text_of (CText s) = Inr s"
| "text_of c = Inl (ValueErr ''Input should be a valid string'')"

fun opt_text_of :: "cell \<Rightarrow> string option res" where
  "opt_text_of CNull = Inr None"
| "opt_text_of (CText s) = Inr (Some s)"
| "opt_text_of c = Inl (ValueErr ''Input should be a valid string'')"

fun int_of :: "cell \<Rightarrow> int res" where
  "int_of (CInt n) = Inr n"
| "int_of c = Inl (ValueErr ''Input should be a valid integer'')"

fun opt_int_of :: "cell \<Rightarrow> int option res" where
  "opt_int_of CNull = Inr None"
| "opt_int_of (CInt n) = Inr (Some n)"
| "opt_int_of c = Inl (ValueErr ''Input should be a valid integer'')"

fun real_of :: "cell \<Rightarrow> rat res" where
  "real_of (CReal x) = Inr x"
| "real_of (CInt n) = Inr (of_int n)"
| "real_of c = Inl (ValueErr ''Input should be a valid number'')"

text \<open>\<open>bool(...)\<close>, which never raises.\<close>

fun bool_of :: "cell \<Rightarrow> bool res" where
  "bool_of CNull = Inr False"
| "bool_of (CInt n) = Inr (n \<noteq> 0)"
| "bool_of (CReal x) = Inr (x \<noteq> 0)"
| "bool_of (CText s) = Inr (s \<noteq> '''')"
| "bool_of (CDoc v) = Inr True"

text \<open>\<open>json.loads(row[...])\<close>, and the idiom with \<open>or "[]"\<close>.\<close>

fun loads :: "cell \<Rightarrow> doc res" where
  "loads (CDoc v) = Inr v"
| "loads (CText s) = Inl (ValueErr ''Expecting value'')"
| "loads c = Inl (RuntimeErr ''the JSON object must be str, bytes or bytearray'')"

definition loads_or :: "doc \<Rightarrow> cell \<Rightarrow> doc res" where
  "loads_or dflt c = (if c = CNull \<or> c = CText '''' \<or> c = CInt 0 \<or> c = CReal 0 then Inr dflt else loads c)"

fun doc_text :: "doc \<Rightarrow> string res" where
  "doc_text (DText s) = Inr s"
| "doc_text v = Inl (ValueErr ''Input should be a valid string'')"

fun doc_int :: "doc \<Rightarrow> int res" where
  "doc_int (DInt n) = Inr n"
| "doc_int v = Inl (ValueErr ''Input should be a valid integer'')"

fun doc_real :: "doc \<Rightarrow> rat res" where
  "doc_real (DReal x) = Inr x"
| "doc_real (DInt n) = Inr (of_int n)"
| "doc_real v = Inl (ValueErr ''Input should be a valid number'')"

fun flag_doc :: "bool option \<Rightarrow> doc" where
  "flag_doc None = DNull"
| "flag_doc (Some b) = DBool b"

fun doc_flag :: "doc \<Rightarrow> bool option res" where
  "doc_flag DNull = Inr None"
| "doc_flag (DBool b) = Inr (Some b)"
| "doc_flag v = Inl (ValueErr ''Input should be a valid boolean'')"

fun each :: "('a \<Rightarrow> 'b res) \<Rightarrow> 'a list \<Rightarrow> 'b list res" where
  "each f [] = Inr []"
| "each f (x # xs) = and_then (f x) (\<lambda>y. and_then (each f xs) (\<lambda>ys. Inr (y # ys)))"

fun doc_list :: "(doc \<Rightarrow> 'a res) \<Rightarrow> doc \<Rightarrow> 'a list res" where
  "doc_list f (DList vs) = each f vs"
| "doc_list f v = Inl (ValueErr ''Input should be a valid list'')"

definition list_of :: "(doc \<Rightarrow> 'a res) \<Rightarrow> cell \<Rightarrow> 'a list res" where
  "list_of f c = and_then (loads c) (doc_list f)"

definition list_or_empty :: "(doc \<Rightarrow> 'a res) \<Rightarrow> cell \<Rightarrow> 'a list res" where
  "list_or_empty f c = and_then (loads_or (DList []) c) (doc_list f)"

lemma each_cong [fundef_cong]:
  "\<lbrakk>xs = ys; \<And>x. x \<in> set ys \<Longrightarrow> f x = g x\<rbrakk> \<Longrightarrow> each f xs = each g ys"
  by (induction xs arbitrary: ys) auto

lemma and_then_cong [fundef_cong]:
  "\<lbrakk>m = n; \<And>x. n = Inr x \<Longrightarrow> f x = g x\<rbrakk> \<Longrightarrow> and_then m f = and_then n g"
  by (cases m) auto

text \<open>A session's \<open>meta\<close> holds scalars, a payload any JSON without fractions.\<close>

fun scalar_doc :: "scalar \<Rightarrow> doc" where
  "scalar_doc SNull = DNull"
| "scalar_doc (SBool b) = DBool b"
| "scalar_doc (SInt n) = DInt n"
| "scalar_doc (SStr s) = DText s"

fun doc_scalar :: "doc \<Rightarrow> scalar res" where
  "doc_scalar DNull = Inr SNull"
| "doc_scalar (DBool b) = Inr (SBool b)"
| "doc_scalar (DInt n) = Inr (SInt n)"
| "doc_scalar (DText s) = Inr (SStr s)"
| "doc_scalar v = Inl (ValueErr ''unsupported value'')"

fun json_doc :: "json \<Rightarrow> doc" where
  "json_doc JNull = DNull"
| "json_doc (JBool b) = DBool b"
| "json_doc (JInt n) = DInt n"
| "json_doc (JStr s) = DText s"
| "json_doc (JArr vs) = DList (map json_doc vs)"
| "json_doc (JObj kvs) = DDict (map (\<lambda>kv. (fst kv, json_doc (snd kv))) kvs)"

function doc_json :: "doc \<Rightarrow> json res" where
  "doc_json DNull = Inr JNull"
| "doc_json (DBool b) = Inr (JBool b)"
| "doc_json (DInt n) = Inr (JInt n)"
| "doc_json (DReal x) = Inl (ValueErr ''unsupported value'')"
| "doc_json (DText s) = Inr (JStr s)"
| "doc_json (DList vs) = and_then (each doc_json vs) (\<lambda>xs. Inr (JArr xs))"
| "doc_json (DDict kvs) = and_then (each (\<lambda>kv. and_then (doc_json (snd kv)) (\<lambda>v. Inr (fst kv, v))) kvs) (\<lambda>xs. Inr (JObj xs))"
  by pat_completeness auto
termination
proof (relation "measure size")
  fix kvs :: "(string \<times> doc) list" and kv
  assume "kv \<in> set kvs"
  then have "size (snd kv) < Suc (size_list (size_prod (\<lambda>_. 0) size) kvs)"
    by (induction kvs) (auto split: prod.splits)
  then show "(snd kv, DDict kvs) \<in> measure size" by simp
qed (auto simp: less_Suc_eq_le intro: size_list_estimation')

definition meta_doc :: "meta \<Rightarrow> doc" where
  "meta_doc m = DDict (map (\<lambda>kv. (fst kv, scalar_doc (snd kv))) m)"

definition payload_doc :: "(string \<times> json) list \<Rightarrow> doc" where
  "payload_doc kvs = DDict (map (\<lambda>kv. (fst kv, json_doc (snd kv))) kvs)"

fun doc_dict :: "(doc \<Rightarrow> 'a res) \<Rightarrow> doc \<Rightarrow> (string \<times> 'a) list res" where
  "doc_dict f (DDict kvs) = each (\<lambda>kv. and_then (f (snd kv)) (\<lambda>v. Inr (fst kv, v))) kvs"
| "doc_dict f v = Inl (ValueErr ''Input should be a valid dictionary'')"

definition meta_of :: "cell \<Rightarrow> meta res" where
  "meta_of c = and_then (loads_or (DDict []) c) (doc_dict doc_scalar)"

definition payload_of :: "cell \<Rightarrow> (string \<times> json) list res" where
  "payload_of c = and_then (loads_or (DDict []) c) (doc_dict doc_json)"

definition opt_text_cell :: "string option \<Rightarrow> cell" where
  "opt_text_cell v = (case v of None \<Rightarrow> CNull | Some s \<Rightarrow> CText s)"

definition opt_int_cell :: "int option \<Rightarrow> cell" where
  "opt_int_cell v = (case v of None \<Rightarrow> CNull | Some n \<Rightarrow> CInt n)"

definition int_of_bool :: "bool \<Rightarrow> int" where
  "int_of_bool b = (if b then 1 else 0)"

section \<open>Enums by their stored value\<close>

fun session_type_value :: "session_type \<Rightarrow> string" where
  "session_type_value INTERACTIVE = ''interactive''"
| "session_type_value GLOBAL_ROUTER = ''global-router''"

fun job_kind_value :: "job_kind \<Rightarrow> string" where
  "job_kind_value SSH = ''ssh''"
| "job_kind_value DELEGATED = ''delegated''"

text \<open>\<open>Enum(value)\<close>: the member with this value, or a ValueError.\<close>

definition member_of :: "('e \<Rightarrow> string) \<Rightarrow> 'e list \<Rightarrow> string \<Rightarrow> 'e res" where
  "member_of val members s = (case find (\<lambda>e. val e = s) members of None \<Rightarrow> Inl (ValueErr s) | Some e \<Rightarrow> Inr e)"

definition worker_status_of :: "string \<Rightarrow> worker_status res" where
  "worker_status_of = member_of worker_status_value [ONLINE, OFFLINE, DRAINING]"

definition session_type_of :: "string \<Rightarrow> session_type res" where
  "session_type_of = member_of session_type_value [INTERACTIVE, GLOBAL_ROUTER]"

definition session_state_of :: "string \<Rightarrow> session_state res" where
  "session_state_of = member_of session_state_value
     [QUEUED, S_STARTING, WORKING, BLOCKED, IDLE, STOPPED, S_FAILED, TERMINATION_UNKNOWN]"

definition job_kind_of :: "string \<Rightarrow> job_kind res" where
  "job_kind_of = member_of job_kind_value [SSH, DELEGATED]"

definition enum_of :: "(string \<Rightarrow> 'e res) \<Rightarrow> cell \<Rightarrow> 'e res" where
  "enum_of f c = and_then (text_of c) f"

section \<open>Writers and readers\<close>

text \<open>The values bound to an INSERT, by column, and the reader of a row.  The number of an event comes from
  the trigger, the id of a failure from AUTOINCREMENT.\<close>

definition encode_worker :: "worker \<Rightarrow> row" where
  "encode_worker w =
    [(''id'', CText (w_id w)), (''name'', CText (w_name w)), (''worker_ip'', CText (w_ip w)), (''dns_name'', CText (w_dns w)),
     (''ssh_user'', CText (w_ssh_user w)), (''harness_dir'', CText (w_harness_dir w)), (''gpu_count'', CInt (w_gpu_count w)),
     (''gpu_names'', CDoc (DList (map DText (w_gpu_names w)))), (''gpu_vram_gb'', CDoc (DList (map DReal (w_gpu_vram w)))),
     (''gpu_used_vram_gb'', CDoc (DList (map DReal (w_gpu_used w)))),
     (''gpu_busy'', CDoc (DList (map flag_doc (w_gpu_busy w)))), (''cpu_cores'', CInt (w_cpu_cores w)),
     (''total_ram_gb'', CReal (w_total_ram w)), (''used_ram_gb'', CReal (w_used_ram w)),
     (''total_disk_gb'', CReal (w_total_disk w)), (''used_disk_gb'', CReal (w_used_disk w)),
     (''data_paths'', CDoc (DList (map DText (w_data_paths w)))), (''status'', CText (worker_status_value (w_status w))),
     (''last_heartbeat_ts'', CInt (w_heartbeat w)), (''created_at'', CInt (w_created w))]"

definition decode_worker :: "row \<Rightarrow> worker res" where
  "decode_worker r =
    and_then (column r ''id'' text_of) (\<lambda>v_id. and_then (column r ''name'' text_of) (\<lambda>v_name.
    and_then (column r ''worker_ip'' text_of) (\<lambda>v_ip. and_then (column r ''dns_name'' text_of) (\<lambda>v_dns.
    and_then (column r ''ssh_user'' text_of) (\<lambda>v_ssh_user.
    and_then (column r ''harness_dir'' text_of) (\<lambda>v_harness_dir.
    and_then (column r ''gpu_count'' int_of) (\<lambda>v_gpu_count.
    and_then (column r ''gpu_names'' (list_of doc_text)) (\<lambda>v_gpu_names.
    and_then (column r ''gpu_vram_gb'' (list_of doc_real)) (\<lambda>v_gpu_vram.
    and_then (column r ''gpu_used_vram_gb'' (list_of doc_real)) (\<lambda>v_gpu_used.
    and_then (column r ''gpu_busy'' (list_or_empty doc_flag)) (\<lambda>v_gpu_busy.
    and_then (column r ''cpu_cores'' int_of) (\<lambda>v_cpu_cores.
    and_then (column r ''total_ram_gb'' real_of) (\<lambda>v_total_ram.
    and_then (column r ''used_ram_gb'' real_of) (\<lambda>v_used_ram.
    and_then (column r ''total_disk_gb'' real_of) (\<lambda>v_total_disk.
    and_then (column r ''used_disk_gb'' real_of) (\<lambda>v_used_disk.
    and_then (column r ''data_paths'' (list_or_empty doc_text)) (\<lambda>v_data_paths.
    and_then (column r ''status'' (enum_of worker_status_of)) (\<lambda>v_status.
    and_then (column r ''last_heartbeat_ts'' int_of) (\<lambda>v_heartbeat.
    and_then (column r ''created_at'' int_of) (\<lambda>v_created.
    Inr \<lparr>w_id = v_id, w_name = v_name, w_ip = v_ip, w_dns = v_dns, w_ssh_user = v_ssh_user,
      w_harness_dir = v_harness_dir, w_gpu_count = v_gpu_count, w_gpu_names = v_gpu_names, w_gpu_vram = v_gpu_vram,
      w_gpu_used = v_gpu_used, w_gpu_busy = v_gpu_busy, w_cpu_cores = v_cpu_cores, w_total_ram = v_total_ram,
      w_used_ram = v_used_ram, w_total_disk = v_total_disk, w_used_disk = v_used_disk, w_data_paths = v_data_paths,
      w_status = v_status, w_heartbeat = v_heartbeat, w_created = v_created\<rparr>))))))))))))))))))))"

definition encode_pi_session :: "pi_session \<Rightarrow> row" where
  "encode_pi_session s =
    [(''id'', CText (s_id s)), (''worker_id'', opt_text_cell (s_worker_id s)),
     (''parent_session_id'', opt_text_cell (s_parent s)), (''session_type'', CText (session_type_value (s_type s))),
     (''state'', CText (session_state_value (s_state s))), (''task'', CText (s_task s)), (''cwd'', CText (s_cwd s)),
     (''tmux_session'', CText (s_tmux s)), (''detail'', CText (s_detail s)), (''role'', CText (s_role s)),
     (''token_hash'', CText (s_token_hash s)), (''question'', CText (s_question s)), (''meta'', CDoc (meta_doc (s_meta s))),
     (''name'', CText (s_name s)), (''host'', CText (s_host s)), (''agent'', CText (s_agent s)),
     (''bridge_incarnation'', opt_text_cell (s_incarnation s)),
     (''terminal_attachable'', CInt (int_of_bool (s_attachable s))), (''terminal_host'', CText (s_term_host s)),
     (''terminal_port'', CInt (s_term_port s)), (''terminal_protocol_version'', CInt (s_term_version s)),
     (''has_pending_messages'', CInt (int_of_bool (s_has_pending s))), (''last_seen'', CInt (s_last_seen s)),
     (''created_at'', CInt (s_created s)), (''updated_at'', CInt (s_updated s))]"

definition decode_pi_session :: "row \<Rightarrow> pi_session res" where
  "decode_pi_session r =
    and_then (column r ''id'' text_of) (\<lambda>v_id. and_then (column r ''worker_id'' opt_text_of) (\<lambda>v_worker_id.
    and_then (column r ''parent_session_id'' opt_text_of) (\<lambda>v_parent.
    and_then (column r ''session_type'' (enum_of session_type_of)) (\<lambda>v_type.
    and_then (column r ''state'' (enum_of session_state_of)) (\<lambda>v_state.
    and_then (column r ''task'' text_of) (\<lambda>v_task. and_then (column r ''cwd'' text_of) (\<lambda>v_cwd.
    and_then (column r ''tmux_session'' text_of) (\<lambda>v_tmux.
    and_then (column r ''detail'' text_of) (\<lambda>v_detail.
    and_then (column_or r ''role'' text_of '''') (\<lambda>v_role.
    and_then (column_or r ''token_hash'' text_of '''') (\<lambda>v_token_hash.
    and_then (column_or r ''question'' text_of '''') (\<lambda>v_question.
    and_then (column_or r ''meta'' meta_of []) (\<lambda>v_meta.
    and_then (column_or r ''name'' text_of '''') (\<lambda>v_name.
    and_then (column_or r ''host'' text_of '''') (\<lambda>v_host.
    and_then (column_or r ''agent'' text_of ''pi'') (\<lambda>v_agent.
    and_then (column_or r ''bridge_incarnation'' opt_text_of None) (\<lambda>v_incarnation.
    and_then (column_or r ''terminal_attachable'' bool_of False) (\<lambda>v_attachable.
    and_then (column_or r ''terminal_host'' text_of '''') (\<lambda>v_term_host.
    and_then (column_or r ''terminal_port'' int_of 0) (\<lambda>v_term_port.
    and_then (column_or r ''terminal_protocol_version'' int_of 0) (\<lambda>v_term_version.
    and_then (column_or r ''has_pending_messages'' bool_of False) (\<lambda>v_has_pending.
    and_then (column_or r ''last_seen'' int_of 0) (\<lambda>v_last_seen.
    and_then (column r ''created_at'' int_of) (\<lambda>v_created.
    and_then (column r ''updated_at'' int_of) (\<lambda>v_updated.
    Inr \<lparr>s_id = v_id, s_worker_id = v_worker_id, s_parent = v_parent, s_type = v_type, s_state = v_state,
      s_task = v_task, s_cwd = v_cwd, s_tmux = v_tmux, s_detail = v_detail, s_role = v_role,
      s_token_hash = v_token_hash, s_question = v_question, s_meta = v_meta, s_name = v_name, s_host = v_host,
      s_agent = v_agent, s_incarnation = v_incarnation, s_attachable = v_attachable, s_term_host = v_term_host,
      s_term_port = v_term_port, s_term_version = v_term_version, s_has_pending = v_has_pending,
      s_last_seen = v_last_seen, s_created = v_created, s_updated = v_updated\<rparr>)))))))))))))))))))))))))"

definition encode_pi_command :: "pi_command \<Rightarrow> row" where
  "encode_pi_command c =
    [(''id'', CText (c_id c)), (''session_id'', CText (c_session c)), (''kind'', CText (c_kind c)),
     (''message'', CText (c_message c)), (''deliver_as'', CText (c_deliver_as c)),
     (''payload'', CDoc (payload_doc (c_payload c))), (''created_at'', CInt (c_created c)),
     (''claimed_at'', CInt (c_claimed_at c)), (''claimed_by'', CText (c_claimed_by c)),
     (''delivered_at'', CInt (c_delivered_at c))]"

definition decode_pi_command :: "row \<Rightarrow> pi_command res" where
  "decode_pi_command r =
    and_then (column r ''id'' text_of) (\<lambda>v_id. and_then (column r ''session_id'' text_of) (\<lambda>v_session.
    and_then (column r ''kind'' text_of) (\<lambda>v_kind. and_then (column r ''message'' text_of) (\<lambda>v_message.
    and_then (column r ''deliver_as'' text_of) (\<lambda>v_deliver_as.
    and_then (column r ''payload'' payload_of) (\<lambda>v_payload.
    and_then (column r ''created_at'' int_of) (\<lambda>v_created.
    and_then (column r ''claimed_at'' int_of) (\<lambda>v_claimed_at.
    and_then (column r ''claimed_by'' text_of) (\<lambda>v_claimed_by.
    and_then (column r ''delivered_at'' int_of) (\<lambda>v_delivered_at.
    Inr \<lparr>c_id = v_id, c_session = v_session, c_kind = v_kind, c_message = v_message, c_deliver_as = v_deliver_as,
      c_payload = v_payload, c_created = v_created, c_claimed_at = v_claimed_at, c_claimed_by = v_claimed_by,
      c_delivered_at = v_delivered_at\<rparr>))))))))))"

definition encode_pi_event :: "pi_event \<Rightarrow> row" where
  "encode_pi_event e =
    [(''id'', CText (e_id e)), (''session_id'', CText (e_session e)), (''event_type'', CText (e_type e)),
     (''payload'', CDoc (payload_doc (e_payload e))), (''created_at'', CInt (e_created e))]"

definition decode_pi_event :: "row \<Rightarrow> pi_event res" where
  "decode_pi_event r =
    and_then (column r ''id'' text_of) (\<lambda>v_id. and_then (column r ''session_id'' text_of) (\<lambda>v_session.
    and_then (column r ''event_type'' text_of) (\<lambda>v_type.
    and_then (column r ''payload'' payload_of) (\<lambda>v_payload.
    and_then (column r ''created_at'' int_of) (\<lambda>v_created.
    and_then (column r ''sequence'' int_of) (\<lambda>v_sequence.
    Inr \<lparr>e_id = v_id, e_session = v_session, e_type = v_type, e_payload = v_payload, e_created = v_created,
      e_sequence = v_sequence\<rparr>))))))"

definition encode_job :: "job \<Rightarrow> row" where
  "encode_job j =
    [(''id'', CText (j_id j)), (''worker_id'', opt_text_cell (j_worker j)), (''name'', CText (j_name j)),
     (''tmux_session'', CText (j_tmux j)), (''command'', CText (j_command j)),
     (''status'', CText (job_status_value (j_status j))), (''queue_managed'', CInt (int_of_bool (j_queue_managed j))),
     (''exit_code'', opt_int_cell (j_exit_code j)), (''pty_enabled'', CInt (int_of_bool (j_pty j))),
     (''kind'', CText (job_kind_value (j_kind j))), (''origin_session_id'', opt_text_cell (j_origin j)),
     (''report_revision'', CInt (j_revision j)), (''expected_seconds'', CInt (j_expected j)),
     (''gpu_count'', CInt (j_gpu_count j)), (''gpu_indices'', CDoc (DList (map DInt (j_gpus j)))),
     (''queue_order'', CInt (j_order j)), (''started_at'', CInt (j_started j)), (''finished_at'', CInt (j_finished j))]"

definition decode_job :: "row \<Rightarrow> job res" where
  "decode_job r =
    and_then (column r ''id'' text_of) (\<lambda>v_id. and_then (column r ''worker_id'' opt_text_of) (\<lambda>v_worker.
    and_then (column_or r ''name'' text_of '''') (\<lambda>v_name.
    and_then (column r ''tmux_session'' text_of) (\<lambda>v_tmux.
    and_then (column r ''command'' text_of) (\<lambda>v_command.
    and_then (column r ''status'' (enum_of job_status_of)) (\<lambda>v_status.
    and_then (column_or r ''queue_managed'' bool_of False) (\<lambda>v_queue_managed.
    and_then (column r ''exit_code'' opt_int_of) (\<lambda>v_exit_code.
    and_then (column r ''pty_enabled'' bool_of) (\<lambda>v_pty.
    and_then (column_or r ''kind'' (enum_of job_kind_of) SSH) (\<lambda>v_kind.
    and_then (column_or r ''origin_session_id'' opt_text_of None) (\<lambda>v_origin.
    and_then (column_or r ''report_revision'' int_of 0) (\<lambda>v_revision.
    and_then (column_or r ''expected_seconds'' int_of 0) (\<lambda>v_expected.
    and_then (column_or r ''gpu_count'' int_of 0) (\<lambda>v_gpu_count.
    and_then (column_or r ''gpu_indices'' (list_of doc_int) []) (\<lambda>v_gpus.
    and_then (column_or r ''queue_order'' int_of 0) (\<lambda>v_order.
    and_then (column r ''started_at'' int_of) (\<lambda>v_started.
    and_then (column r ''finished_at'' int_of) (\<lambda>v_finished.
    Inr \<lparr>j_id = v_id, j_worker = v_worker, j_name = v_name, j_tmux = v_tmux, j_command = v_command, j_status = v_status,
      j_queue_managed = v_queue_managed, j_exit_code = v_exit_code, j_pty = v_pty, j_kind = v_kind,
      j_origin = v_origin, j_revision = v_revision, j_expected = v_expected, j_gpu_count = v_gpu_count,
      j_gpus = v_gpus, j_order = v_order, j_started = v_started, j_finished = v_finished\<rparr>))))))))))))))))))"

definition encode_pf :: "port_forward \<Rightarrow> row" where
  "encode_pf p =
    [(''id'', CText (pf_id p)), (''worker_id'', CText (pf_worker p)), (''local_port'', CInt (pf_local p)),
     (''remote_port'', CInt (pf_remote p)), (''service_name'', CText (pf_service p)), (''pid'', CInt (pf_pid p)),
     (''created_at'', CInt (pf_created p))]"

definition decode_pf :: "row \<Rightarrow> port_forward res" where
  "decode_pf r =
    and_then (column r ''id'' text_of) (\<lambda>v_id. and_then (column r ''worker_id'' text_of) (\<lambda>v_worker.
    and_then (column r ''local_port'' int_of) (\<lambda>v_local.
    and_then (column r ''remote_port'' int_of) (\<lambda>v_remote.
    and_then (column r ''service_name'' text_of) (\<lambda>v_service. and_then (column r ''pid'' int_of) (\<lambda>v_pid.
    and_then (column r ''created_at'' int_of) (\<lambda>v_created.
    Inr \<lparr>pf_id = v_id, pf_worker = v_worker, pf_local = v_local, pf_remote = v_remote, pf_service = v_service,
      pf_pid = v_pid, pf_created = v_created\<rparr>)))))))"

definition encode_marimo :: "marimo_session \<Rightarrow> row" where
  "encode_marimo m =
    [(''id'', CText (m_id m)), (''worker_id'', CText (m_worker m)), (''notebook_path'', CText (m_notebook m)),
     (''environment'', CText (m_environment m)), (''job_id'', CText (m_job m)), (''tunnel_id'', CText (m_tunnel m)),
     (''local_port'', CInt (m_local m)), (''remote_port'', CInt (m_remote m)), (''bind_host'', CText (m_bind m)),
     (''url'', CText (m_url m)), (''status'', CText (m_status m)), (''created_at'', CInt (m_created m))]"

definition decode_marimo :: "row \<Rightarrow> marimo_session res" where
  "decode_marimo r =
    and_then (column r ''id'' text_of) (\<lambda>v_id. and_then (column r ''worker_id'' text_of) (\<lambda>v_worker.
    and_then (column r ''notebook_path'' text_of) (\<lambda>v_notebook.
    and_then (column r ''environment'' text_of) (\<lambda>v_environment.
    and_then (column r ''job_id'' text_of) (\<lambda>v_job. and_then (column r ''tunnel_id'' text_of) (\<lambda>v_tunnel.
    and_then (column r ''local_port'' int_of) (\<lambda>v_local.
    and_then (column r ''remote_port'' int_of) (\<lambda>v_remote.
    and_then (column r ''bind_host'' text_of) (\<lambda>v_bind. and_then (column r ''url'' text_of) (\<lambda>v_url.
    and_then (column r ''status'' text_of) (\<lambda>v_status.
    and_then (column r ''created_at'' int_of) (\<lambda>v_created.
    Inr \<lparr>m_id = v_id, m_worker = v_worker, m_notebook = v_notebook, m_environment = v_environment, m_job = v_job,
      m_tunnel = v_tunnel, m_local = v_local, m_remote = v_remote, m_bind = v_bind, m_url = v_url,
      m_status = v_status, m_created = v_created\<rparr>))))))))))))"

definition encode_failure :: "failure \<Rightarrow> row" where
  "encode_failure f =
    [(''job_id'', CText (f_job f)), (''worker_id'', CText (f_worker f)), (''exit_code'', CInt (f_exit f)),
     (''timestamp'', CInt (f_time f)), (''summary'', CText (f_summary f))]"

definition decode_failure :: "row \<Rightarrow> failure res" where
  "decode_failure r =
    and_then (column r ''id'' int_of) (\<lambda>v_id. and_then (column r ''job_id'' text_of) (\<lambda>v_job.
    and_then (column r ''worker_id'' text_of) (\<lambda>v_worker. and_then (column r ''exit_code'' int_of) (\<lambda>v_exit.
    and_then (column r ''timestamp'' int_of) (\<lambda>v_time. and_then (column r ''summary'' text_of) (\<lambda>v_summary.
    Inr \<lparr>f_id = v_id, f_job = v_job, f_worker = v_worker, f_exit = v_exit, f_time = v_time, f_summary = v_summary\<rparr>))))))"

section \<open>What is written is read back\<close>

text \<open>A row carries the values that were written, whatever other columns its table has.\<close>

definition carries :: "row \<Rightarrow> row \<Rightarrow> bool" where
  "carries r vals = list_all (\<lambda>v. map_of r (fst v) = Some (snd v)) vals"

lemma and_then_Inr [simp]: "and_then m Inr = m"
  by (cases m) auto

lemma each_map_Inr: "list_all (\<lambda>x. f (g x) = Inr x) xs \<Longrightarrow> each f (map g xs) = Inr xs"
  by (induction xs) auto

lemma each_pairs_Inr:
  "list_all (\<lambda>kv. f (g (snd kv)) = Inr (snd kv)) kvs \<Longrightarrow>
   each (\<lambda>kv. and_then (f (snd kv)) (\<lambda>v. Inr (fst kv, v))) (map (\<lambda>kv. (fst kv, g (snd kv))) kvs) = Inr kvs"
  by (induction kvs) auto

named_theorems row_simps \<open>a written cell is read back\<close>

lemma doc_flag_doc [row_simps]: "doc_flag (flag_doc b) = Inr b"
  by (cases b) auto

lemma doc_scalar_doc [row_simps]: "doc_scalar (scalar_doc v) = Inr v"
  by (cases v) auto

lemma doc_json_doc [row_simps]: "doc_json (json_doc v) = Inr v"
proof (induction v)
  case (JArr vs)
  then have "each doc_json (map json_doc vs) = Inr vs" by (intro each_map_Inr) (simp add: list_all_iff)
  then show ?case by simp
next
  case (JObj kvs)
  then have "list_all (\<lambda>kv. doc_json (json_doc (snd kv)) = Inr (snd kv)) kvs"
    by (fastforce simp: list_all_iff)
  from each_pairs_Inr [where f = doc_json and g = json_doc, OF this] show ?case by simp
qed simp_all

lemma meta_of_doc [row_simps]: "meta_of (CDoc (meta_doc m)) = Inr m"
  using each_pairs_Inr [where f = doc_scalar and g = scalar_doc and kvs = m]
  by (simp add: meta_of_def loads_or_def meta_doc_def list_all_iff row_simps)

lemma payload_of_doc [row_simps]: "payload_of (CDoc (payload_doc kvs)) = Inr kvs"
  using each_pairs_Inr [where f = doc_json and g = json_doc and kvs = kvs]
  by (simp add: payload_of_def loads_or_def payload_doc_def list_all_iff row_simps)

lemma list_of_doc:
  "list_all (\<lambda>x. f (g x) = Inr x) xs \<Longrightarrow> list_of f (CDoc (DList (map g xs))) = Inr xs"
  "list_all (\<lambda>x. f (g x) = Inr x) xs \<Longrightarrow> list_or_empty f (CDoc (DList (map g xs))) = Inr xs"
  by (simp_all add: list_of_def list_or_empty_def loads_or_def each_map_Inr)

lemma list_cells [row_simps]:
  "list_of doc_text (CDoc (DList (map DText ss))) = Inr ss" "list_or_empty doc_text (CDoc (DList (map DText ss))) = Inr ss"
  "list_of doc_real (CDoc (DList (map DReal rs))) = Inr rs" "list_of doc_int (CDoc (DList (map DInt ns))) = Inr ns"
  "list_or_empty doc_flag (CDoc (DList (map flag_doc bs))) = Inr bs"
  by (rule list_of_doc; simp add: list_all_iff row_simps)+

lemma opt_cells [row_simps]: "opt_text_of (opt_text_cell a) = Inr a" "opt_int_of (opt_int_cell b) = Inr b"
  by (simp_all add: opt_text_cell_def opt_int_cell_def split: option.split)

lemma bool_cells [row_simps]: "bool_of (CInt (int_of_bool b)) = Inr b" "(int_of_bool b \<noteq> 0) = b"
  by (simp_all add: int_of_bool_def)

lemma enum_cells [row_simps]:
  "enum_of worker_status_of (CText (worker_status_value ws)) = Inr ws"
  "enum_of session_type_of (CText (session_type_value st)) = Inr st"
  "enum_of session_state_of (CText (session_state_value ss)) = Inr ss"
  "enum_of job_kind_of (CText (job_kind_value jk)) = Inr jk"
  "enum_of job_status_of (CText (job_status_value js)) = Inr js"
  subgoal by (cases ws) (simp_all add: enum_of_def worker_status_of_def member_of_def)
  subgoal by (cases st) (simp_all add: enum_of_def session_type_of_def member_of_def)
  subgoal by (cases ss) (simp_all add: enum_of_def session_state_of_def member_of_def)
  subgoal by (cases jk) (simp_all add: enum_of_def job_kind_of_def member_of_def)
  subgoal by (simp add: enum_of_def job_status_roundtrip)
  done

lemma columns [row_simps]:
  "map_of r c = Some v \<Longrightarrow> column r c f = f v"
  "map_of r c = Some v \<Longrightarrow> column_or r c f d = f v"
  by (simp_all add: column_def column_or_def)

lemma carries_simps [row_simps]: "carries r [] = True" "carries r (v # vs) \<longleftrightarrow> map_of r (fst v) = Some (snd v) \<and> carries r vs"
  by (simp_all add: carries_def)

lemma decode_encode_worker: "carries r (encode_worker w) \<Longrightarrow> decode_worker r = Inr w"
  by (simp add: encode_worker_def decode_worker_def row_simps)

lemma decode_encode_pi_session: "carries r (encode_pi_session s) \<Longrightarrow> decode_pi_session r = Inr s"
  by (simp add: encode_pi_session_def decode_pi_session_def row_simps)

lemma decode_encode_pi_command: "carries r (encode_pi_command c) \<Longrightarrow> decode_pi_command r = Inr c"
  by (simp add: encode_pi_command_def decode_pi_command_def row_simps)

lemma decode_encode_pi_event: "carries r ((''sequence'', CInt (e_sequence e)) # encode_pi_event e) \<Longrightarrow> decode_pi_event r = Inr e"
  by (simp add: encode_pi_event_def decode_pi_event_def row_simps)

lemma decode_encode_job: "carries r (encode_job j) \<Longrightarrow> decode_job r = Inr j"
  by (simp add: encode_job_def decode_job_def row_simps)

lemma decode_encode_pf: "carries r (encode_pf p) \<Longrightarrow> decode_pf r = Inr p"
  by (simp add: encode_pf_def decode_pf_def row_simps)

lemma decode_encode_marimo: "carries r (encode_marimo m) \<Longrightarrow> decode_marimo r = Inr m"
  by (simp add: encode_marimo_def decode_marimo_def row_simps)

lemma decode_encode_failure: "carries r ((''id'', CInt (f_id f)) # encode_failure f) \<Longrightarrow> decode_failure r = Inr f"
  by (simp add: encode_failure_def decode_failure_def row_simps)

end
