(* ===== verification/Schema.thy ===== *)
theory Schema
  imports Rows
begin

text \<open>
  \<open>Database._init_schema\<close> of \<open>db.py\<close>: the tables it creates, the columns it adds to databases of earlier
  versions, the numbering of old events and the removal of delegated sessions.  A table has declared
  columns and rows in rowid order.  Keys, references and column types are not enforced here; defaults
  and NOT NULL are.  Statements that change the schema are committed at once until a statement that
  changes rows has opened a transaction, which only the end of the method commits.
\<close>

section \<open>Databases\<close>

record column_decl =
  cd_name :: string
  cd_default :: cell
  cd_required :: bool

record sql_table =
  sq_columns :: "column_decl list"
  sq_rows :: "row list"

record sqlite =
  sq_tables :: "string \<Rightarrow> sql_table option"
  sq_indexes :: "string list"
  sq_triggers :: "string list"

definition plain :: "string \<Rightarrow> column_decl" where
  "plain n = \<lparr>cd_name = n, cd_default = CNull, cd_required = False\<rparr>"

definition mandatory :: "string \<Rightarrow> column_decl" where
  "mandatory n = \<lparr>cd_name = n, cd_default = CNull, cd_required = True\<rparr>"

definition defaulted :: "string \<Rightarrow> cell \<Rightarrow> column_decl" where
  "defaulted n c = \<lparr>cd_name = n, cd_default = c, cd_required = False\<rparr>"

definition filled :: "string \<Rightarrow> cell \<Rightarrow> column_decl" where
  "filled n c = \<lparr>cd_name = n, cd_default = c, cd_required = True\<rparr>"

definition no_text :: cell where "no_text = CText ''''"
definition no_list :: cell where "no_list = CDoc (DList [])"
definition no_dict :: cell where "no_dict = CDoc (DDict [])"

text \<open>\<open>PRAGMA table_info\<close>, which has no rows for a table that does not exist.\<close>

definition names :: "sql_table \<Rightarrow> string list" where
  "names t = map cd_name (sq_columns t)"

definition table_info :: "string \<Rightarrow> sqlite \<Rightarrow> string list" where
  "table_info t d = (case sq_tables d t of None \<Rightarrow> [] | Some tab \<Rightarrow> names tab)"

definition put :: "string \<Rightarrow> sql_table \<Rightarrow> sqlite \<Rightarrow> sqlite" where
  "put t tab d = d\<lparr>sq_tables := (sq_tables d)(t := Some tab)\<rparr>"

text \<open>A statement on a table that needs some columns of it.\<close>

definition on_table :: "string \<Rightarrow> string list \<Rightarrow> (sql_table \<Rightarrow> sqlite res) \<Rightarrow> sqlite \<Rightarrow> sqlite res" where
  "on_table t cols f d = (case sq_tables d t of
     None \<Rightarrow> Inl (RuntimeErr (''no such table: '' @ t))
   | Some tab \<Rightarrow> if set cols \<subseteq> set (names tab) then f tab else Inl (RuntimeErr ''no such column''))"

definition create_table :: "string \<Rightarrow> column_decl list \<Rightarrow> sqlite \<Rightarrow> sqlite" where
  "create_table t cols d = (case sq_tables d t of None \<Rightarrow> put t \<lparr>sq_columns = cols, sq_rows = []\<rparr> d | Some _ \<Rightarrow> d)"

definition widened :: "column_decl \<Rightarrow> sql_table \<Rightarrow> sql_table" where
  "widened cd tab = \<lparr>sq_columns = sq_columns tab @ [cd], sq_rows = map (\<lambda>r. r @ [(cd_name cd, cd_default cd)]) (sq_rows tab)\<rparr>"

definition add_column :: "string \<Rightarrow> column_decl \<Rightarrow> sqlite \<Rightarrow> sqlite res" where
  "add_column t cd d = on_table t [] (\<lambda>tab.
     if cd_name cd \<in> set (names tab) then Inl (RuntimeErr (''duplicate column name: '' @ cd_name cd))
     else if cd_required cd \<and> cd_default cd = CNull then Inl (RuntimeErr ''Cannot add a NOT NULL column with default value NULL'')
     else Inr (put t (widened cd tab) d)) d"

definition set_cell :: "string \<Rightarrow> cell \<Rightarrow> row \<Rightarrow> row" where
  "set_cell n c r = map (\<lambda>v. if fst v = n then (n, c) else v) r"

definition cell_at :: "row \<Rightarrow> string \<Rightarrow> cell" where
  "cell_at r n = (case map_of r n of None \<Rightarrow> CNull | Some c \<Rightarrow> c)"

text \<open>SQL equality, which is not true of NULL, and membership in the result of a subquery.\<close>

definition same :: "cell \<Rightarrow> cell \<Rightarrow> bool" where
  "same a b = (a \<noteq> CNull \<and> a = b)"

definition among :: "cell \<Rightarrow> cell list \<Rightarrow> bool" where
  "among a cs = list_ex (same a) cs"

text \<open>A unique index refuses rows that agree on all its columns and have no NULL there.\<close>

fun repeated :: "cell list list \<Rightarrow> bool" where
  "repeated [] = False"
| "repeated (k # ks) = ((CNull \<notin> set k \<and> k \<in> set ks) \<or> repeated ks)"

definition create_index :: "bool \<Rightarrow> string \<Rightarrow> string \<Rightarrow> string list \<Rightarrow> sqlite \<Rightarrow> sqlite res" where
  "create_index unique i t cols d =
     (if i \<in> set (sq_indexes d) then Inr d
      else on_table t cols (\<lambda>tab.
        if unique \<and> repeated (map (\<lambda>r. map (cell_at r) cols) (sq_rows tab)) then Inl (IntegrityErr i)
        else Inr (d\<lparr>sq_indexes := sq_indexes d @ [i]\<rparr>)) d)"

definition create_trigger :: "string \<Rightarrow> string \<Rightarrow> sqlite \<Rightarrow> sqlite res" where
  "create_trigger i t d = on_table t [] (\<lambda>_. Inr (if i \<in> set (sq_triggers d) then d else d\<lparr>sq_triggers := sq_triggers d @ [i]\<rparr>)) d"

definition drop_table :: "string \<Rightarrow> sqlite \<Rightarrow> sqlite" where
  "drop_table t d = d\<lparr>sq_tables := (sq_tables d)(t := None)\<rparr>"

definition update_rows :: "string \<Rightarrow> string list \<Rightarrow> (row list \<Rightarrow> row list) \<Rightarrow> sqlite \<Rightarrow> sqlite res" where
  "update_rows t cols f d = on_table t cols (\<lambda>tab. Inr (put t (tab\<lparr>sq_rows := f (sq_rows tab)\<rparr>) d)) d"

section \<open>The tables of the repository\<close>

definition workers_table :: "column_decl list" where
  "workers_table = [plain ''id'', mandatory ''name'', mandatory ''worker_ip'', filled ''dns_name'' no_text,
     filled ''ssh_user'' (CText ''root''), filled ''harness_dir'' (CText ''/harness''), defaulted ''gpu_count'' (CInt 0),
     defaulted ''gpu_names'' no_list, defaulted ''gpu_vram_gb'' no_list, defaulted ''gpu_used_vram_gb'' no_list,
     defaulted ''gpu_busy'' no_list, defaulted ''cpu_cores'' (CInt 0), defaulted ''total_ram_gb'' (CInt 0),
     defaulted ''used_ram_gb'' (CInt 0), defaulted ''total_disk_gb'' (CInt 0), defaulted ''used_disk_gb'' (CInt 0),
     defaulted ''data_paths'' no_list, defaulted ''status'' (CText ''offline''), defaulted ''last_heartbeat_ts'' (CInt 0),
     defaulted ''created_at'' (CInt 0)]"

definition jobs_table :: "column_decl list" where
  "jobs_table = [plain ''id'', plain ''worker_id'', filled ''name'' no_text, plain ''tmux_session'', mandatory ''command'',
     defaulted ''status'' (CText ''pending''), filled ''queue_managed'' (CInt 0), plain ''exit_code'',
     defaulted ''pty_enabled'' (CInt 1), filled ''kind'' (CText ''ssh''), plain ''origin_session_id'',
     filled ''report_revision'' (CInt 0), filled ''expected_seconds'' (CInt 0), filled ''gpu_count'' (CInt 0),
     filled ''gpu_indices'' no_list, filled ''queue_order'' (CInt 0), defaulted ''started_at'' (CInt 0),
     defaulted ''finished_at'' (CInt 0)]"

definition port_forwards_table :: "column_decl list" where
  "port_forwards_table = [plain ''id'', plain ''worker_id'', mandatory ''local_port'', mandatory ''remote_port'',
     defaulted ''service_name'' no_text, defaulted ''pid'' (CInt 0), defaulted ''created_at'' (CInt 0)]"

definition marimo_sessions_table :: "column_decl list" where
  "marimo_sessions_table = [plain ''id'', plain ''worker_id'', mandatory ''notebook_path'', mandatory ''environment'',
     mandatory ''job_id'', mandatory ''tunnel_id'', mandatory ''local_port'', mandatory ''remote_port'', mandatory ''bind_host'',
     mandatory ''url'', filled ''status'' (CText ''ready''), defaulted ''created_at'' (CInt 0)]"

definition failures_table :: "column_decl list" where
  "failures_table = [plain ''id'', plain ''job_id'', plain ''worker_id'', plain ''exit_code'', plain ''timestamp'', plain ''summary'']"

definition pi_sessions_table :: "column_decl list" where
  "pi_sessions_table = [plain ''id'', plain ''worker_id'', plain ''parent_session_id'', mandatory ''session_type'',
     mandatory ''state'', defaulted ''task'' no_text, defaulted ''cwd'' no_text, defaulted ''tmux_session'' no_text,
     defaulted ''detail'' no_text, defaulted ''role'' no_text, defaulted ''token_hash'' no_text, defaulted ''question'' no_text,
     defaulted ''meta'' no_dict, defaulted ''name'' no_text, defaulted ''host'' no_text, defaulted ''agent'' (CText ''pi''),
     plain ''bridge_incarnation'', defaulted ''terminal_attachable'' (CInt 0), defaulted ''terminal_host'' no_text,
     defaulted ''terminal_port'' (CInt 0), defaulted ''terminal_protocol_version'' (CInt 0),
     defaulted ''has_pending_messages'' (CInt 0), defaulted ''last_seen'' (CInt 0), defaulted ''created_at'' (CInt 0),
     defaulted ''updated_at'' (CInt 0)]"

definition pi_session_events_table :: "column_decl list" where
  "pi_session_events_table = [plain ''id'', mandatory ''session_id'', mandatory ''event_type'', defaulted ''payload'' no_dict,
     defaulted ''created_at'' (CInt 0), filled ''sequence'' (CInt 0)]"

definition pi_session_commands_table :: "column_decl list" where
  "pi_session_commands_table = [plain ''id'', mandatory ''session_id'', filled ''kind'' (CText ''prompt''), mandatory ''message'',
     filled ''deliver_as'' (CText ''followUp''), filled ''payload'' no_dict, defaulted ''created_at'' (CInt 0),
     defaulted ''claimed_at'' (CInt 0), defaulted ''claimed_by'' no_text, defaulted ''delivered_at'' (CInt 0)]"

section \<open>The columns that are added\<close>

definition early_worker_columns :: "column_decl list" where
  "early_worker_columns = [defaulted ''gpu_used_vram_gb'' no_list, defaulted ''gpu_busy'' no_list]"

definition late_worker_columns :: "column_decl list" where
  "late_worker_columns = [filled ''dns_name'' no_text, filled ''ssh_user'' (CText ''root''), filled ''harness_dir'' (CText ''/harness''),
     defaulted ''data_paths'' no_list]"

definition added_job_columns :: "column_decl list" where
  "added_job_columns = [filled ''kind'' (CText ''ssh''), plain ''origin_session_id'', filled ''report_revision'' (CInt 0),
     filled ''name'' no_text, filled ''queue_managed'' (CInt 0), filled ''expected_seconds'' (CInt 0), filled ''gpu_count'' (CInt 0),
     filled ''gpu_indices'' no_list, filled ''queue_order'' (CInt 0)]"

definition added_session_columns :: "column_decl list" where
  "added_session_columns = [defaulted ''name'' no_text, defaulted ''host'' no_text, defaulted ''agent'' (CText ''pi''),
     plain ''bridge_incarnation'', defaulted ''terminal_attachable'' (CInt 0), defaulted ''terminal_host'' no_text,
     defaulted ''terminal_port'' (CInt 0), defaulted ''terminal_protocol_version'' (CInt 0),
     defaulted ''has_pending_messages'' (CInt 0), defaulted ''last_seen'' (CInt 0), defaulted ''role'' no_text,
     defaulted ''token_hash'' no_text, defaulted ''question'' no_text, defaulted ''meta'' no_dict]"

definition added_event_columns :: "column_decl list" where
  "added_event_columns = [filled ''sequence'' (CInt 0)]"

definition added_command_columns :: "column_decl list" where
  "added_command_columns = [filled ''payload'' no_dict]"

section \<open>Statements\<close>

text \<open>A statement of the schema and one that changes rows and runs under a condition; both may look at the
  column names that were read last.  \<open>Read_Columns\<close> reads them.\<close>

datatype statement =
    Ddl "string list \<Rightarrow> sqlite \<Rightarrow> sqlite res"
  | Dml "string list \<Rightarrow> bool" "sqlite \<Rightarrow> sqlite res"
  | Read_Columns string

definition create :: "string \<Rightarrow> column_decl list \<Rightarrow> statement" where
  "create t cols = Ddl (\<lambda>_ d. Inr (create_table t cols d))"

definition ensure :: "string \<Rightarrow> column_decl \<Rightarrow> statement" where
  "ensure t cd = Ddl (\<lambda>known d. if cd_name cd \<in> set known then Inr d else add_column t cd d)"

text \<open>The rename of the address column, its first half and the copy of the addresses.\<close>

definition add_worker_ip :: statement where
  "add_worker_ip = Ddl (\<lambda>known d.
     if ''worker_ip'' \<in> set known then Inr d
     else if ''zerotier_ip'' \<in> set known then add_column ''workers'' (plain ''worker_ip'') d
     else add_column ''workers'' (filled ''worker_ip'' no_text) d)"

definition copied_address :: "row \<Rightarrow> row" where
  "copied_address r = (if cell_at r ''worker_ip'' = CNull \<or> cell_at r ''worker_ip'' = CText ''''
     then set_cell ''worker_ip'' (cell_at r ''zerotier_ip'') r else r)"

definition copy_addresses :: statement where
  "copy_addresses = Dml (\<lambda>known. ''worker_ip'' \<notin> set known \<and> ''zerotier_ip'' \<in> set known)
     (update_rows ''workers'' [''worker_ip'', ''zerotier_ip''] (map copied_address))"

text \<open>Events without a number get the number of events of their session up to them.\<close>

definition prior :: "row list \<Rightarrow> row \<Rightarrow> int" where
  "prior before r = int (length (filter (\<lambda>e. same (cell_at e ''session_id'') (cell_at r ''session_id'')) before))"

fun numbered :: "row list \<Rightarrow> row list \<Rightarrow> row list" where
  "numbered before [] = []"
| "numbered before (r # rs) =
     (if cell_at r ''sequence'' = CInt 0 then set_cell ''sequence'' (CInt (prior (before @ [r]) r)) r else r) # numbered (before @ [r]) rs"

definition number_events :: statement where
  "number_events = Dml (\<lambda>_. True) (update_rows ''pi_session_events'' [''session_id'', ''sequence''] (numbered []))"

text \<open>The removal of the delegated sessions.\<close>

definition delegated_ids :: "row list \<Rightarrow> cell list" where
  "delegated_ids rs = map (\<lambda>r. cell_at r ''id'') (filter (\<lambda>r. cell_at r ''session_type'' = CText ''delegated'') rs)"

definition delete_dependents :: "string \<Rightarrow> statement" where
  "delete_dependents t = Dml (\<lambda>_. True) (\<lambda>d. on_table ''pi_sessions'' [''id'', ''session_type''] (\<lambda>s.
     update_rows t [''session_id''] (filter (\<lambda>r. \<not> among (cell_at r ''session_id'') (delegated_ids (sq_rows s)))) d) d)"

definition orphaned :: "row list \<Rightarrow> row list" where
  "orphaned rs = map (\<lambda>r. if among (cell_at r ''parent_session_id'') (delegated_ids rs) then set_cell ''parent_session_id'' CNull r else r) rs"

definition detach_children :: statement where
  "detach_children = Dml (\<lambda>_. True) (update_rows ''pi_sessions'' [''id'', ''session_type'', ''parent_session_id''] orphaned)"

definition undelegated :: "row list \<Rightarrow> row list" where
  "undelegated rs = filter (\<lambda>r. cell_at r ''session_type'' \<noteq> CText ''delegated'') rs"

definition delete_delegated :: statement where
  "delete_delegated = Dml (\<lambda>_. True) (update_rows ''pi_sessions'' [''session_type''] undelegated)"

section \<open>The whole method\<close>

definition worker_statements :: "statement list" where
  "worker_statements = [create ''workers'' workers_table, Read_Columns ''workers''] @ map (ensure ''workers'') early_worker_columns @
     [add_worker_ip, copy_addresses] @ map (ensure ''workers'') late_worker_columns"

definition job_statements :: "statement list" where
  "job_statements = [create ''jobs'' jobs_table, Read_Columns ''jobs''] @ map (ensure ''jobs'') added_job_columns @
     [Ddl (\<lambda>_. create_index False ''idx_jobs_origin_session_id'' ''jobs'' [''origin_session_id'']),
      Ddl (\<lambda>_. create_index False ''idx_jobs_queue_active'' ''jobs'' [''queue_managed'', ''worker_id'', ''status'', ''queue_order''])]"

definition service_statements :: "statement list" where
  "service_statements = [create ''port_forwards'' port_forwards_table, create ''marimo_sessions'' marimo_sessions_table,
     create ''failures'' failures_table]"

definition session_statements :: "statement list" where
  "session_statements = [create ''pi_sessions'' pi_sessions_table, Read_Columns ''pi_sessions''] @
     map (ensure ''pi_sessions'') added_session_columns"

definition event_statements :: "statement list" where
  "event_statements = [create ''pi_session_events'' pi_session_events_table, Read_Columns ''pi_session_events''] @
     map (ensure ''pi_session_events'') added_event_columns @
     [number_events,
      Ddl (\<lambda>_. create_index True ''idx_pi_events_sequence'' ''pi_session_events'' [''session_id'', ''sequence'']),
      Ddl (\<lambda>_. create_trigger ''assign_pi_session_event_sequence'' ''pi_session_events'')]"

definition command_statements :: "statement list" where
  "command_statements = [create ''pi_session_commands'' pi_session_commands_table, Read_Columns ''pi_session_commands''] @
     map (ensure ''pi_session_commands'') added_command_columns @
     [Ddl (\<lambda>_. create_index False ''idx_pi_commands_pending'' ''pi_session_commands'' [''session_id'', ''delivered_at'', ''created_at''])]"

definition cleanup_statements :: "statement list" where
  "cleanup_statements = map (\<lambda>t. Ddl (\<lambda>_ d. Inr (drop_table t d))) [''pi_router_requests'', ''pi_router_config'', ''pi_delegations''] @
     [delete_dependents ''pi_session_commands'', delete_dependents ''pi_session_events'', detach_children, delete_delegated]"

definition schema_statements :: "statement list" where
  "schema_statements = worker_statements @ job_statements @ service_statements @ session_statements @ event_statements @
     command_statements @ cleanup_statements"

fun perform :: "statement \<Rightarrow> string list \<times> sqlite \<Rightarrow> (string list \<times> sqlite) res" where
  "perform (Ddl f) (known, d) = and_then (f known d) (\<lambda>d'. Inr (known, d'))"
| "perform (Dml guard f) (known, d) = (if guard known then and_then (f d) (\<lambda>d'. Inr (known, d')) else Inr (known, d))"
| "perform (Read_Columns t) (known, d) = Inr (table_info t d, d)"

fun performs :: "statement list \<Rightarrow> string list \<times> sqlite \<Rightarrow> (string list \<times> sqlite) res" where
  "performs [] s = Inr s"
| "performs (q # qs) s = and_then (perform q s) (performs qs)"

definition init_schema :: "sqlite \<Rightarrow> sqlite res" where
  "init_schema d = and_then (performs schema_statements ([], d)) (\<lambda>s. Inr (snd s))"

text \<open>What is on disk when the process dies after these statements: everything before the first one that
  opened the transaction.\<close>

fun surviving :: "statement list \<Rightarrow> string list \<times> sqlite \<Rightarrow> sqlite" where
  "surviving [] (known, d) = d"
| "surviving (q # qs) (known, d) =
     (if (case q of Dml guard _ \<Rightarrow> guard known | _ \<Rightarrow> False) then d
      else (case perform q (known, d) of Inl _ \<Rightarrow> d | Inr s \<Rightarrow> surviving qs s))"

text \<open>INSERT of named values: other columns get their default, and NOT NULL is checked.\<close>

definition insert_row :: "string \<Rightarrow> row \<Rightarrow> sqlite \<Rightarrow> sqlite res" where
  "insert_row t vals d = on_table t (map fst vals) (\<lambda>tab.
     let r = map (\<lambda>cd. (cd_name cd, case map_of vals (cd_name cd) of None \<Rightarrow> cd_default cd | Some c \<Rightarrow> c)) (sq_columns tab)
     in case find (\<lambda>cd. cd_required cd \<and> cell_at r (cd_name cd) = CNull) (sq_columns tab) of
          Some cd \<Rightarrow> Inl (IntegrityErr (''NOT NULL constraint failed: '' @ t @ ''.'' @ cd_name cd))
        | None \<Rightarrow> Inr (put t (tab\<lparr>sq_rows := sq_rows tab @ [r]\<rparr>) d)) d"

section \<open>What the method computes\<close>

text \<open>The columns of a list that a table lacks, added in order.\<close>

definition extended :: "column_decl list \<Rightarrow> sql_table \<Rightarrow> sql_table" where
  "extended cds tab = fold widened (filter (\<lambda>cd. cd_name cd \<notin> set (names tab)) cds) tab"

definition existing :: "string \<Rightarrow> column_decl list \<Rightarrow> sqlite \<Rightarrow> sql_table" where
  "existing t cols d = (case sq_tables d t of None \<Rightarrow> \<lparr>sq_columns = cols, sq_rows = []\<rparr> | Some tab \<Rightarrow> tab)"

definition with_address :: "sql_table \<Rightarrow> sql_table" where
  "with_address tab =
     (if ''worker_ip'' \<in> set (names tab) then tab
      else if ''zerotier_ip'' \<in> set (names tab)
        then (let tab' = widened (plain ''worker_ip'') tab in tab'\<lparr>sq_rows := map copied_address (sq_rows tab')\<rparr>)
        else widened (filled ''worker_ip'' no_text) tab)"

definition upgraded_workers :: "sqlite \<Rightarrow> sql_table" where
  "upgraded_workers d = extended late_worker_columns (with_address (extended early_worker_columns (existing ''workers'' workers_table d)))"

lemma names_widened [simp]: "names (widened cd tab) = names tab @ [cd_name cd]"
  by (simp add: names_def widened_def)

lemma names_fold_widened: "names (fold widened cds tab) = names tab @ map cd_name cds"
  by (induction cds arbitrary: tab) simp_all

lemma names_extended: "names (extended cds tab) = names tab @ map cd_name (filter (\<lambda>cd. cd_name cd \<notin> set (names tab)) cds)"
  by (simp add: extended_def names_fold_widened)

lemma names_extended_set [simp]: "set (names (extended cds tab)) = set (names tab) \<union> cd_name ` set cds"
  by (auto simp: names_extended)

lemma extended_same: "cd_name ` set cds \<subseteq> set (names tab) \<Longrightarrow> extended cds tab = tab"
proof -
  assume "cd_name ` set cds \<subseteq> set (names tab)"
  then have "filter (\<lambda>cd. cd_name cd \<notin> set (names tab)) cds = []" by (auto simp: filter_empty_conv)
  then show ?thesis by (simp add: extended_def)
qed

lemma names_rows [simp]: "names (tab\<lparr>sq_rows := rs\<rparr>) = names tab"
  by (simp add: names_def)

lemma names_with_address [simp]: "set (names (with_address tab)) = insert ''worker_ip'' (set (names tab))"
  by (auto simp: with_address_def Let_def filled_def plain_def)

lemma put_simps [simp]:
  "sq_tables (put t tab d) = (sq_tables d)(t := Some tab)" "sq_indexes (put t tab d) = sq_indexes d"
  "sq_triggers (put t tab d) = sq_triggers d" "put t tab' (put t tab d) = put t tab' d"
  by (simp_all add: put_def)

lemma put_same: "sq_tables d t = Some tab \<Longrightarrow> put t tab d = d"
  by (simp add: put_def fun_upd_idem)

lemma performs_append: "performs (xs @ ys) s = and_then (performs xs s) (performs ys)"
proof (induction xs arbitrary: s)
  case (Cons x xs)
  then show ?case by (cases "perform x s") simp_all
qed simp

lemma perform_ensure:
  "cd_name cd \<in> set known \<Longrightarrow> perform (ensure t cd) (known, d) = Inr (known, d)"
  "\<lbrakk>cd_name cd \<notin> set known; sq_tables d t = Some tab; cd_name cd \<notin> set (names tab); cd_required cd \<longrightarrow> cd_default cd \<noteq> CNull\<rbrakk> \<Longrightarrow>
   perform (ensure t cd) (known, d) = Inr (known, put t (widened cd tab) d)"
  by (auto simp: ensure_def add_column_def on_table_def)

lemma performs_ensure:
  assumes "sq_tables d t = Some tab" "distinct (map cd_name cds)"
    and "\<forall>cd\<in>set cds. (cd_name cd \<in> set known \<longleftrightarrow> cd_name cd \<in> set (names tab)) \<and> (cd_required cd \<longrightarrow> cd_default cd \<noteq> CNull)"
  shows "performs (map (ensure t) cds) (known, d) = Inr (known, put t (extended cds tab) d)"
  using assms
proof (induction cds arbitrary: d tab)
  case Nil
  then show ?case by (simp add: extended_def put_same)
next
  case (Cons cd cds)
  show ?case
  proof (cases "cd_name cd \<in> set known")
    case True
    with Cons.prems have "extended (cd # cds) tab = extended cds tab" by (simp add: extended_def)
    with Cons True show ?thesis by (simp add: perform_ensure)
  next
    case False
    let ?tab = "widened cd tab"
    have other: "cd_name x \<noteq> cd_name cd" if "x \<in> set cds" for x using that Cons.prems(2) by (auto simp: image_iff)
    have filt: "filter (\<lambda>x. cd_name x \<notin> set (names ?tab)) cds = filter (\<lambda>x. cd_name x \<notin> set (names tab)) cds"
      by (rule filter_cong) (use other in auto)
    have ext: "extended (cd # cds) tab = extended cds ?tab"
      using False Cons.prems filt unfolding extended_def by simp
    have "performs (map (ensure t) cds) (known, put t ?tab d) = Inr (known, put t (extended cds ?tab) (put t ?tab d))"
      by (rule Cons.IH) (use Cons.prems other in auto)
    with False Cons.prems ext show ?thesis by (simp add: perform_ensure)
  qed
qed

text \<open>Creating a table and reading its columns.\<close>

lemma performs_create:
  "performs [create t cols, Read_Columns t] (known, d) =
   Inr (names (existing t cols d), put t (existing t cols d) d)"
  by (cases "sq_tables d t") (simp_all add: create_def create_table_def existing_def table_info_def put_same)

lemmas column_decls = plain_def mandatory_def defaulted_def filled_def no_text_def no_list_def no_dict_def

lemma early_columns: "cd_name ` set early_worker_columns = {''gpu_used_vram_gb'', ''gpu_busy''}"
  by (simp add: early_worker_columns_def column_decls)

lemma late_columns: "cd_name ` set late_worker_columns = {''dns_name'', ''ssh_user'', ''harness_dir'', ''data_paths''}"
  by (simp add: late_worker_columns_def column_decls)

lemma performs_address:
  assumes "sq_tables d ''workers'' = Some tab"
    and "''worker_ip'' \<in> set known \<longleftrightarrow> ''worker_ip'' \<in> set (names tab)" "''zerotier_ip'' \<in> set known \<longleftrightarrow> ''zerotier_ip'' \<in> set (names tab)"
  shows "performs [add_worker_ip, copy_addresses] (known, d) = Inr (known, put ''workers'' (with_address tab) d)"
  using assms by (simp add: add_worker_ip_def copy_addresses_def add_column_def on_table_def update_rows_def with_address_def
      Let_def put_same column_decls)

lemma performs_workers:
  "performs worker_statements (known, d) =
   Inr (names (existing ''workers'' workers_table d), put ''workers'' (upgraded_workers d) d)"
proof -
  let ?tab = "existing ''workers'' workers_table d" and ?kn = "names (existing ''workers'' workers_table d)"
  let ?tab1 = "extended early_worker_columns ?tab"
  have 1: "performs (map (ensure ''workers'') early_worker_columns) (?kn, put ''workers'' ?tab d) = Inr (?kn, put ''workers'' ?tab1 (put ''workers'' ?tab d))"
    by (rule performs_ensure) (simp_all add: early_worker_columns_def column_decls)
  have 2: "performs [add_worker_ip, copy_addresses] (?kn, put ''workers'' ?tab1 d) = Inr (?kn, put ''workers'' (with_address ?tab1) (put ''workers'' ?tab1 d))"
    by (rule performs_address) (simp_all add: early_columns)
  have 3: "performs (map (ensure ''workers'') late_worker_columns) (?kn, put ''workers'' (with_address ?tab1) d) =
      Inr (?kn, put ''workers'' (extended late_worker_columns (with_address ?tab1)) (put ''workers'' (with_address ?tab1) d))"
    by (rule performs_ensure) (simp_all add: early_columns, simp_all add: late_worker_columns_def column_decls)
  show ?thesis
    unfolding worker_statements_def performs_append performs_create using 1 2 3
    by (simp add: performs_append upgraded_workers_def)
qed

text \<open>A table with its added columns; the indexes and the trigger.\<close>

definition upgraded_table :: "string \<Rightarrow> column_decl list \<Rightarrow> column_decl list \<Rightarrow> sqlite \<Rightarrow> sql_table" where
  "upgraded_table t cols cds d = extended cds (existing t cols d)"

definition addable :: "column_decl list \<Rightarrow> bool" where
  "addable cds = (distinct (map cd_name cds) \<and> list_all (\<lambda>cd. cd_required cd \<longrightarrow> cd_default cd \<noteq> CNull) cds)"

lemma addable_columns [simp]:
  "addable added_job_columns" "addable added_session_columns" "addable added_event_columns" "addable added_command_columns"
  by (simp_all add: addable_def added_job_columns_def added_session_columns_def added_event_columns_def added_command_columns_def column_decls)

lemma performs_block:
  assumes "addable cds"
  shows "performs ([create t cols, Read_Columns t] @ map (ensure t) cds @ rest) (known, d) =
    performs rest (names (existing t cols d), put t (upgraded_table t cols cds d) d)"
proof -
  have "performs (map (ensure t) cds) (names (existing t cols d), put t (existing t cols d) d) =
      Inr (names (existing t cols d), put t (extended cds (existing t cols d)) (put t (existing t cols d) d))"
    by (rule performs_ensure) (use assms in \<open>simp_all add: addable_def list_all_iff\<close>)
  then show ?thesis unfolding performs_append performs_create by (simp add: performs_append upgraded_table_def)
qed

definition noted :: "string \<Rightarrow> string list \<Rightarrow> string list" where
  "noted i xs = (if i \<in> set xs then xs else xs @ [i])"

definition indexed :: "string \<Rightarrow> sqlite \<Rightarrow> sqlite" where
  "indexed i d = d\<lparr>sq_indexes := noted i (sq_indexes d)\<rparr>"

definition triggered :: "string \<Rightarrow> sqlite \<Rightarrow> sqlite" where
  "triggered i d = d\<lparr>sq_triggers := noted i (sq_triggers d)\<rparr>"

lemma indexed_simps [simp]:
  "sq_tables (indexed i d) = sq_tables d" "sq_tables (triggered i d) = sq_tables d"
  "sq_indexes (triggered i d) = sq_indexes d" "sq_triggers (indexed i d) = sq_triggers d"
  "sq_indexes (indexed i d) = noted i (sq_indexes d)" "sq_triggers (triggered i d) = noted i (sq_triggers d)"
  by (simp_all add: indexed_def triggered_def)

lemma create_index_ok:
  "\<lbrakk>sq_tables d t = Some tab; set cols \<subseteq> set (names tab); unique \<longrightarrow> \<not> repeated (map (\<lambda>r. map (cell_at r) cols) (sq_rows tab))\<rbrakk> \<Longrightarrow>
   create_index unique i t cols d = Inr (indexed i d)"
  by (auto simp: create_index_def on_table_def indexed_def noted_def)

lemma create_trigger_ok: "sq_tables d t = Some tab \<Longrightarrow> create_trigger i t d = Inr (triggered i d)"
  by (simp add: create_trigger_def on_table_def triggered_def noted_def)

section \<open>The upgrade as one function\<close>

definition numbered_events :: "sqlite \<Rightarrow> sql_table" where
  "numbered_events d = (let tab = upgraded_table ''pi_session_events'' pi_session_events_table added_event_columns d
     in tab\<lparr>sq_rows := numbered [] (sq_rows tab)\<rparr>)"

definition session_rows :: "sqlite \<Rightarrow> row list" where
  "session_rows d = sq_rows (upgraded_table ''pi_sessions'' pi_sessions_table added_session_columns d)"

definition spared :: "sqlite \<Rightarrow> row list \<Rightarrow> row list" where
  "spared d = filter (\<lambda>r. \<not> among (cell_at r ''session_id'') (delegated_ids (session_rows d)))"

definition upgraded :: "sqlite \<Rightarrow> sqlite" where
  "upgraded d =
     (let sessions = upgraded_table ''pi_sessions'' pi_sessions_table added_session_columns d;
          commands = upgraded_table ''pi_session_commands'' pi_session_commands_table added_command_columns d;
          events = numbered_events d
      in \<lparr>sq_tables = (sq_tables d)(
            ''workers'' := Some (upgraded_workers d),
            ''jobs'' := Some (upgraded_table ''jobs'' jobs_table added_job_columns d),
            ''port_forwards'' := Some (existing ''port_forwards'' port_forwards_table d),
            ''marimo_sessions'' := Some (existing ''marimo_sessions'' marimo_sessions_table d),
            ''failures'' := Some (existing ''failures'' failures_table d),
            ''pi_router_requests'' := None, ''pi_router_config'' := None, ''pi_delegations'' := None,
            ''pi_session_commands'' := Some (commands\<lparr>sq_rows := spared d (sq_rows commands)\<rparr>),
            ''pi_session_events'' := Some (events\<lparr>sq_rows := spared d (sq_rows events)\<rparr>),
            ''pi_sessions'' := Some (sessions\<lparr>sq_rows := undelegated (orphaned (sq_rows sessions))\<rparr>)),
          sq_indexes = noted ''idx_pi_commands_pending'' (noted ''idx_pi_events_sequence''
            (noted ''idx_jobs_queue_active'' (noted ''idx_jobs_origin_session_id'' (sq_indexes d)))),
          sq_triggers = noted ''assign_pi_session_event_sequence'' (sq_triggers d)\<rparr>)"

text \<open>A database this can be done for: each table of the repository is missing or well formed with the
  columns of its first version, and the events are either all without number or properly numbered.\<close>

definition well_formed :: "sql_table \<Rightarrow> bool" where
  "well_formed tab = (distinct (names tab) \<and> list_all (\<lambda>r. map fst r = names tab) (sq_rows tab))"

definition first_columns :: "(string \<times> string list) list" where
  "first_columns =
    [(''workers'', [''id'', ''name'', ''gpu_count'', ''gpu_names'', ''gpu_vram_gb'', ''cpu_cores'', ''total_ram_gb'', ''used_ram_gb'',
        ''total_disk_gb'', ''used_disk_gb'', ''status'', ''last_heartbeat_ts'', ''created_at'']),
     (''jobs'', [''id'', ''worker_id'', ''tmux_session'', ''command'', ''status'', ''exit_code'', ''pty_enabled'', ''started_at'', ''finished_at'']),
     (''port_forwards'', map cd_name port_forwards_table), (''marimo_sessions'', map cd_name marimo_sessions_table),
     (''failures'', map cd_name failures_table),
     (''pi_sessions'', [''id'', ''worker_id'', ''parent_session_id'', ''session_type'', ''state'', ''task'', ''cwd'', ''tmux_session'', ''detail'',
        ''created_at'', ''updated_at'']),
     (''pi_session_events'', [''id'', ''session_id'', ''event_type'', ''payload'', ''created_at'']),
     (''pi_session_commands'', [''id'', ''session_id'', ''kind'', ''message'', ''deliver_as'', ''created_at'', ''claimed_at'', ''claimed_by'', ''delivered_at''])]"

definition event_keys :: "row list \<Rightarrow> cell list list" where
  "event_keys rs = map (\<lambda>r. map (cell_at r) [''session_id'', ''sequence'']) rs"

definition numbering_ok :: "sql_table \<Rightarrow> bool" where
  "numbering_ok tab = (list_all (\<lambda>r. cell_at r ''session_id'' \<noteq> CNull) (sq_rows tab) \<and>
     (''sequence'' \<notin> set (names tab) \<or> list_all (\<lambda>r. cell_at r ''sequence'' = CInt 0) (sq_rows tab) \<or>
      list_all (\<lambda>r. cell_at r ''sequence'' \<noteq> CInt 0) (sq_rows tab) \<and> \<not> repeated (event_keys (sq_rows tab))))"

definition upgradable :: "sqlite \<Rightarrow> bool" where
  "upgradable d =
     (list_all (\<lambda>(t, cols). case sq_tables d t of None \<Rightarrow> True | Some tab \<Rightarrow> well_formed tab \<and> set cols \<subseteq> set (names tab)) first_columns \<and>
      (case sq_tables d ''pi_session_events'' of None \<Rightarrow> True | Some tab \<Rightarrow> numbering_ok tab))"

subsection \<open>Cells of rows\<close>

lemma map_of_set_cell: "map_of (set_cell n c r) m = (if m = n \<and> n \<in> fst ` set r then Some c else map_of r m)"
proof (induction r)
  case (Cons v r)
  then show ?case by (cases "fst v = n"; cases "n \<in> fst ` set r"; cases v) (auto simp: set_cell_def simp del: image_eqI)
qed (simp add: set_cell_def)

lemma cell_at_set_cell: "cell_at (set_cell n c r) m = (if m = n \<and> n \<in> fst ` set r then c else cell_at r m)"
  by (simp add: cell_at_def map_of_set_cell)

lemma fst_set_cell [simp]: "map fst (set_cell n c r) = map fst r"
  by (induction r) (auto simp: set_cell_def)

lemma fst_image_set_cell [simp]: "fst ` set (set_cell n c r) = fst ` set r"
  by (metis fst_set_cell image_set)

lemma cell_at_append: "n \<in> fst ` set r \<Longrightarrow> cell_at (r @ r') n = cell_at r n"
  by (auto simp: cell_at_def map_add_def split: option.split dest: weak_map_of_SomeI)

lemma cell_at_new: "n \<notin> fst ` set r \<Longrightarrow> cell_at (r @ [(n, c)]) n = c"
  by (simp add: cell_at_def map_add_def map_of_eq_None_iff [THEN iffD2])

subsection \<open>The columns are complete\<close>

lemma upgradableD:
  "\<lbrakk>upgradable d; (t, cols) \<in> set first_columns; sq_tables d t = Some tab\<rbrakk> \<Longrightarrow> well_formed tab \<and> set cols \<subseteq> set (names tab)"
  unfolding upgradable_def list_all_iff by (drule conjunct1, drule (1) bspec) simp

lemma existing_columns:
  assumes "upgradable d" "(t, cols) \<in> set first_columns" "set cols \<subseteq> cd_name ` set full"
  shows "set cols \<subseteq> set (names (existing t full d))"
proof (cases "sq_tables d t")
  case (Some tab)
  with upgradableD [OF assms(1,2)] show ?thesis by (simp add: existing_def)
qed (use assms in \<open>simp add: existing_def names_def\<close>)

lemma existing_well_formed:
  assumes "upgradable d" "(t, cols) \<in> set first_columns" "distinct (map cd_name full)"
  shows "well_formed (existing t full d)"
proof (cases "sq_tables d t")
  case (Some tab)
  with upgradableD [OF assms(1,2)] show ?thesis by (simp add: existing_def)
qed (use assms in \<open>simp add: existing_def names_def well_formed_def\<close>)

lemmas table_decls = workers_table_def jobs_table_def port_forwards_table_def marimo_sessions_table_def failures_table_def
  pi_sessions_table_def pi_session_events_table_def pi_session_commands_table_def

lemmas added_decls = added_job_columns_def added_session_columns_def added_event_columns_def added_command_columns_def

lemma complete_jobs: "upgradable d \<Longrightarrow> cd_name ` set jobs_table \<subseteq> set (names (upgraded_table ''jobs'' jobs_table added_job_columns d))"
  using existing_columns [where t = "''jobs''" and d = d and full = jobs_table and cols = "the (map_of first_columns ''jobs'')"]
  by (simp add: upgraded_table_def first_columns_def jobs_table_def added_decls column_decls)

lemma complete_sessions:
  "upgradable d \<Longrightarrow> cd_name ` set pi_sessions_table \<subseteq> set (names (upgraded_table ''pi_sessions'' pi_sessions_table added_session_columns d))"
  using existing_columns [where t = "''pi_sessions''" and d = d and full = pi_sessions_table and cols = "the (map_of first_columns ''pi_sessions'')"]
  by (simp add: upgraded_table_def first_columns_def pi_sessions_table_def added_decls column_decls)

lemma complete_events:
  "upgradable d \<Longrightarrow> cd_name ` set pi_session_events_table \<subseteq>
     set (names (upgraded_table ''pi_session_events'' pi_session_events_table added_event_columns d))"
  using existing_columns [where t = "''pi_session_events''" and d = d and full = pi_session_events_table and cols = "the (map_of first_columns ''pi_session_events'')"]
  by (simp add: upgraded_table_def first_columns_def pi_session_events_table_def added_decls column_decls)

lemma complete_commands:
  "upgradable d \<Longrightarrow> cd_name ` set pi_session_commands_table \<subseteq>
     set (names (upgraded_table ''pi_session_commands'' pi_session_commands_table added_command_columns d))"
  using existing_columns [where t = "''pi_session_commands''" and d = d and full = pi_session_commands_table and cols = "the (map_of first_columns ''pi_session_commands'')"]
  by (simp add: upgraded_table_def first_columns_def pi_session_commands_table_def added_decls column_decls)

lemma complete_workers: "upgradable d \<Longrightarrow> cd_name ` set workers_table \<subseteq> set (names (upgraded_workers d))"
  using existing_columns [where t = "''workers''" and d = d and full = workers_table and cols = "the (map_of first_columns ''workers'')"]
  by (simp add: upgraded_workers_def early_columns late_columns first_columns_def workers_table_def column_decls)

lemma complete_services:
  assumes "upgradable d"
  shows "cd_name ` set port_forwards_table \<subseteq> set (names (existing ''port_forwards'' port_forwards_table d))"
    and "cd_name ` set marimo_sessions_table \<subseteq> set (names (existing ''marimo_sessions'' marimo_sessions_table d))"
    and "cd_name ` set failures_table \<subseteq> set (names (existing ''failures'' failures_table d))"
  using existing_columns [OF assms, where t = "''port_forwards''" and full = port_forwards_table and cols = "map cd_name port_forwards_table"]
    existing_columns [OF assms, where t = "''marimo_sessions''" and full = marimo_sessions_table and cols = "map cd_name marimo_sessions_table"]
    existing_columns [OF assms, where t = "''failures''" and full = failures_table and cols = "map cd_name failures_table"]
  by (simp_all add: first_columns_def)

lemma performs_jobs:
  assumes "upgradable d" "sq_tables d' ''jobs'' = sq_tables d ''jobs''"
  shows "performs (job_statements @ rest) (known, d') =
    performs rest (names (existing ''jobs'' jobs_table d),
      indexed ''idx_jobs_queue_active'' (indexed ''idx_jobs_origin_session_id'' (put ''jobs'' (upgraded_table ''jobs'' jobs_table added_job_columns d) d')))"
proof -
  have eq: "existing ''jobs'' jobs_table d' = existing ''jobs'' jobs_table d" by (simp add: existing_def assms)
  then have up: "upgraded_table ''jobs'' jobs_table added_job_columns d' = upgraded_table ''jobs'' jobs_table added_job_columns d"
    by (simp add: upgraded_table_def)
  let ?t = "upgraded_table ''jobs'' jobs_table added_job_columns d"
  have cols: "{''origin_session_id'', ''queue_managed'', ''worker_id'', ''status'', ''queue_order''} \<subseteq> set (names ?t)"
    using complete_jobs [OF assms(1)] by (simp add: jobs_table_def column_decls)
  have 1: "create_index False ''idx_jobs_origin_session_id'' ''jobs'' [''origin_session_id''] (put ''jobs'' ?t d') =
      Inr (indexed ''idx_jobs_origin_session_id'' (put ''jobs'' ?t d'))"
    by (rule create_index_ok [where tab = ?t]) (use cols in simp_all)
  have 2: "create_index False ''idx_jobs_queue_active'' ''jobs'' [''queue_managed'', ''worker_id'', ''status'', ''queue_order'']
        (indexed ''idx_jobs_origin_session_id'' (put ''jobs'' ?t d')) =
      Inr (indexed ''idx_jobs_queue_active'' (indexed ''idx_jobs_origin_session_id'' (put ''jobs'' ?t d')))"
    by (rule create_index_ok [where tab = ?t]) (use cols in simp_all)
  show ?thesis
    unfolding job_statements_def append_assoc
    by (subst performs_block) (simp_all add: eq up 1 2)
qed

subsection \<open>Numbering the events\<close>

definition unnumbered :: "row \<Rightarrow> bool" where
  "unnumbered r = (cell_at r ''sequence'' = CInt 0 \<and> ''sequence'' \<in> fst ` set r \<and> cell_at r ''session_id'' \<noteq> CNull)"

definition of_session :: "cell \<Rightarrow> row list \<Rightarrow> nat" where
  "of_session sid rs = length (filter (\<lambda>r. cell_at r ''session_id'' = sid) rs)"

lemma prior_of_session: "cell_at r ''session_id'' \<noteq> CNull \<Longrightarrow> prior before r = int (of_session (cell_at r ''session_id'') before)"
  by (auto simp: prior_def of_session_def same_def intro!: arg_cong [where f = length] filter_cong)

lemma of_session_snoc: "of_session sid (before @ [r]) = of_session sid before + (if cell_at r ''session_id'' = sid then 1 else 0)"
  by (simp add: of_session_def)

lemma cells_numbered [simp]:
  "cell_at (set_cell ''sequence'' c r) ''session_id'' = cell_at r ''session_id''"
  "''sequence'' \<in> fst ` set r \<Longrightarrow> cell_at (set_cell ''sequence'' c r) ''sequence'' = c"
  by (simp_all add: cell_at_set_cell)

lemma numbered_sequences:
  assumes "list_all unnumbered rs" "sid \<noteq> CNull"
  shows "map (\<lambda>r. cell_at r ''sequence'') (filter (\<lambda>r. cell_at r ''session_id'' = sid) (numbered before rs)) =
    map (\<lambda>i. CInt (int (of_session sid before) + 1 + int i)) [0..<of_session sid rs]"
  using assms
proof (induction rs arbitrary: before)
  case Nil
  then show ?case by (simp add: of_session_def)
next
  case (Cons r rs)
  have IH: "map (\<lambda>r. cell_at r ''sequence'') (filter (\<lambda>r. cell_at r ''session_id'' = sid) (numbered (before @ [r]) rs)) =
      map (\<lambda>i. CInt (int (of_session sid (before @ [r])) + 1 + int i)) [0..<of_session sid rs]"
    using Cons by simp
  show ?case
  proof (cases "cell_at r ''session_id'' = sid")
    case True
    have "[0..<Suc (of_session sid rs)] = 0 # map Suc [0..<of_session sid rs]" by (simp add: upt_conv_Cons map_Suc_upt del: upt_Suc)
    with True IH Cons.prems show ?thesis
      by (simp add: unnumbered_def prior_of_session of_session_snoc of_session_def comp_def del: upt_Suc)
  next
    case False
    with IH Cons.prems show ?thesis by (simp add: unnumbered_def of_session_snoc of_session_def)
  qed
qed

lemma numbered_sessions: "map (\<lambda>r. cell_at r ''session_id'') (numbered before rs) = map (\<lambda>r. cell_at r ''session_id'') rs"
  by (induction before rs rule: numbered.induct) simp_all

lemma not_repeated:
  assumes "\<And>sid. sid \<noteq> CNull \<Longrightarrow> distinct (map (\<lambda>r. cell_at r ''sequence'') (filter (\<lambda>r. cell_at r ''session_id'' = sid) rs))"
  shows "\<not> repeated (event_keys rs)"
  using assms
proof (induction rs)
  case (Cons r rs)
  let ?s = "cell_at r ''session_id''" and ?q = "cell_at r ''sequence''"
  have "distinct (map (\<lambda>r. cell_at r ''sequence'') (filter (\<lambda>r. cell_at r ''session_id'' = sid) rs))" if "sid \<noteq> CNull" for sid
    using Cons.prems [OF that] by (simp split: if_splits)
  then have tail: "\<not> repeated (event_keys rs)" by (rule Cons.IH)
  have "[?s, ?q] \<notin> set (event_keys rs)" if "?s \<noteq> CNull"
    using Cons.prems [OF that] by (auto simp: event_keys_def)
  with tail show ?case by (auto simp: event_keys_def)
qed (simp add: event_keys_def)

lemma numbered_not_repeated: "list_all unnumbered rs \<Longrightarrow> \<not> repeated (event_keys (numbered [] rs))"
  by (rule not_repeated) (simp add: numbered_sequences distinct_map inj_on_def)

lemma numbered_same: "list_all (\<lambda>r. cell_at r ''sequence'' \<noteq> CInt 0) rs \<Longrightarrow> numbered before rs = rs"
  by (induction before rs rule: numbered.induct) simp_all

lemma numbered_nonzero:
  "list_all unnumbered rs \<Longrightarrow> list_all (\<lambda>r. cell_at r ''sequence'' \<noteq> CInt 0) (numbered before rs)"
  by (induction before rs rule: numbered.induct) (simp_all add: unnumbered_def prior_of_session of_session_snoc)

section \<open>The method computes the upgrade\<close>

lemma performs_services:
  "performs (service_statements @ rest) (known, d) =
   performs rest (known, put ''failures'' (existing ''failures'' failures_table d)
     (put ''marimo_sessions'' (existing ''marimo_sessions'' marimo_sessions_table d)
       (put ''port_forwards'' (existing ''port_forwards'' port_forwards_table d) d)))"
proof -
  have create: "perform (create t cols) (k, x) = Inr (k, put t (existing t cols x) x)" for t cols k x
    by (cases "sq_tables x t") (simp_all add: create_def create_table_def existing_def put_same)
  have other: "t \<noteq> u \<Longrightarrow> existing t cols (put u tab x) = existing t cols x" for t u cols tab x
    by (simp add: existing_def)
  show ?thesis by (simp add: service_statements_def create other)
qed

lemma performs_sessions:
  assumes "sq_tables d' ''pi_sessions'' = sq_tables d ''pi_sessions''"
  shows "performs (session_statements @ rest) (known, d') =
    performs rest (names (existing ''pi_sessions'' pi_sessions_table d),
      put ''pi_sessions'' (upgraded_table ''pi_sessions'' pi_sessions_table added_session_columns d) d')"
proof -
  have eq: "existing ''pi_sessions'' pi_sessions_table d' = existing ''pi_sessions'' pi_sessions_table d" by (simp add: existing_def assms)
  then have "upgraded_table ''pi_sessions'' pi_sessions_table added_session_columns d' = upgraded_table ''pi_sessions'' pi_sessions_table added_session_columns d"
    by (simp add: upgraded_table_def)
  with eq show ?thesis unfolding session_statements_def append_assoc by (subst performs_block) simp_all
qed

lemma upgraded_events_numbering:
  assumes "upgradable d"
  defines "tab \<equiv> upgraded_table ''pi_session_events'' pi_session_events_table added_event_columns d"
  shows "list_all unnumbered (sq_rows tab) \<or>
    list_all (\<lambda>r. cell_at r ''sequence'' \<noteq> CInt 0) (sq_rows tab) \<and> \<not> repeated (event_keys (sq_rows tab))"
    and "list_all (\<lambda>r. cell_at r ''session_id'' \<noteq> CNull) (sq_rows tab)"
proof -
  let ?old = "existing ''pi_session_events'' pi_session_events_table d"
  have num: "numbering_ok ?old"
  proof (cases "sq_tables d ''pi_session_events''")
    case None
    then show ?thesis by (simp add: existing_def numbering_ok_def event_keys_def)
  next
    case (Some t)
    with assms(1) show ?thesis by (simp add: existing_def upgradable_def)
  qed
  have wf: "well_formed ?old"
    by (rule existing_well_formed [OF assms(1), where cols = "the (map_of first_columns ''pi_session_events'')"])
      (simp_all add: first_columns_def pi_session_events_table_def column_decls)
  have cols: "''session_id'' \<in> set (names ?old)"
    using existing_columns [OF assms(1), where t = "''pi_session_events''" and full = pi_session_events_table and cols = "the (map_of first_columns ''pi_session_events'')"]
    by (simp add: first_columns_def pi_session_events_table_def column_decls)
  have fsts: "fst ` set r = set (names ?old)" if "r \<in> set (sq_rows ?old)" for r
  proof -
    have "map fst r = names ?old" using wf that by (simp add: well_formed_def list_all_iff)
    then have "set (map fst r) = set (names ?old)" by (rule arg_cong)
    then show ?thesis by simp
  qed
  have "(list_all unnumbered (sq_rows tab) \<or>
      list_all (\<lambda>r. cell_at r ''sequence'' \<noteq> CInt 0) (sq_rows tab) \<and> \<not> repeated (event_keys (sq_rows tab))) \<and>
    list_all (\<lambda>r. cell_at r ''session_id'' \<noteq> CNull) (sq_rows tab)"
  proof (cases "''sequence'' \<in> set (names ?old)")
    case True
    then have "tab = ?old" by (simp add: tab_def upgraded_table_def extended_same added_event_columns_def column_decls)
    with True num fsts show ?thesis by (auto simp: numbering_ok_def unnumbered_def list_all_iff)
  next
    case False
    then have "sq_rows tab = map (\<lambda>r. r @ [(''sequence'', CInt 0)]) (sq_rows ?old)"
      by (simp add: tab_def upgraded_table_def extended_def added_event_columns_def column_decls widened_def)
    with False num fsts cols show ?thesis
      by (auto simp: numbering_ok_def unnumbered_def list_all_iff cell_at_append cell_at_new)
  qed
  then show "list_all unnumbered (sq_rows tab) \<or>
      list_all (\<lambda>r. cell_at r ''sequence'' \<noteq> CInt 0) (sq_rows tab) \<and> \<not> repeated (event_keys (sq_rows tab))"
    "list_all (\<lambda>r. cell_at r ''session_id'' \<noteq> CNull) (sq_rows tab)" by auto
qed

lemma performs_events:
  assumes "upgradable d" "sq_tables d' ''pi_session_events'' = sq_tables d ''pi_session_events''"
  shows "performs (event_statements @ rest) (known, d') =
    performs rest (names (existing ''pi_session_events'' pi_session_events_table d),
      triggered ''assign_pi_session_event_sequence'' (indexed ''idx_pi_events_sequence'' (put ''pi_session_events'' (numbered_events d) d')))"
proof -
  let ?t = "upgraded_table ''pi_session_events'' pi_session_events_table added_event_columns d"
  have eq: "existing ''pi_session_events'' pi_session_events_table d' = existing ''pi_session_events'' pi_session_events_table d"
    by (simp add: existing_def assms)
  then have up: "upgraded_table ''pi_session_events'' pi_session_events_table added_event_columns d' = ?t" by (simp add: upgraded_table_def)
  have cols: "{''session_id'', ''sequence''} \<subseteq> set (names ?t)"
    using complete_events [OF assms(1)] by (simp add: pi_session_events_table_def column_decls)
  have 1: "perform number_events (k, put ''pi_session_events'' ?t d') = Inr (k, put ''pi_session_events'' (numbered_events d) d')" for k
    using cols by (simp add: number_events_def update_rows_def on_table_def numbered_events_def Let_def)
  have "\<not> repeated (event_keys (sq_rows (numbered_events d)))"
    using upgraded_events_numbering(1) [OF assms(1)] by (auto simp: numbered_events_def Let_def numbered_not_repeated numbered_same)
  then have 2: "create_index True ''idx_pi_events_sequence'' ''pi_session_events'' [''session_id'', ''sequence''] (put ''pi_session_events'' (numbered_events d) d') =
      Inr (indexed ''idx_pi_events_sequence'' (put ''pi_session_events'' (numbered_events d) d'))"
    by (intro create_index_ok [where tab = "numbered_events d"])
      (use cols in \<open>simp_all add: event_keys_def numbered_events_def Let_def\<close>)
  show ?thesis
    unfolding event_statements_def append_assoc
    by (subst performs_block) (simp_all add: eq up 1 2 create_trigger_ok)
qed

lemma performs_commands:
  assumes "upgradable d" "sq_tables d' ''pi_session_commands'' = sq_tables d ''pi_session_commands''"
  shows "performs (command_statements @ rest) (known, d') =
    performs rest (names (existing ''pi_session_commands'' pi_session_commands_table d),
      indexed ''idx_pi_commands_pending'' (put ''pi_session_commands''
        (upgraded_table ''pi_session_commands'' pi_session_commands_table added_command_columns d) d'))"
proof -
  let ?t = "upgraded_table ''pi_session_commands'' pi_session_commands_table added_command_columns d"
  have eq: "existing ''pi_session_commands'' pi_session_commands_table d' = existing ''pi_session_commands'' pi_session_commands_table d"
    by (simp add: existing_def assms)
  then have up: "upgraded_table ''pi_session_commands'' pi_session_commands_table added_command_columns d' = ?t" by (simp add: upgraded_table_def)
  have 1: "create_index False ''idx_pi_commands_pending'' ''pi_session_commands'' [''session_id'', ''delivered_at'', ''created_at'']
      (put ''pi_session_commands'' ?t d') = Inr (indexed ''idx_pi_commands_pending'' (put ''pi_session_commands'' ?t d'))"
    by (rule create_index_ok [where tab = ?t])
      (use complete_commands [OF assms(1)] in \<open>simp_all add: pi_session_commands_table_def column_decls\<close>)
  show ?thesis
    unfolding command_statements_def append_assoc by (subst performs_block) (simp_all add: eq up 1)
qed

lemma performs_cleanup:
  assumes "sq_tables d ''pi_sessions'' = Some s" "sq_tables d ''pi_session_commands'' = Some c" "sq_tables d ''pi_session_events'' = Some e"
    and "{''id'', ''session_type'', ''parent_session_id''} \<subseteq> set (names s)" "''session_id'' \<in> set (names c)" "''session_id'' \<in> set (names e)"
  defines "keep \<equiv> filter (\<lambda>r. \<not> among (cell_at r ''session_id'') (delegated_ids (sq_rows s)))"
  shows "performs cleanup_statements (known, d) = Inr (known,
    d\<lparr>sq_tables := (sq_tables d)(''pi_router_requests'' := None, ''pi_router_config'' := None, ''pi_delegations'' := None,
      ''pi_session_commands'' := Some (c\<lparr>sq_rows := keep (sq_rows c)\<rparr>), ''pi_session_events'' := Some (e\<lparr>sq_rows := keep (sq_rows e)\<rparr>),
      ''pi_sessions'' := Some (s\<lparr>sq_rows := undelegated (orphaned (sq_rows s))\<rparr>))\<rparr>)"
  using assms by (simp add: cleanup_statements_def drop_table_def delete_dependents_def detach_children_def delete_delegated_def
      update_rows_def on_table_def put_def)

theorem init_schema_upgrades:
  assumes "upgradable d"
  shows "init_schema d = Inr (upgraded d)"
proof -
  let ?w = "put ''workers'' (upgraded_workers d) d"
  have other: "t \<noteq> u \<Longrightarrow> existing t cols (put u tab x) = existing t cols x" for t u cols tab x
    by (simp add: existing_def)
  have idx: "existing t cols (indexed i x) = existing t cols x" for t cols i x by (simp add: existing_def)
  note rules = performs_jobs [OF assms] performs_services performs_sessions [where d = d] performs_events [OF assms] performs_commands [OF assms]
  let ?s = "upgraded_table ''pi_sessions'' pi_sessions_table added_session_columns d"
    and ?c = "upgraded_table ''pi_session_commands'' pi_session_commands_table added_command_columns d"
  have cols: "{''id'', ''session_type'', ''parent_session_id''} \<subseteq> set (names ?s)" "''session_id'' \<in> set (names ?c)"
      "''session_id'' \<in> set (names (numbered_events d))"
    using complete_sessions [OF assms] complete_commands [OF assms] complete_events [OF assms]
    by (simp_all add: numbered_events_def Let_def pi_sessions_table_def pi_session_commands_table_def pi_session_events_table_def column_decls)
  have "performs schema_statements ([], d) = Inr (names (existing ''pi_session_commands'' pi_session_commands_table d), upgraded d)"
    unfolding schema_statements_def performs_append [of worker_statements] performs_workers
    using cols
    by (simp add: rules other idx performs_cleanup [where s = ?s and c = ?c and e = "numbered_events d"],
        simp add: upgraded_def Let_def put_def indexed_def triggered_def spared_def session_rows_def fun_upd_twist)
  then show ?thesis by (simp add: init_schema_def)
qed

section \<open>The current schema\<close>

definition repository_tables :: "(string \<times> column_decl list) list" where
  "repository_tables = [(''workers'', workers_table), (''jobs'', jobs_table), (''port_forwards'', port_forwards_table),
     (''marimo_sessions'', marimo_sessions_table), (''failures'', failures_table), (''pi_sessions'', pi_sessions_table),
     (''pi_session_events'', pi_session_events_table), (''pi_session_commands'', pi_session_commands_table)]"

text \<open>All columns of the repository, no remains of delegated sessions, every event numbered apart from the
  others of its session, all indexes and the trigger.\<close>

definition rows_of :: "string \<Rightarrow> sqlite \<Rightarrow> row list" where
  "rows_of t d = (case sq_tables d t of None \<Rightarrow> [] | Some tab \<Rightarrow> sq_rows tab)"

definition current :: "sqlite \<Rightarrow> bool" where
  "current d =
     (list_all (\<lambda>(t, cols). case sq_tables d t of None \<Rightarrow> False
        | Some tab \<Rightarrow> well_formed tab \<and> cd_name ` set cols \<subseteq> set (names tab)) repository_tables \<and>
      list_all (\<lambda>t. sq_tables d t = None) [''pi_router_requests'', ''pi_router_config'', ''pi_delegations''] \<and>
      delegated_ids (rows_of ''pi_sessions'' d) = [] \<and>
      list_all (\<lambda>r. cell_at r ''session_id'' \<noteq> CNull \<and> cell_at r ''sequence'' \<noteq> CInt 0) (rows_of ''pi_session_events'' d) \<and>
      \<not> repeated (event_keys (rows_of ''pi_session_events'' d)) \<and>
      {''idx_jobs_origin_session_id'', ''idx_jobs_queue_active'', ''idx_pi_events_sequence'', ''idx_pi_commands_pending''} \<subseteq> set (sq_indexes d) \<and>
      ''assign_pi_session_event_sequence'' \<in> set (sq_triggers d))"

lemma currentD:
  "\<lbrakk>current d; (t, cols) \<in> set repository_tables\<rbrakk> \<Longrightarrow>
   \<exists>tab. sq_tables d t = Some tab \<and> well_formed tab \<and> cd_name ` set cols \<subseteq> set (names tab)"
  unfolding current_def list_all_iff by (drule conjunct1, drule (1) bspec) (simp split: option.splits)

lemma current_table:
  assumes "current d" "map_of repository_tables t = Some cols"
  shows "sq_tables d t = Some (the (sq_tables d t)) \<and> well_formed (the (sq_tables d t)) \<and> cd_name ` set cols \<subseteq> set (names (the (sq_tables d t)))"
  using currentD [OF assms(1) map_of_SomeD [OF assms(2)]] by force

lemma among_nil [simp]: "among a [] = False"
  by (simp add: among_def)

lemma upgraded_current:
  assumes "current d"
  shows "upgraded d = d"
proof -
  define w where "w = the (sq_tables d ''workers'')"
  define j where "j = the (sq_tables d ''jobs'')"
  define p where "p = the (sq_tables d ''port_forwards'')"
  define m where "m = the (sq_tables d ''marimo_sessions'')"
  define f where "f = the (sq_tables d ''failures'')"
  define s where "s = the (sq_tables d ''pi_sessions'')"
  define e where "e = the (sq_tables d ''pi_session_events'')"
  define c where "c = the (sq_tables d ''pi_session_commands'')"
  note table = current_table [OF assms, unfolded repository_tables_def]
  have tabs:
    "sq_tables d ''workers'' = Some w" "cd_name ` set workers_table \<subseteq> set (names w)"
    "sq_tables d ''jobs'' = Some j" "cd_name ` set jobs_table \<subseteq> set (names j)"
    "sq_tables d ''port_forwards'' = Some p" "cd_name ` set port_forwards_table \<subseteq> set (names p)"
    "sq_tables d ''marimo_sessions'' = Some m" "cd_name ` set marimo_sessions_table \<subseteq> set (names m)"
    "sq_tables d ''failures'' = Some f" "cd_name ` set failures_table \<subseteq> set (names f)"
    "sq_tables d ''pi_sessions'' = Some s" "cd_name ` set pi_sessions_table \<subseteq> set (names s)"
    "sq_tables d ''pi_session_events'' = Some e" "cd_name ` set pi_session_events_table \<subseteq> set (names e)"
    "sq_tables d ''pi_session_commands'' = Some c" "cd_name ` set pi_session_commands_table \<subseteq> set (names c)"
    using table [of "''workers''" workers_table]
      table [of "''jobs''" jobs_table]
      table [of "''port_forwards''" port_forwards_table]
      table [of "''marimo_sessions''" marimo_sessions_table]
      table [of "''failures''" failures_table]
      table [of "''pi_sessions''" pi_sessions_table]
      table [of "''pi_session_events''" pi_session_events_table]
      table [of "''pi_session_commands''" pi_session_commands_table]
    by (simp_all add: w_def j_def p_def m_def f_def s_def e_def c_def)
  have w: "upgraded_workers d = w"
    using tabs(1,2) by (simp add: upgraded_workers_def existing_def extended_same with_address_def workers_table_def
        early_columns late_columns column_decls)
  have j: "upgraded_table ''jobs'' jobs_table added_job_columns d = j"
    using tabs(3,4) by (simp add: upgraded_table_def existing_def extended_same jobs_table_def added_job_columns_def column_decls)
  have s: "upgraded_table ''pi_sessions'' pi_sessions_table added_session_columns d = s"
    using tabs(11,12) by (simp add: upgraded_table_def existing_def extended_same pi_sessions_table_def added_session_columns_def column_decls)
  have e: "upgraded_table ''pi_session_events'' pi_session_events_table added_event_columns d = e"
    using tabs(13,14) by (simp add: upgraded_table_def existing_def extended_same pi_session_events_table_def added_event_columns_def column_decls)
  have c: "upgraded_table ''pi_session_commands'' pi_session_commands_table added_command_columns d = c"
    using tabs(15,16) by (simp add: upgraded_table_def existing_def extended_same pi_session_commands_table_def added_command_columns_def column_decls)
  have none: "delegated_ids (sq_rows s) = []" using assms tabs by (simp add: current_def rows_of_def)
  then have "undelegated (orphaned (sq_rows s)) = sq_rows s"
    by (auto simp: orphaned_def undelegated_def delegated_ids_def filter_empty_conv filter_id_conv)
  moreover have "numbered_events d = e"
    using assms tabs by (simp add: numbered_events_def e numbered_same current_def rows_of_def list_all_iff)
  moreover have "sq_tables d ''pi_router_requests'' = None" "sq_tables d ''pi_router_config'' = None" "sq_tables d ''pi_delegations'' = None"
    using assms by (simp_all add: current_def)
  ultimately show ?thesis
    using assms tabs none unfolding upgraded_def Let_def w j s c
    by (intro sqlite.equality)
      (simp_all add: spared_def session_rows_def s existing_def fun_upd_idem noted_def current_def)
qed

section \<open>An upgrade reaches the current schema\<close>

lemma well_formed_widened: "\<lbrakk>well_formed tab; cd_name cd \<notin> set (names tab)\<rbrakk> \<Longrightarrow> well_formed (widened cd tab)"
  by (auto simp: well_formed_def list_all_iff names_def widened_def)

lemma well_formed_fold:
  "\<lbrakk>well_formed tab; distinct (map cd_name cds); set (names tab) \<inter> cd_name ` set cds = {}\<rbrakk> \<Longrightarrow> well_formed (fold widened cds tab)"
proof (induction cds arbitrary: tab)
  case (Cons cd cds)
  then have "well_formed (widened cd tab)" by (intro well_formed_widened) auto
  with Cons show ?case by auto
qed simp

lemma well_formed_extended: "\<lbrakk>well_formed tab; addable cds\<rbrakk> \<Longrightarrow> well_formed (extended cds tab)"
  unfolding extended_def addable_def by (intro well_formed_fold) (auto simp: distinct_map_filter)

lemma well_formed_rows: "\<lbrakk>well_formed tab; \<forall>r'\<in>set rs. \<exists>r\<in>set (sq_rows tab). map fst r' = map fst r\<rbrakk> \<Longrightarrow> well_formed (tab\<lparr>sq_rows := rs\<rparr>)"
  by (fastforce simp: well_formed_def list_all_iff)

lemma fst_copied_address [simp]: "map fst (copied_address r) = map fst r"
  by (simp add: copied_address_def)

lemma well_formed_with_address: "well_formed tab \<Longrightarrow> well_formed (with_address tab)"
  unfolding with_address_def Let_def
  by (auto intro!: well_formed_rows well_formed_widened simp: plain_def filled_def) blast

lemma fst_numbered: "r' \<in> set (numbered before rs) \<Longrightarrow> \<exists>r\<in>set rs. map fst r' = map fst r"
  by (induction before rs rule: numbered.induct) (auto split: if_splits)

lemma fst_orphaned: "r' \<in> set (undelegated (orphaned rs)) \<Longrightarrow> \<exists>r\<in>set rs. map fst r' = map fst r"
  by (auto simp: undelegated_def orphaned_def)

lemma well_formed_upgraded:
  assumes "upgradable d"
  shows "well_formed (upgraded_workers d)"
    and "well_formed (upgraded_table ''jobs'' jobs_table added_job_columns d)"
    and "well_formed (upgraded_table ''pi_sessions'' pi_sessions_table added_session_columns d)"
    and "well_formed (upgraded_table ''pi_session_events'' pi_session_events_table added_event_columns d)"
    and "well_formed (upgraded_table ''pi_session_commands'' pi_session_commands_table added_command_columns d)"
    and "well_formed (existing ''port_forwards'' port_forwards_table d)"
    and "well_formed (existing ''marimo_sessions'' marimo_sessions_table d)"
    and "well_formed (existing ''failures'' failures_table d)"
proof -
  have ex: "well_formed (existing t full d)" if "map_of first_columns t = Some cols" "distinct (map cd_name full)" for t cols full
    using existing_well_formed [OF assms map_of_SomeD [OF that(1)] that(2)] .
  have add: "addable early_worker_columns" "addable late_worker_columns"
    by (simp_all add: addable_def early_worker_columns_def late_worker_columns_def column_decls)
  show "well_formed (upgraded_workers d)"
    unfolding upgraded_workers_def
    by (intro well_formed_extended well_formed_with_address add ex) (simp_all add: first_columns_def workers_table_def column_decls)
  show "well_formed (upgraded_table ''jobs'' jobs_table added_job_columns d)"
    "well_formed (upgraded_table ''pi_sessions'' pi_sessions_table added_session_columns d)"
    "well_formed (upgraded_table ''pi_session_events'' pi_session_events_table added_event_columns d)"
    "well_formed (upgraded_table ''pi_session_commands'' pi_session_commands_table added_command_columns d)"
    unfolding upgraded_table_def
    by (rule well_formed_extended [OF ex]; simp add: first_columns_def table_decls column_decls)+
  show "well_formed (existing ''port_forwards'' port_forwards_table d)" "well_formed (existing ''marimo_sessions'' marimo_sessions_table d)"
    "well_formed (existing ''failures'' failures_table d)"
    by (rule ex; simp add: first_columns_def table_decls column_decls)+
qed

lemma repeated_filter: "repeated (event_keys (filter P rs)) \<Longrightarrow> repeated (event_keys rs)"
  by (induction rs) (auto simp: event_keys_def split: if_splits)

lemma sessions_numbered: "list_all (\<lambda>r. cell_at r ''session_id'' \<noteq> CNull) (numbered before rs) \<longleftrightarrow> list_all (\<lambda>r. cell_at r ''session_id'' \<noteq> CNull) rs"
  by (induction before rs rule: numbered.induct) simp_all

lemma no_delegated_left: "delegated_ids (undelegated rs) = []"
  by (auto simp: delegated_ids_def undelegated_def filter_empty_conv)

lemma noted_set [simp]: "set (noted i xs) = insert i (set xs)"
  by (auto simp: noted_def)

lemma upgraded_lookup:
  "sq_tables (upgraded d) ''workers'' = Some (upgraded_workers d)"
  "sq_tables (upgraded d) ''jobs'' = Some (upgraded_table ''jobs'' jobs_table added_job_columns d)"
  "sq_tables (upgraded d) ''port_forwards'' = Some (existing ''port_forwards'' port_forwards_table d)"
  "sq_tables (upgraded d) ''marimo_sessions'' = Some (existing ''marimo_sessions'' marimo_sessions_table d)"
  "sq_tables (upgraded d) ''failures'' = Some (existing ''failures'' failures_table d)"
  "sq_tables (upgraded d) ''pi_router_requests'' = None" "sq_tables (upgraded d) ''pi_router_config'' = None"
  "sq_tables (upgraded d) ''pi_delegations'' = None"
  "sq_tables (upgraded d) ''pi_session_commands'' =
     (let tab = upgraded_table ''pi_session_commands'' pi_session_commands_table added_command_columns d
      in Some (tab\<lparr>sq_rows := spared d (sq_rows tab)\<rparr>))"
  "sq_tables (upgraded d) ''pi_session_events'' = Some ((numbered_events d)\<lparr>sq_rows := spared d (sq_rows (numbered_events d))\<rparr>)"
  "sq_tables (upgraded d) ''pi_sessions'' =
     (let tab = upgraded_table ''pi_sessions'' pi_sessions_table added_session_columns d
      in Some (tab\<lparr>sq_rows := undelegated (orphaned (sq_rows tab))\<rparr>))"
  by (simp_all add: upgraded_def Let_def)

lemma upgraded_indexes:
  "{''idx_jobs_origin_session_id'', ''idx_jobs_queue_active'', ''idx_pi_events_sequence'', ''idx_pi_commands_pending''} \<subseteq> set (sq_indexes (upgraded d))"
  "''assign_pi_session_event_sequence'' \<in> set (sq_triggers (upgraded d))"
  by (simp_all add: upgraded_def Let_def)

lemma current_upgraded:
  assumes "upgradable d"
  shows "current (upgraded d)"
proof -
  note wf = well_formed_upgraded [OF assms]
  note cols = complete_workers [OF assms] complete_jobs [OF assms] complete_sessions [OF assms] complete_events [OF assms]
    complete_commands [OF assms] complete_services [OF assms]
  have E: "well_formed (numbered_events d)" "names (numbered_events d) = names (upgraded_table ''pi_session_events'' pi_session_events_table added_event_columns d)"
    unfolding numbered_events_def Let_def by (rule well_formed_rows [OF wf(4)]) (auto dest: fst_numbered)
  have nonzero: "list_all (\<lambda>r. cell_at r ''sequence'' \<noteq> CInt 0) (sq_rows (numbered_events d))"
    and nonnull: "list_all (\<lambda>r. cell_at r ''session_id'' \<noteq> CNull) (sq_rows (numbered_events d))"
    and apart: "\<not> repeated (event_keys (sq_rows (numbered_events d)))"
    using upgraded_events_numbering [OF assms]
    by (auto simp: numbered_events_def Let_def numbered_nonzero numbered_same sessions_numbered numbered_not_repeated)
  have kept: "well_formed (tab\<lparr>sq_rows := spared d (sq_rows tab)\<rparr>)" if "well_formed tab" for tab
    by (rule well_formed_rows [OF that]) (auto simp: spared_def)
  have events: "list_all (\<lambda>r. cell_at r ''session_id'' \<noteq> CNull \<and> cell_at r ''sequence'' \<noteq> CInt 0) (spared d (sq_rows (numbered_events d)))"
    "\<not> repeated (event_keys (spared d (sq_rows (numbered_events d))))"
    using nonzero nonnull apart by (auto simp: spared_def list_all_iff dest: repeated_filter)
  have sessions: "well_formed ((upgraded_table ''pi_sessions'' pi_sessions_table added_session_columns d)
      \<lparr>sq_rows := undelegated (orphaned (sq_rows (upgraded_table ''pi_sessions'' pi_sessions_table added_session_columns d)))\<rparr>)"
    by (rule well_formed_rows [OF wf(3)]) (auto dest: fst_orphaned)
  show ?thesis
    unfolding current_def
    using wf cols E events sessions kept [OF E(1)] kept [OF wf(5)] upgraded_indexes [of d]
    by (simp add: repository_tables_def upgraded_lookup Let_def rows_of_def no_delegated_left)
qed

lemma current_upgradable:
  assumes "current d"
  shows "upgradable d"
proof -
  have "list_all (\<lambda>(t, cols). case map_of repository_tables t of None \<Rightarrow> False | Some full \<Rightarrow> set cols \<subseteq> cd_name ` set full) first_columns"
    by (simp add: first_columns_def repository_tables_def table_decls column_decls)
  then have cols: "case map_of repository_tables t of None \<Rightarrow> False | Some full \<Rightarrow> set cols \<subseteq> cd_name ` set full"
    if "(t, cols) \<in> set first_columns" for t cols
    using that unfolding list_all_iff by fast
  have "well_formed tab \<and> set cols \<subseteq> set (names tab)" if "(t, cols) \<in> set first_columns" "sq_tables d t = Some tab" for t cols tab
    using current_table [OF assms, of t] cols [OF that(1)] that(2) by (auto split: option.splits)
  moreover have "numbering_ok tab" if "sq_tables d ''pi_session_events'' = Some tab" for tab
    using assms that by (auto simp: current_def numbering_ok_def rows_of_def list_all_iff)
  ultimately show ?thesis by (auto simp: upgradable_def list_all_iff split: option.splits)
qed

section \<open>Nothing else is lost\<close>

definition grown :: "row \<Rightarrow> row \<Rightarrow> bool" where
  "grown r r' = (take (length r) r' = r)"

lemma grown_append: "grown r (r @ x)"
  by (simp add: grown_def)

lemma grown_trans: "\<lbrakk>grown r r'; grown r' r''\<rbrakk> \<Longrightarrow> grown r r''"
  unfolding grown_def by (metis length_take min.absorb_iff2 nat_le_linear take_all take_take)

lemma all_grown_refl: "list_all2 grown rs rs"
  by (simp add: list.rel_refl grown_def)

lemma all_grown_trans: "\<lbrakk>list_all2 grown xs ys; list_all2 grown ys zs\<rbrakk> \<Longrightarrow> list_all2 grown xs zs"
  using list_all2_trans [of grown grown grown] grown_trans by blast

lemma rows_fold_widened: "sq_rows (fold widened cds tab) = map (\<lambda>r. r @ map (\<lambda>cd. (cd_name cd, cd_default cd)) cds) (sq_rows tab)"
  by (induction cds arbitrary: tab) (simp_all add: widened_def)

lemma extended_grown: "list_all2 grown (sq_rows tab) (sq_rows (extended cds tab))"
  by (simp add: extended_def rows_fold_widened list_all2_conv_all_nth grown_append)

lemma set_cell_new: "n \<notin> fst ` set r \<Longrightarrow> set_cell n c (r @ [(n, v)]) = r @ [(n, c)]"
  by (induction r) (auto simp: set_cell_def)

lemma row_columns: "\<lbrakk>well_formed tab; r \<in> set (sq_rows tab)\<rbrakk> \<Longrightarrow> fst ` set r = set (names tab)"
  unfolding well_formed_def list_all_iff by (metis list.set_map)

lemma with_address_grown:
  assumes "well_formed tab"
  shows "list_all2 grown (sq_rows tab) (sq_rows (with_address tab))"
proof -
  have "grown r (copied_address (r @ [(''worker_ip'', CNull)]))" if "r \<in> set (sq_rows tab)" "''worker_ip'' \<notin> set (names tab)" for r
    using that row_columns [OF assms that(1)] by (simp add: copied_address_def set_cell_new grown_append)
  then show ?thesis
    by (auto simp: with_address_def Let_def widened_def list_all2_conv_all_nth plain_def grown_append grown_def)
qed

lemma renamed_address:
  assumes "well_formed tab" "''worker_ip'' \<notin> set (names tab)" "''zerotier_ip'' \<in> set (names tab)"
  shows "map (\<lambda>r. cell_at r ''worker_ip'') (sq_rows (with_address tab)) = map (\<lambda>r. cell_at r ''zerotier_ip'') (sq_rows tab)"
proof -
  have "cell_at (copied_address (r @ [(''worker_ip'', CNull)])) ''worker_ip'' = cell_at r ''zerotier_ip''" if "r \<in> set (sq_rows tab)" for r
    using row_columns [OF assms(1) that] assms(2,3) by (simp add: copied_address_def cell_at_new set_cell_new cell_at_append)
  then show ?thesis using assms(2,3) by (simp add: with_address_def Let_def widened_def plain_def)
qed

lemma grown_cells: "\<lbrakk>list_all2 grown xs ys; \<forall>r\<in>set xs. n \<in> fst ` set r\<rbrakk> \<Longrightarrow> list_all2 (\<lambda>r r'. grown r r' \<and> cell_at r' n = cell_at r n) xs ys"
proof (induction rule: list_all2_induct)
  case (Cons r rs r' rs')
  then have "r' = r @ drop (length r) r'" by (metis append_take_drop_id grown_def)
  then have "cell_at r' n = cell_at r n" using Cons by (metis cell_at_append list.set_intros(1))
  with Cons show ?case by simp
qed simp

lemma existing_rows: "sq_rows (existing t cols d) = rows_of t d"
  by (simp add: existing_def rows_of_def split: option.split)

lemma upgraded_table_cells:
  assumes "upgradable d" "map_of first_columns t = Some cols" "distinct (map cd_name full)" "set cols \<subseteq> cd_name ` set full" "n \<in> set cols"
  shows "list_all2 (\<lambda>r r'. cell_at r' n = cell_at r n) (rows_of t d) (sq_rows (upgraded_table t full cds d))"
proof -
  note mem = map_of_SomeD [OF assms(2)]
  have "\<forall>r\<in>set (rows_of t d). n \<in> fst ` set r"
    using row_columns [OF existing_well_formed [OF assms(1) mem assms(3)]] existing_columns [OF assms(1) mem assms(4)] assms(5)
    by (auto simp: existing_rows)
  then have "list_all2 (\<lambda>r r'. grown r r' \<and> cell_at r' n = cell_at r n) (rows_of t d) (sq_rows (upgraded_table t full cds d))"
    by (intro grown_cells) (simp_all add: upgraded_table_def extended_grown existing_rows [of t full, symmetric])
  then show ?thesis by (rule list_all2_mono) simp
qed

lemma cells_map: "list_all2 (\<lambda>r r'. f r' = f r) xs ys \<Longrightarrow> map f ys = map f xs"
  by (induction rule: list_all2_induct) simp_all

lemma filter_cells: "list_all2 (\<lambda>r r'. f r' = f r \<and> g r' = g r) xs ys \<Longrightarrow> map f (filter (\<lambda>r. P (g r)) ys) = map f (filter (\<lambda>r. P (g r)) xs)"
  by (induction rule: list_all2_induct) simp_all

lemma list_all2_both: "\<lbrakk>list_all2 P xs ys; list_all2 Q xs ys\<rbrakk> \<Longrightarrow> list_all2 (\<lambda>x y. P x y \<and> Q x y) xs ys"
  by (simp add: list_all2_conv_all_nth)

lemma session_cells:
  assumes "upgradable d"
  shows "list_all2 (\<lambda>r r'. cell_at r' ''id'' = cell_at r ''id'') (rows_of ''pi_sessions'' d) (session_rows d)"
    and "list_all2 (\<lambda>r r'. cell_at r' ''session_type'' = cell_at r ''session_type'') (rows_of ''pi_sessions'' d) (session_rows d)"
  unfolding session_rows_def
  by (rule upgraded_table_cells [OF assms, where cols = "the (map_of first_columns ''pi_sessions'')"];
      simp add: first_columns_def pi_sessions_table_def column_decls)+

lemma delegated_same:
  assumes "upgradable d"
  shows "delegated_ids (session_rows d) = delegated_ids (rows_of ''pi_sessions'' d)"
  unfolding delegated_ids_def
  by (rule filter_cells [where g = "\<lambda>r. cell_at r ''session_type''" and P = "\<lambda>c. c = CText ''delegated''"])
    (rule list_all2_both [OF session_cells [OF assms]])

lemma map_numbered_id: "map (\<lambda>r. (cell_at r ''id'', cell_at r ''session_id'')) (numbered before rs) = map (\<lambda>r. (cell_at r ''id'', cell_at r ''session_id'')) rs"
  by (induction before rs rule: numbered.induct) (simp_all add: cell_at_set_cell)

end
