(* ===== verification/Schema_Props.thy ===== *)
theory Schema_Props
  imports Schema
begin

text \<open>
  What the upgrade of a database promises: it ends in the current schema and running it again changes
  nothing, no row but those of delegated sessions is lost, old events are numbered in their order, and
  what the repository writes it reads back.  The last section has a database of an earlier version.
\<close>

section \<open>A database of an earlier version\<close>

text \<open>A worker in the schema of \<open>specs/SPEC.md\<close> with the address column \<open>zerotier_ip TEXT NOT NULL\<close>, three
  events without numbers and a delegated session.\<close>

definition old_workers :: "column_decl \<Rightarrow> sql_table" where
  "old_workers address = \<lparr>sq_columns = [plain ''id'', mandatory ''name'', address, defaulted ''gpu_count'' (CInt 0), defaulted ''gpu_names'' no_list,
     defaulted ''gpu_vram_gb'' no_list, defaulted ''cpu_cores'' (CInt 0), defaulted ''total_ram_gb'' (CInt 0), defaulted ''used_ram_gb'' (CInt 0),
     defaulted ''total_disk_gb'' (CInt 0), defaulted ''used_disk_gb'' (CInt 0), defaulted ''status'' (CText ''offline''),
     defaulted ''last_heartbeat_ts'' (CInt 0), defaulted ''created_at'' (CInt 0)],
   sq_rows = [[(''id'', CText ''w1''), (''name'', CText ''gpu-a''), (cd_name address, CText ''10.1.2.3''), (''gpu_count'', CInt 0), (''gpu_names'', no_list),
     (''gpu_vram_gb'', no_list), (''cpu_cores'', CInt 8), (''total_ram_gb'', CInt 0), (''used_ram_gb'', CInt 0),
     (''total_disk_gb'', CInt 0), (''used_disk_gb'', CInt 0), (''status'', CText ''online''), (''last_heartbeat_ts'', CInt 7), (''created_at'', CInt 1)]]\<rparr>"

definition old_sessions :: sql_table where
  "old_sessions = \<lparr>sq_columns = [plain ''id'', plain ''worker_id'', plain ''parent_session_id'', mandatory ''session_type'', mandatory ''state'',
     plain ''task'', plain ''cwd'', plain ''tmux_session'', plain ''detail'', plain ''created_at'', plain ''updated_at''],
   sq_rows = map (\<lambda>(i, parent, kind). [(''id'', CText i), (''worker_id'', CNull), (''parent_session_id'', parent), (''session_type'', CText kind),
     (''state'', CText ''idle''), (''task'', no_text), (''cwd'', no_text), (''tmux_session'', no_text), (''detail'', no_text),
     (''created_at'', CInt 1), (''updated_at'', CInt 1)])
     [(''a'', CText ''d'', ''interactive''), (''d'', CNull, ''delegated'')]\<rparr>"

definition old_events :: sql_table where
  "old_events = \<lparr>sq_columns = [plain ''id'', mandatory ''session_id'', mandatory ''event_type'', defaulted ''payload'' no_dict, defaulted ''created_at'' (CInt 0)],
   sq_rows = map (\<lambda>(i, sid). [(''id'', CText i), (''session_id'', CText sid), (''event_type'', CText ''message''), (''payload'', no_dict), (''created_at'', CInt 1)])
     [(''e1'', ''a''), (''e2'', ''d''), (''e3'', ''a'')]\<rparr>"

definition old_database :: "column_decl \<Rightarrow> sqlite" where
  "old_database address = \<lparr>sq_tables = [''workers'' \<mapsto> old_workers address, ''pi_sessions'' \<mapsto> old_sessions, ''pi_session_events'' \<mapsto> old_events],
     sq_indexes = [], sq_triggers = []\<rparr>"

lemmas old_defs = old_database_def old_workers_def old_sessions_def old_events_def

lemma old_upgradable: "upgradable (old_database (mandatory ''zerotier_ip''))"
  by (simp add: upgradable_def first_columns_def old_defs well_formed_def numbering_ok_def names_def table_decls column_decls cell_at_def)

section \<open>The upgrade\<close>



text \<open>The cells of an upgraded row.\<close>

lemma pairs_filter:
  assumes "map (\<lambda>r. (f r, g r)) ys = map (\<lambda>r. (f r, g r)) xs"
  shows "map f (filter (\<lambda>r. P (g r)) ys) = map f (filter (\<lambda>r. P (g r)) xs)"
proof -
  have "map f (filter (\<lambda>r. P (g r)) zs) = map fst (filter (\<lambda>q. P (snd q)) (map (\<lambda>r. (f r, g r)) zs))" for zs
    by (simp add: filter_map comp_def)
  with assms show ?thesis by metis
qed

lemma cells_pairs:
  "\<lbrakk>list_all2 (\<lambda>r r'. cell_at r' m = cell_at r m) xs ys; list_all2 (\<lambda>r r'. cell_at r' n = cell_at r n) xs ys\<rbrakk> \<Longrightarrow>
   map (\<lambda>r. (cell_at r m, cell_at r n)) ys = map (\<lambda>r. (cell_at r m, cell_at r n)) xs"
  by (simp add: list_all2_conv_all_nth list_eq_iff_nth_eq)

lemma event_cells:
  assumes "upgradable d"
  shows "map (\<lambda>r. (cell_at r ''id'', cell_at r ''session_id''))
      (sq_rows (upgraded_table ''pi_session_events'' pi_session_events_table added_event_columns d)) =
    map (\<lambda>r. (cell_at r ''id'', cell_at r ''session_id'')) (rows_of ''pi_session_events'' d)"
  by (rule cells_pairs;
      rule upgraded_table_cells [OF assms, where cols = "the (map_of first_columns ''pi_session_events'')"];
      simp add: first_columns_def pi_session_events_table_def column_decls)

lemma command_cells:
  assumes "upgradable d"
  shows "map (\<lambda>r. (cell_at r ''id'', cell_at r ''session_id''))
      (sq_rows (upgraded_table ''pi_session_commands'' pi_session_commands_table added_command_columns d)) =
    map (\<lambda>r. (cell_at r ''id'', cell_at r ''session_id'')) (rows_of ''pi_session_commands'' d)"
  by (rule cells_pairs;
      rule upgraded_table_cells [OF assms, where cols = "the (map_of first_columns ''pi_session_commands'')"];
      simp add: first_columns_def pi_session_commands_table_def column_decls)

lemma kept_sessions: "map (\<lambda>r. cell_at r ''id'') (undelegated (orphaned rs)) =
   map (\<lambda>r. cell_at r ''id'') (filter (\<lambda>r. cell_at r ''session_type'' \<noteq> CText ''delegated'') rs)"
proof -
  have "map (\<lambda>r. cell_at r ''id'') (filter (\<lambda>r. cell_at r ''session_type'' \<noteq> CText ''delegated'')
      (map (\<lambda>r. if P r then set_cell ''parent_session_id'' CNull r else r) rs)) =
    map (\<lambda>r. cell_at r ''id'') (filter (\<lambda>r. cell_at r ''session_type'' \<noteq> CText ''delegated'') rs)" for P
    by (induction rs) (simp_all add: cell_at_set_cell)
  note rule = this
  show ?thesis unfolding undelegated_def orphaned_def by (rule rule)
qed

lemma upgraded_rows:
  "rows_of ''pi_session_events'' (upgraded d) = spared d (numbered [] (sq_rows (upgraded_table ''pi_session_events'' pi_session_events_table added_event_columns d)))"
  "rows_of ''pi_session_commands'' (upgraded d) = spared d (sq_rows (upgraded_table ''pi_session_commands'' pi_session_commands_table added_command_columns d))"
  "rows_of ''pi_sessions'' (upgraded d) = undelegated (orphaned (session_rows d))"
  "rows_of ''workers'' (upgraded d) = sq_rows (upgraded_workers d)"
  "rows_of ''jobs'' (upgraded d) = sq_rows (upgraded_table ''jobs'' jobs_table added_job_columns d)"
  "rows_of ''port_forwards'' (upgraded d) = rows_of ''port_forwards'' d" "rows_of ''marimo_sessions'' (upgraded d) = rows_of ''marimo_sessions'' d"
  "rows_of ''failures'' (upgraded d) = rows_of ''failures'' d"
  by (simp_all add: rows_of_def [where d = "upgraded d"] upgraded_lookup Let_def numbered_events_def session_rows_def existing_rows)

lemma workers_grown:
  assumes "upgradable d"
  shows "list_all2 grown (rows_of ''workers'' d) (sq_rows (upgraded_workers d))"
proof -
  have "well_formed (existing ''workers'' workers_table d)"
    by (rule existing_well_formed [OF assms, where cols = "the (map_of first_columns ''workers'')"])
      (simp_all add: first_columns_def workers_table_def column_decls)
  then have "well_formed (extended early_worker_columns (existing ''workers'' workers_table d))"
    by (rule well_formed_extended) (simp add: addable_def early_worker_columns_def column_decls)
  then have "list_all2 grown (sq_rows (existing ''workers'' workers_table d)) (sq_rows (upgraded_workers d))"
    unfolding upgraded_workers_def by (blast intro: all_grown_trans extended_grown with_address_grown)
  then show ?thesis by (simp add: existing_rows)
qed

definition not_of :: "cell list \<Rightarrow> row list \<Rightarrow> row list" where
  "not_of gone rs = filter (\<lambda>r. \<not> among (cell_at r ''session_id'') gone) rs"

lemma old_rows:
  "delegated_ids (rows_of ''pi_sessions'' (old_database a)) = [CText ''d'']"
  "map (\<lambda>r. cell_at r ''id'') (filter (\<lambda>r. cell_at r ''session_type'' \<noteq> CText ''delegated'') (rows_of ''pi_sessions'' (old_database a))) = [CText ''a'']"
  "map (\<lambda>r. cell_at r ''id'') (not_of [CText ''d''] (rows_of ''pi_session_events'' (old_database a))) = [CText ''e1'', CText ''e3'']"
  "of_session (CText ''a'') (rows_of ''pi_session_events'' (old_database a)) = 2"
  by (simp_all add: rows_of_def old_defs delegated_ids_def not_of_def among_def same_def cell_at_def of_session_def)



text \<open>C16. Events from before the numbering are numbered 1, 2, 3, ... within each session, in the order of their
  insertion: the numbering the event log relies on.\<close>

theorem old_events_numbered:
  assumes "upgradable d" "init_schema d = Inr d'" "''sequence'' \<notin> set (table_info ''pi_session_events'' d)"
    and "sid \<noteq> CNull" "\<not> among sid (delegated_ids (rows_of ''pi_sessions'' d))"
  shows "map (\<lambda>r. cell_at r ''sequence'') (filter (\<lambda>r. cell_at r ''session_id'' = sid) (rows_of ''pi_session_events'' d')) =
    map (\<lambda>i. CInt (int i)) [1..<Suc (of_session sid (rows_of ''pi_session_events'' d))]"
proof -
  let ?E = "upgraded_table ''pi_session_events'' pi_session_events_table added_event_columns d"
  have d': "d' = upgraded d" using assms init_schema_upgrades [OF assms(1)] by simp
  have zero: "list_all unnumbered (sq_rows ?E)"
  proof (cases "sq_tables d ''pi_session_events''")
    case None
    then show ?thesis by (simp add: upgraded_table_def existing_def extended_def rows_fold_widened)
  next
    case (Some tab)
    with assms(3) have new: "''sequence'' \<notin> set (names (existing ''pi_session_events'' pi_session_events_table d))"
      by (simp add: table_info_def existing_def)
    have wf: "well_formed (existing ''pi_session_events'' pi_session_events_table d)"
      by (rule existing_well_formed [OF assms(1), where cols = "the (map_of first_columns ''pi_session_events'')"])
        (simp_all add: first_columns_def pi_session_events_table_def column_decls)
    have "sq_rows ?E = map (\<lambda>r. r @ [(''sequence'', CInt 0)]) (sq_rows (existing ''pi_session_events'' pi_session_events_table d))"
      using new by (simp add: upgraded_table_def extended_def added_event_columns_def column_decls widened_def)
    with upgraded_events_numbering(2) [OF assms(1)] row_columns [OF wf] new show ?thesis
      by (auto simp: unnumbered_def list_all_iff cell_at_new)
  qed
  have same_count: "of_session sid (sq_rows ?E) = of_session sid (rows_of ''pi_session_events'' d)"
  proof -
    have count: "of_session sid rs = length (filter (\<lambda>q. snd q = sid) (map (\<lambda>r. (cell_at r ''id'', cell_at r ''session_id'')) rs))" for rs
      by (simp add: of_session_def filter_map comp_def)
    show ?thesis unfolding count event_cells [OF assms(1)] by (rule refl)
  qed
  have "filter (\<lambda>r. cell_at r ''session_id'' = sid) (spared d rs) = filter (\<lambda>r. cell_at r ''session_id'' = sid) rs" for rs
    using assms(5) by (auto simp: spared_def delegated_same [OF assms(1)] intro: filter_cong)
  then show ?thesis
    using numbered_sequences [OF zero assms(4), of "[]"]
    by (simp add: d' upgraded_rows same_count of_session_def [of sid "[]"] map_Suc_upt [symmetric] comp_def add.commute del: upt_Suc)
qed

theorem old_events_numbered_witness:
  "let d' = upgraded (old_database (mandatory ''zerotier_ip'')) in
   map (\<lambda>r. cell_at r ''sequence'') (filter (\<lambda>r. cell_at r ''session_id'' = CText ''a'') (rows_of ''pi_session_events'' d')) = [CInt 1, CInt 2]"
proof -
  let ?d = "old_database (mandatory ''zerotier_ip'')"
  have "map (\<lambda>r. cell_at r ''sequence'') (filter (\<lambda>r. cell_at r ''session_id'' = CText ''a'') (rows_of ''pi_session_events'' (upgraded ?d))) =
      map (\<lambda>i. CInt (int i)) [1..<Suc (of_session (CText ''a'') (rows_of ''pi_session_events'' ?d))]"
    by (rule old_events_numbered [OF old_upgradable init_schema_upgrades [OF old_upgradable]])
      (simp_all add: old_rows, simp_all add: table_info_def names_def old_defs among_def same_def column_decls)
  then show ?thesis by (simp add: Let_def old_rows upt_rec)
qed

section \<open>What is stored is read back\<close>

lemma insert_row_carries:
  assumes "insert_row t vals d = Inr d'" "distinct (map fst vals)"
  shows "carries (last (rows_of t d')) vals"
proof -
  from assms(1) obtain tab where tab: "sq_tables d t = Some tab" "fst ` set vals \<subseteq> set (names tab)"
    and d': "d' = put t (tab\<lparr>sq_rows := sq_rows tab @
      [map (\<lambda>cd. (cd_name cd, case map_of vals (cd_name cd) of None \<Rightarrow> cd_default cd | Some c \<Rightarrow> c)) (sq_columns tab)]\<rparr>) d"
    by (auto simp: insert_row_def on_table_def Let_def split: option.splits if_splits)
  have find: "map_of (map (\<lambda>cd. (cd_name cd, h cd)) cds) n = Some c"
    if "n \<in> cd_name ` set cds" "\<And>cd. cd_name cd = n \<Longrightarrow> h cd = c" for h n c and cds :: "column_decl list"
    using that(1) by (induction cds) (auto simp: that(2))
  have "map_of (map (\<lambda>cd. (cd_name cd, case map_of vals (cd_name cd) of None \<Rightarrow> cd_default cd | Some c \<Rightarrow> c)) (sq_columns tab)) (fst v) = Some (snd v)"
    if v: "v \<in> set vals" for v
  proof (rule find)
    show "fst v \<in> cd_name ` set (sq_columns tab)" using tab(2) v by (force simp: names_def)
    have "map_of vals (fst v) = Some (snd v)" using assms(2) v by (simp add: map_of_is_SomeI)
    then show "(case map_of vals (cd_name cd) of None \<Rightarrow> cd_default cd | Some c \<Rightarrow> c) = snd v" if "cd_name cd = fst v" for cd
      using that by simp
  qed
  then show ?thesis by (simp add: carries_def list_all_iff rows_of_def d')
qed

lemma written_columns:
  "distinct (map fst (encode_worker w))" "distinct (map fst (encode_job j))" "distinct (map fst (encode_pf p))"
  "distinct (map fst (encode_marimo m))" "distinct (map fst (encode_pi_session s))" "distinct (map fst (encode_pi_command c))"
  by (simp_all add: encode_worker_def encode_job_def encode_pf_def encode_marimo_def encode_pi_session_def encode_pi_command_def)


definition sample_forward :: port_forward where
  "sample_forward = \<lparr>pf_id = ''p'', pf_worker = ''w1'', pf_local = 80, pf_remote = 81, pf_service = '''', pf_pid = 7, pf_created = 1\<rparr>"


section \<open>Two faults of the rename\<close>

definition old_worker :: worker where
  "old_worker = \<lparr>w_id = ''w2'', w_name = ''gpu-b'', w_ip = ''10.1.2.4'', w_dns = '''', w_ssh_user = ''root'', w_harness_dir = ''/harness'',
     w_gpu_count = 0, w_gpu_names = [], w_gpu_vram = [], w_gpu_used = [], w_gpu_busy = [], w_cpu_cores = 8, w_total_ram = 0, w_used_ram = 0,
     w_total_disk = 0, w_used_disk = 0, w_data_paths = [], w_status = ONLINE, w_heartbeat = 7, w_created = 1\<rparr>"

text \<open>The old address column stays. It is NOT NULL without a default, so an upgraded database refuses every new
  worker.\<close>

lemma renamed_database_refuses_workers:
  "insert_row ''workers'' (encode_worker old_worker) (upgraded (old_database (mandatory ''zerotier_ip''))) =
   Inl (IntegrityErr ''NOT NULL constraint failed: workers.zerotier_ip'')"
proof -
  let ?d = "old_database (mandatory ''zerotier_ip'')"
  have tab: "upgraded_workers ?d = extended late_worker_columns (with_address (extended early_worker_columns (old_workers (mandatory ''zerotier_ip''))))"
    by (simp add: upgraded_workers_def existing_def old_database_def)
  have cols: "sq_columns (upgraded_workers ?d) =
      sq_columns (old_workers (mandatory ''zerotier_ip'')) @ early_worker_columns @ [plain ''worker_ip''] @ late_worker_columns"
    unfolding tab
    by (simp add: extended_def with_address_def names_def old_workers_def early_worker_columns_def late_worker_columns_def widened_def Let_def column_decls)
  then show ?thesis
    by (simp add: insert_row_def on_table_def upgraded_lookup names_def Let_def encode_worker_def old_workers_def early_worker_columns_def
        late_worker_columns_def column_decls cell_at_def old_worker_def)
qed

text \<open>The new address column is on disk at once, the copy of the addresses only with the commit at the end. When the
  process dies anywhere in between, the next start finds the column and copies nothing: the rows keep NULL, which
  the reader refuses.\<close>

definition half_renamed :: sqlite where
  "half_renamed = surviving (take 6 schema_statements) ([], old_database (plain ''zerotier_ip''))"

lemma half_renamed_workers:
  "half_renamed = put ''workers'' (widened (plain ''worker_ip'') (extended early_worker_columns (old_workers (plain ''zerotier_ip''))))
     (old_database (plain ''zerotier_ip''))"
proof -
  let ?d = "old_database (plain ''zerotier_ip'')" and ?w = "old_workers (plain ''zerotier_ip'')"
  let ?kn = "names ?w"
  have w: "sq_tables ?d ''workers'' = Some ?w" by (simp add: old_database_def)
  have kn: "''gpu_used_vram_gb'' \<notin> set ?kn" "''gpu_busy'' \<notin> set ?kn" "''worker_ip'' \<notin> set ?kn" "''zerotier_ip'' \<in> set ?kn"
    by (simp_all add: old_workers_def names_def column_decls)
  have ext: "extended early_worker_columns ?w = widened (defaulted ''gpu_busy'' no_list) (widened (defaulted ''gpu_used_vram_gb'' no_list) ?w)"
    using kn by (simp add: extended_def early_worker_columns_def defaulted_def)
  have six: "take 6 schema_statements = [create ''workers'' workers_table, Read_Columns ''workers'',
      ensure ''workers'' (defaulted ''gpu_used_vram_gb'' no_list), ensure ''workers'' (defaulted ''gpu_busy'' no_list), add_worker_ip, copy_addresses]"
    by (simp add: schema_statements_def worker_statements_def early_worker_columns_def)
  show ?thesis
    unfolding half_renamed_def six ext
    using w kn by (simp add: create_def create_table_def table_info_def ensure_def add_column_def on_table_def add_worker_ip_def
        copy_addresses_def defaulted_def plain_def)
qed

lemma interrupted_rename_loses_addresses:
  "\<exists>d'. init_schema half_renamed = Inr d' \<and> (\<exists>r\<in>set (rows_of ''workers'' d'). \<not> ok (decode_worker r))"
proof -
  have up: "upgradable half_renamed"
    unfolding half_renamed_workers
    by (simp add: upgradable_def first_columns_def old_defs well_formed_def numbering_ok_def names_def table_decls column_decls cell_at_def
        widened_def extended_def early_worker_columns_def)
  have "rows_of ''workers'' (upgraded half_renamed) = sq_rows (upgraded_workers half_renamed)" by (rule upgraded_rows)
  also have "upgraded_workers half_renamed =
      extended late_worker_columns (widened (plain ''worker_ip'') (extended early_worker_columns (old_workers (plain ''zerotier_ip''))))"
    by (simp add: upgraded_workers_def existing_def half_renamed_workers with_address_def plain_def early_columns extended_same)
  finally have "map (\<lambda>r. map_of r ''worker_ip'') (rows_of ''workers'' (upgraded half_renamed)) = [Some CNull]"
    by (simp add: extended_def rows_fold_widened widened_def old_workers_def names_def early_worker_columns_def late_worker_columns_def column_decls)
  then obtain r where r: "r \<in> set (rows_of ''workers'' (upgraded half_renamed))" "map_of r ''worker_ip'' = Some CNull" by auto
  have "\<not> ok (decode_worker r)"
    using r(2) unfolding decode_worker_def
    by (cases "column r ''id'' text_of"; cases "column r ''name'' text_of") (simp_all add: column_def)
  with r up show ?thesis using init_schema_upgrades by blast
qed

end
