(* ===== verification/Db_Queue.thy ===== *)
theory Db_Queue
  imports Db
begin

text \<open>
  The job table of \<open>db.py\<close>: plain job rows, the durable FIFO queue per worker, the claim that
  reserves GPUs, recovery of interrupted launches and the revisioned reports of delegated jobs.
  The queue operations hold \<open>_queue_lock\<close> and commit or roll back as a whole, so each is one
  step; a rollback leaves the tables as they were.
\<close>

section \<open>Plain job rows\<close>

definition insert_job :: "job \<Rightarrow> database \<Rightarrow> database res" where
  "insert_job j d = (case tbl_ins j_id j (t_jobs d) of
     Inl e \<Rightarrow> Inl e | Inr js \<Rightarrow> Inr (d\<lparr>t_jobs := js\<rparr>))"

definition update_job :: "job \<Rightarrow> database \<Rightarrow> database" where
  "update_job j d = d\<lparr>t_jobs := tbl_upd (\<lambda>r. j_id r = j_id j) (\<lambda>_. j) (t_jobs d)\<rparr>"

definition get_job :: "string \<Rightarrow> database \<Rightarrow> job option" where
  "get_job i d = tbl_get j_id i (t_jobs d)"

definition list_jobs :: "string option \<Rightarrow> job_status option \<Rightarrow> string option \<Rightarrow> database \<Rightarrow> job list" where
  "list_jobs wid st origin d =
     sort_key (\<lambda>j. - j_started j)
       (opt_filter origin j_origin
         (filter (\<lambda>j. case st of None \<Rightarrow> True | Some s \<Rightarrow> j_status j = s)
           (opt_filter wid j_worker (t_jobs d))))"

definition running_job_count :: "string \<Rightarrow> database \<Rightarrow> nat" where
  "running_job_count wid d =
     rowcount (\<lambda>j. j_worker j = Some wid \<and> j_status j \<in> {STARTING, RUNNING}) (t_jobs d)"

section \<open>The queue\<close>

text \<open>The WHERE clauses of the queue statements.\<close>

definition queue_active :: "job \<Rightarrow> bool" where
  "queue_active j = (j_queue_managed j \<and> j_status j \<in> {PENDING, STARTING, RUNNING})"

definition pending_on :: "string \<Rightarrow> job \<Rightarrow> bool" where
  "pending_on wid j = (j_queue_managed j \<and> j_worker j = Some wid \<and> j_status j = PENDING)"

definition claimed_on :: "string \<Rightarrow> job \<Rightarrow> bool" where
  "claimed_on wid j =
     (j_queue_managed j \<and> j_worker j = Some wid \<and> (j_status j = STARTING \<or> j_status j = RUNNING))"

text \<open>\<open>SELECT id ... ORDER BY queue_order, id\<close>: the pending queue of a worker.\<close>

definition pending_ids :: "string \<Rightarrow> job list \<Rightarrow> string list" where
  "pending_ids wid js = map j_id (sort_key (\<lambda>j. (j_order j, j_id j)) (filter (pending_on wid) js))"

definition insert_queued_job :: "job \<Rightarrow> database \<Rightarrow> (job \<times> database) res" where
  "insert_queued_job job d =
     (let last = coalesce_max (map j_order
            (filter (\<lambda>r. queue_active r \<and> sql_eq (j_worker r) (j_worker job)) (t_jobs d)));
          j = job\<lparr>j_queue_managed := True, j_status := PENDING, j_gpus := [],
                  j_order := last + 1, j_started := 0, j_finished := 0\<rparr>
      in (case insert_job j d of Inl e \<Rightarrow> Inl e | Inr d' \<Rightarrow> Inr (j, d')))"

definition status_rank :: "job_status \<Rightarrow> nat" where
  "status_rank s = (case s of STARTING \<Rightarrow> 0 | RUNNING \<Rightarrow> 1 | _ \<Rightarrow> 2)"

definition list_queued_jobs :: "string option \<Rightarrow> database \<Rightarrow> job list" where
  "list_queued_jobs wid d =
     sort_key (\<lambda>j. (j_worker j, status_rank (j_status j),
                    if j_status j = PENDING then j_order j else j_started j, j_order j, j_id j))
       (filter (\<lambda>j. queue_active j \<and> (case wid of None \<Rightarrow> True | Some w \<Rightarrow> j_worker j = Some w))
         (t_jobs d))"

text \<open>\<open>claim_queued_job\<close>: one conditional UPDATE.  The row must be pending on this worker, ask
  for as many GPUs as are assigned, be the head of the worker's pending queue, and no claimed
  job of the worker may hold one of the assigned GPUs.\<close>

definition claimable :: "job list \<Rightarrow> string \<Rightarrow> int list \<Rightarrow> string \<Rightarrow> job \<Rightarrow> bool" where
  "claimable js i gpus wid j =
     (j_id j = i \<and> pending_on wid j \<and> j_gpu_count j = int (length gpus) \<and>
      (case pending_ids wid js of [] \<Rightarrow> False | h # _ \<Rightarrow> h = i) \<and>
      \<not> list_ex (\<lambda>a. claimed_on wid a \<and> list_ex (\<lambda>g. g \<in> set gpus) (j_gpus a)) js)"

definition claim_queued_job ::
  "string \<Rightarrow> int list \<Rightarrow> int \<Rightarrow> string \<Rightarrow> database \<Rightarrow> job option \<times> database" where
  "claim_queued_job i gpus started wid d =
     (let p = claimable (t_jobs d) i gpus wid;
          js = tbl_upd p (\<lambda>j. j\<lparr>j_status := STARTING, j_gpus := gpus, j_started := started\<rparr>) (t_jobs d)
      in if rowcount p (t_jobs d) = 0 then (None, d)
         else (get_job i (d\<lparr>t_jobs := js\<rparr>), d\<lparr>t_jobs := js\<rparr>))"

text \<open>\<open>UPDATE jobs SET queue_order = n WHERE id = ?\<close> over \<open>enumerate(ids, 1)\<close>.\<close>

definition renumber :: "string list \<Rightarrow> job list \<Rightarrow> job list" where
  "renumber ids js =
     tbl_upd (\<lambda>j. j_id j \<in> set ids) (\<lambda>j. j\<lparr>j_order := int (index_of (j_id j) ids) + 1\<rparr>) js"

text \<open>\<open>ids.insert(min(position - 1, len(ids)), x)\<close>: a negative index counts from the end.\<close>

definition queue_position :: "int \<Rightarrow> string list \<Rightarrow> nat" where
  "queue_position position ids =
     (let k = min (position - 1) (int (length ids))
      in nat (if k < 0 then max 0 (int (length ids) + k) else k))"

text \<open>The writes of \<open>update_pending_job\<close>: the row itself, the renumbering of the queue it left
  (when it changes workers) and the renumbering of the queue it is now in.\<close>

definition move_pending ::
  "string \<Rightarrow> job \<Rightarrow> string option \<Rightarrow> string option \<Rightarrow> int option \<Rightarrow> int option \<Rightarrow>
     string list \<Rightarrow> string list \<Rightarrow> job list \<Rightarrow> job list" where
  "move_pending i row dst name expected gpu_count source_ids destination_ids js =
     (let js1 = tbl_upd (\<lambda>j. j_id j = i \<and> j_queue_managed j \<and> j_status j = PENDING)
                (\<lambda>j. j\<lparr>j_worker := dst,
                       j_name := (case name of None \<Rightarrow> j_name row | Some n \<Rightarrow> n),
                       j_expected := (case expected of None \<Rightarrow> j_expected row | Some e \<Rightarrow> e),
                       j_gpu_count := (case gpu_count of None \<Rightarrow> j_gpu_count row | Some n \<Rightarrow> n)\<rparr>) js;
          js2 = (if dst \<noteq> j_worker row then renumber source_ids js1 else js1)
      in renumber destination_ids js2)"

definition update_pending_job ::
  "string \<Rightarrow> string option \<Rightarrow> int option \<Rightarrow> string option \<Rightarrow> int option \<Rightarrow> int option \<Rightarrow>
     database \<Rightarrow> (job \<times> database) res" where
  "update_pending_job i wid position name expected gpu_count d =
     (case find (\<lambda>j. j_id j = i \<and> j_queue_managed j) (t_jobs d) of
        None \<Rightarrow> Inl (KeyErr i)
      | Some row \<Rightarrow>
        if j_status row \<noteq> PENDING then Inl (ValueErr ''queued job is not pending'') else
        let src = j_worker row;
            dst = (case wid of None \<Rightarrow> src | Some w \<Rightarrow> Some w);
            want = (case gpu_count of None \<Rightarrow> j_gpu_count row | Some n \<Rightarrow> n)
        in case (case dst of None \<Rightarrow> None | Some w \<Rightarrow> get_worker w d) of
          None \<Rightarrow> Inl (ValueErr ''destination worker no longer exists'')
        | Some target \<Rightarrow>
          if want > w_gpu_count target then Inl (ValueErr ''gpu_count exceeds destination worker capacity'') else
          let original = (case src of None \<Rightarrow> [] | Some w \<Rightarrow> pending_ids w (t_jobs d));
              source_ids = filter (\<lambda>x. x \<noteq> i) original;
              others = (if dst = src then source_ids
                        else case dst of None \<Rightarrow> [] | Some w \<Rightarrow> pending_ids w (t_jobs d));
              slot = (case position of
                      None \<Rightarrow> if dst = src then index_of i original else length others
                    | Some p \<Rightarrow> queue_position p others);
              js = move_pending i row dst name expected gpu_count source_ids (list_insert slot i others) (t_jobs d)
          in (case tbl_get j_id i js of
                None \<Rightarrow> Inl (RuntimeErr ''queued job disappeared after update'')
              | Some u \<Rightarrow> Inr (u, d\<lparr>t_jobs := js\<rparr>)))"

definition fail_pending_job :: "string \<Rightarrow> int \<Rightarrow> database \<Rightarrow> job option \<times> database" where
  "fail_pending_job i finished d =
     (case find (\<lambda>j. j_id j = i \<and> j_queue_managed j \<and> j_status j = PENDING) (t_jobs d) of
        None \<Rightarrow> (None, d)
      | Some row \<Rightarrow>
        let js1 = tbl_upd (\<lambda>j. j_id j = i \<and> j_queue_managed j \<and> j_status j = PENDING)
              (\<lambda>j. j\<lparr>j_status := FAILED, j_exit_code := Some (- 1), j_finished := finished, j_order := 0\<rparr>)
              (t_jobs d);
            pending = (case j_worker row of None \<Rightarrow> [] | Some w \<Rightarrow> pending_ids w js1);
            d' = d\<lparr>t_jobs := renumber pending js1\<rparr>
        in (get_job i d', d'))"

definition running_queue_gpu_indices :: "string \<Rightarrow> database \<Rightarrow> int list" where
  "running_queue_gpu_indices wid d = concat (map j_gpus (filter (claimed_on wid) (t_jobs d)))"

text \<open>\<open>reconcile_starting_job\<close>: a launch with durable evidence becomes running; a queued launch
  without evidence goes back to the front of its worker's queue and gives its GPUs up; an
  immediate job without evidence has failed (\<open>now\<close> is SQLite's unixepoch()).\<close>

definition reconcile_starting_row :: "string \<Rightarrow> bool \<Rightarrow> int \<Rightarrow> database \<Rightarrow> job option \<times> database" where
  "reconcile_starting_row i launch_observed now d =
     (case find (\<lambda>j. j_id j = i \<and> j_status j = STARTING) (t_jobs d) of
        None \<Rightarrow> (None, d)
      | Some row \<Rightarrow>
        let js =
          (if launch_observed then
             tbl_upd (\<lambda>j. j_id j = i \<and> j_status j = STARTING) (\<lambda>j. j\<lparr>j_status := RUNNING\<rparr>) (t_jobs d)
           else if j_queue_managed row then
             tbl_upd (\<lambda>j. j_id j = i \<and> j_queue_managed j \<and> j_status j = STARTING)
               (\<lambda>j. j\<lparr>j_status := PENDING, j_gpus := [], j_started := 0, j_order := 1\<rparr>)
               (tbl_upd (\<lambda>j. j_queue_managed j \<and> sql_eq (j_worker j) (j_worker row) \<and> j_status j = PENDING)
                 (\<lambda>j. j\<lparr>j_order := j_order j + 1\<rparr>) (t_jobs d))
           else
             tbl_upd (\<lambda>j. j_id j = i \<and> j_status j = STARTING)
               (\<lambda>j. j\<lparr>j_status := FAILED, j_exit_code := Some (- 1), j_finished := now\<rparr>) (t_jobs d))
        in (get_job i (d\<lparr>t_jobs := js\<rparr>), d\<lparr>t_jobs := js\<rparr>))"

section \<open>Reports of delegated jobs\<close>

text \<open>\<open>upsert_reported_worker_job\<close>: the conditional UPSERT applies a report once per revision.\<close>

definition job_of_report :: "string \<Rightarrow> job_report \<Rightarrow> job" where
  "job_of_report wid r =
     (new_job (jr_id r))\<lparr>j_worker := Some wid, j_tmux := jr_tmux r, j_command := jr_command r,
       j_status := jr_status r, j_exit_code := jr_exit_code r, j_pty := jr_pty r,
       j_kind := DELEGATED, j_origin := Some (jr_origin r), j_revision := jr_revision r,
       j_started := jr_started r, j_finished := jr_finished r\<rparr>"

definition upsert_reported_worker_job ::
  "string \<Rightarrow> job_report \<Rightarrow> database \<Rightarrow> (job \<times> bool \<times> database) res" where
  "upsert_reported_worker_job wid r d =
     (case tbl_get s_id (jr_origin r) (t_sessions d) of
        None \<Rightarrow> Inl (KeyErr (jr_origin r))
      | Some s \<Rightarrow>
        if s_worker_id s \<noteq> Some wid then Inl (ValueErr ''origin session not found for worker'') else
        let x = job_of_report wid r;
            (changed, js) =
              (case tbl_get j_id (jr_id r) (t_jobs d) of
                 None \<Rightarrow> (True, t_jobs d @ [x])
               | Some old \<Rightarrow>
                 if j_worker old = Some wid \<and> j_origin old = Some (jr_origin r) \<and>
                    j_kind old = DELEGATED \<and> j_revision old < jr_revision r
                 then (True, tbl_upd (\<lambda>j. j_id j = jr_id r) (\<lambda>_. x) (t_jobs d))
                 else (False, t_jobs d))
        in (case tbl_get j_id (jr_id r) js of
              None \<Rightarrow> Inl (RuntimeErr ''worker job report was not persisted'')
            | Some j \<Rightarrow>
              if j_worker j \<noteq> Some wid \<or> j_origin j \<noteq> Some (jr_origin r)
              then Inl (ValueErr ''job identity does not belong to worker origin session'')
              else Inr (j, changed, d\<lparr>t_jobs := js\<rparr>)))"

section \<open>Executable samples\<close>

definition sample_job :: "string \<Rightarrow> job_status \<Rightarrow> int \<Rightarrow> int list \<Rightarrow> int \<Rightarrow> job" where
  "sample_job i st n gpus ord =
     (new_job i)\<lparr>j_worker := Some ''w'', j_status := st, j_queue_managed := True,
        j_gpu_count := n, j_gpus := gpus, j_order := ord\<rparr>"

definition sample_db :: database where
  "sample_db = empty_db\<lparr>t_workers := [(from_registration 10
       \<lparr>r_worker_id = ''w'', r_name = ''W'', r_worker_ip = ''100.64.0.1'', r_dns_name = '''',
        r_ssh_user = ''root'', r_harness_dir = ''/harness'', r_gpu_count = 2,
        r_gpus = [\<lparr>g_index = 0, g_name = ''A'', g_total = 24, g_used = 0, g_busy = Some False\<rparr>,
                  \<lparr>g_index = 1, g_name = ''A'', g_total = 24, g_used = 0, g_busy = Some False\<rparr>],
        r_cpu_cores = 8, r_total_ram = 64, r_used_ram = 1, r_total_disk = 100, r_used_disk = 10,
        r_data_paths = [''/data/sets'']\<rparr>)],
     t_jobs := [sample_job ''a'' RUNNING 1 [0] 1, sample_job ''b'' PENDING 1 [] 2,
                sample_job ''c'' PENDING 2 [] 3]\<rparr>"

lemmas sample_defs = sample_db_def sample_job_def new_job_def empty_db_def from_registration_def

lemma sample_pending: "pending_ids ''w'' (t_jobs sample_db) = [''b'', ''c'']"
  by code_simp

lemma sample_claim_busy: "fst (claim_queued_job ''b'' [0] 5 ''w'' sample_db) = None"
  by code_simp

lemma sample_claim_free: "map_option j_gpus (fst (claim_queued_job ''b'' [1] 5 ''w'' sample_db)) = Some [1]"
  by code_simp

section \<open>The pending queue as a list of ids\<close>

definition order_key :: "job list \<Rightarrow> string \<Rightarrow> int \<times> string" where
  "order_key js i = (case tbl_get j_id i js of None \<Rightarrow> (0, i) | Some j \<Rightarrow> (j_order j, i))"

lemma order_key_row: "pk_ok j_id js \<Longrightarrow> j \<in> set js \<Longrightarrow> order_key js (j_id j) = (j_order j, j_id j)"
  by (simp add: order_key_def pk_ok_get)

lemma set_pending_ids: "set (pending_ids wid js) = j_id ` {j \<in> set js. pending_on wid j}"
  by (simp add: pending_ids_def)

lemma pending_ids_in: "j \<in> set js \<Longrightarrow> pending_on wid j \<Longrightarrow> j_id j \<in> set (pending_ids wid js)"
  by (auto simp: set_pending_ids)

lemma distinct_pending_ids: "pk_ok j_id js \<Longrightarrow> distinct (pending_ids wid js)"
  by (auto simp: pending_ids_def pk_ok_def distinct_map intro: inj_on_subset)

lemma sorted_pending_ids:
  assumes "pk_ok j_id js"
  shows "sorted (map (order_key js) (pending_ids wid js))"
proof -
  let ?k = "\<lambda>j. (j_order j, j_id j)"
  let ?s = "sort_key ?k (filter (pending_on wid) js)"
  have "map (order_key js) (pending_ids wid js) = map ?k ?s"
    using assms by (auto simp: pending_ids_def order_key_row)
  then show ?thesis by simp
qed

lemma pending_ids_eqI:
  assumes pk: "pk_ok j_id js" and "distinct L"
    and set: "set L = j_id ` {j \<in> set js. pending_on wid j}"
    and g: "\<And>j. j \<in> set js \<Longrightarrow> pending_on wid j \<Longrightarrow> g (j_id j) = (j_order j, j_id j)"
    and sorted: "sorted (map g L)"
  shows "pending_ids wid js = L"
proof -
  let ?P = "pending_ids wid js"
  have mem: "set ?P = set L" by (simp add: set set_pending_ids)
  have gk: "g i = order_key js i" if "i \<in> set L" for i
    using that g pk by (auto simp: set order_key_row)
  have snd: "snd (order_key js i) = i" for i
    by (simp add: order_key_def split: option.split)
  have inj: "inj_on (order_key js) A" for A
    by (rule inj_onI) (metis snd)
  have "map g L = map (order_key js) L" by (rule map_cong [OF refl gk])
  with sorted have "sorted (map (order_key js) L)" by argo
  then show ?thesis
    using assms(2) mem distinct_pending_ids [OF pk] sorted_pending_ids [OF pk]
    by (intro map_sorted_distinct_set_unique [where f = "order_key js"])
      (auto simp: distinct_map inj)
qed

text \<open>Jobs may leave the queue without disturbing the others.\<close>

lemma pending_ids_filter:
  assumes pk: "pk_ok j_id js" "pk_ok j_id js'"
    and sub: "\<And>j'. j' \<in> set js' \<Longrightarrow> pending_on wid j' \<Longrightarrow>
      \<exists>j \<in> set js. pending_on wid j \<and> j_id j = j_id j' \<and> j_order j = j_order j' \<and> keep (j_id j)"
    and sup: "\<And>j. j \<in> set js \<Longrightarrow> pending_on wid j \<Longrightarrow> keep (j_id j) \<Longrightarrow>
      \<exists>j' \<in> set js'. pending_on wid j' \<and> j_id j' = j_id j"
  shows "pending_ids wid js' = filter keep (pending_ids wid js)"
proof (rule pending_ids_eqI [where g = "order_key js"])
  show "set (filter keep (pending_ids wid js)) = j_id ` {j \<in> set js'. pending_on wid j}"
  proof (intro set_eqI iffI)
    fix i assume "i \<in> set (filter keep (pending_ids wid js))"
    then obtain j where "j \<in> set js" "pending_on wid j" "keep (j_id j)" "i = j_id j"
      by (auto simp: set_pending_ids)
    with sup [of j] obtain j' where "j' \<in> set js'" "pending_on wid j'" "j_id j' = i" by auto
    then show "i \<in> j_id ` {j \<in> set js'. pending_on wid j}" by auto
  next
    fix i assume "i \<in> j_id ` {j \<in> set js'. pending_on wid j}"
    then obtain j where "j \<in> set js'" "pending_on wid j" "i = j_id j" by auto
    with sub [of j] obtain k where "k \<in> set js" "pending_on wid k" "j_id k = i" "keep (j_id k)"
      by auto
    then show "i \<in> set (filter keep (pending_ids wid js))"
      by (auto simp: set_pending_ids)
  qed
  show "order_key js (j_id j) = (j_order j, j_id j)" if "j \<in> set js'" "pending_on wid j" for j
    using sub [OF that] pk(1) order_key_row by metis
  show "sorted (map (order_key js) (filter keep (pending_ids wid js)))"
    using sorted_pending_ids [OF pk(1)] sorted_filter by blast
qed (use pk distinct_pending_ids in auto)

lemma pending_ids_cong:
  assumes pk: "pk_ok j_id js" "pk_ok j_id js'"
    and "\<And>i k. (\<exists>j \<in> set js'. pending_on wid j \<and> j_id j = i \<and> j_order j = k) =
               (\<exists>j \<in> set js. pending_on wid j \<and> j_id j = i \<and> j_order j = k)"
  shows "pending_ids wid js' = pending_ids wid js"
proof -
  have "pending_ids wid js' = filter (\<lambda>_. True) (pending_ids wid js)"
    by (rule pending_ids_filter [OF pk]) (use assms(3) in metis)+
  then show ?thesis by simp
qed

lemma sorted_index_of:
  "distinct xs \<Longrightarrow> sorted (map (\<lambda>i. (int (index_of i xs) + 1, i)) xs)"
proof -
  assume d: "distinct xs"
  have "index_of (xs ! n) xs = n" if "n < length xs" for n
    using d that by (metis index_of_less nth_eq_iff_index_eq nth_index_of nth_mem)
  then have "sorted_wrt (<) (map (\<lambda>i. (int (index_of i xs) + 1, i)) xs)"
    by (auto simp: sorted_wrt_iff_nth_less)
  then show ?thesis by (rule strict_sorted_imp_sorted)
qed

lemma pk_renumber [simp]: "pk_ok j_id (renumber ids js) = pk_ok j_id js"
  by (simp add: renumber_def pk_ok_upd)

lemma set_renumber:
  "set (renumber ids js) = (\<lambda>j. if j_id j \<in> set ids then j\<lparr>j_order := int (index_of (j_id j) ids) + 1\<rparr> else j) ` set js"
  by (simp add: renumber_def set_tbl_upd)

lemma pending_on_order [simp]: "pending_on wid (j\<lparr>j_order := n\<rparr>) = pending_on wid j"
  by (simp add: pending_on_def)

lemma claimed_on_order [simp]: "claimed_on wid (j\<lparr>j_order := n\<rparr>) = claimed_on wid j"
  by (simp add: claimed_on_def)

lemma queue_active_order [simp]: "queue_active (j\<lparr>j_order := n\<rparr>) = queue_active j"
  by (simp add: queue_active_def)

lemma renumber_row:
  "j' \<in> set (renumber ids js) \<longleftrightarrow>
     (\<exists>j \<in> set js. j' = (if j_id j \<in> set ids then j\<lparr>j_order := int (index_of (j_id j) ids) + 1\<rparr> else j))"
  unfolding set_renumber image_iff by (rule refl)

lemma renumber_pending:
  assumes pk: "pk_ok j_id js" and "distinct ids"
    and ids: "set ids = j_id ` {j \<in> set js. pending_on wid j}"
  shows "pending_ids wid (renumber ids js) = ids"
proof (rule pending_ids_eqI [where g = "\<lambda>i. (int (index_of i ids) + 1, i)"])
  have mem: "j_id j \<in> set ids" if "j \<in> set js" "pending_on wid j" for j
    using that ids by auto
  show "set ids = j_id ` {j \<in> set (renumber ids js). pending_on wid j}"
  proof (intro set_eqI iffI)
    fix i assume i: "i \<in> set ids"
    then obtain j where j: "j \<in> set js" "pending_on wid j" "i = j_id j" using ids by auto
    then have "j\<lparr>j_order := int (index_of i ids) + 1\<rparr> \<in> set (renumber ids js)"
      using i by (auto simp: renumber_row intro!: bexI [of _ j])
    then have "j_id (j\<lparr>j_order := int (index_of i ids) + 1\<rparr>) \<in> j_id ` {j \<in> set (renumber ids js). pending_on wid j}"
      using j(2) by (intro imageI) simp
    then show "i \<in> j_id ` {j \<in> set (renumber ids js). pending_on wid j}" using j(3) by simp
  next
    fix i assume "i \<in> j_id ` {j \<in> set (renumber ids js). pending_on wid j}"
    then obtain j where "j \<in> set js" "pending_on wid j" "j_id j = i"
      by (auto simp: renumber_row split: if_splits)
    then show "i \<in> set ids" using mem by auto
  qed
  show "(int (index_of (j_id j) ids) + 1, j_id j) = (j_order j, j_id j)"
    if "j \<in> set (renumber ids js)" "pending_on wid j" for j
  proof -
    obtain k where k: "k \<in> set js" and
      j: "j = (if j_id k \<in> set ids then k\<lparr>j_order := int (index_of (j_id k) ids) + 1\<rparr> else k)"
      using \<open>j \<in> set (renumber ids js)\<close> unfolding renumber_row by blast
    have "pending_on wid k" using that(2) j by (simp split: if_splits)
    with k mem have "j_id k \<in> set ids" by blast
    with j show ?thesis by simp
  qed
qed (use assms sorted_index_of in auto)

lemma renumber_other:
  assumes pk: "pk_ok j_id js" and "\<And>j. j \<in> set js \<Longrightarrow> pending_on wid j \<Longrightarrow> j_id j \<notin> set ids"
  shows "pending_ids wid (renumber ids js) = pending_ids wid js"
proof (rule pending_ids_cong)
  have mem: "j \<in> set (renumber ids js) \<and> pending_on wid j \<longleftrightarrow> j \<in> set js \<and> pending_on wid j" for j
    using assms(2) by (force simp: renumber_row split: if_splits)
  show "(\<exists>j\<in>set (renumber ids js). pending_on wid j \<and> j_id j = i \<and> j_order j = k) =
        (\<exists>j\<in>set js. pending_on wid j \<and> j_id j = i \<and> j_order j = k)" for i k
    using mem by blast
qed (use pk in auto)

section \<open>Invariants of the job table\<close>

text \<open>Active queue rows have a positive order, pending ones hold no GPUs; on each worker the claimed
  rows hold pairwise disjoint sets of GPUs, as many as they asked for.\<close>

definition pending_wf :: "job list \<Rightarrow> bool" where
  "pending_wf js = (\<forall>j \<in> set js. queue_active j \<longrightarrow> 1 \<le> j_order j \<and> (j_status j = PENDING \<longrightarrow> j_gpus j = []))"

definition gpus_exclusive :: "job list \<Rightarrow> bool" where
  "gpus_exclusive js = (\<forall>a \<in> set js. \<forall>b \<in> set js. \<forall>w. claimed_on w a \<and> claimed_on w b \<longrightarrow>
     distinct (j_gpus a) \<and> (j_id a \<noteq> j_id b \<longrightarrow> set (j_gpus a) \<inter> set (j_gpus b) = {}))"

definition claims_sized :: "job list \<Rightarrow> bool" where
  "claims_sized js = (\<forall>j \<in> set js. \<forall>w. claimed_on w j \<longrightarrow> int (length (j_gpus j)) = j_gpu_count j)"

definition queue_inv :: "job list \<Rightarrow> bool" where
  "queue_inv js = (pk_ok j_id js \<and> pending_wf js \<and> gpus_exclusive js \<and> claims_sized js)"

lemma queue_inv_empty: "queue_inv []"
  by (simp add: queue_inv_def pk_ok_def pending_wf_def gpus_exclusive_def claims_sized_def)

text \<open>A table all of whose claimed rows were claimed before, with the same GPUs, stays exclusive.\<close>

lemma exclusive_sub:
  assumes "gpus_exclusive js" "claims_sized js"
    and "\<And>w j'. j' \<in> set js' \<Longrightarrow> claimed_on w j' \<Longrightarrow>
      \<exists>j \<in> set js. claimed_on w j \<and> j_id j = j_id j' \<and> j_gpus j = j_gpus j' \<and> j_gpu_count j = j_gpu_count j'"
  shows "gpus_exclusive js' \<and> claims_sized js'"
proof
  show "claims_sized js'"
    unfolding claims_sized_def
  proof (intro ballI allI impI)
    fix j' w assume "j' \<in> set js'" "claimed_on w j'"
    from assms(3) [OF this] assms(2) show "int (length (j_gpus j')) = j_gpu_count j'"
      by (force simp: claims_sized_def)
  qed
  show "gpus_exclusive js'"
    unfolding gpus_exclusive_def
  proof (intro ballI allI impI, elim conjE)
    fix a' b' w assume "a' \<in> set js'" "b' \<in> set js'" and c: "claimed_on w a'" "claimed_on w b'"
    then obtain a b where "a \<in> set js" "claimed_on w a" "j_id a = j_id a'" "j_gpus a = j_gpus a'"
      and "b \<in> set js" "claimed_on w b" "j_id b = j_id b'" "j_gpus b = j_gpus b'"
      using assms(3) by meson
    with assms(1) show "distinct (j_gpus a') \<and> (j_id a' \<noteq> j_id b' \<longrightarrow> set (j_gpus a') \<inter> set (j_gpus b') = {})"
      unfolding gpus_exclusive_def by metis
  qed
qed

section \<open>What each operation does to the queues\<close>

lemma insert_job_Inr:
  "insert_job j d = Inr d' \<longleftrightarrow> j_id j \<notin> j_id ` set (t_jobs d) \<and> d' = d\<lparr>t_jobs := t_jobs d @ [j]\<rparr>"
  by (auto simp: insert_job_def tbl_ins_def)

lemma order_key_append:
  "i \<in> j_id ` set js \<Longrightarrow> order_key (js @ ks) i = order_key js i"
  using tbl_get_None_iff [of j_id i js] by (auto simp: order_key_def tbl_get_append split: option.split)

lemma insert_queued_job_Inr:
  assumes "insert_queued_job job d = Inr (j, d')"
  shows "j_id j = j_id job" "j_worker j = j_worker job" "j_status j = PENDING" "j_queue_managed j"
    and "j_gpus j = []" "j_gpu_count j = j_gpu_count job" "t_jobs d' = t_jobs d @ [j]"
    and "j_id job \<notin> j_id ` set (t_jobs d)" "d' = d\<lparr>t_jobs := t_jobs d @ [j]\<rparr>"
    and "\<And>r w. r \<in> set (t_jobs d) \<Longrightarrow> queue_active r \<Longrightarrow> j_worker r = Some w \<Longrightarrow>
      j_worker job = Some w \<Longrightarrow> j_order r < j_order j"
    and "j_order j = coalesce_max (map j_order
       (filter (\<lambda>r. queue_active r \<and> sql_eq (j_worker r) (j_worker job)) (t_jobs d))) + 1"
proof -
  show "j_order j = coalesce_max (map j_order
       (filter (\<lambda>r. queue_active r \<and> sql_eq (j_worker r) (j_worker job)) (t_jobs d))) + 1"
    using assms by (auto simp: insert_queued_job_def Let_def split: sum.splits)
  then show "j_order r < j_order j" if "r \<in> set (t_jobs d)" "queue_active r" "j_worker r = Some w"
      "j_worker job = Some w" for r w
    using that by (simp add: add1_zle_eq [symmetric] coalesce_max_ge)
qed (use assms in \<open>auto simp: insert_queued_job_def Let_def insert_job_Inr split: sum.splits\<close>)

lemma insert_queued_job_pending:
  assumes pk: "pk_ok j_id (t_jobs d)" and ins: "insert_queued_job job d = Inr (j, d')"
  shows "pending_ids w (t_jobs d') =
    pending_ids w (t_jobs d) @ (if j_worker job = Some w then [j_id job] else [])"
proof -
  note I = insert_queued_job_Inr [OF ins]
  let ?js = "t_jobs d" and ?js' = "t_jobs d @ [j]"
  have pk': "pk_ok j_id ?js'" using pk I(1,8) by (auto simp: pk_ok_def)
  have old: "order_key ?js' i = order_key ?js i" if "i \<in> set (pending_ids w ?js)" for i
    using that by (auto simp: set_pending_ids intro!: order_key_append)
  have new: "order_key ?js' (j_id j) = (j_order j, j_id j)"
    using pk' by (auto intro: order_key_row)
  have lt: "order_key ?js i < (j_order j, j_id j)" if "j_worker job = Some w" "i \<in> set (pending_ids w ?js)" for i
  proof -
    obtain r where "r \<in> set ?js" "pending_on w r" "i = j_id r"
      using \<open>i \<in> set (pending_ids w ?js)\<close> by (auto simp: set_pending_ids)
    with I(10) [of r w] that(1) pk show ?thesis
      by (simp add: order_key_row pending_on_def queue_active_def)
  qed
  have s: "sorted (map (order_key ?js') (pending_ids w ?js))"
    using sorted_pending_ids [OF pk, of w] old by (simp cong: map_cong)
  have "pending_ids w ?js' = pending_ids w ?js @ (if j_worker job = Some w then [j_id job] else [])"
  proof (rule pending_ids_eqI [where g = "order_key ?js'", OF pk'])
    show "distinct (pending_ids w ?js @ (if j_worker job = Some w then [j_id job] else []))"
      using distinct_pending_ids [OF pk] I(8) by (auto simp: set_pending_ids)
    show "set (pending_ids w ?js @ (if j_worker job = Some w then [j_id job] else [])) =
        j_id ` {j \<in> set ?js'. pending_on w j}"
    proof -
      have "{r \<in> set ?js'. pending_on w r} =
          {r \<in> set ?js. pending_on w r} \<union> (if j_worker job = Some w then {j} else {})"
        using I(1-4) by (auto simp: pending_on_def)
      then show ?thesis using I(1) by (simp add: set_pending_ids)
    qed
    show "sorted (map (order_key ?js') (pending_ids w ?js @ (if j_worker job = Some w then [j_id job] else [])))"
      using s lt old new I(1) by (auto simp: sorted_append intro: less_imp_le)
  qed (use pk' order_key_row in blast)
  with I(7) show ?thesis by simp
qed

lemma insert_queued_job_inv:
  assumes "queue_inv (t_jobs d)" "insert_queued_job job d = Inr (j, d')"
  shows "queue_inv (t_jobs d')"
proof -
  note I = insert_queued_job_Inr [OF assms(2)]
  let ?L = "map j_order (filter (\<lambda>r. queue_active r \<and> sql_eq (j_worker r) (j_worker job)) (t_jobs d))"
  have "0 \<le> coalesce_max ?L"
  proof (cases "?L = []")
    case False
    from coalesce_max_in [OF this] assms(1) show ?thesis
      by (fastforce simp: queue_inv_def pending_wf_def)
  qed (simp add: coalesce_max_def)
  then have pos: "1 \<le> j_order j" using I(11) by simp
  have "gpus_exclusive (t_jobs d') \<and> claims_sized (t_jobs d')"
    by (rule exclusive_sub [of "t_jobs d"]) (use assms(1) I in \<open>auto simp: queue_inv_def claimed_on_def\<close>)
  with assms(1) I pos show ?thesis
    by (auto simp: queue_inv_def pk_ok_def pending_wf_def)
qed

text \<open>The claim.\<close>

lemma claim_get:
  assumes "rowcount (claimable (t_jobs d) i gpus wid) (t_jobs d) \<noteq> 0"
  shows "get_job i (d\<lparr>t_jobs := tbl_upd (claimable (t_jobs d) i gpus wid)
      (\<lambda>j. j\<lparr>j_status := STARTING, j_gpus := gpus, j_started := t\<rparr>) (t_jobs d)\<rparr>) \<noteq> None"
proof -
  from assms obtain r where "r \<in> set (t_jobs d)" "claimable (t_jobs d) i gpus wid r"
    unfolding rowcount_0_iff by blast
  then have "i \<in> set (map j_id (t_jobs d))" by (auto simp: claimable_def)
  then obtain y where "tbl_get j_id i (t_jobs d) = Some y"
    using tbl_get_None_iff [of j_id i "t_jobs d"] by (cases "tbl_get j_id i (t_jobs d)") auto
  then show ?thesis by (simp add: get_job_def tbl_get_upd)
qed

lemma claim_None: "claim_queued_job i gpus t wid d = (None, d') \<Longrightarrow> d' = d"
  using claim_get [of d i gpus wid t]
  by (cases "rowcount (claimable (t_jobs d) i gpus wid) (t_jobs d) = 0")
    (auto simp: claim_queued_job_def Let_def)

lemma claim_Some:
  assumes pk: "pk_ok j_id (t_jobs d)" and c: "claim_queued_job i gpus t wid d = (Some j, d')"
  shows "\<exists>r rest. r \<in> set (t_jobs d) \<and> j_id r = i \<and> pending_on wid r \<and>
    j_gpu_count r = int (length gpus) \<and> pending_ids wid (t_jobs d) = i # rest \<and>
    (\<forall>a \<in> set (t_jobs d). claimed_on wid a \<longrightarrow> set (j_gpus a) \<inter> set gpus = {}) \<and>
    j = r\<lparr>j_status := STARTING, j_gpus := gpus, j_started := t\<rparr> \<and>
    d' = d\<lparr>t_jobs := tbl_upd (\<lambda>x. j_id x = i) (\<lambda>x. x\<lparr>j_status := STARTING, j_gpus := gpus, j_started := t\<rparr>) (t_jobs d)\<rparr>"
proof -
  let ?p = "claimable (t_jobs d) i gpus wid"
  let ?f = "\<lambda>x. x\<lparr>j_status := STARTING, j_gpus := gpus, j_started := t\<rparr>"
  have rc: "rowcount ?p (t_jobs d) \<noteq> 0"
    using c by (auto simp: claim_queued_job_def Let_def split: if_splits)
  then obtain r where r: "r \<in> set (t_jobs d)" "?p r" unfolding rowcount_0_iff by blast
  then have id: "j_id r = i" by (simp add: claimable_def)
  have eq: "?p x \<longleftrightarrow> j_id x = i" if "x \<in> set (t_jobs d)" for x
  proof
    assume "j_id x = i"
    with pk_ok_unique [OF pk that r(1)] id have "x = r" by simp
    with r(2) show "?p x" by simp
  qed (simp add: claimable_def)
  then have upd: "tbl_upd ?p ?f (t_jobs d) = tbl_upd (\<lambda>x. j_id x = i) ?f (t_jobs d)"
    by (simp add: tbl_upd_def)
  have get: "tbl_get j_id i (t_jobs d) = Some r" using pk_ok_get [OF pk r(1)] id by simp
  obtain rest where rest: "pending_ids wid (t_jobs d) = i # rest"
    using r(2) by (auto simp: claimable_def split: list.splits)
  have j: "j = ?f r \<and> d' = d\<lparr>t_jobs := tbl_upd (\<lambda>x. j_id x = i) ?f (t_jobs d)\<rparr>"
    using c rc get id by (simp add: claim_queued_job_def Let_def upd get_job_def tbl_get_upd)
  have free: "\<forall>a \<in> set (t_jobs d). claimed_on wid a \<longrightarrow> set (j_gpus a) \<inter> set gpus = {}"
    using r(2) by (auto simp: claimable_def list_ex_iff)
  have "pending_on wid r" "j_gpu_count r = int (length gpus)"
    using r(2) by (simp_all add: claimable_def)
  with r(1) id rest free j show ?thesis by blast
qed

lemma claim_pending:
  assumes pk: "pk_ok j_id (t_jobs d)" and c: "claim_queued_job i gpus t wid d = (Some j, d')"
  shows "pending_ids w (t_jobs d') = (if w = wid then tl (pending_ids w (t_jobs d)) else pending_ids w (t_jobs d))"
proof -
  obtain r rest where C: "r \<in> set (t_jobs d)" "j_id r = i" "pending_on wid r"
    "pending_ids wid (t_jobs d) = i # rest"
    "d' = d\<lparr>t_jobs := tbl_upd (\<lambda>x. j_id x = i) (\<lambda>x. x\<lparr>j_status := STARTING, j_gpus := gpus, j_started := t\<rparr>) (t_jobs d)\<rparr>"
    using claim_Some [OF assms] by blast
  have other: "i \<notin> set (pending_ids w (t_jobs d))" if "w \<noteq> wid"
  proof
    assume "i \<in> set (pending_ids w (t_jobs d))"
    then obtain k where k: "k \<in> set (t_jobs d)" "pending_on w k" "j_id k = i"
      by (auto simp: set_pending_ids)
    have "k = r" by (rule pk_ok_unique [OF pk k(1) C(1)]) (simp add: k(3) C(2))
    with that k(2) C(3) show False by (simp add: pending_on_def)
  qed
  have "pending_ids w (t_jobs d') = filter (\<lambda>x. x \<noteq> i) (pending_ids w (t_jobs d))"
  proof (rule pending_ids_filter [OF pk])
    show "pk_ok j_id (t_jobs d')" using pk C(5) by (simp add: pk_ok_upd)
    show "\<exists>k\<in>set (t_jobs d). pending_on w k \<and> j_id k = j_id j' \<and> j_order k = j_order j' \<and> j_id k \<noteq> i"
      if "j' \<in> set (t_jobs d')" "pending_on w j'" for j'
      using that C(5) by (auto elim!: tbl_upd_rowE simp: pending_on_def)
    show "\<exists>j'\<in>set (t_jobs d'). pending_on w j' \<and> j_id j' = j_id k"
      if "k \<in> set (t_jobs d)" "pending_on w k" "j_id k \<noteq> i" for k
      using that C(5) by (auto intro!: bexI [of _ k] tbl_upd_rowI)
  qed
  also have "\<dots> = (if w = wid then tl (pending_ids w (t_jobs d)) else pending_ids w (t_jobs d))"
    using other C(4) distinct_pending_ids [OF pk, of wid]
    by (auto simp: filter_id_conv)
  finally show ?thesis .
qed

lemma claim_inv:
  assumes inv: "queue_inv (t_jobs d)" and dist: "distinct gpus"
    and c: "claim_queued_job i gpus t wid d = (Some j, d')"
  shows "queue_inv (t_jobs d')"
proof -
  have pk: "pk_ok j_id (t_jobs d)" using inv by (simp add: queue_inv_def)
  obtain r rest where C: "r \<in> set (t_jobs d)" "j_id r = i" "pending_on wid r"
    "j_gpu_count r = int (length gpus)" "pending_ids wid (t_jobs d) = i # rest"
    and free: "\<forall>a \<in> set (t_jobs d). claimed_on wid a \<longrightarrow> set (j_gpus a) \<inter> set gpus = {}"
    and j: "j = r\<lparr>j_status := STARTING, j_gpus := gpus, j_started := t\<rparr>"
    and d': "d' = d\<lparr>t_jobs := tbl_upd (\<lambda>x. j_id x = i) (\<lambda>x. x\<lparr>j_status := STARTING, j_gpus := gpus, j_started := t\<rparr>) (t_jobs d)\<rparr>"
    using claim_Some [OF pk c] by blast
  have rows: "x = j \<or> x \<in> set (t_jobs d) \<and> j_id x \<noteq> i" if "x \<in> set (t_jobs d')" for x
    using upd_key_row [OF pk C(1,2)] that unfolding d' j by simp
  have jid: "j_id j = i" using j C(2) by simp
  have jc: "claimed_on w j \<longleftrightarrow> w = wid" for w
    using C(3) j by (auto simp: claimed_on_def pending_on_def)
  have "gpus_exclusive (t_jobs d')"
    unfolding gpus_exclusive_def
  proof (intro ballI allI impI, elim conjE)
    fix a b w assume "a \<in> set (t_jobs d')" "b \<in> set (t_jobs d')" and ab: "claimed_on w a" "claimed_on w b"
    then have "a = j \<or> a \<in> set (t_jobs d) \<and> j_id a \<noteq> i" "b = j \<or> b \<in> set (t_jobs d) \<and> j_id b \<noteq> i"
      using rows by blast+
    then show "distinct (j_gpus a) \<and> (j_id a \<noteq> j_id b \<longrightarrow> set (j_gpus a) \<inter> set (j_gpus b) = {})"
      using inv ab jc free j dist jid unfolding queue_inv_def gpus_exclusive_def
      by (elim disjE) (simp_all, blast+)
  qed
  moreover have "claims_sized (t_jobs d')"
    using inv rows C(4) j unfolding queue_inv_def claims_sized_def by fastforce
  moreover have "pending_wf (t_jobs d')"
    using inv rows C(1,3) j unfolding queue_inv_def pending_wf_def queue_active_def pending_on_def by fastforce
  moreover have "pk_ok j_id (t_jobs d')" using pk d' by (simp add: pk_ok_upd)
  ultimately show ?thesis by (simp add: queue_inv_def)
qed

end
