(* ===== verification/Remote.thy ===== *)
theory Remote
  imports Db_Sessions Db_Queue
begin

text \<open>
  Effectful code: the state the control service works on, and actions over it.  An action reads
  an environment and the state and either does not return (None) or returns a result or an
  exception together with the new state; state changes made before an exception stay.  Remote
  commands, the clock and uuid4 are not code of the repository: the environment answers them,
  the remote commands as a function of everything that was sent so far.
\<close>

section \<open>State and environment\<close>

text \<open>\<open>SSHResult\<close> of \<open>ssh.py\<close>; stdout is the raw byte string.\<close>

record ssh_result =
  sr_out :: string
  sr_err :: string
  sr_rc :: int

text \<open>One remote command: the lane it runs in, the argument vector and the data on stdin.\<close>

datatype remote_call = RemoteCall (rc_lane: string) (rc_args: "string list") (rc_input: "string option")

text \<open>
  \<open>o_remote calls\<close> answers the newest of the \<open>calls\<close> (newest first); it may raise \<open>LaneTimeout\<close>
  or the cancellation of the caller.  \<open>o_clock n\<close> and \<open>o_uuid n\<close> are the \<open>n\<close>-th reading of the
  clock and the \<open>n\<close>-th uuid or secret; \<open>o_read\<close> reads a local file, \<open>o_environ\<close> an environment
  variable; \<open>o_json\<close> is \<open>json.loads\<close> on an object (None for anything else), \<open>o_repr\<close> the text of a list or dict, \<open>o_sha256\<close> the hex digest.
  \<open>o_others n\<close> is what the other tasks do to the tables during the \<open>n\<close>-th sleep, and whether the
  sleeping task is cancelled.
\<close>

record env =
  o_remote :: "remote_call list \<Rightarrow> ssh_result res"
  o_clock :: "nat \<Rightarrow> int"
  o_uuid :: "nat \<Rightarrow> string"
  o_read :: "string \<Rightarrow> string res"
  o_environ :: "string \<Rightarrow> string option"
  o_json :: "string \<Rightarrow> (string \<times> json) list option"
  o_repr :: "json \<Rightarrow> string"
  o_sha256 :: "string \<Rightarrow> string"
  o_others :: "nat \<Rightarrow> database \<Rightarrow> database \<times> bool"

record world =
  wd_db :: database
  wd_calls :: "remote_call list"
  wd_ticks :: nat
  wd_uuids :: nat

type_synonym 'a act = "env \<Rightarrow> world \<Rightarrow> ('a res \<times> world) option"

section \<open>Actions\<close>

definition ret :: "'a \<Rightarrow> 'a act" where
  "ret x = (\<lambda>e w. Some (Inr x, w))"

definition raise_err :: "error \<Rightarrow> 'a act" where
  "raise_err err = (\<lambda>e w. Some (Inl err, w))"

definition bnd :: "'a act \<Rightarrow> ('a \<Rightarrow> 'b act) \<Rightarrow> 'b act" where
  "bnd m f = (\<lambda>e w. case m e w of
     None \<Rightarrow> None
   | Some (Inl err, w') \<Rightarrow> Some (Inl err, w')
   | Some (Inr x, w') \<Rightarrow> f x e w')"

definition seq :: "'a act \<Rightarrow> 'b act \<Rightarrow> 'b act" where
  "seq m k = bnd m (\<lambda>_. k)"

text \<open>\<open>try: m except ... as err: h err\<close>\<close>

definition catch :: "'a act \<Rightarrow> (error \<Rightarrow> 'a act) \<Rightarrow> 'a act" where
  "catch m h = (\<lambda>e w. case m e w of
     None \<Rightarrow> None
   | Some (Inl err, w') \<Rightarrow> h err e w'
   | Some (Inr x, w') \<Rightarrow> Some (Inr x, w'))"

definition whenever :: "bool \<Rightarrow> unit act \<Rightarrow> unit act" where
  "whenever b m = (if b then m else ret ())"

fun each :: "('a \<Rightarrow> unit act) \<Rightarrow> 'a list \<Rightarrow> unit act" where
  "each f [] = ret ()"
| "each f (x # xs) = seq (f x) (each f xs)"

definition lift_res :: "'a res \<Rightarrow> 'a act" where
  "lift_res r = (\<lambda>e w. Some (r, w))"

definition now :: "int act" where
  "now = (\<lambda>e w. Some (Inr (o_clock e (wd_ticks w)), w\<lparr>wd_ticks := Suc (wd_ticks w)\<rparr>))"

definition uuid4 :: "string act" where
  "uuid4 = (\<lambda>e w. Some (Inr (o_uuid e (wd_uuids w)), w\<lparr>wd_uuids := Suc (wd_uuids w)\<rparr>))"

text \<open>\<open>count\<close> fresh uuids as a function of the position in a batch.\<close>

definition uuid_batch :: "nat \<Rightarrow> (nat \<Rightarrow> string) act" where
  "uuid_batch n = (\<lambda>e w. Some (Inr (\<lambda>k. o_uuid e (wd_uuids w + k)), w\<lparr>wd_uuids := wd_uuids w + n\<rparr>))"

definition read_text :: "string \<Rightarrow> string act" where
  "read_text p = (\<lambda>e w. Some (o_read e p, w))"

text \<open>\<open>os.environ.get(name, "").strip()\<close>\<close>

definition getenv :: "string \<Rightarrow> string act" where
  "getenv name = (\<lambda>e w. Some (Inr (case o_environ e name of None \<Rightarrow> '''' | Some v \<Rightarrow> strip v), w))"

definition getenv_opt :: "string \<Rightarrow> string option act" where
  "getenv_opt name = (\<lambda>e w. Some (Inr (o_environ e name), w))"

definition loads :: "string \<Rightarrow> (string \<times> json) list option act" where
  "loads text = (\<lambda>e w. Some (Inr (o_json e text), w))"

definition text_of :: "json \<Rightarrow> string act" where
  "text_of v = (\<lambda>e w. Some (Inr (py_str (o_repr e) v), w))"

definition sha256_hex :: "string \<Rightarrow> string act" where
  "sha256_hex text = (\<lambda>e w. Some (Inr (o_sha256 e text), w))"

text \<open>\<open>asyncio.sleep\<close> in a polling loop: the other tasks run.\<close>

definition pause :: "unit act" where
  "pause = (\<lambda>e w. case o_others e (wd_ticks w) (wd_db w) of (d, cancelled) \<Rightarrow>
     Some (if cancelled then Inl CancelledErr else Inr (), w\<lparr>wd_db := d, wd_ticks := Suc (wd_ticks w)\<rparr>))"

text \<open>The outcome of an action as a value, for \<open>try\<close> blocks whose handlers inspect it.\<close>

definition attempt :: "'a act \<Rightarrow> 'a res act" where
  "attempt m = (\<lambda>e w. case m e w of None \<Rightarrow> None | Some (r, w') \<Rightarrow> Some (Inr r, w'))"

definition ask :: "(database \<Rightarrow> 'a) \<Rightarrow> 'a act" where
  "ask q = (\<lambda>e w. Some (Inr (q (wd_db w)), w))"

definition modify :: "(database \<Rightarrow> database) \<Rightarrow> unit act" where
  "modify f = (\<lambda>e w. Some (Inr (), w\<lparr>wd_db := f (wd_db w)\<rparr>))"

text \<open>A repository method that returns a value and one that can raise; an exception leaves the
  tables unchanged.\<close>

definition db_call :: "(database \<Rightarrow> 'a \<times> database) \<Rightarrow> 'a act" where
  "db_call f = (\<lambda>e w. case f (wd_db w) of (x, d) \<Rightarrow> Some (Inr x, w\<lparr>wd_db := d\<rparr>))"

definition db_try :: "(database \<Rightarrow> ('a \<times> database) res) \<Rightarrow> 'a act" where
  "db_try f = (\<lambda>e w. case f (wd_db w) of
     Inl err \<Rightarrow> Some (Inl err, w) | Inr (x, d) \<Rightarrow> Some (Inr x, w\<lparr>wd_db := d\<rparr>))"

definition db_put :: "(database \<Rightarrow> database res) \<Rightarrow> unit act" where
  "db_put f = (\<lambda>e w. case f (wd_db w) of
     Inl err \<Rightarrow> Some (Inl err, w) | Inr d \<Rightarrow> Some (Inr (), w\<lparr>wd_db := d\<rparr>))"

definition remote :: "remote_call \<Rightarrow> ssh_result act" where
  "remote c = (\<lambda>e w. let w' = w\<lparr>wd_calls := c # wd_calls w\<rparr> in Some (o_remote e (wd_calls w'), w'))"

named_theorems act_defs \<open>the primitive actions, unfolded\<close>

lemmas act_prims [act_defs] = ret_def raise_err_def lift_res_def now_def uuid4_def uuid_batch_def read_text_def
  getenv_def getenv_opt_def loads_def text_of_def sha256_hex_def pause_def ask_def modify_def db_call_def db_try_def db_put_def remote_def Let_def

lemma ret_bnd [simp]: "bnd (ret x) f = f x"
  by (simp add: bnd_def ret_def fun_eq_iff)

lemma bnd_Some:
  "bnd m f e w = Some (r, w'') \<longleftrightarrow>
     (\<exists>r' w'. m e w = Some (r', w') \<and>
       (case r' of Inl err \<Rightarrow> r = Inl err \<and> w'' = w' | Inr x \<Rightarrow> f x e w' = Some (r, w'')))"
  by (auto simp: bnd_def split: option.splits sum.splits prod.splits)

section \<open>The text of an exception\<close>

text \<open>\<open>str(exc)\<close> and \<open>type(exc).__name__\<close>.\<close>

fun error_str :: "error \<Rightarrow> string" where
  "error_str (KeyErr s) = py_repr s"
| "error_str (ValueErr s) = s"
| "error_str (PermissionErr s) = s"
| "error_str (RuntimeErr s) = s"
| "error_str (IntegrityErr s) = s"
| "error_str (WorktreeErr s) = s"
| "error_str (TimeoutErr s) = s"
| "error_str (OSErr s) = s"
| "error_str CancelledErr = ''''"
| "error_str (LaneTimeoutErr s) = s"
| "error_str (HerdrErr code message) = code @ '': '' @ message"
| "error_str (HerdrUnavailableErr s) = s"
| "error_str (ShimErr mach verb rc err) = mach @ '': '' @ verb @ '' failed ('' @ int_to_string rc @ ''): '' @ strip err"
| "error_str (PrRejectedErr missing) = ''missing required PR sections: '' @ join '', '' missing"
| "error_str (HTTPErr status detail) = nat_to_string status @ '': '' @ detail"

fun error_type :: "error \<Rightarrow> string" where
  "error_type (KeyErr s) = ''KeyError''"
| "error_type (ValueErr s) = ''ValueError''"
| "error_type (PermissionErr s) = ''PermissionError''"
| "error_type (RuntimeErr s) = ''RuntimeError''"
| "error_type (IntegrityErr s) = ''IntegrityError''"
| "error_type (WorktreeErr s) = ''WorktreeError''"
| "error_type (TimeoutErr s) = ''TimeoutError''"
| "error_type (OSErr s) = ''OSError''"
| "error_type CancelledErr = ''CancelledError''"
| "error_type (LaneTimeoutErr s) = ''LaneTimeout''"
| "error_type (HerdrErr code message) = ''HerdrError''"
| "error_type (HerdrUnavailableErr s) = ''HerdrUnavailable''"
| "error_type (ShimErr mach verb rc err) = ''ShimError''"
| "error_type (PrRejectedErr missing) = ''PrRejected''"
| "error_type (HTTPErr status detail) = ''HTTPException''"

section \<open>Invariants of actions\<close>

text \<open>\<open>keeps P m\<close>: the action ends, if it ends, in a state that satisfies \<open>P\<close>, whether it returns
  or raises.  \<open>returns m\<close>: the action always ends.\<close>

definition keeps :: "(world \<Rightarrow> bool) \<Rightarrow> 'a act \<Rightarrow> bool" where
  "keeps P m = (\<forall>e w r w'. P w \<longrightarrow> m e w = Some (r, w') \<longrightarrow> P w')"

definition returns :: "'a act \<Rightarrow> bool" where
  "returns m = (\<forall>e w. m e w \<noteq> None)"

named_theorems keeps_intros \<open>an invariant is kept\<close>
named_theorems returns_intros \<open>an action ends\<close>

lemma keepsD: "keeps P m \<Longrightarrow> P w \<Longrightarrow> m e w = Some (r, w') \<Longrightarrow> P w'"
  unfolding keeps_def by blast

lemma keeps_ret [keeps_intros]: "keeps P (ret x)" "keeps P (raise_err err)" "keeps P (lift_res r)"
    "keeps P (ask q)" "keeps P (read_text p)" "keeps P (getenv n)" "keeps P (getenv_opt nm)" "keeps P (loads t)" "keeps P (text_of v)" "keeps P (sha256_hex t)"
  by (auto simp: keeps_def act_defs)

lemma keeps_bnd [keeps_intros]:
  assumes "keeps P m" "\<And>x. keeps P (f x)"
  shows "keeps P (bnd m f)"
  unfolding keeps_def
proof (intro allI impI)
  fix e w r w'' assume "P w" "bnd m f e w = Some (r, w'')"
  then obtain r' w' where m: "m e w = Some (r', w')"
    and k: "case r' of Inl err \<Rightarrow> r = Inl err \<and> w'' = w' | Inr x \<Rightarrow> f x e w' = Some (r, w'')"
    by (auto simp: bnd_Some)
  have "P w'" by (rule keepsD [OF assms(1) \<open>P w\<close> m])
  then show "P w''"
    by (cases r') (use k keepsD [OF assms(2)] in auto)
qed

lemma keeps_seq [keeps_intros]: "keeps P m \<Longrightarrow> keeps P k \<Longrightarrow> keeps P (seq m k)"
  unfolding seq_def by (rule keeps_bnd)

lemma keeps_catch [keeps_intros]:
  assumes "keeps P m" "\<And>err. keeps P (h err)"
  shows "keeps P (catch m h)"
  unfolding keeps_def
proof (intro allI impI)
  fix e w r w'' assume "P w" and c: "catch m h e w = Some (r, w'')"
  then obtain r' w' where m: "m e w = Some (r', w')"
    by (auto simp: catch_def split: option.splits)
  have "P w'" by (rule keepsD [OF assms(1) \<open>P w\<close> m])
  then show "P w''"
    by (cases r') (use c m keepsD [OF assms(2)] in \<open>auto simp: catch_def\<close>)
qed

lemma keeps_attempt [keeps_intros]: "keeps P m \<Longrightarrow> keeps P (attempt m)"
  unfolding keeps_def attempt_def by (auto split: option.splits)

lemma keeps_if [keeps_intros]: "keeps P m \<Longrightarrow> keeps P k \<Longrightarrow> keeps P (if b then m else k)"
  by simp

lemma keeps_whenever [keeps_intros]: "keeps P m \<Longrightarrow> keeps P (whenever b m)"
  by (simp add: whenever_def keeps_ret)

lemma keeps_each [keeps_intros]: "(\<And>x. keeps P (f x)) \<Longrightarrow> keeps P (each f xs)"
  by (induction xs) (simp_all add: keeps_ret keeps_seq)

lemma keeps_opt [keeps_intros]:
  "keeps P m \<Longrightarrow> (\<And>x. keeps P (f x)) \<Longrightarrow> keeps P (case v of None \<Rightarrow> m | Some x \<Rightarrow> f x)"
  by (cases v) simp_all

lemma keeps_clock [keeps_intros]:
  "keeps (\<lambda>w. Q (wd_db w)) now" "keeps (\<lambda>w. Q (wd_db w)) uuid4" "keeps (\<lambda>w. Q (wd_db w)) (uuid_batch n)"
  "keeps (\<lambda>w. Q (wd_db w)) (remote c)"
  by (auto simp: keeps_def act_defs)

lemma keeps_modify: "(\<And>d. Q d \<Longrightarrow> Q (f d)) \<Longrightarrow> keeps (\<lambda>w. Q (wd_db w)) (modify f)"
  by (auto simp: keeps_def act_defs)

lemma keeps_db_call: "(\<And>d x d'. Q d \<Longrightarrow> f d = (x, d') \<Longrightarrow> Q d') \<Longrightarrow> keeps (\<lambda>w. Q (wd_db w)) (db_call f)"
  by (auto simp: keeps_def act_defs split: prod.splits)

lemma keeps_db_try: "(\<And>d x d'. Q d \<Longrightarrow> f d = Inr (x, d') \<Longrightarrow> Q d') \<Longrightarrow> keeps (\<lambda>w. Q (wd_db w)) (db_try f)"
  by (auto simp: keeps_def act_defs split: sum.splits)

lemma keeps_db_put: "(\<And>d d'. Q d \<Longrightarrow> f d = Inr d' \<Longrightarrow> Q d') \<Longrightarrow> keeps (\<lambda>w. Q (wd_db w)) (db_put f)"
  by (auto simp: keeps_def act_defs split: sum.splits)

lemma returns_prims [returns_intros]: "returns (ret x)" "returns (raise_err err)" "returns (lift_res r)" "returns (ask q)"
  "returns (read_text p)" "returns now" "returns uuid4" "returns (uuid_batch n)" "returns (modify f)" "returns (remote c)"
  "returns (getenv nm)" "returns (getenv_opt nm)" "returns (loads t)" "returns (text_of v)" "returns (sha256_hex t)" "returns pause" "returns (db_call g)" "returns (db_try h)" "returns (db_put k)"
  by (auto simp: returns_def act_defs split: prod.splits sum.splits)

lemma returns_bnd [returns_intros]: "returns m \<Longrightarrow> (\<And>x. returns (f x)) \<Longrightarrow> returns (bnd m f)"
  unfolding returns_def bnd_def by (auto split: option.splits sum.splits)

lemma returns_seq [returns_intros]: "returns m \<Longrightarrow> returns k \<Longrightarrow> returns (seq m k)"
  unfolding seq_def by (rule returns_bnd)

lemma returns_catch [returns_intros]: "returns m \<Longrightarrow> (\<And>err. returns (h err)) \<Longrightarrow> returns (catch m h)"
  unfolding returns_def catch_def by (auto split: option.splits sum.splits)

lemma returns_attempt [returns_intros]: "returns m \<Longrightarrow> returns (attempt m)"
  unfolding returns_def attempt_def by (auto split: option.splits)

lemma returns_ctrl [returns_intros]:
  "returns m \<Longrightarrow> returns k \<Longrightarrow> returns (if b then m else k)" "returns u \<Longrightarrow> returns (whenever b u)"
  "returns m \<Longrightarrow> (\<And>x. returns (f x)) \<Longrightarrow> returns (case v of None \<Rightarrow> m | Some x \<Rightarrow> f x)"
  by (auto simp: whenever_def returns_prims split: option.splits)

lemma returns_each [returns_intros]: "(\<And>x. returns (f x)) \<Longrightarrow> returns (each f xs)"
  by (induction xs) (simp_all add: returns_prims returns_seq)

lemma returns_sum [returns_intros]: "(\<And>x. returns (f x)) \<Longrightarrow> (\<And>y. returns (g y)) \<Longrightarrow> returns (case s of Inl x \<Rightarrow> f x | Inr y \<Rightarrow> g y)"
  by (cases s) simp_all

lemma returns_pair [returns_intros]: "(\<And>x y. returns (f x y)) \<Longrightarrow> returns (case p of (x, y) \<Rightarrow> f x y)"
  by (cases p) simp

lemma returnsE:
  assumes "returns m"
  obtains r w' where "m e w = Some (r, w')"
  using assms unfolding returns_def by (metis option.exhaust prod.collapse)

section \<open>Pre- and postconditions on the tables\<close>

text \<open>\<open>takes Q m R\<close>: from tables that satisfy \<open>Q\<close> the action ends, returning or raising, with
  tables that satisfy \<open>R\<close>.\<close>

definition takes :: "(database \<Rightarrow> bool) \<Rightarrow> 'a act \<Rightarrow> (database \<Rightarrow> bool) \<Rightarrow> bool" where
  "takes Q m R = (\<forall>e w. Q (wd_db w) \<longrightarrow> (\<exists>r w'. m e w = Some (r, w') \<and> R (wd_db w')))"

named_theorems takes_intros \<open>rules for pre- and postconditions on the tables\<close>

lemma takesD: "takes Q m R \<Longrightarrow> Q (wd_db w) \<Longrightarrow> m e w = Some (r, w') \<Longrightarrow> R (wd_db w')"
  unfolding takes_def by (metis option.inject prod.inject)

lemma takesE:
  assumes "takes Q m R" "Q (wd_db w)"
  obtains r w' where "m e w = Some (r, w')" "R (wd_db w')"
  using assms unfolding takes_def by blast

lemma takesI: "(\<And>e w. Q (wd_db w) \<Longrightarrow> \<exists>r w'. m e w = Some (r, w') \<and> R (wd_db w')) \<Longrightarrow> takes Q m R"
  unfolding takes_def by blast

lemma takes_returns:
  assumes "returns m" "\<And>e w r w'. Q (wd_db w) \<Longrightarrow> m e w = Some (r, w') \<Longrightarrow> R (wd_db w')"
  shows "takes Q m R"
proof (rule takesI)
  fix e :: env and w :: world assume "Q (wd_db w)"
  moreover obtain r w' where "m e w = Some (r, w')"
    using assms(1) unfolding returns_def by (metis option.exhaust prod.collapse)
  ultimately show "\<exists>r w'. m e w = Some (r, w') \<and> R (wd_db w')" using assms(2) by blast
qed

lemma takes_weaken: "takes Q m R \<Longrightarrow> (\<And>d. P d \<Longrightarrow> Q d) \<Longrightarrow> takes P m R"
  unfolding takes_def by blast

lemma takes_prim [takes_intros]:
  "(\<And>d. Q d \<Longrightarrow> R d) \<Longrightarrow> takes Q (ret x) R" "(\<And>d. Q d \<Longrightarrow> R d) \<Longrightarrow> takes Q (raise_err err) R"
  "(\<And>d. Q d \<Longrightarrow> R (f d)) \<Longrightarrow> takes Q (modify f) R"
  by (auto simp: takes_def act_defs)

lemma takes_bnd:
  assumes "\<And>e w. Q (wd_db w) \<Longrightarrow> \<exists>r w'. m e w = Some (r, w') \<and>
      (case r of Inl _ \<Rightarrow> R (wd_db w') | Inr x \<Rightarrow> S x (wd_db w'))"
    and "\<And>x. takes (S x) (f x) R"
  shows "takes Q (bnd m f) R"
proof (rule takesI)
  fix e :: env and w :: world assume "Q (wd_db w)"
  then obtain r w' where m: "m e w = Some (r, w')"
    and k: "case r of Inl _ \<Rightarrow> R (wd_db w') | Inr x \<Rightarrow> S x (wd_db w')"
    using assms(1) by blast
  show "\<exists>r w'. bnd m f e w = Some (r, w') \<and> R (wd_db w')"
  proof (cases r)
    case (Inl err)
    with m k show ?thesis by (auto simp: bnd_def)
  next
    case (Inr x)
    with k have "S x (wd_db w')" by simp
    from takesE [OF assms(2) this] obtain r2 w2 where "f x e w' = Some (r2, w2)" "R (wd_db w2)" by blast
    with m Inr show ?thesis by (auto simp: bnd_def)
  qed
qed

text \<open>An action that ends and leaves the tables alone, and reading the tables.\<close>

definition db_unchanged :: "'a act \<Rightarrow> bool" where
  "db_unchanged m = (\<forall>e w. \<exists>r w'. m e w = Some (r, w') \<and> wd_db w' = wd_db w)"

lemma db_unchangedD: "db_unchanged m \<Longrightarrow> m e w = Some (r, w') \<Longrightarrow> wd_db w' = wd_db w"
  unfolding db_unchanged_def by (metis option.inject prod.inject)

lemma db_unchanged_keeps:
  assumes "\<And>d0. keeps (\<lambda>w. wd_db w = d0) m" "returns m"
  shows "db_unchanged m"
  unfolding db_unchanged_def
proof (intro allI)
  fix e :: env and w :: world
  obtain r w' where m: "m e w = Some (r, w')"
    using assms(2) unfolding returns_def by (metis option.exhaust prod.collapse)
  with keepsD [OF assms(1) refl m] show "\<exists>r w'. m e w = Some (r, w') \<and> wd_db w' = wd_db w" by blast
qed

lemma db_unchanged_clock: "db_unchanged now" "db_unchanged uuid4" "db_unchanged (remote c)"
    "db_unchanged (uuid_batch n)" "db_unchanged (read_text p)" "db_unchanged (getenv v)" "db_unchanged (getenv_opt v)" "db_unchanged (loads t)" "db_unchanged (text_of j)"
    "db_unchanged (sha256_hex t)"
  by (auto simp: db_unchanged_def act_defs)

lemma takes_ask [takes_intros]: "(\<And>x. takes (\<lambda>d. Q d \<and> q d = x) (f x) R) \<Longrightarrow> takes Q (bnd (ask q) f) R"
  by (rule takes_bnd [where S = "\<lambda>x d. Q d \<and> q d = x"]) (auto simp: act_defs)

lemma takes_quiet:
  assumes "db_unchanged m" "\<And>d. Q d \<Longrightarrow> R d" "\<And>x. takes Q (f x) R"
  shows "takes Q (bnd m f) R"
proof (rule takes_bnd [where S = "\<lambda>_. Q", OF _ assms(3)])
  fix e :: env and w :: world assume "Q (wd_db w)"
  moreover obtain r w' where "m e w = Some (r, w')" "wd_db w' = wd_db w"
    using assms(1) unfolding db_unchanged_def by blast
  ultimately show "\<exists>r w'. m e w = Some (r, w') \<and> (case r of Inl _ \<Rightarrow> R (wd_db w') | Inr x \<Rightarrow> Q (wd_db w'))"
    using assms(2) by (auto split: sum.split)
qed

lemma takes_seq: "takes Q m R \<Longrightarrow> takes R k R \<Longrightarrow> takes Q (seq m k) R"
  unfolding seq_def
proof (rule takes_bnd [where S = "\<lambda>_. R"])
  fix e :: env and w :: world assume "takes Q m R" "Q (wd_db w)"
  then obtain r w' where "m e w = Some (r, w')" "R (wd_db w')" by (rule takesE)
  then show "\<exists>r w'. m e w = Some (r, w') \<and> (case r of Inl _ \<Rightarrow> R (wd_db w') | Inr _ \<Rightarrow> R (wd_db w'))"
    by (auto split: sum.split)
qed

lemma takes_if: "(b \<Longrightarrow> takes Q m R) \<Longrightarrow> (\<not> b \<Longrightarrow> takes Q k R) \<Longrightarrow> takes Q (if b then m else k) R"
  by simp

lemma takes_opt: "(v = None \<Longrightarrow> takes Q m R) \<Longrightarrow> (\<And>x. v = Some x \<Longrightarrow> takes Q (f x) R) \<Longrightarrow>
    takes Q (case v of None \<Rightarrow> m | Some x \<Rightarrow> f x) R"
  by (cases v) simp_all

lemma takes_catch:
  assumes "takes Q m R" "\<And>err. takes R (h err) R"
  shows "takes Q (catch m h) R"
proof (rule takesI)
  fix e :: env and w :: world assume "Q (wd_db w)"
  with assms(1) obtain r w' where m: "m e w = Some (r, w')" "R (wd_db w')" by (rule takesE)
  show "\<exists>r w'. catch m h e w = Some (r, w') \<and> R (wd_db w')"
  proof (cases r)
    case (Inl err)
    from takesE [OF assms(2) m(2)] obtain r2 w2 where "h err e w' = Some (r2, w2)" "R (wd_db w2)" by blast
    with m Inl show ?thesis by (auto simp: catch_def)
  qed (use m in \<open>auto simp: catch_def\<close>)
qed

lemma takes_each: "(\<And>x. takes R (f x) R) \<Longrightarrow> takes R (each f xs) R"
  by (induction xs) (auto intro: takes_prim takes_seq)

lemma takes_call:
  assumes "\<And>d x d'. Q d \<Longrightarrow> f d = (x, d') \<Longrightarrow> R d'" "\<And>x. takes R (k x) R"
  shows "takes Q (bnd (db_call f) k) R"
  by (rule takes_bnd [where S = "\<lambda>_. R", OF _ assms(2)])
    (auto simp: act_defs split: prod.splits intro: assms(1))

lemma takes_try:
  assumes "\<And>d. Q d \<Longrightarrow> R d" "\<And>d x d'. Q d \<Longrightarrow> f d = Inr (x, d') \<Longrightarrow> R d'"
  shows "takes Q (db_try f) R"
  using assms by (fastforce simp: takes_def act_defs split: sum.split)

section \<open>What an action hands out\<close>

text \<open>\<open>yields Q m\<close>: when the action returns, its value and the tables satisfy \<open>Q\<close>.\<close>

definition yields :: "('a \<Rightarrow> database \<Rightarrow> bool) \<Rightarrow> 'a act \<Rightarrow> bool" where
  "yields Q m = (\<forall>e w x w'. m e w = Some (Inr x, w') \<longrightarrow> Q x (wd_db w'))"

named_theorems yields_intros \<open>what an action hands out\<close>

lemma yieldsD: "yields Q m \<Longrightarrow> m e w = Some (Inr x, w') \<Longrightarrow> Q x (wd_db w')"
  unfolding yields_def by blast

lemma bnd_Inr: "bnd m f e w = Some (Inr x, w'') \<longleftrightarrow> (\<exists>y w1. m e w = Some (Inr y, w1) \<and> f y e w1 = Some (Inr x, w''))"
  unfolding bnd_def by (auto split: option.splits sum.splits prod.splits)

lemma yields_bnd [yields_intros]: "(\<And>x. yields Q (f x)) \<Longrightarrow> yields Q (bnd m f)"
  unfolding yields_def bnd_def by (auto split: option.splits sum.splits)

lemma yields_seq [yields_intros]: "yields Q k \<Longrightarrow> yields Q (seq m k)"
  unfolding seq_def by (rule yields_bnd)

lemma yields_raise [yields_intros]: "yields Q (raise_err err)"
  by (simp add: yields_def act_defs)

lemma yields_catch [yields_intros]: "yields Q m \<Longrightarrow> (\<And>err. yields Q (h err)) \<Longrightarrow> yields Q (catch m h)"
  unfolding yields_def catch_def by (auto split: option.splits sum.splits)

lemma yields_ctrl [yields_intros]:
  "yields Q m \<Longrightarrow> yields Q k \<Longrightarrow> yields Q (if b then m else k)"
  "(\<And>x. yields Q (f x)) \<Longrightarrow> (\<And>y. yields Q (g y)) \<Longrightarrow> yields Q (case s of Inl x \<Rightarrow> f x | Inr y \<Rightarrow> g y)"
  "yields Q m \<Longrightarrow> (\<And>x. yields Q (f x)) \<Longrightarrow> yields Q (case v of None \<Rightarrow> m | Some x \<Rightarrow> f x)"
  "(\<And>a b. yields Q (k2 a b)) \<Longrightarrow> yields Q (case pr of (a, b) \<Rightarrow> k2 a b)"
  by (auto split: sum.split option.split prod.split)

section \<open>The commands an action sends\<close>

text \<open>\<open>emits p m\<close>: every remote command the action sends satisfies \<open>p\<close>.\<close>

definition emits :: "(remote_call \<Rightarrow> bool) \<Rightarrow> 'a act \<Rightarrow> bool" where
  "emits p m = (\<forall>e w r w'. m e w = Some (r, w') \<longrightarrow>
     (\<exists>cs. wd_calls w' = cs @ wd_calls w \<and> list_all p cs))"

named_theorems emits_intros \<open>which commands an action sends\<close>

lemma emitsE:
  assumes "emits p m" "m e w = Some (r, w')"
  obtains cs where "wd_calls w' = cs @ wd_calls w" "list_all p cs"
  using assms unfolding emits_def by blast

lemma emits_prims [emits_intros]:
  "emits p (ret x)" "emits p (raise_err err)" "emits p (lift_res r)" "emits p (ask q)" "emits p (read_text f)"
  "emits p now" "emits p uuid4" "emits p (uuid_batch n)" "emits p (modify g)" "emits p (getenv n')" "emits p (getenv_opt nm)" "emits p (loads t)" "emits p (text_of v)"
  "emits p (sha256_hex t)" "emits p pause" "emits p (db_call h)" "emits p (db_try k)" "emits p (db_put l)"
  by (auto simp: emits_def act_defs split: prod.splits sum.splits)

lemma emits_remote: "p c \<Longrightarrow> emits p (remote c)"
  by (auto simp: emits_def act_defs)

lemma emits_weaken: "emits p m \<Longrightarrow> (\<And>c. p c \<Longrightarrow> q c) \<Longrightarrow> emits q m"
  unfolding emits_def list_all_iff by meson

lemma emits_bnd [emits_intros]:
  assumes "emits p m" "\<And>x. emits p (f x)"
  shows "emits p (bnd m f)"
  unfolding emits_def
proof (intro allI impI)
  fix e w r w'' assume "bnd m f e w = Some (r, w'')"
  then obtain r' w' where m: "m e w = Some (r', w')"
    and k: "case r' of Inl err \<Rightarrow> r = Inl err \<and> w'' = w' | Inr x \<Rightarrow> f x e w' = Some (r, w'')"
    by (auto simp: bnd_Some)
  from assms(1) m obtain cs where cs: "wd_calls w' = cs @ wd_calls w" "list_all p cs" by (rule emitsE)
  show "\<exists>cs. wd_calls w'' = cs @ wd_calls w \<and> list_all p cs"
  proof (cases r')
    case (Inr x)
    with k assms(2) obtain cs' where "wd_calls w'' = cs' @ wd_calls w'" "list_all p cs'" by (auto elim: emitsE)
    with cs show ?thesis by (intro exI [of _ "cs' @ cs"]) simp
  qed (use k cs in auto)
qed

lemma emits_seq [emits_intros]: "emits p m \<Longrightarrow> emits p k \<Longrightarrow> emits p (seq m k)"
  unfolding seq_def by (rule emits_bnd)

lemma emits_attempt [emits_intros]: "emits p m \<Longrightarrow> emits p (attempt m)"
  unfolding emits_def attempt_def by (auto split: option.splits)

lemma catch_attempt: "catch m h = bnd (attempt m) (\<lambda>r. case r of Inl err \<Rightarrow> h err | Inr x \<Rightarrow> ret x)"
  by (auto simp: catch_def bnd_def attempt_def ret_def fun_eq_iff split: option.split sum.split prod.split)

lemma emits_sum [emits_intros]: "(\<And>x. emits p (f x)) \<Longrightarrow> (\<And>y. emits p (g y)) \<Longrightarrow> emits p (case s of Inl x \<Rightarrow> f x | Inr y \<Rightarrow> g y)"
  by (cases s) simp_all

lemma emits_catch [emits_intros]: "emits p m \<Longrightarrow> (\<And>err. emits p (h err)) \<Longrightarrow> emits p (catch m h)"
  unfolding catch_attempt by (intro emits_intros)

lemma emits_ctrl [emits_intros]:
  "emits p m \<Longrightarrow> emits p k \<Longrightarrow> emits p (if b then m else k)" "emits p u \<Longrightarrow> emits p (whenever b u)"
  "emits p m \<Longrightarrow> (\<And>x. emits p (f x)) \<Longrightarrow> emits p (case v of None \<Rightarrow> m | Some x \<Rightarrow> f x)"
  by (auto simp: whenever_def emits_prims split: option.splits)

lemma emits_each [emits_intros]: "(\<And>x. emits p (f x)) \<Longrightarrow> emits p (each f xs)"
  by (induction xs) (simp_all add: emits_prims emits_seq)

text \<open>\<open>phases p q m\<close>: the commands split into a first part that satisfies \<open>p\<close> and a later part that
  satisfies \<open>q\<close>.\<close>

definition phases :: "(remote_call \<Rightarrow> bool) \<Rightarrow> (remote_call \<Rightarrow> bool) \<Rightarrow> 'a act \<Rightarrow> bool" where
  "phases p q m = (\<forall>e w r w'. m e w = Some (r, w') \<longrightarrow>
     (\<exists>late early. wd_calls w' = late @ early @ wd_calls w \<and> list_all p early \<and> list_all q late))"

lemma phases_early:
  assumes "emits p m"
  shows "phases p q m"
  unfolding phases_def
proof (intro allI impI)
  fix e w r w' assume "m e w = Some (r, w')"
  with assms obtain cs where "wd_calls w' = cs @ wd_calls w" "list_all p cs" by (rule emitsE)
  then show "\<exists>late early. wd_calls w' = late @ early @ wd_calls w \<and> list_all p early \<and> list_all q late"
    by (intro exI [of _ "[]"] exI [of _ cs]) simp
qed

lemma phases_late:
  assumes "emits q m"
  shows "phases p q m"
  unfolding phases_def
proof (intro allI impI)
  fix e w r w' assume "m e w = Some (r, w')"
  with assms obtain cs where "wd_calls w' = cs @ wd_calls w" "list_all q cs" by (rule emitsE)
  then show "\<exists>late early. wd_calls w' = late @ early @ wd_calls w \<and> list_all p early \<and> list_all q late"
    by (intro exI [of _ cs] exI [of _ "[]"]) simp
qed

lemma phasesE:
  assumes "phases p q m" "m e w = Some (r, w')"
  obtains late early where "wd_calls w' = late @ early @ wd_calls w" "list_all p early" "list_all q late"
  using assms unfolding phases_def by blast

lemma phases_bnd:
  assumes "emits p m" "\<And>x. phases p q (f x)"
  shows "phases p q (bnd m f)"
  unfolding phases_def
proof (intro allI impI)
  fix e w r w'' assume "bnd m f e w = Some (r, w'')"
  then obtain r' w' where m: "m e w = Some (r', w')"
    and k: "case r' of Inl err \<Rightarrow> r = Inl err \<and> w'' = w' | Inr x \<Rightarrow> f x e w' = Some (r, w'')"
    by (auto simp: bnd_Some)
  from assms(1) m obtain cs where cs: "wd_calls w' = cs @ wd_calls w" "list_all p cs" by (rule emitsE)
  show "\<exists>late early. wd_calls w'' = late @ early @ wd_calls w \<and> list_all p early \<and> list_all q late"
  proof (cases r')
    case (Inl err)
    with k cs show ?thesis by (intro exI [of _ "[]"] exI [of _ cs]) simp
  next
    case (Inr x)
    with k have "f x e w' = Some (r, w'')" by simp
    from phasesE [OF assms(2) this] obtain late early where
      "wd_calls w'' = late @ early @ wd_calls w'" "list_all p early" "list_all q late" .
    with cs show ?thesis by (intro exI [of _ late] exI [of _ "early @ cs"]) simp
  qed
qed

lemma phases_seq: "emits p m \<Longrightarrow> phases p q k \<Longrightarrow> phases p q (seq m k)"
  unfolding seq_def by (rule phases_bnd)

lemma phases_ctrl:
  "phases p q m \<Longrightarrow> phases p q k \<Longrightarrow> phases p q (if b then m else k)"
  "(\<And>x. phases p q (f x)) \<Longrightarrow> (\<And>y. phases p q (g y)) \<Longrightarrow> phases p q (case s of Inl x \<Rightarrow> f x | Inr y \<Rightarrow> g y)"
  by (auto split: sum.split)

section \<open>How many commands an action sends\<close>

definition sends :: "nat \<Rightarrow> 'a act \<Rightarrow> bool" where
  "sends n m = (\<forall>e w r w'. m e w = Some (r, w') \<longrightarrow> length (wd_calls w') \<le> length (wd_calls w) + n)"

lemma sends_none:
  assumes "emits (\<lambda>_. False) m"
  shows "sends n m"
  unfolding sends_def
proof (intro allI impI)
  fix e w r w' assume "m e w = Some (r, w')"
  with assms obtain cs where "wd_calls w' = cs @ wd_calls w" "list_all (\<lambda>_. False) cs" by (rule emitsE)
  then show "length (wd_calls w') \<le> length (wd_calls w) + n" by (cases cs) simp_all
qed

lemma sends_remote: "sends (Suc n) (remote c)"
  by (auto simp: sends_def act_defs)

lemma sendsD: "sends n m \<Longrightarrow> m e w = Some (r, w') \<Longrightarrow> length (wd_calls w') \<le> length (wd_calls w) + n"
  unfolding sends_def by blast

lemma sends_bnd:
  assumes "sends n m" "\<And>x. sends k (f x)"
  shows "sends (n + k) (bnd m f)"
  unfolding sends_def
proof (intro allI impI)
  fix e w r w'' assume "bnd m f e w = Some (r, w'')"
  then obtain r' w' where m: "m e w = Some (r', w')"
    and x: "case r' of Inl err \<Rightarrow> r = Inl err \<and> w'' = w' | Inr x \<Rightarrow> f x e w' = Some (r, w'')"
    by (auto simp: bnd_Some)
  show "length (wd_calls w'') \<le> length (wd_calls w) + (n + k)"
    using sendsD [OF assms(1) m] x by (cases r') (auto dest: sendsD [OF assms(2)])
qed

lemma sends_seq: "sends n m \<Longrightarrow> sends k m' \<Longrightarrow> sends (n + k) (seq m m')"
  unfolding seq_def by (rule sends_bnd)

lemma sends_weaken: "sends n m \<Longrightarrow> n \<le> k \<Longrightarrow> sends k m"
  unfolding sends_def by (meson add_left_mono order_trans)

lemma sends_attempt: "sends n m \<Longrightarrow> sends n (attempt m)"
  unfolding sends_def attempt_def by (auto split: option.splits)

lemma sends_catch:
  assumes "sends n m" "\<And>err. sends k (h err)"
  shows "sends (n + k) (catch m h)"
  unfolding catch_attempt
proof (rule sends_bnd [OF sends_attempt [OF assms(1)]])
  fix r show "sends k (case r of Inl err \<Rightarrow> h err | Inr x \<Rightarrow> ret x)"
    by (cases r) (simp_all add: assms(2) sends_none emits_intros)
qed

lemma sends_ctrl: "sends n m \<Longrightarrow> sends n k \<Longrightarrow> sends n (if b then m else k)"
  by simp

end
