(* ===== verification/Codec.thy ===== *)
theory Codec
  imports Py_Lib
begin

text \<open>
  Base64 as \<open>base64.b64encode\<close> and \<open>b64decode(validate=True)\<close> have it, the argument encoding of
  the remote shim (\<open>encode_arg\<close> of \<open>herdr_host.py\<close>) and \<open>int(...)\<close> of Python on text.  Characters
  are bytes.
\<close>

section \<open>Base64\<close>

definition b64_alphabet :: string where
  "b64_alphabet = ''ABCDEFGHIJKLMNOPQRSTUVWXYZabcdefghijklmnopqrstuvwxyz0123456789+/''"

definition b64_char :: "nat \<Rightarrow> char" where
  "b64_char n = b64_alphabet ! n"

definition b64_value :: "char \<Rightarrow> nat option" where
  "b64_value c = (let k = index_of c b64_alphabet in if k < 64 then Some k else None)"

abbreviation byte :: "char \<Rightarrow> nat" where
  "byte c \<equiv> of_char c"

fun b64encode :: "string \<Rightarrow> string" where
  "b64encode [] = []"
| "b64encode [a] = [b64_char (byte a div 4), b64_char (byte a mod 4 * 16), CHR ''='', CHR ''='']"
| "b64encode [a, b] =
     [b64_char (byte a div 4), b64_char (byte a mod 4 * 16 + byte b div 16), b64_char (byte b mod 16 * 4), CHR ''='']"
| "b64encode (a # b # c # s) =
     b64_char (byte a div 4) # b64_char (byte a mod 4 * 16 + byte b div 16) #
     b64_char (byte b mod 16 * 4 + byte c div 64) # b64_char (byte c mod 64) # b64encode s"

definition two_bytes :: "nat \<Rightarrow> nat \<Rightarrow> char" where
  "two_bytes x y = char_of (x * 4 + y div 16)"

fun b64decode :: "string \<Rightarrow> string option" where
  "b64decode [] = Some []"
| "b64decode [w, x, y, z] =
     (case (b64_value w, b64_value x) of
        (Some a, Some b) \<Rightarrow>
          if y = CHR ''='' \<and> z = CHR ''='' then Some [char_of (a * 4 + b div 16)]
          else (case b64_value y of
             None \<Rightarrow> None
           | Some c \<Rightarrow>
             if z = CHR ''='' then Some [char_of (a * 4 + b div 16), char_of (b mod 16 * 16 + c div 4)]
             else (case b64_value z of
                None \<Rightarrow> None
              | Some d \<Rightarrow> Some [char_of (a * 4 + b div 16), char_of (b mod 16 * 16 + c div 4), char_of (c mod 4 * 64 + d)]))
      | _ \<Rightarrow> None)"
| "b64decode (w # x # y # z # s) =
     (case (b64_value w, b64_value x, b64_value y, b64_value z, b64decode s) of
        (Some a, Some b, Some c, Some d, Some r) \<Rightarrow>
          Some (char_of (a * 4 + b div 16) # char_of (b mod 16 * 16 + c div 4) # char_of (c mod 4 * 64 + d) # r)
      | _ \<Rightarrow> None)"
| "b64decode _ = None"

lemma b64_alphabet_facts: "length b64_alphabet = 64" "distinct b64_alphabet"
  by (simp_all add: b64_alphabet_def)

lemma index_of_nth: "distinct xs \<Longrightarrow> n < length xs \<Longrightarrow> index_of (xs ! n) xs = n"
  by (induction xs arbitrary: n) (auto simp: nth_Cons split: nat.split)

lemma b64_value_char [simp]: "n < 64 \<Longrightarrow> b64_value (b64_char n) = Some n"
  by (simp add: b64_value_def b64_char_def index_of_nth b64_alphabet_facts)

lemma byte_less [simp]: "byte c < 256"
  using of_char_mod_256 [of c, where 'a = nat] mod_less_divisor [of 256 "byte c"] by simp

lemma b64_not_pad [simp]: "n < 64 \<Longrightarrow> b64_char n \<noteq> CHR ''=''"
proof
  assume "n < 64" "b64_char n = CHR ''=''"
  then have "CHR ''='' \<in> set b64_alphabet"
    unfolding b64_char_def using nth_mem [of n b64_alphabet] by (simp add: b64_alphabet_facts(1))
  then show False by (simp add: b64_alphabet_def)
qed

lemma sextets [simp]:
  "byte a div 4 < 64" "byte a mod 4 * 16 < 64" "byte a mod 4 * 16 + byte b div 16 < 64"
  "byte b mod 16 * 4 < 64" "byte b mod 16 * 4 + byte c div 64 < 64" "byte c mod 64 < 64"
proof -
  have "byte a < 256" "byte b < 256" "byte c < 256" by simp_all
  then show "byte a div 4 < 64" "byte a mod 4 * 16 < 64" "byte a mod 4 * 16 + byte b div 16 < 64"
    "byte b mod 16 * 4 < 64" "byte b mod 16 * 4 + byte c div 64 < 64" "byte c mod 64 < 64"
    by linarith+
qed

lemma sextet_bytes [simp]:
  "byte a div 4 * 4 + byte a mod 4 * 16 div 16 = byte a"
  "byte a div 4 * 4 + (byte a mod 4 * 16 + byte b div 16) div 16 = byte a"
  "(byte a mod 4 * 16 + byte b div 16) mod 16 * 16 + byte b mod 16 * 4 div 4 = byte b"
  "(byte a mod 4 * 16 + byte b div 16) mod 16 * 16 + (byte b mod 16 * 4 + byte c div 64) div 4 = byte b"
  "(byte b mod 16 * 4 + byte c div 64) mod 4 * 64 + byte c mod 64 = byte c"
proof -
  have "byte b < 256" "byte c < 256" by simp_all
  then have q: "byte b div 16 < 16" and r: "byte c div 64 < 4" by linarith+
  have x: "(byte a mod 4 * 16 + byte b div 16) div 16 = byte a mod 4"
    "(byte a mod 4 * 16 + byte b div 16) mod 16 = byte b div 16"
    using q by simp_all
  have y: "(byte b mod 16 * 4 + byte c div 64) div 4 = byte b mod 16"
    "(byte b mod 16 * 4 + byte c div 64) mod 4 = byte c div 64"
    using r by simp_all
  show "byte a div 4 * 4 + byte a mod 4 * 16 div 16 = byte a" by simp
  show "byte a div 4 * 4 + (byte a mod 4 * 16 + byte b div 16) div 16 = byte a" unfolding x by simp
  show "(byte a mod 4 * 16 + byte b div 16) mod 16 * 16 + byte b mod 16 * 4 div 4 = byte b" unfolding x by simp
  show "(byte a mod 4 * 16 + byte b div 16) mod 16 * 16 + (byte b mod 16 * 4 + byte c div 64) div 4 = byte b"
    unfolding x y by simp
  show "(byte b mod 16 * 4 + byte c div 64) mod 4 * 64 + byte c mod 64 = byte c" unfolding y by simp
qed

lemma b64encode_Nil_iff: "b64encode s = [] \<longleftrightarrow> s = []"
  by (cases s rule: b64encode.cases) simp_all

lemma b64decode_group:
  assumes "a < 64" "b < 64" "c < 64" "d < 64" "b64decode s = Some r"
  shows "b64decode (b64_char a # b64_char b # b64_char c # b64_char d # s) =
    Some (char_of (a * 4 + b div 16) # char_of (b mod 16 * 16 + c div 4) # char_of (c mod 4 * 64 + d) # r)"
  using assms by (cases s) simp_all

lemma b64decode_three:
  assumes "a < 64" "b < 64" "c < 64"
  shows "b64decode [b64_char a, b64_char b, b64_char c, CHR ''=''] =
    Some [char_of (a * 4 + b div 16), char_of (b mod 16 * 16 + c div 4)]"
  using assms by simp

lemma b64_decode_encode: "b64decode (b64encode s) = Some s"
proof (induction s rule: b64encode.induct)
  case (4 a b c s)
  show ?case
    using b64decode_group [OF sextets(1) [of a] sextets(3) [of a b] sextets(5) [of b c] sextets(6) [of c] 4,
        unfolded sextet_bytes]
    by simp
next
  case (3 a b)
  show ?case
    using b64decode_three [OF sextets(1) [of a] sextets(3) [of a b] sextets(4) [of b], unfolded sextet_bytes]
    by simp
qed simp_all

lemma set_b64encode: "set (b64encode s) \<subseteq> insert (CHR ''='') (set b64_alphabet)"
proof -
  have "n < 64 \<Longrightarrow> b64_char n \<in> set b64_alphabet" for n
    by (simp add: b64_char_def b64_alphabet_facts)
  then show ?thesis by (induction s rule: b64encode.induct) auto
qed

section \<open>Arguments of the remote shim\<close>

text \<open>The character class of \<open>_LITERAL_TOKEN\<close>.\<close>

definition literal_char :: "char \<Rightarrow> bool" where
  "literal_char c = (is_alnum c \<or> c \<in> set ''._/@:=+,-'')"

definition literal_token :: "string \<Rightarrow> bool" where
  "literal_token s = (s \<noteq> '''' \<and> list_all literal_char s)"

definition has_dotdot :: "string \<Rightarrow> bool" where
  "has_dotdot s = list_ex (\<lambda>(a, b). a = CHR ''.'' \<and> b = CHR ''.'') (zip s (tl s))"

definition encode_arg :: "string \<Rightarrow> string res" where
  "encode_arg v =
     (if list_ex (\<lambda>c. byte c = 0) v then Inl (ValueErr ''shim arguments cannot contain NUL'')
      else if v \<noteq> '''' \<and> literal_token v \<and> \<not> has_dotdot v \<and> \<not> startswith ''b64:'' v then Inr v
      else Inr (''b64:'' @ b64encode v))"

fun encode_args :: "string list \<Rightarrow> string list res" where
  "encode_args [] = Inr []"
| "encode_args (a # as) =
     (case encode_arg a of
        Inl e \<Rightarrow> Inl e
      | Inr t \<Rightarrow> (case encode_args as of Inl e \<Rightarrow> Inl e | Inr ts \<Rightarrow> Inr (t # ts)))"

text \<open>
  The receiver, \<open>scripts/wh-remote-shim\<close>: \<open>read -r -a\<close> splits the command at blanks and
  \<open>decode_args\<close> decodes the tokens that start with \<open>b64:\<close>, checking that re-encoding gives the
  token back.
\<close>

definition shim_words :: "string \<Rightarrow> string list" where
  "shim_words s = filter (\<lambda>t. t \<noteq> '''') (split_on (CHR '' '') s)"

definition shim_decode :: "string \<Rightarrow> string option" where
  "shim_decode t =
     (if startswith ''b64:'' t
      then (case b64decode (drop 4 t) of
              None \<Rightarrow> None | Some v \<Rightarrow> if b64encode v = drop 4 t then Some v else None)
      else Some t)"

lemma alphabet_literal: "c \<in> insert (CHR ''='') (set b64_alphabet) \<Longrightarrow> literal_char c"
proof -
  have "list_all literal_char (CHR ''='' # b64_alphabet)" by code_simp
  then show "c \<in> insert (CHR ''='') (set b64_alphabet) \<Longrightarrow> literal_char c"
    by (auto simp: list_all_iff)
qed

lemma encode_arg_token:
  assumes "encode_arg v = Inr t"
  shows "t \<noteq> ''''" and "list_all literal_char t" and "shim_decode t = Some v"
proof -
  have b64: "list_all literal_char (''b64:'' @ b64encode v)"
  proof -
    have "list_all literal_char ''b64:''" by code_simp
    moreover have "list_all literal_char (b64encode v)"
      using set_b64encode [of v] alphabet_literal by (auto simp: list_all_iff)
    ultimately show ?thesis by simp
  qed
  show "t \<noteq> ''''" "list_all literal_char t" "shim_decode t = Some v"
    using assms b64 b64_decode_encode [of v]
    by (auto simp: encode_arg_def literal_token_def shim_decode_def startswith_def split: if_splits)
qed

lemma split_on_no: "c \<notin> set s \<Longrightarrow> split_on c s = [s]"
  by (induction s) auto

lemma split_on_append: "c \<notin> set s \<Longrightarrow> split_on c (s @ c # t) = s # split_on c t"
  by (induction s) auto

lemma split_on_join: "ts \<noteq> [] \<Longrightarrow> \<forall>t \<in> set ts. c \<notin> set t \<Longrightarrow> split_on c (join [c] ts) = ts"
proof (induction ts)
  case (Cons t ts)
  then show ?case by (cases ts) (simp_all add: split_on_no split_on_append)
qed simp

lemma encode_args_tokens:
  "encode_args as = Inr ts \<Longrightarrow> length ts = length as \<and> (\<forall>t \<in> set ts. t \<noteq> '''' \<and> CHR '' '' \<notin> set t) \<and>
     map shim_decode ts = map Some as"
proof (induction as arbitrary: ts)
  case (Cons a as)
  then obtain t ts' where t: "encode_arg a = Inr t" "encode_args as = Inr ts'" "ts = t # ts'"
    by (auto split: sum.splits)
  have "\<not> literal_char (CHR '' '')" by code_simp
  then have "CHR '' '' \<notin> set t" using encode_arg_token(2) [OF t(1)] by (auto simp: list_all_iff)
  with Cons.IH [OF t(2)] encode_arg_token [OF t(1)] t(3) show ?case by auto
qed simp

section \<open>Integers in text\<close>

text \<open>Digits with single underscores between them, as \<open>int(...)\<close> accepts.\<close>

fun digits_value :: "bool \<Rightarrow> int \<Rightarrow> string \<Rightarrow> int option" where
  "digits_value seen acc [] = (if seen then Some acc else None)"
| "digits_value seen acc (c # s) =
     (if is_digit c then digits_value True (acc * 10 + (of_char c - 48)) s
      else if c = CHR ''_'' \<and> seen then digits_value False acc s
      else None)"

definition py_int :: "string \<Rightarrow> int option" where
  "py_int s =
     (let t = strip s
      in if startswith ''-'' t then map_option uminus (digits_value False 0 (tl t))
         else if startswith ''+'' t then digits_value False 0 (tl t)
         else digits_value False 0 t)"

lemma digit_char:
  assumes "n < 10"
  shows "is_digit (char_of (48 + n :: nat))" "of_char (char_of (48 + n :: nat)) = (48 + int n)"
proof -
  have v: "(of_char (char_of (48 + n :: nat)) :: nat) = 48 + n" using assms by simp
  then show "is_digit (char_of (48 + n :: nat))" using assms by (simp add: is_digit_def)
  have "(of_char (char_of (48 + n :: nat)) :: int) = int (of_char (char_of (48 + n :: nat)))"
    by (rule of_nat_of_char [symmetric])
  then show "of_char (char_of (48 + n :: nat)) = (48 + int n)"
    unfolding v by simp
qed

lemma digits_value_nat:
  "digits_value seen acc (nat_to_string n @ t) = digits_value True (acc * 10 ^ length (nat_to_string n) + int n) t"
proof (induction n arbitrary: seen acc t rule: nat_to_string.induct)
  case (1 n)
  show ?case
  proof (cases "n < 10")
    case True
    then show ?thesis
      using digit_char [OF True] by (subst (1 2) nat_to_string.simps) simp
  next
    case False
    have m: "n mod 10 < 10" by simp
    have ns: "nat_to_string n = nat_to_string (n div 10) @ [char_of (48 + n mod 10)]"
      by (subst nat_to_string.simps) (simp add: False)
    have "int n = int (n div 10) * 10 + int (n mod 10)" by presburger
    then show ?thesis
      unfolding ns using 1 [OF False] digit_char [OF m] by (simp add: algebra_simps)
  qed
qed

end
