(* ===== verification/Ssh.thy ===== *)
theory Ssh
  imports Remote Codec
begin

text \<open>
  \<open>ssh.py\<close>: the command lines the control service runs on workers and machines and how it reads
  their answers.  Starting, waiting for and killing the local \<open>ssh\<close> process is outside the model:
  a remote command is one call of the environment (theory \<open>Remote\<close>), which may answer with the
  code -1 of a command timeout or raise the \<open>LaneTimeout\<close> of the worker's lane (theory \<open>Lanes\<close>).
\<close>

definition nl :: string where "nl = [CHR 10]"

definition squote :: "string \<Rightarrow> string" where
  "squote s = CHR 39 # s @ [CHR 39]"

section \<open>Argument helpers\<close>

definition ssh_target :: "worker \<Rightarrow> string" where
  "ssh_target w = w_ssh_user w @ ''@'' @ ssh_host w"

definition ssh_base_args :: "worker \<Rightarrow> string list" where
  "ssh_base_args w = [''tailscale'', ''ssh'', ssh_target w]"

definition worker_harness_dir :: "worker \<Rightarrow> string" where
  "worker_harness_dir w =
     (let d = rstrip_char (CHR ''/'') (w_harness_dir w) in if d = '''' then ''/harness'' else d)"

definition worker_tmux_tmpdir :: "worker \<Rightarrow> string" where
  "worker_tmux_tmpdir w = worker_harness_dir w @ ''/job-tmux''"

definition tmux_env :: "worker \<Rightarrow> string" where
  "tmux_env w =
     ''env -u TMUX -u TMUX_PANE TMUX_TMPDIR='' @ squote (worker_tmux_tmpdir w) @
     '' LD_LIBRARY_PATH=/.singularity.d/libs${LD_LIBRARY_PATH:+:${LD_LIBRARY_PATH}}'' @
     '' PATH=/usr/local/cuda/bin:/usr/local/nvidia/bin:${PATH} tmux''"

definition job_log_path :: "worker \<Rightarrow> string \<Rightarrow> string" where
  "job_log_path w i = worker_harness_dir w @ ''/'' @ i @ ''/output.log''"

section \<open>Running a command on a worker\<close>

definition async_ssh_run :: "worker \<Rightarrow> string \<Rightarrow> ssh_result act" where
  "async_ssh_run w command = remote (RemoteCall (w_id w) (ssh_base_args w @ [command]) None)"

definition async_ssh_run_pty :: "worker \<Rightarrow> string \<Rightarrow> ssh_result act" where
  "async_ssh_run_pty w command = remote (RemoteCall (w_id w) (ssh_base_args w @ [''-tt'', command]) None)"

section \<open>Jobs in tmux\<close>

definition job_script :: "string \<Rightarrow> string \<Rightarrow> string \<Rightarrow> int list option \<Rightarrow> string" where
  "job_script log_path i command gpus =
     ''#!/bin/bash'' @ nl @
     ''exec >>'' @ log_path @ '' 2>&1'' @ nl @
     (case gpus of None \<Rightarrow> '''' | Some gs \<Rightarrow> ''export CUDA_VISIBLE_DEVICES='' @ join '','' (map int_to_string gs) @ nl) @
     ''('' @ command @ ''); ec=$?'' @ nl @
     ''echo EXIT:$ec'' @ nl @
     ''sleep 60'' @ nl @
     ''tmux kill-session -t wh_'' @ i @ '' 2>/dev/null'' @ nl"

definition build_job_command :: "worker \<Rightarrow> string \<Rightarrow> string \<Rightarrow> int list option \<Rightarrow> string" where
  "build_job_command w i command gpus =
     (let dir = worker_harness_dir w @ ''/'' @ i;
          script_path = dir @ ''/script.sh'';
          script_b64 = rstrip (b64encode (job_script (dir @ ''/output.log'') i command gpus))
      in ''mkdir -p '' @ dir @ '' && '' @
         ''echo '' @ squote script_b64 @ '' | base64 -d > '' @ script_path @ '' && '' @
         ''chmod +x '' @ script_path @ '' && '' @
         tmux_env w @ '' new-session -d -s wh_'' @ i @ '' '' @ squote (''bash '' @ script_path) @ '' && '' @
         ''echo '' @ squote ''started'')"

definition ssh_tmux_new :: "worker \<Rightarrow> string \<Rightarrow> string \<Rightarrow> int list option \<Rightarrow> ssh_result act" where
  "ssh_tmux_new w i command gpus =
     remote (RemoteCall (w_id w) (ssh_base_args w @ [build_job_command w i command gpus]) None)"

definition ssh_tmux_kill :: "worker \<Rightarrow> string \<Rightarrow> ssh_result act" where
  "ssh_tmux_kill w i =
     (let s = squote (''wh_'' @ i); tmux = tmux_env w
      in async_ssh_run w
        (tmux @ '' kill-session -t '' @ s @ '' 2>/dev/null || true; '' @
         tmux @ '' has-session -t '' @ s @ '' 2>/dev/null && echo still_running || echo stopped''))"

text \<open>Probes answer True, False or None (the probe failed).\<close>

definition ssh_job_started :: "worker \<Rightarrow> string \<Rightarrow> bool option act" where
  "ssh_job_started w i =
     bnd (async_ssh_run w
       (''if '' @ tmux_env w @ '' has-session -t '' @ squote (''=wh_'' @ i) @ '' 2>/dev/null; then echo exists; '' @
        ''elif test -e '' @ shlex_quote (job_log_path w i) @ ''; then echo exists; else echo absent; fi''))
     (\<lambda>r. ret (if sr_rc r \<noteq> 0 then None
               else if strip (sr_out r) = ''exists'' then Some True
               else if strip (sr_out r) = ''absent'' then Some False
               else None))"

definition ssh_tmux_running :: "worker \<Rightarrow> string \<Rightarrow> bool option act" where
  "ssh_tmux_running w i =
     bnd (async_ssh_run w
       (''grep -q '' @ squote ''^EXIT:'' @ '' '' @ squote (job_log_path w i) @ '' 2>/dev/null && echo '' @
        squote ''done'' @ '' || echo '' @ squote ''running''))
     (\<lambda>r. ret (if sr_rc r \<noteq> 0 then None else Some (strip (sr_out r) = ''running'')))"

definition ssh_tmux_capture :: "worker \<Rightarrow> string \<Rightarrow> string act" where
  "ssh_tmux_capture w i =
     bnd (async_ssh_run w (tmux_env w @ '' capture-pane -t '' @ squote (''wh_'' @ i) @ '' -p 2>/dev/null''))
       (\<lambda>r. ret (sr_out r))"

definition ssh_read_log :: "worker \<Rightarrow> string \<Rightarrow> int option \<Rightarrow> int option \<Rightarrow> string act" where
  "ssh_read_log w i tail head =
     (let p = squote (job_log_path w i);
          cmd = (case head of
              Some h \<Rightarrow> ''head -n '' @ int_to_string h @ '' '' @ p @ '' 2>/dev/null''
            | None \<Rightarrow>
              (case tail of
                 Some t \<Rightarrow>
                   if t > 0 then ''tail -n '' @ int_to_string t @ '' '' @ p @ '' 2>/dev/null''
                   else if t = 0 then ''grep -E '' @ squote ''^EXIT:'' @ '' '' @ p @ '' 2>/dev/null || echo '' @ squote ''still running''
                   else ''tail -n 10 '' @ p @ '' 2>/dev/null''
               | None \<Rightarrow> ''tail -n 10 '' @ p @ '' 2>/dev/null''))
      in bnd (async_ssh_run w cmd) (\<lambda>r. ret (sr_out r)))"

definition ssh_get_exit_code :: "worker \<Rightarrow> string \<Rightarrow> int option act" where
  "ssh_get_exit_code w i =
     bnd (async_ssh_run w
       (''grep -E '' @ squote ''^EXIT:'' @ '' '' @ squote (job_log_path w i) @ '' 2>/dev/null | sed '' @ squote ''s/EXIT://''))
     (\<lambda>r. ret (if sr_rc r = 0 \<and> strip (sr_out r) \<noteq> '''' then py_int (sr_out r) else None))"

section \<open>Files\<close>

definition ssh_upload_bytes :: "worker \<Rightarrow> string \<Rightarrow> string \<Rightarrow> ssh_result act" where
  "ssh_upload_bytes w content path =
     (let cmd = ''mkdir -p '' @ shlex_quote (path_str (path_parent (posix_path path))) @ '' && cat > '' @ shlex_quote path
      in remote (RemoteCall (w_id w) (ssh_base_args w @ [''sh -lc '' @ shlex_quote cmd]) (Some content)))"

text \<open>The content is cut at \<open>max_bytes\<close>; a timeout (-1) or a missing \<open>ssh\<close> (127) yields no content.\<close>

definition ssh_download_bytes :: "worker \<Rightarrow> string \<Rightarrow> int \<Rightarrow> (string \<times> ssh_result) act" where
  "ssh_download_bytes w path max_bytes =
     bnd (remote (RemoteCall (w_id w) (ssh_base_args w @ [''sh -lc '' @ shlex_quote (''cat '' @ shlex_quote path)]) None))
       (\<lambda>r. ret ((if int (length (sr_out r)) > max_bytes then take (nat max_bytes) (sr_out r) else sr_out r),
                 r\<lparr>sr_out := ''''\<rparr>))"

definition port_forward_args :: "worker \<Rightarrow> int \<Rightarrow> int \<Rightarrow> string \<Rightarrow> string list" where
  "port_forward_args w local_port remote_port bind_host =
     ssh_base_args w @ [''-o'', ''ExitOnForwardFailure=yes'', ''-N'', ''-g'', ''-L'',
       bind_host @ '':'' @ int_to_string local_port @ '':localhost:'' @ int_to_string remote_port]"

section \<open>Machines\<close>

text \<open>\<open>Machine\<close> of \<open>machines.py\<close> and \<open>_machine_base_args\<close>.\<close>

record machine =
  mc_name :: string
  mc_target :: string
  mc_home :: string
  mc_session :: string
  mc_key_path :: string

definition cache_root :: "machine \<Rightarrow> string" where
  "cache_root m = rstrip_char (CHR ''/'') (mc_home m) @ ''/.cache/worker-harness''"

definition session_dir :: "machine \<Rightarrow> string \<Rightarrow> string" where
  "session_dir m sid = cache_root m @ ''/'' @ sid"

definition worktree_dir :: "machine \<Rightarrow> string \<Rightarrow> string \<Rightarrow> string" where
  "worktree_dir m repo_name slug = cache_root m @ ''/worktrees/'' @ repo_name @ ''/'' @ slug"

definition machine_base_args :: "machine \<Rightarrow> string list" where
  "machine_base_args m =
     [''ssh'', ''-i'', mc_key_path m, ''-o'', ''BatchMode=yes'', ''-o'', ''StrictHostKeyChecking=yes'',
      ''-o'', ''IdentitiesOnly=yes'', ''-o'', ''ConnectTimeout=10'', ''-o'', ''RequestTTY=no'', mc_target m]"

definition async_machine_run :: "machine \<Rightarrow> string \<Rightarrow> string option \<Rightarrow> ssh_result act" where
  "async_machine_run m command input =
     remote (RemoteCall (''machine:'' @ mc_name m) (machine_base_args m @ [command]) input)"

section \<open>Facts\<close>

lemmas ssh_ops = async_ssh_run_def async_ssh_run_pty_def ssh_tmux_new_def ssh_tmux_kill_def ssh_job_started_def
  ssh_tmux_running_def ssh_tmux_capture_def ssh_read_log_def ssh_get_exit_code_def ssh_upload_bytes_def
  ssh_download_bytes_def async_machine_run_def

lemma ssh_keeps [keeps_intros]:
  "keeps (\<lambda>w. Q (wd_db w)) (async_ssh_run v c)" "keeps (\<lambda>w. Q (wd_db w)) (ssh_tmux_new v i c g)"
  "keeps (\<lambda>w. Q (wd_db w)) (ssh_tmux_kill v i)" "keeps (\<lambda>w. Q (wd_db w)) (ssh_job_started v i)"
  "keeps (\<lambda>w. Q (wd_db w)) (ssh_tmux_running v i)" "keeps (\<lambda>w. Q (wd_db w)) (ssh_read_log v i t h)"
  "keeps (\<lambda>w. Q (wd_db w)) (ssh_get_exit_code v i)" "keeps (\<lambda>w. Q (wd_db w)) (ssh_upload_bytes v b p)"
  "keeps (\<lambda>w. Q (wd_db w)) (ssh_download_bytes v p k)" "keeps (\<lambda>w. Q (wd_db w)) (async_machine_run m s inp)"
  unfolding ssh_ops Let_def by (intro keeps_intros)+

lemma ssh_returns [returns_intros]:
  "returns (async_ssh_run v c)" "returns (ssh_tmux_new v i c g)" "returns (ssh_tmux_kill v i)"
  "returns (ssh_job_started v i)" "returns (ssh_tmux_running v i)" "returns (ssh_read_log v i t h)"
  "returns (ssh_get_exit_code v i)" "returns (ssh_upload_bytes v b p)" "returns (ssh_download_bytes v p k)"
  "returns (async_machine_run m s inp)"
  unfolding ssh_ops Let_def by (intro returns_intros)+

lemma ssh_db_unchanged:
  "db_unchanged (ssh_tmux_new v i c g)" "db_unchanged (ssh_tmux_kill v i)" "db_unchanged (ssh_job_started v i)"
  "db_unchanged (ssh_tmux_running v i)" "db_unchanged (ssh_read_log v i t h)" "db_unchanged (ssh_get_exit_code v i)"
  by (rule db_unchanged_keeps, rule ssh_keeps, rule ssh_returns)+

end
