(* ===== verification/Data.thy ===== *)
theory Data
  imports Codec Models
begin

text \<open>
  \<open>data.py\<close>: which paths may be copied between workers, the map from shared paths to workers, and
  the command lines of a copy.  \<open>DataPathError\<close> is a \<open>ValueError\<close>.
\<close>

section \<open>Paths\<close>

definition validate_data_path :: "string \<Rightarrow> string res" where
  "validate_data_path path =
     (if path = '''' \<or> \<not> startswith ''/'' path then Inl (ValueErr ''path must be absolute'')
      else (let parsed = posix_path path; normalized = path_str parsed
            in if normalized \<in> {''/'', ''.''} \<or> ''..'' \<in> set (path_parts parsed)
               then Inl (ValueErr ''path must not be the filesystem root or contain ..'')
               else Inr normalized))"

fun advertised_by :: "string \<Rightarrow> string list \<Rightarrow> bool" where
  "advertised_by candidate [] = False"
| "advertised_by candidate (shared # roots) = (case validate_data_path shared of
     Inl _ \<Rightarrow> advertised_by candidate roots
   | Inr normalized_root \<Rightarrow>
     if candidate = normalized_root \<or> startswith (normalized_root @ ''/'') candidate then True
     else advertised_by candidate roots)"

definition is_advertised_data_path :: "string \<Rightarrow> string list \<Rightarrow> bool res" where
  "is_advertised_data_path path advertised_paths = (case validate_data_path path of
     Inl err \<Rightarrow> Inl err | Inr candidate \<Rightarrow> Inr (advertised_by candidate advertised_paths))"

section \<open>The map from paths to workers\<close>

text \<open>\<open>paths[k].append(v)\<close> on a \<open>defaultdict(list)\<close>.\<close>

fun dict_append :: "string \<Rightarrow> 'v \<Rightarrow> (string \<times> 'v list) list \<Rightarrow> (string \<times> 'v list) list" where
  "dict_append k v [] = [(k, [v])]"
| "dict_append k v ((k', vs) # d) = (if k' = k then (k', vs @ [v]) # d else (k', vs) # dict_append k v d)"

fun add_worker_paths :: "worker \<Rightarrow> string list \<Rightarrow> (string \<times> (string \<times> string) list) list \<Rightarrow> (string \<times> (string \<times> string) list) list" where
  "add_worker_paths w [] d = d"
| "add_worker_paths w (path # paths) d = (case validate_data_path path of
     Inl _ \<Rightarrow> add_worker_paths w paths d
   | Inr normalized \<Rightarrow> add_worker_paths w paths (dict_append normalized (w_id w, w_name w) d))"

definition reverse_data_paths :: "worker list \<Rightarrow> bool \<Rightarrow> (string \<times> (string \<times> string) list) list" where
  "reverse_data_paths workers include_offline =
     sort_key fst (fold (\<lambda>w d. if \<not> include_offline \<and> w_status w \<noteq> ONLINE then d
                               else add_worker_paths w (sort (remdups (w_data_paths w))) d) workers [])"

section \<open>Command lines\<close>

definition with_worker_dir :: "worker \<Rightarrow> string \<Rightarrow> string" where
  "with_worker_dir w command =
     ''WH_DIR='' @ shlex_quote (path_str (path_parent (posix_path (w_harness_dir w)))) @ '' '' @ command"

definition source_export_command :: "string \<Rightarrow> string \<Rightarrow> int \<Rightarrow> string res" where
  "source_export_command path transfer_id ttl = (case validate_data_path path of
     Inl err \<Rightarrow> Inl err
   | Inr p \<Rightarrow> Inr (join '' '' [''/usr/local/lib/worker-harness/wh-data-export'', ''--path'', shlex_quote p,
       ''--transfer-id'', shlex_quote transfer_id, ''--ttl-seconds'', int_to_string ttl]))"

definition source_cleanup_command :: "string \<Rightarrow> string" where
  "source_cleanup_command transfer_id =
     join '' '' [''/usr/local/lib/worker-harness/wh-data-export'', ''--cleanup'', ''--transfer-id'', shlex_quote transfer_id]"

definition destination_copy_command :: "string \<Rightarrow> int \<Rightarrow> string \<Rightarrow> string \<Rightarrow> string \<Rightarrow> string res" where
  "destination_copy_command source_host source_port destination username password_file =
     (if \<not> (22000 \<le> source_port \<and> source_port \<le> 22999) then Inl (ValueErr ''source port is outside the reserved data range'')
      else (case validate_data_path destination of
        Inl err \<Rightarrow> Inl err
      | Inr d \<Rightarrow> Inr (join '' '' [''/usr/local/lib/worker-harness/wh-data-import'', ''--host'', shlex_quote source_host,
          ''--port'', int_to_string source_port, ''--destination'', shlex_quote d,
          ''--username'', shlex_quote username, ''--password-file'', shlex_quote password_file])))"

section \<open>Normalised paths\<close>

definition path_names :: "string \<Rightarrow> string list" where
  "path_names s = pp_names (posix_path s)"

lemma split_on_pieces: "p \<in> set (split_on c s) \<Longrightarrow> c \<notin> set p"
  by (induction s arbitrary: p) (auto split: list.splits if_splits)

lemma path_names_ok: "p \<in> set (path_names s) \<Longrightarrow> p \<noteq> '''' \<and> CHR ''/'' \<notin> set p \<and> p \<noteq> ''.''"
  using split_on_pieces [of p "CHR ''/''" s] by (auto simp: path_names_def posix_path_def)

lemma join_prefix:
  assumes "xs \<noteq> []" "\<forall>p \<in> set xs. c \<notin> set p" "\<forall>p \<in> set ys. c \<notin> set p" "ys \<noteq> []"
  shows "join [c] ys = join [c] xs \<or> startswith (join [c] xs @ [c]) (join [c] ys) \<longleftrightarrow> take (length xs) ys = xs"
proof
  assume l: "join [c] ys = join [c] xs \<or> startswith (join [c] xs @ [c]) (join [c] ys)"
  have sx: "split_on c (join [c] xs) = xs" and sy: "split_on c (join [c] ys) = ys"
    using assms by (simp_all add: split_on_join)
  have app: "split_on c (s @ c # t) = split_on c s @ split_on c t" for s t
  proof (induction s)
    case (Cons x s)
    obtain p ps where "split_on c s = p # ps" by (cases "split_on c s") auto
    with Cons show ?case by auto
  qed simp
  from l show "take (length xs) ys = xs"
  proof
    assume "join [c] ys = join [c] xs"
    then have "split_on c (join [c] ys) = split_on c (join [c] xs)" by simp
    then have "ys = xs" unfolding sx sy .
    then show ?thesis by simp
  next
    assume "startswith (join [c] xs @ [c]) (join [c] ys)"
    then obtain t where "join [c] ys = join [c] xs @ c # t" by (auto simp: startswith_iff)
    then have "split_on c (join [c] ys) = split_on c (join [c] xs) @ split_on c t" by (simp add: app)
    then have "ys = xs @ split_on c t" unfolding sx sy .
    then show ?thesis by simp
  qed
next
  assume t: "take (length xs) ys = xs"
  show "join [c] ys = join [c] xs \<or> startswith (join [c] xs @ [c]) (join [c] ys)"
  proof (cases "drop (length xs) ys")
    case Nil
    with t have "ys = xs" by (metis append_Nil2 append_take_drop_id)
    then show ?thesis by simp
  next
    case (Cons z zs)
    have ja: "join [c] (as @ b # bs) = join [c] as @ [c] @ join [c] (b # bs)" if "as \<noteq> []" for as b bs
      using that
    proof (induction as)
      case (Cons a as)
      then show ?case by (cases as) auto
    qed simp
    from Cons t have "ys = xs @ z # zs" by (metis append_take_drop_id)
    then show ?thesis using ja [OF assms(1), of z zs] by (simp add: startswith_iff)
  qed
qed

lemma abs_root: "startswith ''/'' s \<Longrightarrow> pp_root (posix_path s) = ''/'' \<or> pp_root (posix_path s) = ''//''"
  by (auto simp: posix_path_def)

lemma path_str_abs: "startswith ''/'' s \<Longrightarrow> path_str (posix_path s) = pp_root (posix_path s) @ join ''/'' (path_names s)"
  using abs_root [of s] by (auto simp: path_str_def path_names_def)

lemma join_first: "xs \<noteq> [] \<Longrightarrow> \<forall>p \<in> set xs. p \<noteq> '''' \<and> c \<notin> set p \<Longrightarrow> \<exists>a r. join s xs = a # r \<and> a \<noteq> c"
proof (cases xs)
  case (Cons y ys)
  assume "\<forall>p \<in> set xs. p \<noteq> '''' \<and> c \<notin> set p"
  then show ?thesis using Cons by (cases y; cases ys) auto
qed simp

text \<open>On absolute paths the test with strings is containment of paths.\<close>

lemma startswith_Cons [simp]: "startswith (a # xs) (b # ys) \<longleftrightarrow> a = b \<and> startswith xs ys" "startswith [] ys"
    "\<not> startswith (a # xs) []"
  by (auto simp: startswith_iff)

lemma prefix_is_containment:
  assumes "startswith ''/'' p" "startswith ''/'' r" "path_str (posix_path r) \<noteq> ''/''"
  shows "path_str (posix_path p) = path_str (posix_path r) \<or> startswith (path_str (posix_path r) @ ''/'') (path_str (posix_path p)) \<longleftrightarrow>
    path_is_relative_to (posix_path p) (posix_path r) \<and> (path_names r = [] \<longrightarrow> path_names p = [])"
proof -
  define jp where "jp = join ''/'' (path_names p)"
  define jr where "jr = join ''/'' (path_names r)"
  have P: "path_names p = [] \<and> jp = [] \<or> path_names p \<noteq> [] \<and> (\<exists>a s. jp = a # s \<and> a \<noteq> CHR ''/'')"
    and R: "path_names r = [] \<and> jr = [] \<or> path_names r \<noteq> [] \<and> (\<exists>a s. jr = a # s \<and> a \<noteq> CHR ''/'')"
    using join_first [of "path_names p" "CHR ''/''" "''/''"] join_first [of "path_names r" "CHR ''/''" "''/''"] path_names_ok
    unfolding jp_def jr_def by force+
  have slash: "p \<in> set (path_names s) \<Longrightarrow> CHR ''/'' \<notin> set p" for p s using path_names_ok by blast
  have pre: "path_names p \<noteq> [] \<Longrightarrow> path_names r \<noteq> [] \<Longrightarrow>
      (jp = jr \<or> startswith (jr @ ''/'') jp) = (take (length (path_names r)) (path_names p) = path_names r)"
    using join_prefix [of "path_names r" "CHR ''/''" "path_names p"] slash unfolding jp_def jr_def by blast
  have same: "(jp = jr \<or> startswith (jr @ ''/'') jp) =
      (take (length (path_names r)) (path_names p) = path_names r \<and> (path_names r = [] \<longrightarrow> path_names p = []))"
    using P R pre by (elim disjE exE conjE) auto
  have sp: "path_str (posix_path p) = pp_root (posix_path p) @ jp" and sr: "path_str (posix_path r) = pp_root (posix_path r) @ jr"
    using path_str_abs [OF assms(1)] path_str_abs [OF assms(2)] by (simp_all add: jp_def jr_def)
  have rel: "path_is_relative_to (posix_path p) (posix_path r) = (pp_root (posix_path p) = pp_root (posix_path r) \<and>
      take (length (path_names r)) (path_names p) = path_names r)"
    by (simp add: path_is_relative_to_def path_names_def)
  from abs_root [OF assms(1)] abs_root [OF assms(2)] show ?thesis
  proof (elim disjE)
    assume a: "pp_root (posix_path p) = ''/''" "pp_root (posix_path r) = ''//''"
    show ?thesis unfolding sp sr rel a using P by (elim disjE exE conjE) auto
  next
    assume a: "pp_root (posix_path p) = ''//''" "pp_root (posix_path r) = ''/''"
    have "jr \<noteq> []" using assms(3) by (simp add: sr a)
    then show ?thesis unfolding sp sr rel a using R by (elim disjE exE conjE) auto
  next
    assume a: "pp_root (posix_path p) = ''/''" "pp_root (posix_path r) = ''/''"
    show ?thesis unfolding sp sr rel a using same by simp
  next
    assume a: "pp_root (posix_path p) = ''//''" "pp_root (posix_path r) = ''//''"
    show ?thesis unfolding sp sr rel a using same by simp
  qed
qed

lemma validate_Inr: "validate_data_path p = Inr n \<longleftrightarrow>
    startswith ''/'' p \<and> n = path_str (posix_path p) \<and> n \<noteq> ''/'' \<and> ''..'' \<notin> set (path_names p)"
proof (cases "startswith ''/'' p")
  case True
  then have "p \<noteq> ''''" by (auto simp: startswith_def)
  moreover have "path_str (posix_path p) \<noteq> ''.''"
    unfolding path_str_abs [OF True] using abs_root [OF True] by auto
  ultimately show ?thesis
    using True abs_root [OF True] by (auto simp: validate_data_path_def Let_def path_parts_def path_names_def)
qed (simp add: validate_data_path_def)

lemma advertised_by_iff: "advertised_by c roots \<longleftrightarrow>
    (\<exists>r \<in> set roots. \<exists>n. validate_data_path r = Inr n \<and> (c = n \<or> startswith (n @ ''/'') c))"
  by (induction roots) (auto split: sum.split)

section \<open>Quoting\<close>

lemma quote_safe: "w \<noteq> [] \<Longrightarrow> list_all shell_safe w \<Longrightarrow> shlex_quote w = w"
  by (simp add: shlex_quote_def)

lemma nat_to_string_safe: "nat_to_string n \<noteq> [] \<and> list_all shell_safe (nat_to_string n)"
proof (induction n rule: nat_to_string.induct)
  case (1 n)
  have d: "shell_safe (char_of (48 + m :: nat))" if "m < 10" for m
    using digit_char(1) [OF that] by (simp add: shell_safe_def is_alnum_def)
  show ?case
  proof (cases "n < 10")
    case True
    then show ?thesis using d by (subst (1 2) nat_to_string.simps) simp
  next
    case False
    then show ?thesis using 1 d [of "n mod 10"] by (subst (1 2) nat_to_string.simps) simp
  qed
qed

lemma quote_int: "shlex_quote (int_to_string i) = int_to_string i"
proof (rule quote_safe)
  have "shell_safe (CHR ''-'')" by code_simp
  then show "list_all shell_safe (int_to_string i)" using nat_to_string_safe by (simp add: int_to_string_def)
qed (use nat_to_string_safe in \<open>simp add: int_to_string_def\<close>)

text \<open>The second root of POSIX passes the test that the comment calls non-root: pathlib keeps two leading slashes.\<close>

lemma double_slash_is_accepted: "validate_data_path ''//'' = Inr ''//''"
  by code_simp

section \<open>Properties\<close>

text \<open>
  Containment: a path is accepted for a copy exactly when some advertised path is valid and
  the path lies below it component by component (or is that path), and then the path is absolute
  and has no double dot.  Testing prefixes of strings never lets a sibling through.
\<close>

theorem advertised_iff_contained:
  assumes "is_advertised_data_path p roots = Inr b"
  shows "startswith ''/'' p \<and> ''..'' \<notin> set (path_names p) \<and>
    (b \<longleftrightarrow> (\<exists>r \<in> set roots. ok (validate_data_path r) \<and> path_is_relative_to (posix_path p) (posix_path r) \<and>
       (path_names r = [] \<longrightarrow> path_names p = [])))"
proof -
  obtain n where n: "validate_data_path p = Inr n" and b: "b = advertised_by n roots"
    using assms by (auto simp: is_advertised_data_path_def split: sum.splits)
  have p: "startswith ''/'' p" "n = path_str (posix_path p)" "''..'' \<notin> set (path_names p)"
    using n by (simp_all add: validate_Inr)
  have "(n = m \<or> startswith (m @ ''/'') n) = (path_is_relative_to (posix_path p) (posix_path r) \<and> (path_names r = [] \<longrightarrow> path_names p = []))"
    if "validate_data_path r = Inr m" for r m
    using that prefix_is_containment [OF p(1), of r] p(2) by (auto simp: validate_Inr)
  then show ?thesis
    using p by (auto simp: b advertised_by_iff ok_iff)
qed

theorem advertised_iff_contained_witness:
  "is_advertised_data_path ''/data//set/x'' [''/data/set'', ''relative''] = Inr True \<and>
   is_advertised_data_path ''/data/setup'' [''/data/set''] = Inr False \<and> \<not> path_is_relative_to (posix_path ''/data/setup'') (posix_path ''/data/set'')"
proof -
  have "is_advertised_data_path ''/data//set/x'' [''/data/set'', ''relative''] = Inr True" by code_simp
  moreover have f: "is_advertised_data_path ''/data/setup'' [''/data/set''] = Inr False" by code_simp
  moreover have "ok (validate_data_path ''/data/set'')" "path_names ''/data/set'' \<noteq> []" by code_simp+
  ultimately show ?thesis using advertised_iff_contained [OF f] by simp
qed

text \<open>
  No injection: whatever the host, path, user and file names are, the line built for the
  destination worker splits into exactly the intended words, so no argument can add a word or end
  the command.
\<close>

theorem copy_command_words:
  assumes "destination_copy_command source_host source_port destination username password_file = Inr line"
  shows "\<exists>d. validate_data_path destination = Inr d \<and> 22000 \<le> source_port \<and> source_port \<le> 22999 \<and>
    shell_words line = Some [''/usr/local/lib/worker-harness/wh-data-import'', ''--host'', source_host,
      ''--port'', int_to_string source_port, ''--destination'', d, ''--username'', username, ''--password-file'', password_file]"
proof -
  obtain d where d: "validate_data_path destination = Inr d" "22000 \<le> source_port" "source_port \<le> 22999"
    and line: "line = join '' '' [''/usr/local/lib/worker-harness/wh-data-import'', ''--host'', shlex_quote source_host,
          ''--port'', int_to_string source_port, ''--destination'', shlex_quote d,
          ''--username'', shlex_quote username, ''--password-file'', shlex_quote password_file]"
    using assms by (auto simp: destination_copy_command_def split: if_splits sum.splits)
  have fixed: "shlex_quote ''/usr/local/lib/worker-harness/wh-data-import'' = ''/usr/local/lib/worker-harness/wh-data-import''"
    "shlex_quote ''--host'' = ''--host''" "shlex_quote ''--port'' = ''--port''" "shlex_quote ''--destination'' = ''--destination''"
    "shlex_quote ''--username'' = ''--username''" "shlex_quote ''--password-file'' = ''--password-file''"
    by code_simp+
  have "line = shlex_join [''/usr/local/lib/worker-harness/wh-data-import'', ''--host'', source_host,
      ''--port'', int_to_string source_port, ''--destination'', d, ''--username'', username, ''--password-file'', password_file]"
    by (simp only: line shlex_join_def list.map fixed quote_int)
  then show ?thesis using d shell_words_join by blast
qed

theorem copy_command_words_witness:
  "shell_words (case destination_copy_command ''h; rm -rf /'' 22001 ''/data/my set'' ''u'' ''f'' of Inr l \<Rightarrow> l | Inl _ \<Rightarrow> '''') =
     Some [''/usr/local/lib/worker-harness/wh-data-import'', ''--host'', ''h; rm -rf /'', ''--port'', ''22001'',
       ''--destination'', ''/data/my set'', ''--username'', ''u'', ''--password-file'', ''f'']"
proof -
  have v: "validate_data_path ''/data/my set'' = Inr ''/data/my set''" by code_simp
  have p: "int_to_string 22001 = ''22001''" by (simp add: int_to_string_def nat_to_string.simps char_of_def bit_Suc_0_iff)
  obtain l where l: "destination_copy_command ''h; rm -rf /'' 22001 ''/data/my set'' ''u'' ''f'' = Inr l"
    using v by (simp add: destination_copy_command_def)
  have "shell_words l = Some [''/usr/local/lib/worker-harness/wh-data-import'', ''--host'', ''h; rm -rf /'', ''--port'', ''22001'',
       ''--destination'', ''/data/my set'', ''--username'', ''u'', ''--password-file'', ''f'']"
  proof -
    from copy_command_words [OF l] obtain d where d: "Inr ''/data/my set'' = (Inr d :: string res)"
      and w: "shell_words l = Some [''/usr/local/lib/worker-harness/wh-data-import'', ''--host'', ''h; rm -rf /'', ''--port'', ''22001'',
       ''--destination'', d, ''--username'', ''u'', ''--password-file'', ''f'']"
      unfolding v p by (elim exE conjE)
    from d have "d = ''/data/my set''" by (rule sum.inject(2) [THEN iffD1, symmetric])
    with w show ?thesis by (simp only:)
  qed
  then show ?thesis unfolding l sum.case .
qed

end
