(* ===== verification/Fleet.thy ===== *)
theory Fleet
  imports Ssh Data
begin

text \<open>
  The static configuration of the fleet: \<open>machines.py\<close>, \<open>projects.py\<close> and \<open>sandbox.py\<close>.  A TOML
  document is given decoded; \<open>repr\<close> stands for \<open>str()\<close> of a list or table and \<open>home\<close> for the user's
  home directory.  Roles are strings, as in the code.
\<close>

definition expand_user :: "string \<Rightarrow> string \<Rightarrow> string" where
  "expand_user home s = (if s = ''~'' \<or> startswith ''~/'' s then home @ drop 1 s else s)"

section \<open>Machines\<close>

definition load_machine :: "(json \<Rightarrow> string) \<Rightarrow> string \<Rightarrow> string \<Rightarrow> string \<times> json \<Rightarrow> (string \<times> machine) option" where
  "load_machine repr user_home default_key named = (case named of (name, v) \<Rightarrow> (case v of
     JObj kvs \<Rightarrow>
       (let target = strip (py_str repr (json_get kvs ''ssh_target'' (JStr '''')));
            home = strip (py_str repr (json_get kvs ''home'' (JStr '''')));
            session = strip (py_str repr (json_get kvs ''herdr_session'' (JStr ''wh'')))
        in if target = '''' \<or> startswith ''-'' target \<or> \<not> startswith ''/'' home \<or> home = ''/'' then None
           else Some (name, \<lparr>mc_name = name, mc_target = target, mc_home = rstrip_char (CHR ''/'') home,
             mc_session = (if session \<noteq> '''' then session else ''wh''),
             mc_key_path = path_str (posix_path (expand_user user_home
                (py_str repr (json_get kvs ''key_path'' (JStr default_key)))))\<rparr>))
   | _ \<Rightarrow> None))"

text \<open>None is a file that is missing, unreadable or not TOML.\<close>

definition load_machines :: "(json \<Rightarrow> string) \<Rightarrow> string \<Rightarrow> string \<Rightarrow> (string \<times> json) list option \<Rightarrow> (string \<times> machine) list" where
  "load_machines repr user_home default_key document = (case document of
     None \<Rightarrow> []
   | Some doc \<Rightarrow> (case json_get doc ''machine'' (JObj []) of
       JObj entries \<Rightarrow> List.map_filter (load_machine repr user_home default_key) entries
     | _ \<Rightarrow> []))"

section \<open>Projects\<close>

record project =
  pj_name :: string
  pj_machine :: string
  pj_repo :: string
  pj_remote :: string
  pj_base :: string

text \<open>\<open>repo.rstrip("/").rsplit("/", 1)[-1]\<close>\<close>

definition repo_name_of :: "string \<Rightarrow> string" where
  "repo_name_of repo = after_last (CHR ''/'') (rstrip_char (CHR ''/'') repo)"

definition repo_name :: "project \<Rightarrow> string" where
  "repo_name p = repo_name_of (pj_repo p)"

definition load_project :: "(json \<Rightarrow> string) \<Rightarrow> string \<times> json \<Rightarrow> (string \<times> project) option" where
  "load_project repr named = (case named of (name, v) \<Rightarrow> (case v of
     JObj kvs \<Rightarrow>
       (let machine = strip (py_str repr (json_get kvs ''machine'' (JStr '''')));
            repo = rstrip_char (CHR ''/'') (strip (py_str repr (json_get kvs ''repo'' (JStr ''''))));
            remote = strip (py_str repr (json_get kvs ''remote'' (JStr '''')));
            base = strip (py_str repr (json_get kvs ''base_branch'' (JStr ''main'')))
        in if machine = '''' \<or> \<not> startswith ''/'' repo \<or> CHR ''/'' \<notin> set remote then None
           else Some (name, \<lparr>pj_name = name, pj_machine = machine, pj_repo = repo, pj_remote = remote,
             pj_base = (if base \<noteq> '''' then base else ''main'')\<rparr>))
   | _ \<Rightarrow> None))"

definition load_projects :: "(json \<Rightarrow> string) \<Rightarrow> (string \<times> json) list option \<Rightarrow> (string \<times> project) list" where
  "load_projects repr document = (case document of
     None \<Rightarrow> []
   | Some doc \<Rightarrow> (case json_get doc ''project'' (JObj []) of
       JObj entries \<Rightarrow> List.map_filter (load_project repr) entries
     | _ \<Rightarrow> []))"

section \<open>Launch lines\<close>

definition ROLES :: "string list" where
  "ROLES = [''orchestrator'', ''pm'', ''task'']"

definition ROLE_PATHS :: "string list" where
  "ROLE_PATHS = [''~/Work'', ''~/mnt'', ''~/.omp'', ''~/.config/local-vault-production'', ''~/.config/pi/local-vault.token'']"

definition paths_file_content :: "string \<Rightarrow> string \<Rightarrow> string res" where
  "paths_file_content role home0 =
     (if role \<notin> set ROLES then Inl (ValueErr (''unknown role: '' @ role))
      else (let home = rstrip_char (CHR ''/'') home0
            in Inr (join nl ((''# worker-harness '' @ role @ '' sandbox paths'') #
                 map (\<lambda>p. if startswith ''~/'' p then home @ drop 1 p else p) ROLE_PATHS) @ nl)))"

definition launch_env :: "machine \<Rightarrow> string \<Rightarrow> string \<Rightarrow> string \<Rightarrow> string \<Rightarrow> string \<Rightarrow> (string \<times> string) list" where
  "launch_env m role paths_file session_id token base_url =
     [(''AGENT_SANDBOX_NO_GIT_CREDENTIALS'', ''1''),
      (''AGENT_SANDBOX_PATHS'', paths_file),
      (''AGENT_SANDBOX_SESSION_DIR'', session_dir m session_id),
      (''WH_ORCHESTRATOR_URL'', rstrip_char (CHR ''/'') base_url),
      (''WH_SESSION_ID'', session_id),
      (''WH_SESSION_TOKEN'', token),
      (''WH_SESSION_ROLE'', role),
      (''LOCAL_VAULT_READONLY'', if role = ''task'' then ''1'' else ''0'')]"

definition launch_argv :: "machine \<Rightarrow> string \<Rightarrow> string \<Rightarrow> string list \<Rightarrow> string list" where
  "launch_argv m role prompt_file add_dirs =
     [rstrip_char (CHR ''/'') (mc_home m) @ ''/.local/bin/omp'',
      if role = ''orchestrator'' then ''--system-prompt'' else ''--append-system-prompt'', prompt_file] @
     (if role = ''orchestrator'' then [''--tools'', ''read,grep,glob,todo,hub,web_search''] else []) @
     concat (map (\<lambda>d. [''--add-dir'', d]) add_dirs)"

definition launch_command :: "machine \<Rightarrow> string \<Rightarrow> string \<Rightarrow> string \<Rightarrow> string \<Rightarrow> string \<Rightarrow> string \<Rightarrow> string list \<Rightarrow> string res" where
  "launch_command m role paths_file session_id token base_url prompt_file add_dirs =
     (if role \<notin> set ROLES then Inl (ValueErr (''unknown role: '' @ role))
      else Inr (''exec env -u WH_PI_SESSION_ID -u WH_OPERATOR_TOKEN -u WH_OPERATOR_TOKEN_FILE '' @
        join '' '' (map (\<lambda>(k, v). k @ ''='' @ shlex_quote v) (launch_env m role paths_file session_id token base_url)) @
        '' '' @ shlex_join (launch_argv m role prompt_file add_dirs)))"

section \<open>How a shell reads the launch line\<close>

text \<open>A token that reads as one word wherever it stands.\<close>

definition reads_as :: "string \<Rightarrow> string \<Rightarrow> bool" where
  "reads_as token word = (\<forall>rest. sh_split Between [] (token @ rest) = sh_split Plain (rev word) rest)"

lemma reads_as_quote: "reads_as (shlex_quote w) w"
  by (simp add: reads_as_def sh_split_quote)

lemma sh_split_plain_quote:
  "sh_split Plain acc (shlex_quote s @ t) = sh_split Plain (rev s @ acc) t"
proof (cases "s = [] \<or> \<not> list_all shell_safe s")
  case True
  then show ?thesis using sh_split_quoted [of acc s t] sh_split_quoted [of acc "[]" t]
    by (auto simp: shlex_quote_def quote_body_def replace_char_def)
next
  case False
  then show ?thesis by (auto simp: shlex_quote_def sh_split_safe)
qed

lemma reads_as_prefix:
  assumes "p \<noteq> []" "list_all shell_safe p"
  shows "reads_as (p @ shlex_quote v) (p @ v)"
proof -
  obtain c cs where p: "p = c # cs" "shell_safe c" "list_all shell_safe cs" using assms by (cases p) auto
  then show ?thesis
    using shell_safe_ne [OF p(2)] by (auto simp: reads_as_def sh_split_safe sh_split_plain_quote)
qed

lemma reads_as_safe: "w \<noteq> [] \<Longrightarrow> list_all shell_safe w \<Longrightarrow> reads_as w w"
  using reads_as_quote [of w] by (simp add: quote_safe)

lemma words_join:
  "list_all2 reads_as ts ws \<Longrightarrow> shell_words (join '' '' ts) = Some ws"
  unfolding shell_words_def
proof (induction rule: list_all2_induct)
  case (Cons t ts w ws)
  show ?case
  proof (cases ts)
    case Nil
    then show ?thesis using Cons(1,2) by (simp add: reads_as_def [of t w])
      (metis append_Nil2 rev_rev_ident sh_split.simps(2) reads_as_def)
  next
    case (Cons t2 ts2)
    then show ?thesis using Cons.hyps Cons.IH by (simp add: reads_as_def)
  qed
qed simp

lemma join_append: "ts \<noteq> [] \<Longrightarrow> us \<noteq> [] \<Longrightarrow> join s (ts @ us) = join s ts @ s @ join s us"
proof (induction ts)
  case (Cons t ts)
  then show ?case by (cases ts; cases us) auto
qed simp

section \<open>Properties\<close>

text \<open>
  The launch line is what it says: whatever the session id, token, URL, prompt file and
  directories contain, the pane's shell reads exactly \<open>exec env\<close>, the three unset variables, one
  assignment per variable with its value unchanged and the argument vector of the agent; in
  particular only a task gets the read-only vault and only the orchestrator a replaced prompt and
  the restricted tools.
\<close>

theorem launch_line_words:
  assumes "launch_command m role paths_file session_id token base_url prompt_file add_dirs = Inr line"
  shows "shell_words line = Some ([''exec'', ''env'', ''-u'', ''WH_PI_SESSION_ID'', ''-u'', ''WH_OPERATOR_TOKEN'',
      ''-u'', ''WH_OPERATOR_TOKEN_FILE''] @
    map (\<lambda>(k, v). k @ ''='' @ v) (launch_env m role paths_file session_id token base_url) @
    launch_argv m role prompt_file add_dirs)"
proof -
  let ?fixed = "[''exec'', ''env'', ''-u'', ''WH_PI_SESSION_ID'', ''-u'', ''WH_OPERATOR_TOKEN'', ''-u'', ''WH_OPERATOR_TOKEN_FILE'']"
  let ?env = "launch_env m role paths_file session_id token base_url"
  let ?argv = "launch_argv m role prompt_file add_dirs"
  have fixed: "list_all2 reads_as ?fixed ?fixed"
  proof -
    have "\<forall>w \<in> set ?fixed. w \<noteq> [] \<and> list_all shell_safe w" by code_simp
    then have "\<forall>w \<in> set ?fixed. reads_as w w" using reads_as_safe by blast
    then show ?thesis by (simp add: list.rel_refl_strong)
  qed
  have keys: "\<forall>k \<in> set (map fst ?env). list_all shell_safe (k @ ''='')"
    unfolding launch_env_def list.map fst_conv by code_simp
  have "list_all2 reads_as (map (\<lambda>(k, v). k @ ''='' @ shlex_quote v) ?env) (map (\<lambda>(k, v). k @ ''='' @ v) ?env)"
    unfolding list.rel_map
  proof (rule list.rel_refl_strong)
    fix kv assume "kv \<in> set ?env"
    then have "list_all shell_safe (fst kv @ ''='')" using keys by simp
    from reads_as_prefix [OF _ this, of "snd kv"]
    show "reads_as (case kv of (k, v) \<Rightarrow> k @ ''='' @ shlex_quote v) (case kv of (k, v) \<Rightarrow> k @ ''='' @ v)"
      by (cases kv) simp
  qed
  moreover have "list_all2 reads_as (map shlex_quote ?argv) ?argv"
    unfolding list.rel_map by (rule list.rel_refl_strong) (rule reads_as_quote)
  ultimately have all: "list_all2 reads_as (?fixed @ map (\<lambda>(k, v). k @ ''='' @ shlex_quote v) ?env @ map shlex_quote ?argv)
      (?fixed @ map (\<lambda>(k, v). k @ ''='' @ v) ?env @ ?argv)"
    using fixed by (intro list_all2_appendI)
  have "line = join '' '' (?fixed @ map (\<lambda>(k, v). k @ ''='' @ shlex_quote v) ?env @ map shlex_quote ?argv)"
  proof -
    have "?env \<noteq> []" "?argv \<noteq> []" by (simp_all add: launch_env_def launch_argv_def)
    then have "join '' '' (?fixed @ map (\<lambda>(k, v). k @ ''='' @ shlex_quote v) ?env @ map shlex_quote ?argv) =
        join '' '' ?fixed @ '' '' @ join '' '' (map (\<lambda>(k, v). k @ ''='' @ shlex_quote v) ?env) @ '' '' @ join '' '' (map shlex_quote ?argv)"
      by (simp only: join_append append_is_Nil_conv map_is_Nil_conv list.distinct simp_thms)
    moreover have "join '' '' ?fixed = ''exec env -u WH_PI_SESSION_ID -u WH_OPERATOR_TOKEN -u WH_OPERATOR_TOKEN_FILE''" by code_simp
    moreover have "line = ''exec env -u WH_PI_SESSION_ID -u WH_OPERATOR_TOKEN -u WH_OPERATOR_TOKEN_FILE '' @
        join '' '' (map (\<lambda>(k, v). k @ ''='' @ shlex_quote v) ?env) @ '' '' @ join '' '' (map shlex_quote ?argv)"
      using assms by (simp add: launch_command_def shlex_join_def split: if_splits)
    ultimately show ?thesis by simp
  qed
  with words_join [OF all] show ?thesis by simp
qed

theorem launch_line_words_witness:
  "\<exists>line. launch_command \<lparr>mc_name = ''d'', mc_target = ''u@d'', mc_home = ''/home/u'', mc_session = ''wh'', mc_key_path = ''k''\<rparr>
       ''task'' ''p'' ''s'' ''a b; c'' ''http://x/'' ''q'' [''/r''] = Inr line \<and>
     (\<exists>ws. shell_words line = Some ws \<and> ''WH_SESSION_TOKEN=a b; c'' \<in> set ws \<and> ''LOCAL_VAULT_READONLY=1'' \<in> set ws)"
proof -
  let ?m = "\<lparr>mc_name = ''d'', mc_target = ''u@d'', mc_home = ''/home/u'', mc_session = ''wh'', mc_key_path = ''k''\<rparr>"
  obtain line where l: "launch_command ?m ''task'' ''p'' ''s'' ''a b; c'' ''http://x/'' ''q'' [''/r''] = Inr line"
    by (simp add: launch_command_def ROLES_def)
  have "(''WH_SESSION_TOKEN'', ''a b; c'') \<in> set (launch_env ?m ''task'' ''p'' ''s'' ''a b; c'' ''http://x/'')"
    "(''LOCAL_VAULT_READONLY'', ''1'') \<in> set (launch_env ?m ''task'' ''p'' ''s'' ''a b; c'' ''http://x/'')"
    by (simp_all add: launch_env_def)
  then have "''WH_SESSION_TOKEN'' @ ''='' @ ''a b; c'' \<in> (\<lambda>(k, v). k @ ''='' @ v) ` set (launch_env ?m ''task'' ''p'' ''s'' ''a b; c'' ''http://x/'')"
    "''LOCAL_VAULT_READONLY'' @ ''='' @ ''1'' \<in> (\<lambda>(k, v). k @ ''='' @ v) ` set (launch_env ?m ''task'' ''p'' ''s'' ''a b; c'' ''http://x/'')"
    by force+
  with launch_line_words [OF l] l show ?thesis by auto
qed

text \<open>The check for the root directory comes before the trailing slashes are removed.\<close>

lemma root_home_is_accepted:
  "map_option (mc_home \<circ> snd) (load_machine repr h k (''m'', JObj [(''ssh_target'', JStr ''u@h''), (''home'', JStr ''//'')])) = Some ''''"
proof -
  have "strip ''u@h'' = ''u@h''" "strip ''//'' = ''//''" "rstrip_char (CHR ''/'') ''//'' = ''''" "\<not> startswith ''-'' ''u@h''"
    by code_simp+
  then show ?thesis by (simp add: load_machine_def json_get_def Let_def)
qed

lemma map_filter_elem: "x \<in> set (List.map_filter f xs) \<longleftrightarrow> (\<exists>y \<in> set xs. f y = Some x)"
  by (induction xs) (auto split: option.splits)

lemma rstrip_char_end: "rstrip_char c s = [] \<or> last (rstrip_char c s) \<noteq> c"
proof (cases "dropWhile (\<lambda>x. x = c) (rev s)")
  case (Cons y ys)
  then have "y \<noteq> c" by (metis (full_types) hd_dropWhile list.discI list.sel(1))
  with Cons show ?thesis by (simp add: rstrip_char_def)
qed (simp add: rstrip_char_def)

text \<open>What the rest of the code relies on in an entry of a catalog.\<close>

definition usable_machine :: "string \<times> machine \<Rightarrow> bool" where
  "usable_machine e = (case e of (n, m) \<Rightarrow> mc_name m = n \<and> mc_target m \<noteq> '''' \<and> \<not> startswith ''-'' (mc_target m) \<and>
     (mc_home m = '''' \<or> startswith ''/'' (mc_home m) \<and> last (mc_home m) \<noteq> CHR ''/'') \<and> mc_session m \<noteq> '''')"

definition usable_project :: "string \<times> project \<Rightarrow> bool" where
  "usable_project e = (case e of (n, p) \<Rightarrow> pj_name p = n \<and> pj_machine p \<noteq> '''' \<and> startswith ''/'' (pj_repo p) \<and>
     last (pj_repo p) \<noteq> CHR ''/'' \<and> CHR ''/'' \<in> set (pj_remote p) \<and> pj_base p \<noteq> '''')"

text \<open>
  The catalog admits only usable entries: every machine has a target that \<open>ssh\<close> cannot take
  for an option, a home that is empty or absolute without trailing slash and a session name; every
  project names a machine, an absolute checkout without trailing slash, a GitHub slug and a base
  branch.
\<close>

theorem catalog_entries_valid:
  "list_all usable_machine (load_machines repr home key doc) \<and> list_all usable_project (load_projects repr doc')"
proof
  have rs: "rstrip_char (CHR ''/'') h = '''' \<or> startswith ''/'' (rstrip_char (CHR ''/'') h) \<and> last (rstrip_char (CHR ''/'') h) \<noteq> CHR ''/''"
    if "startswith ''/'' h" for h
  proof -
    obtain t where h: "h = rstrip_char (CHR ''/'') h @ t"
      unfolding rstrip_char_def by (metis rev_append rev_rev_ident takeWhile_dropWhile_id)
    then show ?thesis using that rstrip_char_end [of "CHR ''/''" h]
      by (cases "rstrip_char (CHR ''/'') h") (auto simp: startswith_def)
  qed
  have "load_machine repr home key e = Some x \<Longrightarrow> usable_machine x" for e x
    by (cases x) (auto simp: load_machine_def usable_machine_def Let_def split: prod.splits json.splits if_splits; metis rs)
  then show "list_all usable_machine (load_machines repr home key doc)"
    unfolding load_machines_def list_all_iff by (auto simp: map_filter_elem split: option.splits json.splits)
  have "load_project repr e = Some x \<Longrightarrow> usable_project x" for e x
    using rstrip_char_end [of "CHR ''/''"]
    by (cases x) (auto simp: load_project_def usable_project_def Let_def split: prod.splits json.splits if_splits; metis startswith_Cons(3))
  then show "list_all usable_project (load_projects repr doc')"
    unfolding load_projects_def list_all_iff by (auto simp: map_filter_elem split: option.splits json.splits)
qed

end
