(* ===== verification/Queue_Refine.thy ===== *)
theory Queue_Refine
  imports Db_Queue
begin

text \<open>
  The job queue against its contract: each worker's pending jobs form a list; enqueueing appends
  to it, a claim takes its head, cancelling removes one element, an update moves one element to
  the position asked for, and recovery of a launch that left no trace puts the job back in
  front.  The interface is the locale \<open>fifo_queue\<close>; the SQL of \<open>db.py\<close> interprets it.
\<close>

section \<open>Recovery puts a job back in front\<close>

definition requeue_row :: "string \<Rightarrow> string \<Rightarrow> job \<Rightarrow> job" where
  "requeue_row i w y =
     (if j_id y = i \<and> j_queue_managed y \<and> j_status y = STARTING
      then y\<lparr>j_status := PENDING, j_gpus := [], j_started := 0, j_order := 1\<rparr>
      else if pending_on w y then y\<lparr>j_order := j_order y + 1\<rparr> else y)"

lemma requeue_row_id [simp]: "j_id (requeue_row i w y) = j_id y"
  by (simp add: requeue_row_def)

lemma find_unique:
  assumes "pk_ok key rows" "r \<in> set rows" "key r = k" "q r"
  shows "find (\<lambda>x. key x = k \<and> q x) rows = Some r"
proof -
  have "find (\<lambda>x. key x = k \<and> q x) rows \<noteq> None"
    using assms by (auto simp: find_None_iff)
  then obtain y where "find (\<lambda>x. key x = k \<and> q x) rows = Some y" by blast
  with find_SomeD [OF this] pk_ok_unique [OF assms(1) _ assms(2), of y] assms(3) show ?thesis by simp
qed

lemma requeue_rows:
  assumes pk: "pk_ok j_id (t_jobs d)" and r: "r \<in> set (t_jobs d)" "j_id r = i" "j_status r = STARTING"
    and "j_queue_managed r" "j_worker r = Some w"
  shows "reconcile_starting_row i False now d =
    (Some (requeue_row i w r), d\<lparr>t_jobs := map (requeue_row i w) (t_jobs d)\<rparr>)"
proof -
  have f: "find (\<lambda>j. j_id j = i \<and> j_status j = STARTING) (t_jobs d) = Some r"
    by (rule find_unique [OF pk r(1,2)]) (rule r(3))
  have m: "tbl_upd (\<lambda>j. j_id j = i \<and> j_queue_managed j \<and> j_status j = STARTING)
               (\<lambda>j. j\<lparr>j_status := PENDING, j_gpus := [], j_started := 0, j_order := 1\<rparr>)
               (tbl_upd (\<lambda>j. j_queue_managed j \<and> sql_eq (j_worker j) (j_worker r) \<and> j_status j = PENDING)
                 (\<lambda>j. j\<lparr>j_order := j_order j + 1\<rparr>) (t_jobs d)) = map (requeue_row i w) (t_jobs d)"
    using assms(6) by (auto simp: tbl_upd_def requeue_row_def pending_on_def)
  have g: "tbl_get j_id i (map (requeue_row i w) (t_jobs d)) = Some (requeue_row i w r)"
    using pk r(1,2) by (intro pk_ok_get [where key = j_id and r = "requeue_row i w r", simplified, simplified r(2)])
      (auto simp: pk_ok_def comp_def)
  show ?thesis
    using f g assms(5) by (simp add: reconcile_starting_row_def m get_job_def)
qed

lemma requeue_pending:
  assumes inv: "queue_inv (t_jobs d)" and r: "r \<in> set (t_jobs d)" "j_id r = i" "j_status r = STARTING"
    and qm: "j_queue_managed r" "j_worker r = Some w"
  shows "pending_ids w' (t_jobs (snd (reconcile_starting_row i False now d))) =
    (if w' = w then i # pending_ids w (t_jobs d) else pending_ids w' (t_jobs d))"
proof -
  let ?js = "t_jobs d" and ?js' = "map (requeue_row i w) (t_jobs d)"
  have pk: "pk_ok j_id ?js" using inv by (simp add: queue_inv_def)
  then have pk': "pk_ok j_id ?js'" by (simp add: pk_ok_def comp_def)
  have only: "y = r" if "y \<in> set ?js" "j_id y = i" for y
    using pk_ok_unique [OF pk that(1) r(1)] that(2) r(2) by simp
  have notin: "i \<notin> set (pending_ids v ?js)" for v
    using only r(3) by (auto simp: set_pending_ids pending_on_def)
  have pend: "pending_on v (requeue_row i w y) \<longleftrightarrow> pending_on v y \<or> v = w \<and> j_id y = i"
    if "y \<in> set ?js" for v y
    using only [OF that] r qm by (auto simp: requeue_row_def pending_on_def)
  have "pending_ids w' ?js' = (if w' = w then i # pending_ids w ?js else pending_ids w' ?js)"
  proof (cases "w' = w")
    case True
    let ?g = "\<lambda>x. if x = i then (1, i) else (fst (order_key ?js x) + 1, x)"
    have "pending_ids w ?js' = i # pending_ids w ?js"
    proof (rule pending_ids_eqI [where g = ?g, OF pk'])
      show "distinct (i # pending_ids w ?js)" using notin distinct_pending_ids [OF pk] by simp
      have "{y \<in> set ?js. pending_on w (requeue_row i w y)} = {y \<in> set ?js. pending_on w y} \<union> {r}"
      proof (intro set_eqI iffI)
        fix y assume y: "y \<in> {y \<in> set ?js. pending_on w (requeue_row i w y)}"
        then have "pending_on w y \<or> j_id y = i" using pend [of y w] by simp
        with y only [of y] show "y \<in> {y \<in> set ?js. pending_on w y} \<union> {r}" by blast
      next
        fix y assume "y \<in> {y \<in> set ?js. pending_on w y} \<union> {r}"
        then show "y \<in> {y \<in> set ?js. pending_on w (requeue_row i w y)}"
          using pend [of y w] r(1,2) by blast
      qed
      moreover have "{y \<in> set ?js'. pending_on w y} =
          requeue_row i w ` {y \<in> set ?js. pending_on w (requeue_row i w y)}"
        unfolding set_map by blast
      ultimately have "{y \<in> set ?js'. pending_on w y} =
          requeue_row i w ` ({y \<in> set ?js. pending_on w y} \<union> {r})"
        by argo
      then show "set (i # pending_ids w ?js) = j_id ` {y \<in> set ?js'. pending_on w y}"
        using r(2) by (simp add: set_pending_ids image_image)
      show "?g (j_id y') = (j_order y', j_id y')" if "y' \<in> set ?js'" "pending_on w y'" for y'
      proof -
        obtain y where y: "y \<in> set ?js" "y' = requeue_row i w y"
          using \<open>y' \<in> set ?js'\<close> by auto
        show ?thesis
        proof (cases "j_id y = i")
          case True
          with only [OF y(1)] y(2) r qm show ?thesis by (simp add: requeue_row_def)
        next
          case False
          with pend [OF y(1)] that(2) y(2) have "pending_on w y" by simp
          with False y show ?thesis by (simp add: requeue_row_def order_key_row [OF pk])
        qed
      qed
      have one: "(1, i) \<le> ?g x" if "x \<in> set (pending_ids w ?js)" for x
      proof -
        obtain y where "y \<in> set ?js" "pending_on w y" "x = j_id y"
          using \<open>x \<in> set (pending_ids w ?js)\<close> by (auto simp: set_pending_ids)
        moreover from this inv have "1 \<le> j_order y"
          by (auto simp: queue_inv_def pending_wf_def pending_on_def queue_active_def)
        ultimately show ?thesis by (auto simp: order_key_row [OF pk] less_eq_prod_def)
      qed
      have "sorted (map ?g (pending_ids w ?js))"
      proof -
        have *: "?g x = (fst (order_key ?js x) + 1, x)" if "x \<in> set (pending_ids w ?js)" for x
          using that notin by auto
        have "order_key ?js x \<le> order_key ?js y \<Longrightarrow>
            (fst (order_key ?js x) + 1, x) \<le> (fst (order_key ?js y) + 1, y)" for x y
          by (auto simp: order_key_def less_eq_prod_def split: option.splits)
        note mono = this
        have "sorted_wrt (\<lambda>x y. order_key ?js x \<le> order_key ?js y) (pending_ids w ?js)"
          using sorted_pending_ids [OF pk, of w] by (simp only: sorted_map)
        then have "sorted (map (\<lambda>x. (fst (order_key ?js x) + 1, x)) (pending_ids w ?js))"
          unfolding sorted_map by (rule sorted_wrt_mono_rel [rotated]) (rule mono)
        moreover have "map ?g (pending_ids w ?js) = map (\<lambda>x. (fst (order_key ?js x) + 1, x)) (pending_ids w ?js)"
          by (rule map_cong [OF refl *])
        ultimately show ?thesis by argo
      qed
      moreover have "\<forall>z \<in> set (map ?g (pending_ids w ?js)). (1, i) \<le> z"
        unfolding set_map using one by blast
      ultimately show "sorted (map ?g (i # pending_ids w ?js))"
        unfolding list.map sorted_simps by simp
    qed
    with True show ?thesis by simp
  next
    case False
    have "pending_ids w' ?js' = filter (\<lambda>_. True) (pending_ids w' ?js)"
    proof (rule pending_ids_filter [OF pk pk'])
      show "\<exists>y\<in>set ?js. pending_on w' y \<and> j_id y = j_id y' \<and> j_order y = j_order y' \<and> True"
        if "y' \<in> set ?js'" "pending_on w' y'" for y'
      proof -
        obtain y where y: "y \<in> set ?js" "y' = requeue_row i w y"
          using \<open>y' \<in> set ?js'\<close> by auto
        with pend [OF y(1)] that(2) False have "pending_on w' y" by simp
        moreover from this False have "\<not> pending_on w y" "j_status y \<noteq> STARTING"
          by (auto simp: pending_on_def)
        ultimately show ?thesis using y by (auto simp: requeue_row_def intro!: bexI [of _ y])
      qed
      show "\<exists>y'\<in>set ?js'. pending_on w' y' \<and> j_id y' = j_id y"
        if "y \<in> set ?js" "pending_on w' y" for y
      proof -
        have "requeue_row i w y \<in> set ?js'" using that(1) by simp
        moreover have "pending_on w' (requeue_row i w y)" using that pend [OF that(1)] by simp
        ultimately show ?thesis by (intro bexI [of _ "requeue_row i w y"]) simp_all
      qed
    qed
    with False show ?thesis by simp
  qed
  then show ?thesis by (simp add: requeue_rows [OF pk r qm])
qed

lemma requeue_inv:
  assumes inv: "queue_inv (t_jobs d)" and r: "r \<in> set (t_jobs d)" "j_id r = i" "j_status r = STARTING"
    and qm: "j_queue_managed r" "j_worker r = Some w"
  shows "queue_inv (map (requeue_row i w) (t_jobs d))"
proof -
  let ?js' = "map (requeue_row i w) (t_jobs d)"
  have keep: "claimed_on v (requeue_row i w y) \<Longrightarrow> claimed_on v y \<and> requeue_row i w y = y" for v y
  proof -
    assume c: "claimed_on v (requeue_row i w y)"
    have "\<not> (j_id y = i \<and> j_queue_managed y \<and> j_status y = STARTING)"
      using c by (auto simp: requeue_row_def claimed_on_def)
    moreover from this have "\<not> pending_on w y"
      using c by (auto simp: requeue_row_def claimed_on_def pending_on_def)
    ultimately have "requeue_row i w y = y" unfolding requeue_row_def by (simp only: if_False)
    with c show ?thesis by simp
  qed
  have "gpus_exclusive ?js' \<and> claims_sized ?js'"
  proof (rule exclusive_sub [of "t_jobs d"])
    fix v y' assume "y' \<in> set ?js'" and c: "claimed_on v y'"
    then obtain y where y: "y \<in> set (t_jobs d)" "y' = requeue_row i w y" by auto
    from keep [of v y] c y(2) have "claimed_on v y \<and> y' = y" by simp
    with y(1) show "\<exists>j\<in>set (t_jobs d). claimed_on v j \<and> j_id j = j_id y' \<and> j_gpus j = j_gpus y' \<and>
        j_gpu_count j = j_gpu_count y'" by blast
  qed (use inv in \<open>simp_all add: queue_inv_def\<close>)
  moreover have "pending_wf ?js'"
    unfolding pending_wf_def
  proof (intro ballI impI)
    fix y' assume "y' \<in> set ?js'" and a: "queue_active y'"
    then obtain y where y: "y \<in> set (t_jobs d)" "y' = requeue_row i w y" by auto
    have "queue_active y" using a y(2)
      by (auto simp: requeue_row_def queue_active_def pending_on_def split: if_splits)
    with inv y(1) have "1 \<le> j_order y \<and> (j_status y = PENDING \<longrightarrow> j_gpus y = [])"
      by (simp add: queue_inv_def pending_wf_def)
    with y(2) show "1 \<le> j_order y' \<and> (j_status y' = PENDING \<longrightarrow> j_gpus y' = [])"
      by (auto simp: requeue_row_def)
  qed
  moreover have "pk_ok j_id ?js'" using inv by (simp add: queue_inv_def pk_ok_def comp_def)
  ultimately show ?thesis by (simp add: queue_inv_def)
qed

section \<open>Row-wise changes that keep the invariants\<close>

text \<open>An update that only lets jobs finish (or start running) and never touches a claim.\<close>

lemma rowwise_inv:
  assumes inv: "queue_inv js"
    and id: "\<And>y. j_id (f y) = j_id y"
    and cl: "\<And>v y. y \<in> set js \<Longrightarrow> claimed_on v (f y) \<Longrightarrow> claimed_on v y \<and> j_gpus (f y) = j_gpus y \<and> j_gpu_count (f y) = j_gpu_count y"
    and act: "\<And>y. y \<in> set js \<Longrightarrow> queue_active (f y) \<Longrightarrow> queue_active y \<and> 1 \<le> j_order (f y) \<and>
      (j_status (f y) = PENDING \<longrightarrow> j_status y = PENDING \<and> j_gpus (f y) = j_gpus y)"
  shows "queue_inv (map f js)"
proof -
  have "gpus_exclusive (map f js) \<and> claims_sized (map f js)"
  proof (rule exclusive_sub [of js])
    fix v y' assume "y' \<in> set (map f js)" and c: "claimed_on v y'"
    then obtain y where y: "y \<in> set js" "y' = f y" by auto
    with cl [OF y(1), of v] c id [of y] show "\<exists>j\<in>set js. claimed_on v j \<and> j_id j = j_id y' \<and>
        j_gpus j = j_gpus y' \<and> j_gpu_count j = j_gpu_count y'" by auto
  qed (use inv in \<open>simp_all add: queue_inv_def\<close>)
  moreover have "pending_wf (map f js)"
    unfolding pending_wf_def
  proof (intro ballI impI)
    fix y' assume "y' \<in> set (map f js)" and a: "queue_active y'"
    then obtain y where y: "y \<in> set js" "y' = f y" by auto
    with act [OF y(1)] a inv show "1 \<le> j_order y' \<and> (j_status y' = PENDING \<longrightarrow> j_gpus y' = [])"
      by (auto simp: queue_inv_def pending_wf_def)
  qed
  moreover have "pk_ok j_id (map f js)" using inv id by (simp add: queue_inv_def pk_ok_def comp_def)
  ultimately show ?thesis by (simp add: queue_inv_def)
qed

lemma tbl_upd_inv:
  assumes "queue_inv js" and "\<And>y. p y \<Longrightarrow> j_id (f y) = j_id y"
    and "\<And>v y. y \<in> set js \<Longrightarrow> p y \<Longrightarrow> claimed_on v (f y) \<Longrightarrow>
      claimed_on v y \<and> j_gpus (f y) = j_gpus y \<and> j_gpu_count (f y) = j_gpu_count y"
    and "\<And>y. y \<in> set js \<Longrightarrow> p y \<Longrightarrow> queue_active (f y) \<Longrightarrow> queue_active y \<and> (j_order (f y) = j_order y \<or> 1 \<le> j_order (f y)) \<and>
      (j_status (f y) = PENDING \<longrightarrow> j_status y = PENDING \<and> j_gpus (f y) = j_gpus y)"
  shows "queue_inv (tbl_upd p f js)"
  unfolding tbl_upd_def
proof (rule rowwise_inv [OF assms(1)])
  fix y assume y: "y \<in> set js" "queue_active (if p y then f y else y)"
  have o: "queue_active y \<Longrightarrow> 1 \<le> j_order y"
    using assms(1) y(1) by (simp add: queue_inv_def pending_wf_def)
  show "queue_active y \<and> 1 \<le> j_order (if p y then f y else y) \<and>
      (j_status (if p y then f y else y) = PENDING \<longrightarrow>
       j_status y = PENDING \<and> j_gpus (if p y then f y else y) = j_gpus y)"
  proof (cases "p y")
    case True
    with assms(4) [OF y(1) True] y(2) o show ?thesis by auto
  qed (use y o in simp)
qed (use assms(2,3) in \<open>auto split: if_splits\<close>)

lemma renumber_inv: "queue_inv js \<Longrightarrow> queue_inv (renumber ids js)"
  unfolding renumber_def by (erule tbl_upd_inv) auto

section \<open>Cancelling\<close>

lemma fail_pending_pending:
  assumes pk: "pk_ok j_id (t_jobs d)" and f: "fail_pending_job i t d = (Some j, d')"
  shows "pending_ids w (t_jobs d') = filter (\<lambda>x. x \<noteq> i) (pending_ids w (t_jobs d))"
proof -
  let ?p = "\<lambda>j. j_id j = i \<and> j_queue_managed j \<and> j_status j = PENDING"
  let ?f = "\<lambda>j. j\<lparr>j_status := FAILED, j_exit_code := Some (- 1), j_finished := t, j_order := 0\<rparr>"
  let ?js1 = "tbl_upd ?p ?f (t_jobs d)"
  obtain row where row: "find ?p (t_jobs d) = Some row"
    using f by (auto simp: fail_pending_job_def split: option.splits)
  define ids where "ids = (case j_worker row of None \<Rightarrow> [] | Some v \<Rightarrow> pending_ids v ?js1)"
  have d': "t_jobs d' = renumber ids ?js1"
    using f row by (auto simp: fail_pending_job_def Let_def ids_def)
  have pk1: "pk_ok j_id ?js1" using pk by (simp add: pk_ok_upd)
  have "pending_ids w (renumber ids ?js1) = pending_ids w ?js1"
  proof (cases "j_worker row = Some w")
    case True
    then show ?thesis
      using distinct_pending_ids [OF pk1, of w] set_pending_ids [of w ?js1]
      by (intro trans [OF renumber_pending [OF pk1]]) (simp_all add: ids_def)
  next
    case False
    show ?thesis
    proof (rule renumber_other [OF pk1])
      fix j assume j: "j \<in> set ?js1" "pending_on w j"
      show "j_id j \<notin> set ids"
      proof
        assume "j_id j \<in> set ids"
        then obtain v where v: "j_worker row = Some v" "j_id j \<in> set (pending_ids v ?js1)"
          unfolding ids_def by (cases "j_worker row") simp_all
        then obtain k where "v \<noteq> w" "k \<in> set ?js1" "pending_on v k" "j_id k = j_id j"
          using False unfolding set_pending_ids by fastforce
        with pk_ok_unique [OF pk1 j(1) \<open>k \<in> set ?js1\<close>] j(2) show False
          by (simp add: pending_on_def)
      qed
    qed
  qed
  also have "pending_ids w ?js1 = filter (\<lambda>x. x \<noteq> i) (pending_ids w (t_jobs d))"
  proof (rule pending_ids_filter [OF pk pk1])
    show "\<exists>k\<in>set (t_jobs d). pending_on w k \<and> j_id k = j_id j' \<and> j_order k = j_order j' \<and> j_id k \<noteq> i"
      if "j' \<in> set ?js1" "pending_on w j'" for j'
      using that by (auto elim!: tbl_upd_rowE simp: pending_on_def)
    show "\<exists>j'\<in>set ?js1. pending_on w j' \<and> j_id j' = j_id k"
      if "k \<in> set (t_jobs d)" "pending_on w k" "j_id k \<noteq> i" for k
      using that by (auto intro!: bexI [of _ k] tbl_upd_rowI)
  qed
  finally show ?thesis by (simp add: d')
qed

lemma fail_pending_inv:
  assumes "queue_inv (t_jobs d)"
  shows "queue_inv (t_jobs (snd (fail_pending_job i t d)))"
  using assms
  by (auto simp: fail_pending_job_def Let_def claimed_on_def queue_active_def split: option.split
      intro!: renumber_inv tbl_upd_inv)

lemma fail_pending_None: "fail_pending_job i t d = (None, d') \<Longrightarrow> d' = d"
proof -
  let ?p = "\<lambda>j. j_id j = i \<and> j_queue_managed j \<and> j_status j = PENDING"
  assume f: "fail_pending_job i t d = (None, d')"
  show ?thesis
  proof (cases "find ?p (t_jobs d)")
    case (Some row)
    then have "tbl_get j_id i (t_jobs d) \<noteq> None"
      using find_SomeD [OF Some] by (auto simp: tbl_get_None_iff)
    with Some f show ?thesis
      by (auto simp: fail_pending_job_def Let_def get_job_def renumber_def tbl_get_upd)
  qed (use f in \<open>simp add: fail_pending_job_def\<close>)
qed

section \<open>Moving a job\<close>

lemma renumber_perm:
  assumes pk: "pk_ok j_id js" and "distinct ids" and "set ids = set (pending_ids v js)"
  shows "pending_ids w (renumber ids js) = (if w = v then ids else pending_ids w js)"
proof (cases "w = v")
  case True
  with renumber_pending [OF pk assms(2)] assms(3) show ?thesis by (simp add: set_pending_ids)
next
  case False
  have "pending_ids w (renumber ids js) = pending_ids w js"
  proof (rule renumber_other [OF pk])
    fix j assume j: "j \<in> set js" "pending_on w j"
    show "j_id j \<notin> set ids"
    proof
      assume "j_id j \<in> set ids"
      then obtain k where k: "k \<in> set js" "pending_on v k" "j_id k = j_id j"
        unfolding assms(3) set_pending_ids by fastforce
      with pk_ok_unique [OF pk j(1) k(1)] j(2) False show False by (simp add: pending_on_def)
    qed
  qed
  with False show ?thesis by simp
qed

lemma filter_absent: "x \<notin> set xs \<Longrightarrow> filter (\<lambda>y. y \<noteq> x) xs = xs"
  by (induction xs) auto

lemma list_insert_index_of:
  "distinct xs \<Longrightarrow> x \<in> set xs \<Longrightarrow> list_insert (index_of x xs) x (filter (\<lambda>y. y \<noteq> x) xs) = xs"
  by (induction xs) (auto simp: list_insert_def filter_absent)

lemma move_pending_ids:
  assumes pk: "pk_ok j_id js" and row: "row \<in> set js" "j_id row = i" "j_queue_managed row" "j_status row = PENDING"
    and src: "source_ids = (case j_worker row of None \<Rightarrow> [] | Some v \<Rightarrow> filter (\<lambda>x. x \<noteq> i) (pending_ids v js))"
    and dest: "destination_ids = list_insert slot i (filter (\<lambda>x. x \<noteq> i) (pending_ids wd js))"
  shows "pending_ids w (move_pending i row (Some wd) name expected gpu_count source_ids destination_ids js) =
    (if w = wd then destination_ids else filter (\<lambda>x. x \<noteq> i) (pending_ids w js))"
proof -
  let ?p = "\<lambda>j. j_id j = i \<and> j_queue_managed j \<and> j_status j = PENDING"
  let ?f = "\<lambda>j. j\<lparr>j_worker := Some wd, j_name := (case name of None \<Rightarrow> j_name row | Some n \<Rightarrow> n),
                 j_expected := (case expected of None \<Rightarrow> j_expected row | Some e \<Rightarrow> e),
                 j_gpu_count := (case gpu_count of None \<Rightarrow> j_gpu_count row | Some n \<Rightarrow> n)\<rparr>"
  define js1 where "js1 = tbl_upd ?p ?f js"
  have pk1: "pk_ok j_id js1" using pk by (simp add: js1_def pk_ok_upd)
  have up: "js1 = tbl_upd (\<lambda>j. j_id j = i) ?f js"
    unfolding js1_def tbl_upd_def
  proof (rule map_cong [OF refl])
    fix x assume "x \<in> set js"
    then have "?p x \<longleftrightarrow> j_id x = i"
      using pk_ok_unique [OF pk _ row(1), of x] row(2-4) by auto
    then show "(if ?p x then ?f x else x) = (if j_id x = i then ?f x else x)" by simp
  qed
  have p1: "set (pending_ids wd js1) = insert i (set (pending_ids wd js) - {i})"
  proof (intro set_eqI iffI)
    fix x assume "x \<in> set (pending_ids wd js1)"
    then obtain k where k: "k \<in> set js1" "pending_on wd k" "x = j_id k" by (auto simp: set_pending_ids)
    from upd_key_row [OF pk row(1,2) k(1) [unfolded up]]
    have "j_id k = i \<or> k \<in> set js \<and> j_id k \<noteq> i" using row(2) by auto
    then show "x \<in> insert i (set (pending_ids wd js) - {i})" using k(2,3) pending_ids_in by auto
  next
    fix x assume x: "x \<in> insert i (set (pending_ids wd js) - {i})"
    show "x \<in> set (pending_ids wd js1)"
    proof (cases "x = i")
      case True
      have "?f row \<in> set js1" unfolding up by (rule tbl_upd_rowI [OF row(1)]) (simp add: row(2))
      moreover have "pending_on wd (?f row)" using row(3,4) by (simp add: pending_on_def)
      ultimately have "j_id (?f row) \<in> set (pending_ids wd js1)" by (rule pending_ids_in)
      with True row(2) show ?thesis by simp
    next
      case False
      with x obtain k where k: "k \<in> set js" "pending_on wd k" "x = j_id k" by (auto simp: set_pending_ids)
      have "k \<in> set js1" unfolding up by (rule tbl_upd_rowI [OF k(1)]) (use False k(3) in simp)
      then show ?thesis using k(2,3) pending_ids_in by simp
    qed
  qed
  have other1: "pending_ids v js1 = filter (\<lambda>x. x \<noteq> i) (pending_ids v js)" if "v \<noteq> wd" for v
  proof (rule pending_ids_filter [OF pk pk1])
    show "\<exists>k\<in>set js. pending_on v k \<and> j_id k = j_id j' \<and> j_order k = j_order j' \<and> j_id k \<noteq> i"
      if "j' \<in> set js1" "pending_on v j'" for j'
      using that \<open>v \<noteq> wd\<close> unfolding js1_def by (auto elim!: tbl_upd_rowE simp: pending_on_def)
    show "\<exists>j'\<in>set js1. pending_on v j' \<and> j_id j' = j_id k"
      if "k \<in> set js" "pending_on v k" "j_id k \<noteq> i" for k
      using that unfolding js1_def by (auto intro!: bexI [of _ k] tbl_upd_rowI)
  qed
  define js2 where "js2 = (if Some wd \<noteq> j_worker row then renumber source_ids js1 else js1)"
  have pk2: "pk_ok j_id js2" using pk1 by (simp add: js2_def)
  have same2: "pending_ids v js2 = pending_ids v js1" for v
  proof (cases "j_worker row")
    case None
    then show ?thesis using renumber_other [OF pk1] by (simp add: js2_def src)
  next
    case (Some ws)
    show ?thesis
    proof (cases "ws = wd")
      case False
      with Some have "source_ids = pending_ids ws js1" by (simp add: src other1)
      with False Some show ?thesis
        using renumber_perm [OF pk1 distinct_pending_ids [OF pk1] refl, of v ws] by (simp add: js2_def)
    qed (use Some in \<open>simp add: js2_def\<close>)
  qed
  have "set (pending_ids wd js2) = insert i (set (pending_ids wd js) - {i})"
    unfolding same2 by (rule p1)
  then have s: "set destination_ids = set (pending_ids wd js2)" by (auto simp: dest)
  have "distinct destination_ids"
    using distinct_pending_ids [OF pk, of wd] by (simp add: dest distinct_list_insert)
  from renumber_perm [OF pk2 this s, of w]
  show ?thesis
    by (simp add: move_pending_def Let_def js1_def [symmetric] js2_def [symmetric] same2 other1)
qed

lemma move_pending_inv:
  "queue_inv js \<Longrightarrow> queue_inv (move_pending i row dst name expected gpu_count source_ids destination_ids js)"
  unfolding move_pending_def Let_def
  by (auto intro!: renumber_inv tbl_upd_inv simp: claimed_on_def queue_active_def split: if_splits)

text \<open>What a successful \<open>update_pending_job\<close> has checked and written.\<close>

lemma update_pending_job_Inr:
  assumes pk: "pk_ok j_id (t_jobs d)"
    and u: "update_pending_job i wid position name expected gpu_count d = Inr (j, d')"
  shows "\<exists>row wd target. row \<in> set (t_jobs d) \<and> j_id row = i \<and> j_queue_managed row \<and> j_status row = PENDING \<and>
    (case wid of None \<Rightarrow> j_worker row | Some w \<Rightarrow> Some w) = Some wd \<and> get_worker wd d = Some target \<and>
    (case gpu_count of None \<Rightarrow> j_gpu_count row | Some n \<Rightarrow> n) \<le> w_gpu_count target \<and>
    get_job i d' = Some j \<and>
    d' = d\<lparr>t_jobs := move_pending i row (Some wd) name expected gpu_count
      (case j_worker row of None \<Rightarrow> [] | Some v \<Rightarrow> filter (\<lambda>x. x \<noteq> i) (pending_ids v (t_jobs d)))
      (case position of
         None \<Rightarrow> if j_worker row = Some wd then pending_ids wd (t_jobs d) else pending_ids wd (t_jobs d) @ [i]
       | Some p \<Rightarrow> list_insert (queue_position p (filter (\<lambda>x. x \<noteq> i) (pending_ids wd (t_jobs d)))) i
           (filter (\<lambda>x. x \<noteq> i) (pending_ids wd (t_jobs d)))) (t_jobs d)\<rparr>"
proof -
  obtain row where f: "find (\<lambda>j. j_id j = i \<and> j_queue_managed j) (t_jobs d) = Some row"
    and st: "j_status row = PENDING"
    using u by (auto simp: update_pending_job_def split: option.splits if_splits)
  note row = find_SomeD [OF f]
  obtain wd target where wd: "(case wid of None \<Rightarrow> j_worker row | Some w \<Rightarrow> Some w) = Some wd"
    and t: "get_worker wd d = Some target"
    and cap: "(case gpu_count of None \<Rightarrow> j_gpu_count row | Some n \<Rightarrow> n) \<le> w_gpu_count target"
    using u f st by (auto simp: update_pending_job_def Let_def not_less split: option.splits if_splits)
  have notin: "i \<notin> set (pending_ids wd (t_jobs d))" if "j_worker row \<noteq> Some wd"
  proof
    assume "i \<in> set (pending_ids wd (t_jobs d))"
    then obtain k where k: "k \<in> set (t_jobs d)" "pending_on wd k" "j_id k = i"
      by (auto simp: set_pending_ids)
    with pk_ok_unique [OF pk k(1), of row] row that show False by (simp add: pending_on_def)
  qed
  have isin: "i \<in> set (pending_ids wd (t_jobs d))" if "j_worker row = Some wd"
    using pending_ids_in [of row "t_jobs d" wd] row st that by (simp add: pending_on_def)
  have ins: "list_insert (length xs) i xs = xs @ [i]" for xs :: "string list"
    by (simp add: list_insert_def)
  show ?thesis
    apply (rule exI [of _ row], rule exI [of _ wd], rule exI [of _ target])
    using row st wd t cap u f notin isin distinct_pending_ids [OF pk, of wd]
    by (cases "j_worker row = Some wd"; cases position)
      (auto simp: update_pending_job_def Let_def get_job_def filter_absent list_insert_index_of ins
        split: option.splits if_splits)
qed

section \<open>The remaining writers of the job table\<close>

lemma subset_inv:
  assumes "queue_inv js" "set js' \<subseteq> set js" "pk_ok j_id js'"
  shows "queue_inv js'"
proof -
  have "gpus_exclusive js' \<and> claims_sized js'"
    by (rule exclusive_sub [of js]) (use assms in \<open>auto simp: queue_inv_def\<close>)
  then show ?thesis using assms by (auto simp: queue_inv_def pending_wf_def)
qed

lemma append_inv:
  assumes "queue_inv js" "\<not> j_queue_managed x" "j_id x \<notin> j_id ` set js"
  shows "queue_inv (js @ [x])"
proof -
  have "gpus_exclusive (js @ [x]) \<and> claims_sized (js @ [x])"
    by (rule exclusive_sub [of js]) (use assms in \<open>auto simp: queue_inv_def claimed_on_def\<close>)
  then show ?thesis using assms by (auto simp: queue_inv_def pending_wf_def queue_active_def pk_ok_def)
qed

lemma reconcile_starting_inv:
  assumes inv: "queue_inv (t_jobs d)" and w: "\<And>r. r \<in> set (t_jobs d) \<Longrightarrow> queue_active r \<Longrightarrow> j_worker r \<noteq> None"
  shows "queue_inv (t_jobs (snd (reconcile_starting_row i seen now d)))"
proof (cases "find (\<lambda>j. j_id j = i \<and> j_status j = STARTING) (t_jobs d)")
  case (Some row)
  note row = find_SomeD [OF Some]
  show ?thesis
  proof (cases "\<not> seen \<and> j_queue_managed row")
    case True
    then obtain v where "j_worker row = Some v" using w [of row] row by (auto simp: queue_active_def)
    with True row requeue_rows [of d row i v now] requeue_inv [OF inv, of row i v] inv show ?thesis
      by (simp add: queue_inv_def)
  next
    case False
    then have "seen \<or> \<not> j_queue_managed row" by simp
    moreover have "queue_inv (tbl_upd (\<lambda>j. j_id j = i \<and> j_status j = STARTING) (\<lambda>j. j\<lparr>j_status := RUNNING\<rparr>) (t_jobs d))"
      by (rule tbl_upd_inv [OF inv]) (auto simp: claimed_on_def queue_active_def)
    moreover have "queue_inv (tbl_upd (\<lambda>j. j_id j = i \<and> j_status j = STARTING)
        (\<lambda>j. j\<lparr>j_status := FAILED, j_exit_code := Some (- 1), j_finished := now\<rparr>) (t_jobs d))"
      by (rule tbl_upd_inv [OF inv]) (auto simp: claimed_on_def queue_active_def)
    ultimately show ?thesis using Some by (auto simp: reconcile_starting_row_def Let_def)
  qed
qed (use inv in \<open>simp add: reconcile_starting_row_def\<close>)

lemma upsert_report_rows:
  assumes "upsert_reported_worker_job wid r d = Inr (j, changed, d')"
  shows "t_jobs d' = t_jobs d \<or>
    t_jobs d' = t_jobs d @ [job_of_report wid r] \<and> jr_id r \<notin> j_id ` set (t_jobs d) \<or>
    t_jobs d' = tbl_upd (\<lambda>k. j_id k = jr_id r) (\<lambda>_. job_of_report wid r) (t_jobs d)"
  using assms tbl_get_None_iff [of j_id "jr_id r" "t_jobs d"]
  by (auto simp: upsert_reported_worker_job_def Let_def split: option.splits if_splits prod.splits)

lemma job_of_report_simps [simp]:
  "j_id (job_of_report wid r) = jr_id r" "\<not> j_queue_managed (job_of_report wid r)"
  by (simp_all add: job_of_report_def new_job_def)

lemma upsert_report_inv:
  assumes inv: "queue_inv (t_jobs d)" and u: "upsert_reported_worker_job wid r d = Inr (j, changed, d')"
  shows "queue_inv (t_jobs d')"
proof -
  have "queue_inv (tbl_upd (\<lambda>k. j_id k = jr_id r) (\<lambda>_. job_of_report wid r) (t_jobs d))"
    by (rule tbl_upd_inv [OF inv]) (simp_all add: claimed_on_def queue_active_def)
  with upsert_report_rows [OF u] inv append_inv [OF inv, of "job_of_report wid r"] show ?thesis by auto
qed

text \<open>The writes that \<open>JobManager\<close> makes through \<open>update_job\<close>: it holds the worker's dispatch lock
  and re-reads the row, so the written record is the stored one but for its outcome.\<close>

definition lifecycle :: "job \<Rightarrow> job \<Rightarrow> bool" where
  "lifecycle old new =
     (\<exists>st e f. new = old\<lparr>j_status := st, j_exit_code := e, j_finished := f\<rparr> \<and>
        (st = DONE \<or> st = FAILED \<or>
         st = RUNNING \<and> (j_queue_managed old \<longrightarrow> j_status old = STARTING \<or> j_status old = RUNNING)))"

lemma update_job_inv:
  assumes inv: "queue_inv (t_jobs d)" and "get_job (j_id new) d = Some old" "lifecycle old new"
  shows "queue_inv (t_jobs (update_job new d))"
proof -
  have pk: "pk_ok j_id (t_jobs d)" using inv by (simp add: queue_inv_def)
  have old: "old \<in> set (t_jobs d)" "j_id old = j_id new"
    using assms(2) by (auto simp: get_job_def dest: tbl_get_in tbl_get_key)
  obtain st e f where new: "new = old\<lparr>j_status := st, j_exit_code := e, j_finished := f\<rparr>"
    and st: "st = DONE \<or> st = FAILED \<or>
         st = RUNNING \<and> (j_queue_managed old \<longrightarrow> j_status old = STARTING \<or> j_status old = RUNNING)"
    using assms(3) by (auto simp: lifecycle_def)
  have same: "y = old" if "y \<in> set (t_jobs d)" "j_id y = j_id new" for y
    using pk_ok_unique [OF pk that(1) old(1)] that(2) old(2) by simp
  have "queue_inv (tbl_upd (\<lambda>r. j_id r = j_id new) (\<lambda>_. new) (t_jobs d))"
  proof (rule tbl_upd_inv [OF inv])
    fix v y assume "y \<in> set (t_jobs d)" "j_id y = j_id new" "claimed_on v new"
    with same st show "claimed_on v y \<and> j_gpus new = j_gpus y \<and> j_gpu_count new = j_gpu_count y"
      by (auto simp: new claimed_on_def)
  next
    fix y assume "y \<in> set (t_jobs d)" "j_id y = j_id new" "queue_active new"
    with same st show "queue_active y \<and> (j_order new = j_order y \<or> 1 \<le> j_order new) \<and>
        (j_status new = PENDING \<longrightarrow> j_status y = PENDING \<and> j_gpus new = j_gpus y)"
      by (auto simp: new queue_active_def)
  qed simp
  then show ?thesis by (simp add: update_job_def)
qed

section \<open>All interleavings of the job operations\<close>

text \<open>
  One step is one repository call, by whichever task makes it: API handlers, the dispatcher,
  the reconciler, worker reports.  \<open>quiet\<close> stands for every call that does not write jobs.
  Queue rows always name a worker: \<open>enqueue_job\<close> passes \<open>worker.id\<close>.
\<close>

inductive db_step :: "database \<Rightarrow> database \<Rightarrow> bool" where
  enqueue: "insert_queued_job job d = Inr (j, d') \<Longrightarrow> j_worker job \<noteq> None \<Longrightarrow> 0 \<le> j_gpu_count job \<Longrightarrow>
    db_step d d'"
| immediate: "insert_job job d = Inr d' \<Longrightarrow> \<not> j_queue_managed job \<Longrightarrow> db_step d d'"
| claim: "claim_queued_job i gpus t w d = (r, d') \<Longrightarrow> distinct gpus \<Longrightarrow> db_step d d'"
| outcome: "get_job (j_id new) d = Some old \<Longrightarrow> lifecycle old new \<Longrightarrow> db_step d (update_job new d)"
| move: "update_pending_job i wid position name expected gpu_count d = Inr (j, d') \<Longrightarrow>
    (\<And>n. gpu_count = Some n \<Longrightarrow> 0 \<le> n) \<Longrightarrow> db_step d d'"
| cancel: "fail_pending_job i t d = (r, d') \<Longrightarrow> db_step d d'"
| reconcile: "reconcile_starting_row i seen now d = (r, d') \<Longrightarrow> db_step d d'"
| report: "upsert_reported_worker_job w rep d = Inr (j, changed, d') \<Longrightarrow> db_step d d'"
| remove_worker: "delete_worker w d = (r, d') \<Longrightarrow> db_step d d'"
| quiet: "t_jobs d' = t_jobs d \<Longrightarrow> db_step d d'"

definition owned :: "job list \<Rightarrow> bool" where
  "owned js = (\<forall>r \<in> set js. queue_active r \<longrightarrow> j_worker r \<noteq> None \<and> 0 \<le> j_gpu_count r)"

definition jobs_inv :: "job list \<Rightarrow> bool" where
  "jobs_inv js = (queue_inv js \<and> owned js)"

lemma owned_upd:
  assumes "owned js" "\<And>y. y \<in> set js \<Longrightarrow> p y \<Longrightarrow> queue_active (f y) \<Longrightarrow> queue_active y \<and> (j_worker (f y) = j_worker y \<or> j_worker (f y) \<noteq> None) \<and>
      (j_gpu_count (f y) = j_gpu_count y \<or> 0 \<le> j_gpu_count (f y))"
  shows "owned (tbl_upd p f js)"
  unfolding owned_def
proof (intro ballI impI)
  fix y' assume m: "y' \<in> set (tbl_upd p f js)" and a: "queue_active y'"
  from m show "j_worker y' \<noteq> None \<and> 0 \<le> j_gpu_count y'"
  proof (rule tbl_upd_rowE)
    fix y assume y: "y \<in> set js" "p y" "y' = f y"
    with a assms(2) [OF y(1,2)] assms(1) show ?thesis by (auto simp: owned_def)
  qed (use assms(1) a in \<open>simp add: owned_def\<close>)
qed

lemma owned_renumber: "owned js \<Longrightarrow> owned (renumber ids js)"
  unfolding renumber_def by (erule owned_upd) simp

lemma owned_reconcile:
  assumes "owned (t_jobs d)"
  shows "owned (t_jobs (snd (reconcile_starting_row i seen now d)))"
  using assms
  by (auto simp: reconcile_starting_row_def Let_def split: option.split intro!: owned_upd)
    (auto simp: queue_active_def)

lemma db_step_jobs_inv:
  assumes "db_step d d'" "jobs_inv (t_jobs d)"
  shows "jobs_inv (t_jobs d')"
  using assms
proof (induction rule: db_step.induct)
  case (enqueue job d j d')
  note I = insert_queued_job_Inr [OF enqueue(1)]
  show ?case using enqueue insert_queued_job_inv [OF _ enqueue(1)] I(2,6,7)
    by (auto simp: jobs_inv_def owned_def)
next
  case (immediate job d d')
  then show ?case
    using append_inv [of "t_jobs d" job]
    by (auto simp: jobs_inv_def owned_def insert_job_Inr queue_active_def)
next
  case (claim i gpus t w d r d')
  show ?case
  proof (cases r)
    case None
    with claim show ?thesis by (auto dest: claim_None)
  next
    case (Some j)
    with claim have c: "claim_queued_job i gpus t w d = (Some j, d')" by simp
    have pk: "pk_ok j_id (t_jobs d)" using claim.prems by (simp add: jobs_inv_def queue_inv_def)
    obtain row where row: "row \<in> set (t_jobs d)" "j_id row = i" "pending_on w row"
      and d': "d' = d\<lparr>t_jobs := tbl_upd (\<lambda>x. j_id x = i) (\<lambda>x. x\<lparr>j_status := STARTING, j_gpus := gpus, j_started := t\<rparr>) (t_jobs d)\<rparr>"
      using claim_Some [OF pk c] by blast
    have "owned (tbl_upd (\<lambda>x. j_id x = i) (\<lambda>x. x\<lparr>j_status := STARTING, j_gpus := gpus, j_started := t\<rparr>) (t_jobs d))"
    proof (rule owned_upd)
      fix y assume y: "y \<in> set (t_jobs d)" "j_id y = i"
      have "y = row" by (rule pk_ok_unique [OF pk y(1) row(1)]) (simp add: y(2) row(2))
      with row(3) show "queue_active y \<and> (j_worker (y\<lparr>j_status := STARTING, j_gpus := gpus, j_started := t\<rparr>) = j_worker y \<or>
          j_worker (y\<lparr>j_status := STARTING, j_gpus := gpus, j_started := t\<rparr>) \<noteq> None) \<and>
          (j_gpu_count (y\<lparr>j_status := STARTING, j_gpus := gpus, j_started := t\<rparr>) = j_gpu_count y \<or>
           0 \<le> j_gpu_count (y\<lparr>j_status := STARTING, j_gpus := gpus, j_started := t\<rparr>))"
        by (auto simp: queue_active_def pending_on_def)
    qed (use claim.prems in \<open>simp add: jobs_inv_def\<close>)
    then have "owned (t_jobs d')" by (simp add: d')
    with claim.prems claim_inv [OF _ claim(2) c] show ?thesis by (simp add: jobs_inv_def)
  qed
next
  case (outcome new d old)
  have "queue_active new \<Longrightarrow> queue_active old \<and> j_worker new = j_worker old \<and> j_gpu_count new = j_gpu_count old"
    using outcome(2) by (auto simp: lifecycle_def queue_active_def)
  moreover have "old \<in> set (t_jobs d)" using outcome(1) by (auto simp: get_job_def dest: tbl_get_in)
  ultimately have "owned (t_jobs (update_job new d))"
    using outcome.prems unfolding update_job_def jobs_inv_def owned_def
    by (auto elim!: tbl_upd_rowE)
  with outcome update_job_inv show ?case by (auto simp: jobs_inv_def)
next
  case (move i wid position name expected gpu_count d j d')
  have pk: "pk_ok j_id (t_jobs d)" using move.prems by (simp add: jobs_inv_def queue_inv_def)
  obtain row wd si di where row: "row \<in> set (t_jobs d)" "j_queue_managed row" "j_status row = PENDING"
    and "t_jobs d' = move_pending i row (Some wd) name expected gpu_count si di (t_jobs d)"
    using update_pending_job_Inr [OF pk move(1)] by auto
  moreover have "0 \<le> (case gpu_count of None \<Rightarrow> j_gpu_count row | Some n \<Rightarrow> n)"
    using row move.prems move(2) by (auto simp: jobs_inv_def owned_def queue_active_def split: option.split)
  then have "owned (move_pending i row (Some wd) name expected gpu_count si di (t_jobs d))"
    using move.prems unfolding move_pending_def Let_def jobs_inv_def
    by (auto intro!: owned_renumber owned_upd simp: queue_active_def)
      (metis not_None_eq option.inject)
  ultimately show ?case using move.prems move_pending_inv by (auto simp: jobs_inv_def)
next
  case (cancel i t d r d')
  have "owned (t_jobs (snd (fail_pending_job i t d)))"
    using cancel.prems unfolding jobs_inv_def
    by (auto simp: fail_pending_job_def Let_def split: option.split intro!: owned_renumber owned_upd)
      (auto simp: queue_active_def)
  with cancel fail_pending_inv [of d i t] show ?case by (auto simp: jobs_inv_def)
next
  case (reconcile i seen now d r d')
  with reconcile_starting_inv [of d i seen now] owned_reconcile [of d i seen now]
  show ?case by (auto simp: jobs_inv_def owned_def)
next
  case (report w rep d j changed d')
  have "owned (t_jobs d')"
    using upsert_report_rows [OF report(1)] report.prems
    by (auto simp: jobs_inv_def owned_def queue_active_def elim!: tbl_upd_rowE)
  with report upsert_report_inv [OF _ report(1)] show ?case by (simp add: jobs_inv_def)
next
  case (remove_worker w d r d')
  then have "t_jobs d' = tbl_del (\<lambda>j. j_worker j = Some w) (t_jobs d)" by (auto simp: delete_worker_def)
  with remove_worker.prems subset_inv [of "t_jobs d" "t_jobs d'"] pk_ok_del [of j_id "t_jobs d"] show ?case
    by (auto simp: jobs_inv_def owned_def tbl_del_def queue_inv_def)
qed simp

definition reachable :: "database \<Rightarrow> bool" where
  "reachable d = db_step\<^sup>*\<^sup>* empty_db d"

lemma reachable_jobs_inv: "reachable d \<Longrightarrow> jobs_inv (t_jobs d)"
  unfolding reachable_def
proof (induction rule: rtranclp_induct)
  case base
  show ?case using queue_inv_empty by (simp add: jobs_inv_def owned_def empty_db_def)
qed (rule db_step_jobs_inv)

end
