(* ===== verification/Queue_Spec.thy ===== *)
theory Queue_Spec
  imports Queue_Refine
begin

text \<open>
  The interface of the durable job queue and its interpretation on the SQL of \<open>db.py\<close>, and the
  properties of the queue that hold in every reachable state of the job table.
\<close>

section \<open>The interface\<close>

text \<open>
  \<open>pending w d\<close> is the queue of worker \<open>w\<close>, \<open>starting w d\<close> the launches of \<open>w\<close> whose outcome is
  not known yet.  The client of the interface is the recovery loop of the control service.
\<close>

locale fifo_queue =
  fixes inv :: "'d \<Rightarrow> bool"
    and pending :: "'w \<Rightarrow> 'd \<Rightarrow> 'i list"
    and starting :: "'w \<Rightarrow> 'd \<Rightarrow> 'i set"
    and enq :: "'j \<Rightarrow> 'd \<Rightarrow> 'd option"
    and jid :: "'j \<Rightarrow> 'i"
    and jworker :: "'j \<Rightarrow> 'w option"
    and requeue :: "'i \<Rightarrow> 'd \<Rightarrow> 'd"
    and cancel :: "'i \<Rightarrow> 'd \<Rightarrow> 'd option"
  assumes enq_inv: "inv d \<Longrightarrow> enq j d = Some d' \<Longrightarrow> inv d'"
    and enq_pending: "inv d \<Longrightarrow> enq j d = Some d' \<Longrightarrow>
      pending w d' = pending w d @ (if jworker j = Some w then [jid j] else [])"
    and requeue_inv: "inv d \<Longrightarrow> i \<in> starting v d \<Longrightarrow> inv (requeue i d)"
    and requeue_pending: "inv d \<Longrightarrow> i \<in> starting v d \<Longrightarrow>
      pending w (requeue i d) = (if w = v then i # pending w d else pending w d)"
    and requeue_starting: "inv d \<Longrightarrow> i \<in> starting v d \<Longrightarrow> starting w (requeue i d) = starting w d - {i}"
    and cancel_inv: "inv d \<Longrightarrow> cancel i d = Some d' \<Longrightarrow> inv d'"
    and cancel_pending: "inv d \<Longrightarrow> cancel i d = Some d' \<Longrightarrow> pending w d' = filter (\<lambda>x. x \<noteq> i) (pending w d)"
    and starting_unique: "inv d \<Longrightarrow> i \<in> starting v d \<Longrightarrow> i \<in> starting w d \<Longrightarrow> v = w"
begin

lemma enq_then_cancel:
  assumes "inv d" "enq j d = Some d'" "cancel (jid j) d' = Some d''" "jid j \<notin> set (pending w d)"
  shows "pending w d'' = pending w d"
proof -
  have "filter (\<lambda>x. x \<noteq> jid j) (pending w d) = pending w d"
    using assms(4) by (auto simp: filter_id_conv)
  then show ?thesis
    using cancel_pending [OF enq_inv [OF assms(1,2)] assms(3), of w] enq_pending [OF assms(1,2), of w] by simp
qed

lemma requeue_all:
  assumes "inv d" "distinct xs" "\<forall>i \<in> set xs. \<exists>v. i \<in> starting v d"
  shows "inv (fold requeue (rev xs) d) \<and>
    pending w (fold requeue (rev xs) d) = filter (\<lambda>i. i \<in> starting w d) xs @ pending w d \<and>
    starting w (fold requeue (rev xs) d) = starting w d - set xs"
  using assms
proof (induction xs arbitrary: w)
  case (Cons x xs)
  let ?d = "fold requeue (rev xs) d"
  have IH: "inv ?d" "\<And>v. pending v ?d = filter (\<lambda>i. i \<in> starting v d) xs @ pending v d"
    "\<And>v. starting v ?d = starting v d - set xs"
    using Cons by simp_all
  obtain v where v: "x \<in> starting v d" using Cons.prems(3) by auto
  with Cons.prems(2) IH(3) have xv: "x \<in> starting v ?d" by simp
  have eq: "x \<in> starting w d \<longleftrightarrow> w = v"
    using starting_unique [OF Cons.prems(1) v, of w] v by auto
  show ?case
    using requeue_inv [OF IH(1) xv] requeue_pending [OF IH(1) xv, of w]
      requeue_starting [OF IH(1) xv, of w] IH eq by auto
qed simp

end

section \<open>The SQL implements it\<close>

definition starting_ids :: "string \<Rightarrow> database \<Rightarrow> string set" where
  "starting_ids w d = j_id ` {j \<in> set (t_jobs d). j_queue_managed j \<and> j_worker j = Some w \<and> j_status j = STARTING}"

definition enqueue_db :: "job \<Rightarrow> database \<Rightarrow> database option" where
  "enqueue_db job d =
     (if j_worker job = None \<or> j_gpu_count job < 0 then None
      else case insert_queued_job job d of Inl _ \<Rightarrow> None | Inr (_, d') \<Rightarrow> Some d')"

definition cancel_db :: "int \<Rightarrow> string \<Rightarrow> database \<Rightarrow> database option" where
  "cancel_db t i d = (case fail_pending_job i t d of (None, _) \<Rightarrow> None | (Some _, d') \<Rightarrow> Some d')"

definition requeue_db :: "int \<Rightarrow> string \<Rightarrow> database \<Rightarrow> database" where
  "requeue_db now i d = snd (reconcile_starting_row i False now d)"

lemma starting_rowE:
  assumes "i \<in> starting_ids v d"
  obtains r where "r \<in> set (t_jobs d)" "j_id r = i" "j_status r = STARTING" "j_queue_managed r" "j_worker r = Some v"
  using assms by (auto simp: starting_ids_def)

lemma starting_ids_worker:
  assumes "pk_ok j_id (t_jobs d)" "i \<in> starting_ids v d" "i \<in> starting_ids w d"
  shows "v = w"
proof -
  obtain r where r: "r \<in> set (t_jobs d)" "j_id r = i" "j_worker r = Some v"
    using assms(2) by (rule starting_rowE)
  obtain q where q: "q \<in> set (t_jobs d)" "j_id q = i" "j_worker q = Some w"
    using assms(3) by (rule starting_rowE)
  have "r = q" using pk_ok_unique [OF assms(1) r(1) q(1)] r(2) q(2) by simp
  with r(3) q(3) show ?thesis by simp
qed

lemma requeue_db_starting:
  assumes pk: "pk_ok j_id (t_jobs d)" and i: "i \<in> starting_ids v d"
  shows "starting_ids w (requeue_db now i d) = starting_ids w d - {i}"
proof -
  obtain r where r: "r \<in> set (t_jobs d)" "j_id r = i" "j_status r = STARTING" "j_queue_managed r" "j_worker r = Some v"
    by (rule starting_rowE [OF i])
  have rows: "t_jobs (requeue_db now i d) = map (requeue_row i v) (t_jobs d)"
    using requeue_rows [OF pk r] by (simp add: requeue_db_def)
  let ?s = "\<lambda>j. j_queue_managed j \<and> j_worker j = Some w \<and> j_status j = STARTING"
  have s: "?s (requeue_row i v y) \<longleftrightarrow> ?s y \<and> j_id y \<noteq> i" for y
    by (auto simp: requeue_row_def pending_on_def)
  have "{j \<in> set (t_jobs (requeue_db now i d)). ?s j} = requeue_row i v ` {y \<in> set (t_jobs d). ?s (requeue_row i v y)}"
    unfolding rows set_map by blast
  also have "\<dots> = requeue_row i v ` {y \<in> set (t_jobs d). ?s y \<and> j_id y \<noteq> i}"
    by (simp only: s)
  finally show ?thesis by (auto simp: starting_ids_def image_image)
qed

lemma enqueue_dbD:
  "enqueue_db job d = Some d' \<Longrightarrow> j_worker job \<noteq> None \<and> 0 \<le> j_gpu_count job \<and> (\<exists>j. insert_queued_job job d = Inr (j, d'))"
  by (auto simp: enqueue_db_def split: if_splits sum.splits)

lemma cancel_dbD: "cancel_db t i d = Some d' \<Longrightarrow> \<exists>j. fail_pending_job i t d = (Some j, d')"
  by (auto simp: cancel_db_def split: prod.splits option.splits)

lemma jobs_inv_pk: "jobs_inv js \<Longrightarrow> pk_ok j_id js"
  by (simp add: jobs_inv_def queue_inv_def)

interpretation qf: fifo_queue "\<lambda>d. jobs_inv (t_jobs d)" "\<lambda>w d. pending_ids w (t_jobs d)" starting_ids
  enqueue_db j_id j_worker "requeue_db now" "cancel_db t" for now t
proof
  fix d d' :: database and j i w v
  assume inv: "jobs_inv (t_jobs d)"
  then have pk: "pk_ok j_id (t_jobs d)" and qi: "queue_inv (t_jobs d)"
    by (simp_all add: jobs_inv_def queue_inv_def)
  show "jobs_inv (t_jobs d')" if "enqueue_db j d = Some d'"
    using enqueue_dbD [OF that] db_step_jobs_inv [OF db_step.enqueue inv] by blast
  show "pending_ids w (t_jobs d') = pending_ids w (t_jobs d) @ (if j_worker j = Some w then [j_id j] else [])"
    if "enqueue_db j d = Some d'"
    using enqueue_dbD [OF that] insert_queued_job_pending [OF pk] by blast
  show "jobs_inv (t_jobs d')" if "cancel_db t i d = Some d'"
    using cancel_dbD [OF that] db_step_jobs_inv [OF db_step.cancel inv] by blast
  show "pending_ids w (t_jobs d') = filter (\<lambda>x. x \<noteq> i) (pending_ids w (t_jobs d))"
    if "cancel_db t i d = Some d'"
    using cancel_dbD [OF that] fail_pending_pending [OF pk] by blast
  show "jobs_inv (t_jobs (requeue_db now i d))"
    unfolding requeue_db_def
    by (rule db_step_jobs_inv [OF db_step.reconcile [of i False now d "fst (reconcile_starting_row i False now d)"] inv]) simp
  show "v = w" if "i \<in> starting_ids v d" "i \<in> starting_ids w d"
    by (rule starting_ids_worker [OF pk that])
  assume i: "i \<in> starting_ids v d"
  show "starting_ids w (requeue_db now i d) = starting_ids w d - {i}"
    by (rule requeue_db_starting [OF pk i])
  show "pending_ids w (t_jobs (requeue_db now i d)) =
      (if w = v then i # pending_ids w (t_jobs d) else pending_ids w (t_jobs d))"
    using starting_rowE [OF i] requeue_pending [OF qi] unfolding requeue_db_def by metis
qed

section \<open>Reachable samples\<close>

definition demo_job :: "string \<Rightarrow> int \<Rightarrow> job" where
  "demo_job i n = (new_job i)\<lparr>j_worker := Some ''w'', j_gpu_count := n\<rparr>"

definition demo1 :: database where
  "demo1 = snd (projr (insert_queued_job (demo_job ''a'' 1) empty_db))"

definition demo2 :: database where
  "demo2 = snd (projr (insert_queued_job (demo_job ''b'' 1) demo1))"

definition demo3 :: database where
  "demo3 = snd (claim_queued_job ''a'' [0] 5 ''w'' demo2)"

definition demo4 :: database where
  "demo4 = snd (claim_queued_job ''b'' [1] 6 ''w'' demo3)"

definition demo5 :: database where
  "demo5 = snd (projr (upsert_worker 10 demo_worker demo2))"

definition demo6 :: database where
  "demo6 = snd (projr (update_pending_job ''b'' (Some ''w'') (Some 1) None None (Some 2) demo5))"

lemma demo_enqueue:
  "insert_queued_job (demo_job ''a'' 1) empty_db = Inr (fst (projr (insert_queued_job (demo_job ''a'' 1) empty_db)), demo1)"
  "insert_queued_job (demo_job ''b'' 1) demo1 = Inr (fst (projr (insert_queued_job (demo_job ''b'' 1) demo1)), demo2)"
  by code_simp+

lemma demo_reachable: "reachable demo1" "reachable demo2" "reachable demo3" "reachable demo4"
proof -
  have w: "j_worker (demo_job i n) \<noteq> None" for i n by (simp add: demo_job_def)
  have n: "0 \<le> j_gpu_count (demo_job i 1)" for i by (simp add: demo_job_def)
  show 1: "reachable demo1"
    unfolding reachable_def by (rule r_into_rtranclp) (rule db_step.enqueue [OF demo_enqueue(1) w n])
  then show 2: "reachable demo2"
    unfolding reachable_def by (rule rtranclp.rtrancl_into_rtrancl) (rule db_step.enqueue [OF demo_enqueue(2) w n])
  have c3: "db_step demo2 demo3"
    by (rule db_step.claim [of "''a''" "[0]" 5 "''w''" demo2 "fst (claim_queued_job ''a'' [0] 5 ''w'' demo2)"])
      (simp_all add: demo3_def)
  from 2 c3 show 3: "reachable demo3"
    unfolding reachable_def by (rule rtranclp.rtrancl_into_rtrancl)
  have c4: "db_step demo3 demo4"
    by (rule db_step.claim [of "''b''" "[1]" 6 "''w''" demo3 "fst (claim_queued_job ''b'' [1] 6 ''w'' demo3)"])
      (simp_all add: demo4_def)
  from 3 c4 show "reachable demo4"
    unfolding reachable_def by (rule rtranclp.rtrancl_into_rtrancl)
qed

lemma demo5_reachable: "reachable demo5"
proof -
  obtain w d where "upsert_worker 10 demo_worker demo2 = Inr (w, d)" "t_jobs d = t_jobs demo2"
    by (rule upsert_worker_spec [of 10 demo_worker demo2])
  then have "db_step demo2 demo5"
    by (intro db_step.quiet) (simp add: demo5_def)
  with demo_reachable(2) show ?thesis
    unfolding reachable_def by (rule rtranclp.rtrancl_into_rtrancl)
qed

lemma demo5_move:
  "update_pending_job ''b'' (Some ''w'') (Some 1) None None (Some 2) demo5 =
     Inr (the (get_job ''b'' demo6), demo6)"
  by code_simp

section \<open>Properties of the queue\<close>

lemma distinct_concat_rows:
  "distinct (map key rows) \<Longrightarrow> (\<And>a. a \<in> set rows \<Longrightarrow> distinct (f a)) \<Longrightarrow>
   (\<And>a b. a \<in> set rows \<Longrightarrow> b \<in> set rows \<Longrightarrow> key a \<noteq> key b \<Longrightarrow> set (f a) \<inter> set (f b) = {}) \<Longrightarrow>
   distinct (concat (map f rows))"
proof (induction rows)
  case (Cons r rows)
  have "set (f r) \<inter> set (f b) = {}" if "b \<in> set rows" for b
    using Cons.prems(1,3) that by auto
  moreover have "distinct (concat (map f rows))" using Cons by simp
  ultimately show ?case using Cons.prems(2) by auto
qed simp

lemma reachable_gpus:
  assumes "reachable d"
  shows "distinct (running_queue_gpu_indices w d) \<and>
    (\<forall>j \<in> set (t_jobs d). claimed_on w j \<longrightarrow> int (length (j_gpus j)) = j_gpu_count j)"
proof
  have inv: "queue_inv (t_jobs d)"
    using reachable_jobs_inv [OF assms] by (simp add: jobs_inv_def)
  show "distinct (running_queue_gpu_indices w d)"
    unfolding running_queue_gpu_indices_def
  proof (rule distinct_concat_rows [where key = j_id])
    show "distinct (map j_id (filter (claimed_on w) (t_jobs d)))"
      using inv by (simp add: queue_inv_def pk_ok_def distinct_map_filter)
  qed (use inv in \<open>auto simp: queue_inv_def gpus_exclusive_def\<close>)
  show "\<forall>j \<in> set (t_jobs d). claimed_on w j \<longrightarrow> int (length (j_gpus j)) = j_gpu_count j"
    using inv unfolding queue_inv_def claims_sized_def by blast
qed

text \<open>
  C1.  GPU exclusivity: in every state the job table can reach, whatever the interleaving of
  enqueueing, claiming, moving, cancelling, finishing and recovery, the GPUs held by the claimed
  (starting or running) queue jobs of a worker are pairwise different, and each such job holds
  exactly as many GPUs as it asked for.
\<close>

theorem gpu_assignments_exclusive:
  assumes "reachable d"
  shows "distinct (running_queue_gpu_indices w d) \<and>
    (\<forall>j \<in> set (t_jobs d). claimed_on w j \<longrightarrow> int (length (j_gpus j)) = j_gpu_count j)"
  by (rule reachable_gpus [OF assms])

theorem gpu_assignments_exclusive_witness:
  "reachable demo4 \<and> running_queue_gpu_indices ''w'' demo4 = [0, 1] \<and>
   distinct (running_queue_gpu_indices ''w'' demo4)"
proof -
  have "running_queue_gpu_indices ''w'' demo4 = [0, 1]" by code_simp
  with demo_reachable(4) gpu_assignments_exclusive [OF demo_reachable(4), of "''w''"] show ?thesis by blast
qed

text \<open>
  Enqueueing appends: a job that is enqueued on a worker stands last in that worker's
  pending queue, the jobs before it keep their order and the queues of the other workers are
  unchanged.
\<close>

theorem enqueue_appends:
  assumes "reachable d" and "insert_queued_job job d = Inr (j, d')" and "j_worker job = Some v"
  shows "pending_ids w (t_jobs d') = pending_ids w (t_jobs d) @ (if w = v then [j_id job] else [])"
  using insert_queued_job_pending [OF jobs_inv_pk [OF reachable_jobs_inv [OF assms(1)]] assms(2), of w] assms(3)
  by auto

theorem enqueue_appends_witness:
  "pending_ids ''w'' (t_jobs demo2) = pending_ids ''w'' (t_jobs demo1) @ [''b'']"
  using enqueue_appends [OF demo_reachable(1) demo_enqueue(2), of "''w''" "''w''"]
  by (simp add: demo_job_def new_job_def)

text \<open>
  C4.  No bypass: a claim succeeds only for the head of the worker's pending queue, with as many
  GPUs as the job asks for and none that a claimed job of the worker holds; it takes exactly the
  head off the queue and leaves the other queues alone.  A claim that fails changes nothing.
\<close>

theorem claim_takes_head:
  assumes "reachable d"
  shows "case claim_queued_job i gpus t wid d of
      (None, d') \<Rightarrow> d' = d
    | (Some j, d') \<Rightarrow>
        pending_ids wid (t_jobs d) = i # pending_ids wid (t_jobs d') \<and>
        (\<forall>w. w = wid \<or> pending_ids w (t_jobs d') = pending_ids w (t_jobs d)) \<and>
        j_status j = STARTING \<and> j_gpus j = gpus \<and> j_gpu_count j = int (length gpus) \<and>
        set gpus \<inter> set (running_queue_gpu_indices wid d) = {}"
proof -
  have pk: "pk_ok j_id (t_jobs d)"
    by (rule jobs_inv_pk [OF reachable_jobs_inv [OF assms]])
  show ?thesis
  proof (cases "claim_queued_job i gpus t wid d")
    case (Pair r d')
    show ?thesis
    proof (cases r)
      case None
      with Pair claim_None show ?thesis by simp
    next
      case (Some j)
      with Pair have c: "claim_queued_job i gpus t wid d = (Some j, d')" by simp
      have p: "pending_ids w (t_jobs d') =
          (if w = wid then tl (pending_ids w (t_jobs d)) else pending_ids w (t_jobs d))" for w
        by (rule claim_pending [OF pk c])
      from claim_Some [OF pk c] p c show ?thesis
        by (auto simp: running_queue_gpu_indices_def)
    qed
  qed
qed

theorem claim_takes_head_witness:
  "reachable demo2 \<and> pending_ids ''w'' (t_jobs demo2) = [''a'', ''b''] \<and>
   pending_ids ''w'' (t_jobs demo3) = [''b'']"
proof -
  obtain j where c: "claim_queued_job ''a'' [0] 5 ''w'' demo2 = (Some j, demo3)"
  proof
    show "claim_queued_job ''a'' [0] 5 ''w'' demo2 = (Some (the (fst (claim_queued_job ''a'' [0] 5 ''w'' demo2))), demo3)"
      by code_simp
  qed
  have "pending_ids ''w'' (t_jobs demo2) = ''a'' # pending_ids ''w'' (t_jobs demo3)"
    using claim_takes_head [OF demo_reachable(2), where i = "''a''" and gpus = "[0]" and t = 5 and wid = "''w''"]
    unfolding c prod.case option.case by blast
  moreover have "pending_ids ''w'' (t_jobs demo2) = [''a'', ''b'']" by code_simp
  ultimately show ?thesis using demo_reachable(2) by simp
qed



text \<open>
  Moving a pending job: after a successful update the job stands in the destination worker's
  queue at the position asked for (counted from one, at the end if the position is larger), or,
  without a position, where it was or at the end of another worker's queue.  Every other job
  keeps its relative order, the destination worker exists and has the capacity.
\<close>

theorem update_moves_to_position:
  assumes "reachable d"
    and "update_pending_job i wid position name expected gpu_count d = Inr (j, d')"
    and "get_job i d = Some row" and "destination = (case wid of None \<Rightarrow> the (j_worker row) | Some w \<Rightarrow> w)"
    and "others = filter (\<lambda>x. x \<noteq> i) (pending_ids destination (t_jobs d))"
  shows "(\<forall>w. w = destination \<or> pending_ids w (t_jobs d') = filter (\<lambda>x. x \<noteq> i) (pending_ids w (t_jobs d))) \<and>
    (case position of
       Some p \<Rightarrow> 1 \<le> p \<longrightarrow> pending_ids destination (t_jobs d') =
         take (nat (p - 1)) others @ i # drop (nat (p - 1)) others
     | None \<Rightarrow> pending_ids destination (t_jobs d') =
         (if j_worker row = Some destination then pending_ids destination (t_jobs d) else others @ [i])) \<and>
    (\<exists>target. get_worker destination d = Some target \<and>
       (case gpu_count of None \<Rightarrow> j_gpu_count row | Some n \<Rightarrow> n) \<le> w_gpu_count target)"
proof -
  have pk: "pk_ok j_id (t_jobs d)"
    by (rule jobs_inv_pk [OF reachable_jobs_inv [OF assms(1)]])
  obtain r wd target where r: "r \<in> set (t_jobs d)" "j_id r = i" "j_queue_managed r" "j_status r = PENDING"
    and wd: "(case wid of None \<Rightarrow> j_worker r | Some w \<Rightarrow> Some w) = Some wd" "get_worker wd d = Some target"
    and cap: "(case gpu_count of None \<Rightarrow> j_gpu_count r | Some n \<Rightarrow> n) \<le> w_gpu_count target"
    and d': "t_jobs d' = move_pending i r (Some wd) name expected gpu_count
      (case j_worker r of None \<Rightarrow> [] | Some v \<Rightarrow> filter (\<lambda>x. x \<noteq> i) (pending_ids v (t_jobs d)))
      (case position of
         None \<Rightarrow> if j_worker r = Some wd then pending_ids wd (t_jobs d) else pending_ids wd (t_jobs d) @ [i]
       | Some p \<Rightarrow> list_insert (queue_position p (filter (\<lambda>x. x \<noteq> i) (pending_ids wd (t_jobs d)))) i
           (filter (\<lambda>x. x \<noteq> i) (pending_ids wd (t_jobs d)))) (t_jobs d)"
    using update_pending_job_Inr [OF pk assms(2)] by auto
  have row: "row = r" using pk_ok_get [OF pk r(1)] r(2) assms(3) by (simp add: get_job_def)
  have dest: "destination = wd" using assms(4) wd(1) row by (cases wid) auto
  have mem: "i \<in> set (pending_ids wd (t_jobs d)) \<longleftrightarrow> j_worker r = Some wd"
  proof
    assume "i \<in> set (pending_ids wd (t_jobs d))"
    then obtain q where q: "q \<in> set (t_jobs d)" "j_id q = i" "j_worker q = Some wd"
      unfolding set_pending_ids by (auto simp: pending_on_def)
    have "q = r" using pk_ok_unique [OF pk q(1) r(1)] q(2) r(2) by simp
    with q(3) show "j_worker r = Some wd" by simp
  next
    assume "j_worker r = Some wd"
    with r show "i \<in> set (pending_ids wd (t_jobs d))"
      unfolding set_pending_ids by (auto simp: pending_on_def)
  qed
  let ?o = "filter (\<lambda>x. x \<noteq> i) (pending_ids wd (t_jobs d))"
  have slot: "\<exists>slot. (case position of
         None \<Rightarrow> if j_worker r = Some wd then pending_ids wd (t_jobs d) else pending_ids wd (t_jobs d) @ [i]
       | Some p \<Rightarrow> list_insert (queue_position p ?o) i ?o) = list_insert slot i ?o"
  proof (cases position)
    case None
    then show ?thesis
      using mem list_insert_index_of [OF distinct_pending_ids [OF pk, of wd], of i]
        filter_absent [of i "pending_ids wd (t_jobs d)"]
      by (cases "j_worker r = Some wd")
        (auto intro: exI [of _ "index_of i (pending_ids wd (t_jobs d))"] exI [of _ "length ?o"] simp: list_insert_def)
  qed auto
  then obtain k where k: "(case position of
         None \<Rightarrow> if j_worker r = Some wd then pending_ids wd (t_jobs d) else pending_ids wd (t_jobs d) @ [i]
       | Some p \<Rightarrow> list_insert (queue_position p ?o) i ?o) = list_insert k i ?o" by blast
  have ids: "pending_ids w (t_jobs d') = (if w = wd then list_insert k i ?o
      else filter (\<lambda>x. x \<noteq> i) (pending_ids w (t_jobs d)))" for w
    unfolding d' k by (rule move_pending_ids [OF pk r]) simp_all
  have pos: "list_insert (queue_position p ?o) i ?o = take (nat (p - 1)) ?o @ i # drop (nat (p - 1)) ?o"
    if "1 \<le> p" for p
    using that by (cases "p - 1 \<le> int (length ?o)") (auto simp: queue_position_def list_insert_def min_def)
  show ?thesis
    unfolding dest assms(5) row
    using ids k pos cap wd(2) filter_absent [of i "pending_ids wd (t_jobs d)"] mem
    by (cases position) auto
qed

theorem update_moves_to_position_witness:
  "reachable demo5 \<and> pending_ids ''w'' (t_jobs demo5) = [''a'', ''b''] \<and>
   pending_ids ''w'' (t_jobs demo6) = [''b'', ''a'']"
proof -
  have q: "pending_ids ''w'' (t_jobs demo5) = [''a'', ''b'']" by code_simp
  have r: "get_job ''b'' demo5 = Some (the (get_job ''b'' demo5))" by code_simp
  show ?thesis
    using update_moves_to_position [OF demo5_reachable demo5_move r, where destination = "''w''"] q demo5_reachable
    by simp
qed

end
