(* ===== verification/Jobs.thy ===== *)
theory Jobs
  imports Ssh Queue_Spec
begin

text \<open>
  \<open>JobManager\<close> of \<open>job.py\<close> and the reconciliation loops of \<open>heartbeat.py\<close>: launching, the GPU
  dispatcher, recovery of interrupted launches, stopping and refreshing jobs.  A manager call
  holds the dispatch lock of its worker, so calls on one worker do not interleave.
\<close>

section \<open>Free GPUs\<close>

definition gpu_is_free :: "worker \<Rightarrow> nat \<Rightarrow> bool" where
  "gpu_is_free v i =
     (case (if i < length (w_gpu_busy v) then w_gpu_busy v ! i else None) of
        Some busy \<Rightarrow> \<not> busy
      | None \<Rightarrow> i < length (w_gpu_vram v) \<and> i < length (w_gpu_used v) \<and>
          w_gpu_used v ! i \<le> max (1 / 2) (w_gpu_vram v ! i * (1 / 10)))"

definition free_gpu_indices :: "worker \<Rightarrow> int list" where
  "free_gpu_indices v =
     (if w_status v \<noteq> ONLINE then []
      else map int (filter (gpu_is_free v) [0..<nat (w_gpu_count v)]))"

section \<open>Launching\<close>

definition launch_job :: "worker \<Rightarrow> job \<Rightarrow> job act" where
  "launch_job v job =
     bnd (ssh_tmux_new v (j_id job) (j_command job) (if j_queue_managed job then Some (j_gpus job) else None))
     (\<lambda>r. if sr_rc r < 0 \<or> sr_rc r = 255 then ret job
          else if sr_rc r \<noteq> 0 then
            bnd now (\<lambda>t. let j = job\<lparr>j_status := FAILED, j_exit_code := Some (- 1), j_finished := t\<rparr>
                          in seq (modify (update_job j)) (ret j))
          else (let j = job\<lparr>j_status := RUNNING\<rparr> in seq (modify (update_job j)) (ret j)))"

definition start_job :: "worker \<Rightarrow> string \<Rightarrow> string option \<Rightarrow> bool \<Rightarrow> job act" where
  "start_job v command name pty =
     bnd uuid4 (\<lambda>i. bnd now (\<lambda>t.
       let job = (new_job i)\<lparr>j_worker := Some (w_id v), j_name := (case name of None \<Rightarrow> '''' | Some n \<Rightarrow> n),
                  j_command := command, j_status := STARTING, j_pty := pty, j_started := t,
                  j_tmux := ''wh_'' @ i\<rparr>
       in seq (db_put (insert_job job)) (launch_job v job)))"

section \<open>The dispatcher\<close>

text \<open>\<open>xs[:n]\<close>\<close>

definition py_prefix :: "int \<Rightarrow> 'a list \<Rightarrow> 'a list" where
  "py_prefix n xs = (if n \<ge> 0 then take (nat n) xs else take (length xs - nat (- n)) xs)"

definition queue_head :: "string \<Rightarrow> database \<Rightarrow> job option" where
  "queue_head wid d = find (\<lambda>j. j_status j = PENDING) (list_queued_jobs (Some wid) d)"

definition unclaimed_gpus :: "int list \<Rightarrow> string \<Rightarrow> database \<Rightarrow> int list" where
  "unclaimed_gpus available wid d = filter (\<lambda>i. i \<notin> set (running_queue_gpu_indices wid d)) available"

text \<open>The loop of \<open>dispatch_worker\<close>; \<open>claim_queued_job\<close> answering None is the \<open>continue\<close>.\<close>

partial_function (option) dispatch_loop ::
  "worker \<Rightarrow> int list \<Rightarrow> job list \<Rightarrow> env \<Rightarrow> world \<Rightarrow> (job list res \<times> world) option" where
  "dispatch_loop v available launched e w =
     (let free = unclaimed_gpus available (w_id v) (wd_db w)
      in case queue_head (w_id v) (wd_db w) of
           None \<Rightarrow> Some (Inr launched, w)
         | Some head \<Rightarrow>
           if j_gpu_count head > int (length free) then Some (Inr launched, w)
           else (let w1 = w\<lparr>wd_ticks := Suc (wd_ticks w)\<rparr>
                 in case claim_queued_job (j_id head) (py_prefix (j_gpu_count head) free)
                           (o_clock e (wd_ticks w)) (w_id v) (wd_db w) of
                      (None, d) \<Rightarrow> dispatch_loop v available launched e (w1\<lparr>wd_db := d\<rparr>)
                    | (Some claimed, d) \<Rightarrow>
                      (case launch_job v claimed e (w1\<lparr>wd_db := d\<rparr>) of
                         None \<Rightarrow> None
                       | Some (Inl err, w2) \<Rightarrow> Some (Inl err, w2)
                       | Some (Inr job, w2) \<Rightarrow> dispatch_loop v available (launched @ [job]) e w2)))"

definition dispatch_worker :: "worker \<Rightarrow> job list act" where
  "dispatch_worker v =
     (if w_status v \<noteq> ONLINE then ret [] else dispatch_loop v (free_gpu_indices v) [])"

definition enqueue_job :: "worker \<Rightarrow> string \<Rightarrow> string \<Rightarrow> int \<Rightarrow> int \<Rightarrow> bool \<Rightarrow> job act" where
  "enqueue_job v command name expected gpu_count pty =
     bnd uuid4 (\<lambda>i.
       let job = (new_job i)\<lparr>j_worker := Some (w_id v), j_name := name, j_command := command,
                  j_status := PENDING, j_queue_managed := True, j_expected := expected,
                  j_gpu_count := gpu_count, j_pty := pty, j_tmux := ''wh_'' @ i\<rparr>
       in seq (db_try (insert_queued_job job))
         (seq (dispatch_worker v)
           (bnd (ask (get_job i)) (\<lambda>p. case p of
              None \<Rightarrow> raise_err (RuntimeErr ''queued job disappeared after enqueue'')
            | Some j \<Rightarrow> ret j))))"

section \<open>Recovery, stopping, refreshing\<close>

definition reconcile_starting_job :: "worker \<Rightarrow> job \<Rightarrow> job act" where
  "reconcile_starting_job v job =
     bnd (ask (get_job (j_id job))) (\<lambda>p. case p of
       None \<Rightarrow> ret job
     | Some persisted \<Rightarrow>
       if j_status persisted \<noteq> STARTING then ret persisted
       else bnd (ssh_job_started v (j_id job)) (\<lambda>exists. case exists of
         None \<Rightarrow> ret persisted
       | Some observed \<Rightarrow>
         bnd now (\<lambda>t. bnd (db_call (reconcile_starting_row (j_id job) observed t)) (\<lambda>r.
           ret (case r of None \<Rightarrow> persisted | Some j \<Rightarrow> j)))))"

definition job_active :: "job \<Rightarrow> bool" where
  "job_active j = (j_status j \<in> {STARTING, RUNNING, PENDING})"

definition stop_job :: "worker \<Rightarrow> string \<Rightarrow> bool act" where
  "stop_job v i =
     bnd (ask (get_job i)) (\<lambda>job.
       if (case job of None \<Rightarrow> False | Some j \<Rightarrow> j_worker j \<noteq> Some (w_id v)) then ret False
       else if (case job of None \<Rightarrow> False | Some j \<Rightarrow> j_status j \<in> {DONE, FAILED}) then ret True
       else if (case job of None \<Rightarrow> False | Some j \<Rightarrow> j_queue_managed j \<and> j_status j = PENDING) then
         bnd now (\<lambda>t. bnd (db_call (fail_pending_job i t)) (\<lambda>stopped.
           if stopped \<noteq> None then seq (dispatch_worker v) (ret True) else ret False))
       else
         bnd (ssh_tmux_kill v i) (\<lambda>r.
           if sr_rc r = 0 \<and> strip (sr_out r) \<in> {'''', ''stopped''} then
             bnd (ask (get_job i)) (\<lambda>job. case job of
               None \<Rightarrow> ret True
             | Some j \<Rightarrow>
               if job_active j then
                 bnd now (\<lambda>t. seq (modify (update_job (j\<lparr>j_status := FAILED, j_exit_code := Some (- 1), j_finished := t\<rparr>)))
                   (if j_queue_managed j then seq (dispatch_worker v) (ret True) else ret True))
               else ret True)
           else ret False))"

definition record_failure :: "worker \<Rightarrow> job \<Rightarrow> unit act" where
  "record_failure v job =
     bnd (ssh_read_log v (j_id job) (Some 1) None) (\<lambda>out.
       let summary = take 200 (replace_char (CHR 10) '' '' (strip out))
       in bnd now (\<lambda>t. modify (insert_failure
            \<lparr>f_id = 0, f_job = j_id job, f_worker = w_id v,
             f_exit = (case j_exit_code job of None \<Rightarrow> - 1 | Some c \<Rightarrow> if c = 0 then - 1 else c),
             f_time = t, f_summary = summary\<rparr>)))"

definition refresh_job_status :: "worker \<Rightarrow> job \<Rightarrow> job act" where
  "refresh_job_status v job =
     bnd (ask (get_job (j_id job))) (\<lambda>p. case p of
       None \<Rightarrow> ret job
     | Some j \<Rightarrow>
       if j_worker j \<noteq> Some (w_id v) then ret j
       else if j_status j \<notin> {RUNNING, PENDING} then ret j
       else if j_queue_managed j \<and> j_status j = PENDING then ret j
       else bnd (ssh_tmux_running v (j_id j)) (\<lambda>running.
         if running = None \<or> running = Some True then ret j
         else bnd (ssh_get_exit_code v (j_id j)) (\<lambda>code. case code of
           None \<Rightarrow> ret j
         | Some c \<Rightarrow>
           bnd now (\<lambda>t.
             let j' = j\<lparr>j_status := (if c \<noteq> 0 then FAILED else DONE), j_exit_code := Some c, j_finished := t\<rparr>
             in seq (modify (update_job j'))
               (seq (whenever (j_status j' = FAILED) (record_failure v j'))
                 (if j_queue_managed j' then seq (dispatch_worker v) (ret j') else ret j'))))))"

section \<open>The reconciliation loops\<close>

text \<open>
  One iteration of \<open>_job_reconciler\<close>.  The four coroutines of \<open>reconcile_active_ssh_jobs\<close> take
  their jobs from one iterator; they are modelled one job after the other.
\<close>

definition worker_by_id :: "worker list \<Rightarrow> string \<Rightarrow> worker option" where
  "worker_by_id vs i = find (\<lambda>v. w_id v = i) (rev vs)"

definition reconcile_active_ssh_jobs :: "unit act" where
  "reconcile_active_ssh_jobs =
     bnd (ask (\<lambda>d. filter (\<lambda>j. j_kind j = SSH \<and>
           (j_status j = RUNNING \<or> (j_status j = PENDING \<and> \<not> j_queue_managed j))) (list_jobs None None None d))) (\<lambda>jobs.
     bnd (ask list_workers) (\<lambda>vs.
       each (\<lambda>j. case worker_by_id vs (case j_worker j of None \<Rightarrow> '''' | Some i \<Rightarrow> i) of
               None \<Rightarrow> ret ()
             | Some v \<Rightarrow> catch (seq (refresh_job_status v j) (ret ())) (\<lambda>_. ret ())) jobs))"

definition reconcile_queued_jobs :: "unit act" where
  "reconcile_queued_jobs =
     bnd (ask (\<lambda>d. filter (\<lambda>v. w_status v = ONLINE) (list_workers d))) (\<lambda>vs.
     bnd (ask (\<lambda>d. filter (\<lambda>j. j_kind j = SSH \<and>
           (case j_worker j of None \<Rightarrow> False | Some i \<Rightarrow> worker_by_id vs i \<noteq> None))
           (list_jobs None (Some STARTING) None d))) (\<lambda>starting.
       seq
         (each (\<lambda>j. case worker_by_id vs (case j_worker j of None \<Rightarrow> '''' | Some i \<Rightarrow> i) of
               None \<Rightarrow> ret ()
             | Some v \<Rightarrow> catch (seq (reconcile_starting_job v j) (ret ())) (\<lambda>_. ret ()))
           (rev (sort_key (\<lambda>j. (j_started j, j_order j, j_id j)) starting)))
         (each (\<lambda>v. catch (seq (dispatch_worker v) (ret ())) (\<lambda>_. ret ())) vs)))"

section \<open>The head of the queue\<close>

lemma sort_key_iso:
  assumes "\<And>x y. x \<in> set xs \<Longrightarrow> y \<in> set xs \<Longrightarrow> (f x \<le> f y) = (g x \<le> g y)"
  shows "sort_key f xs = sort_key g xs"
  using assms
proof (induction xs)
  case (Cons x xs)
  have ins: "insort_key f x ys = insort_key g x ys" if "set ys \<subseteq> set (x # xs)" for ys
    using that Cons.prems by (induction ys) auto
  have "sort_key f xs = sort_key g xs" using Cons by simp
  then show ?case using ins [of "sort_key g xs"] by auto
qed simp

lemma find_hd_filter: "find p xs = (case filter p xs of [] \<Rightarrow> None | x # _ \<Rightarrow> Some x)"
  by (induction xs) auto

lemma queue_head_pending:
  "queue_head wid d = (case sort_key (\<lambda>j. (j_order j, j_id j)) (filter (pending_on wid) (t_jobs d)) of
     [] \<Rightarrow> None | j # _ \<Rightarrow> Some j)"
proof -
  let ?K = "\<lambda>j. (j_worker j, status_rank (j_status j),
                    if j_status j = PENDING then j_order j else j_started j, j_order j, j_id j)"
  have f: "filter (\<lambda>j. queue_active j \<and> j_worker j = Some wid \<and> j_status j = PENDING) (t_jobs d) =
      filter (pending_on wid) (t_jobs d)"
    by (auto simp: pending_on_def queue_active_def intro!: filter_cong)
  have "filter (\<lambda>j. j_status j = PENDING) (list_queued_jobs (Some wid) d) = sort_key ?K (filter (pending_on wid) (t_jobs d))"
    by (simp add: list_queued_jobs_def filter_sort_key f)
  also have "\<dots> = sort_key (\<lambda>j. (j_order j, j_id j)) (filter (pending_on wid) (t_jobs d))"
    by (rule sort_key_iso) (auto simp: pending_on_def)
  finally show ?thesis
    by (simp add: queue_head_def find_hd_filter)
qed

lemma queue_head_ids:
  "map_option j_id (queue_head wid d) = (case pending_ids wid (t_jobs d) of [] \<Rightarrow> None | i # _ \<Rightarrow> Some i)"
  by (simp add: queue_head_pending pending_ids_def split: list.split)

lemma queue_head_row: "queue_head wid d = Some j \<Longrightarrow> j \<in> set (t_jobs d) \<and> pending_on wid j"
proof -
  assume "queue_head wid d = Some j"
  then obtain ys where "sort_key (\<lambda>j. (j_order j, j_id j)) (filter (pending_on wid) (t_jobs d)) = j # ys"
    by (auto simp: queue_head_pending split: list.splits)
  then have "j \<in> set (sort_key (\<lambda>j. (j_order j, j_id j)) (filter (pending_on wid) (t_jobs d)))"
    by (simp only: list.set_intros)
  then show ?thesis by simp
qed

lemma queue_head_None: "queue_head wid d = None \<longleftrightarrow> pending_ids wid (t_jobs d) = []"
  using queue_head_ids [of wid d] by (cases "queue_head wid d") (auto split: list.splits)

section \<open>What a launch does\<close>

lemma update_job_quiet:
  assumes "pk_ok j_id (t_jobs d)" "get_job (j_id new) d = Some old" "\<not> q old" "\<not> q new"
  shows "filter q (t_jobs (update_job new d)) = filter q (t_jobs d)"
proof -
  have old: "old \<in> set (t_jobs d)" "j_id old = j_id new"
    using assms(2) by (auto simp: get_job_def dest: tbl_get_in tbl_get_key)
  have "y = old" if "y \<in> set (t_jobs d)" "j_id y = j_id new" for y
    using pk_ok_unique [OF assms(1) that(1) old(1)] that(2) old(2) by simp
  then have "\<forall>y \<in> set (t_jobs d). j_id y = j_id new \<longrightarrow> \<not> q y" using assms(3) by blast
  then have "filter q (tbl_upd (\<lambda>r. j_id r = j_id new) (\<lambda>_. new) rows) = filter q rows"
    if "set rows \<subseteq> set (t_jobs d)" for rows
    using that assms(4) by (induction rows) auto
  then show ?thesis by (simp add: update_job_def)
qed

lemma pending_ids_same_rows: "filter (pending_on w) xs = filter (pending_on w) ys \<Longrightarrow> pending_ids w xs = pending_ids w ys"
  by (simp add: pending_ids_def)

lemma reachable_step: "reachable d \<Longrightarrow> db_step d d' \<Longrightarrow> reachable d'"
  unfolding reachable_def by (rule rtranclp.rtrancl_into_rtrancl)

lemma reachable_pk: "reachable d \<Longrightarrow> pk_ok j_id (t_jobs d)"
  by (rule jobs_inv_pk [OF reachable_jobs_inv])

text \<open>The result of a launch of a job that is recorded as starting: the outcome of \<open>ssh_tmux_new\<close>
  decides, and an unknown outcome changes nothing.\<close>

definition launch_outcome :: "job \<Rightarrow> job \<Rightarrow> bool" where
  "launch_outcome job j = (j = job\<lparr>j_status := RUNNING\<rparr> \<or>
     (\<exists>t. j = job\<lparr>j_status := FAILED, j_exit_code := Some (- 1), j_finished := t\<rparr>))"

lemma launch_job_cases:
  assumes "launch_job v job e w = Some (r, w')"
  obtains "r = Inr job" "wd_db w' = wd_db w"
  | err where "r = Inl err" "wd_db w' = wd_db w"
  | j where "r = Inr j" "wd_db w' = update_job j (wd_db w)" "launch_outcome job j"
proof -
  have "(r = Inr job \<and> wd_db w' = wd_db w) \<or> (\<exists>err. r = Inl err \<and> wd_db w' = wd_db w) \<or>
    (\<exists>j. r = Inr j \<and> wd_db w' = update_job j (wd_db w) \<and> launch_outcome job j)"
  proof -
  obtain r1 w1 where s: "ssh_tmux_new v (j_id job) (j_command job)
      (if j_queue_managed job then Some (j_gpus job) else None) e w = Some (r1, w1)"
    using assms by (auto simp: launch_job_def bnd_Some)
  have db: "wd_db w1 = wd_db w" by (rule db_unchangedD [OF ssh_db_unchanged(1) s])
  show ?thesis
  proof (cases r1)
    case (Inl err)
    with assms s db show ?thesis by (auto simp: launch_job_def bnd_def)
  next
    case (Inr res)
    with assms s db show ?thesis
      by (auto simp: launch_job_def launch_outcome_def bnd_def seq_def act_defs split: if_splits)
  qed
  qed
  then show thesis using that by blast
qed

lemma launch_job_returns: "launch_job v job e w \<noteq> None"
proof -
  have "returns (launch_job v job)"
    unfolding launch_job_def Let_def by (intro returns_intros)
  then show ?thesis by (simp add: returns_def)
qed

lemma launch_job_keeps:
  assumes "launch_job v job e w = Some (r, w')" "reachable (wd_db w)"
    and g: "get_job (j_id job) (wd_db w) = Some job" and st: "j_status job = STARTING"
  shows "reachable (wd_db w')"
    and "\<And>u. filter (pending_on u) (t_jobs (wd_db w')) = filter (pending_on u) (t_jobs (wd_db w))"
    and "\<And>j. r = Inr j \<Longrightarrow> j_id j = j_id job"
proof -
  have pk: "pk_ok j_id (t_jobs (wd_db w))" by (rule reachable_pk [OF assms(2)])
  have up: "reachable (update_job j (wd_db w)) \<and>
      filter (pending_on u) (t_jobs (update_job j (wd_db w))) = filter (pending_on u) (t_jobs (wd_db w)) \<and> j_id j = j_id job"
    if "launch_outcome job j" for j u
  proof -
    have i: "j_id j = j_id job" using that by (auto simp: launch_outcome_def)
    have np: "\<not> pending_on u j" "\<not> pending_on u job" using that st by (auto simp: launch_outcome_def pending_on_def)
    have "lifecycle job j"
      using that unfolding launch_outcome_def
    proof
      assume "j = job\<lparr>j_status := RUNNING\<rparr>"
      then have "j = job\<lparr>j_status := RUNNING, j_exit_code := j_exit_code job, j_finished := j_finished job\<rparr>" by simp
      with st show ?thesis unfolding lifecycle_def by blast
    qed (auto simp: lifecycle_def)
    then have "db_step (wd_db w) (update_job j (wd_db w))"
      using g i by (intro db_step.outcome) simp_all
    then have "reachable (update_job j (wd_db w))" by (rule reachable_step [OF assms(2)])
    moreover have "get_job (j_id j) (wd_db w) = Some job" using g i by simp
    then have "filter (pending_on u) (t_jobs (update_job j (wd_db w))) = filter (pending_on u) (t_jobs (wd_db w))"
      by (rule update_job_quiet [OF pk _ np(2,1)])
    ultimately show ?thesis using i by blast
  qed
  have "reachable (wd_db w') \<and>
    (\<forall>u. filter (pending_on u) (t_jobs (wd_db w')) = filter (pending_on u) (t_jobs (wd_db w))) \<and>
    (\<forall>j. r = Inr j \<longrightarrow> j_id j = j_id job)"
    using assms(1)
  proof (cases rule: launch_job_cases)
    case (3 j)
    show ?thesis unfolding 3(2) using up [OF 3(3)] 3(1) by blast
  qed (use assms(2) in simp_all)
  then show "reachable (wd_db w')"
    "\<And>u. filter (pending_on u) (t_jobs (wd_db w')) = filter (pending_on u) (t_jobs (wd_db w))"
    "\<And>j. r = Inr j \<Longrightarrow> j_id j = j_id job"
    by blast+
qed

section \<open>The dispatch loop\<close>

lemma reachable_counts: "reachable d \<Longrightarrow> j \<in> set (t_jobs d) \<Longrightarrow> pending_on wid j \<Longrightarrow> 0 \<le> j_gpu_count j"
  using reachable_jobs_inv [of d] by (auto simp: jobs_inv_def owned_def queue_active_def pending_on_def)

lemma set_running_gpus:
  "g \<in> set (running_queue_gpu_indices wid d) \<longleftrightarrow> (\<exists>a \<in> set (t_jobs d). claimed_on wid a \<and> g \<in> set (j_gpus a))"
  by (auto simp: running_queue_gpu_indices_def)

text \<open>In a reachable state the claim of the dispatcher succeeds.\<close>

lemma dispatcher_claims:
  assumes r: "reachable d" and h: "queue_head wid d = Some head"
    and n: "0 \<le> j_gpu_count head" "j_gpu_count head \<le> int (length (unclaimed_gpus available wid d))"
    and dist: "distinct available"
  defines "gpus \<equiv> py_prefix (j_gpu_count head) (unclaimed_gpus available wid d)"
  obtains c d' where "claim_queued_job (j_id head) gpus t wid d = (Some c, d')"
    and "reachable d'" "get_job (j_id c) d' = Some c" "j_id c = j_id head" "j_status c = STARTING"
    and "pending_ids wid (t_jobs d) = j_id head # pending_ids wid (t_jobs d')"
proof -
  have pk: "pk_ok j_id (t_jobs d)" by (rule reachable_pk [OF r])
  have row: "head \<in> set (t_jobs d)" "pending_on wid head" using queue_head_row [OF h] by simp_all
  have len: "j_gpu_count head = int (length gpus)" and dg: "distinct gpus"
    using n dist by (simp_all add: gpus_def py_prefix_def unclaimed_gpus_def)
  have free: "g \<notin> set (j_gpus a)" if "a \<in> set (t_jobs d)" "claimed_on wid a" "g \<in> set gpus" for a g
    using that n(1) set_running_gpus [of g wid d]
    by (auto simp: gpus_def py_prefix_def unclaimed_gpus_def dest: in_set_takeD)
  have hd: "\<exists>is. pending_ids wid (t_jobs d) = j_id head # is"
    using queue_head_ids [of wid d] h by (auto split: list.splits)
  have "claimable (t_jobs d) (j_id head) gpus wid head"
    using row(2) len hd free by (fastforce simp: claimable_def list_ex_iff)
  then have rc: "rowcount (claimable (t_jobs d) (j_id head) gpus wid) (t_jobs d) \<noteq> 0"
    using row(1) by (auto simp: rowcount_0_iff)
  then have "fst (claim_queued_job (j_id head) gpus t wid d) \<noteq> None"
    using claim_get [OF rc, of t] by (simp add: claim_queued_job_def Let_def)
  then obtain c d' where cl: "claim_queued_job (j_id head) gpus t wid d = (Some c, d')"
    by (metis option.exhaust prod.collapse)
  obtain rr rest where C: "rr \<in> set (t_jobs d)" "j_id rr = j_id head" "pending_on wid rr"
    "pending_ids wid (t_jobs d) = j_id head # rest" "c = rr\<lparr>j_status := STARTING, j_gpus := gpus, j_started := t\<rparr>"
    "d' = d\<lparr>t_jobs := tbl_upd (\<lambda>x. j_id x = j_id head) (\<lambda>x. x\<lparr>j_status := STARTING, j_gpus := gpus, j_started := t\<rparr>) (t_jobs d)\<rparr>"
    using claim_Some [OF pk cl] by blast
  show ?thesis
  proof (rule that [OF cl])
    show "reachable d'" by (rule reachable_step [OF r db_step.claim [OF cl dg]])
    have "get_job (j_id head) d' = Some c" using cl rc by (auto simp: claim_queued_job_def Let_def)
    then show "get_job (j_id c) d' = Some c" using C(2,5) by simp
    show "j_id c = j_id head" "j_status c = STARTING" using C(2,5) by simp_all
    show "pending_ids wid (t_jobs d) = j_id head # pending_ids wid (t_jobs d')"
      using claim_pending [OF pk cl, of wid] C(4) by simp
  qed
qed

text \<open>Why the loop stopped: the queue is empty or its head needs more GPUs than are unclaimed.\<close>

definition dispatch_done :: "int list \<Rightarrow> string \<Rightarrow> database \<Rightarrow> bool" where
  "dispatch_done available wid d = (case queue_head wid d of
     None \<Rightarrow> True | Some h \<Rightarrow> int (length (unclaimed_gpus available wid d)) < j_gpu_count h)"

lemma dispatch_loop_spec:
  assumes "reachable (wd_db w)" "distinct available"
  shows "\<exists>r w' started. dispatch_loop v available launched e w = Some (r, w') \<and> reachable (wd_db w') \<and>
    pending_ids (w_id v) (t_jobs (wd_db w)) = started @ pending_ids (w_id v) (t_jobs (wd_db w')) \<and>
    (\<forall>js. r = Inr js \<longrightarrow> map j_id js = map j_id launched @ started \<and> dispatch_done available (w_id v) (wd_db w'))"
  using assms
proof (induction "length (pending_ids (w_id v) (t_jobs (wd_db w)))" arbitrary: w launched rule: less_induct)
  case less
  let ?wid = "w_id v" and ?d = "wd_db w"
  show ?case
  proof (cases "dispatch_done available ?wid ?d")
    case True
    then have "dispatch_loop v available launched e w = Some (Inr launched, w)"
      by (subst dispatch_loop.simps) (auto simp: Let_def dispatch_done_def split: option.split)
    with True less.prems(1) show ?thesis by auto
  next
    case False
    then obtain head where h: "queue_head ?wid ?d = Some head"
      and le: "j_gpu_count head \<le> int (length (unclaimed_gpus available ?wid ?d))"
      by (auto simp: dispatch_done_def split: option.splits)
    have pos: "0 \<le> j_gpu_count head"
      using queue_head_row [OF h] reachable_counts [OF less.prems(1)] by blast
    obtain c d' where cl: "claim_queued_job (j_id head) (py_prefix (j_gpu_count head) (unclaimed_gpus available ?wid ?d))
          (o_clock e (wd_ticks w)) ?wid ?d = (Some c, d')"
      and R: "reachable d'" "get_job (j_id c) d' = Some c" "j_id c = j_id head" "j_status c = STARTING"
      and P: "pending_ids ?wid (t_jobs ?d) = j_id head # pending_ids ?wid (t_jobs d')"
      by (rule dispatcher_claims [OF less.prems(1) h pos le less.prems(2), where t = "o_clock e (wd_ticks w)"])
    let ?w1 = "w\<lparr>wd_ticks := Suc (wd_ticks w)\<rparr>\<lparr>wd_db := d'\<rparr>"
    obtain r2 w2 where L: "launch_job v c e ?w1 = Some (r2, w2)"
      using launch_job_returns [of v c e ?w1] by (cases "launch_job v c e ?w1") auto
    note K = launch_job_keeps [OF L, simplified, OF R(1) R(2) R(4)]
    have P2: "pending_ids ?wid (t_jobs (wd_db w2)) = pending_ids ?wid (t_jobs d')"
      by (rule pending_ids_same_rows [OF K(2)])
    have step: "dispatch_loop v available launched e w = (case r2 of
        Inl err \<Rightarrow> Some (Inl err, w2) | Inr job \<Rightarrow> dispatch_loop v available (launched @ [job]) e w2)"
      using h le cl L by (subst dispatch_loop.simps) (simp add: Let_def not_less split: sum.split)
    show ?thesis
    proof (cases r2)
      case (Inl err)
      with step K(1) P P2 show ?thesis by (intro exI [of _ "Inl err"] exI [of _ w2] exI [of _ "[j_id head]"]) simp
    next
      case (Inr job)
      have "length (pending_ids ?wid (t_jobs (wd_db w2))) < length (pending_ids ?wid (t_jobs ?d))"
        using P P2 by simp
      then obtain r w' started where IH: "dispatch_loop v available (launched @ [job]) e w2 = Some (r, w')"
        "reachable (wd_db w')" "pending_ids ?wid (t_jobs (wd_db w2)) = started @ pending_ids ?wid (t_jobs (wd_db w'))"
        "\<forall>js. r = Inr js \<longrightarrow> map j_id js = map j_id (launched @ [job]) @ started \<and> dispatch_done available ?wid (wd_db w')"
        using less.hyps [of w2 "launched @ [job]"] K(1) less.prems(2) by blast
      have "j_id job = j_id head" using K(3) [OF Inr] R(3) by simp
      with IH step Inr P P2 show ?thesis
        by (intro exI [of _ r] exI [of _ w'] exI [of _ "j_id head # started"]) simp
    qed
  qed
qed

lemma distinct_free_gpus: "distinct (free_gpu_indices v)"
  by (simp add: free_gpu_indices_def distinct_map)

text \<open>
  C3.  The dispatcher is total, FIFO and work-conserving: from every reachable state a dispatch
  of an online worker ends; the jobs it took are exactly a prefix of the worker's pending queue,
  and when it returns normally it has launched all of them in that order and stopped only because
  the queue is empty or its head needs more GPUs than the worker has free and unclaimed.  The
  state it leaves is again a reachable one, so no GPU is assigned twice.
\<close>

theorem dispatch_fifo_work_conserving:
  assumes "reachable (wd_db w)" and "w_status v = ONLINE"
  shows "\<exists>r w' started. dispatch_worker v e w = Some (r, w') \<and> reachable (wd_db w') \<and>
    pending_ids (w_id v) (t_jobs (wd_db w)) = started @ pending_ids (w_id v) (t_jobs (wd_db w')) \<and>
    (\<forall>js. r = Inr js \<longrightarrow> map j_id js = started \<and>
       dispatch_done (free_gpu_indices v) (w_id v) (wd_db w'))"
  using dispatch_loop_spec [OF assms(1) distinct_free_gpus, where launched = "[]" and e = e] assms(2)
  by (simp add: dispatch_worker_def)

text \<open>A run on a worker with two free GPUs whose \<open>ssh\<close> always succeeds.\<close>

definition demo_env :: env where
  "demo_env = \<lparr>o_remote = (\<lambda>_. Inr \<lparr>sr_out = ''started'', sr_err = '''', sr_rc = 0\<rparr>), o_clock = int,
     o_uuid = (\<lambda>n. replicate (Suc n) (CHR ''u'')), o_read = (\<lambda>_. Inl (OSErr ''no file'')),
     o_environ = (\<lambda>_. None), o_json = (\<lambda>_. None), o_repr = (\<lambda>_. ''''), o_sha256 = (\<lambda>s. s), o_others = (\<lambda>_ d. (d, False))\<rparr>"

definition demo_world :: world where
  "demo_world = \<lparr>wd_db = demo2, wd_calls = [], wd_ticks = 0, wd_uuids = 0\<rparr>"

definition demo_host :: worker where
  "demo_host = (from_registration 10 demo_worker)\<lparr>w_gpu_busy := [Some False, Some True]\<rparr>"

theorem dispatch_fifo_work_conserving_witness:
  "w_status demo_host = ONLINE \<and> pending_ids ''w'' (t_jobs (wd_db demo_world)) = [''a'', ''b''] \<and>
   (\<exists>r w' started. dispatch_worker demo_host demo_env demo_world = Some (r, w') \<and> reachable (wd_db w') \<and>
     [''a'', ''b''] = started @ pending_ids ''w'' (t_jobs (wd_db w')))"
proof -
  have q: "pending_ids ''w'' (t_jobs (wd_db demo_world)) = [''a'', ''b'']" by code_simp
  have h: "w_id demo_host = ''w''" "w_status demo_host = ONLINE" "wd_db demo_world = demo2"
    by (simp_all add: demo_host_def demo_worker_def from_registration_def demo_world_def)
  have "reachable (wd_db demo_world)" using demo_reachable(2) h(3) by simp
  from dispatch_fifo_work_conserving [of demo_world demo_host demo_env, OF this] h q show ?thesis
    by auto
qed

section \<open>Every manager call keeps the queue correct\<close>

lemma dispatch_keeps: "takes reachable (dispatch_worker v) reachable"
proof (rule takesI)
  fix e :: env and w :: world assume w: "reachable (wd_db w)"
  show "\<exists>r w'. dispatch_worker v e w = Some (r, w') \<and> reachable (wd_db w')"
  proof (cases "w_status v = ONLINE")
    case True
    then show ?thesis
      using dispatch_loop_spec [where v = v and available = "free_gpu_indices v" and launched = "[]" and e = e,
          OF w distinct_free_gpus]
      by (auto simp: dispatch_worker_def)
  qed (use w in \<open>auto simp: dispatch_worker_def act_defs\<close>)
qed

lemma get_job_id: "get_job i d = Some j \<Longrightarrow> j_id j = i"
  by (auto simp: get_job_def dest: tbl_get_key)

lemma reachable_update:
  assumes "reachable d" "get_job i d = Some j" "st = FAILED \<or> st = DONE"
  shows "reachable (update_job (j\<lparr>j_status := st, j_exit_code := c, j_finished := t\<rparr>) d)"
proof (rule reachable_step [OF assms(1) db_step.outcome])
  show "get_job (j_id (j\<lparr>j_status := st, j_exit_code := c, j_finished := t\<rparr>)) d = Some j"
    using assms(2) get_job_id [OF assms(2)] by simp
  show "lifecycle j (j\<lparr>j_status := st, j_exit_code := c, j_finished := t\<rparr>)"
    using assms(3) unfolding lifecycle_def by blast
qed

lemma reachable_quiet: "reachable d \<Longrightarrow> t_jobs d' = t_jobs d \<Longrightarrow> reachable d'"
  by (erule reachable_step) (rule db_step.quiet)

lemma record_failure_keeps: "takes reachable (record_failure v j) reachable"
  unfolding record_failure_def Let_def
  by (intro takes_quiet ssh_db_unchanged db_unchanged_clock takes_prim)
    (auto simp: insert_failure_def Let_def intro: reachable_quiet)

lemmas call_rules = takes_ask takes_opt takes_if takes_quiet ssh_db_unchanged db_unchanged_clock takes_seq takes_prim
  takes_weaken [OF dispatch_keeps] takes_weaken [OF record_failure_keeps]

lemma refresh_keeps: "takes reachable (refresh_job_status v job) reachable"
  unfolding refresh_job_status_def Let_def whenever_def
  by (intro call_rules) (auto intro!: reachable_update)

lemma reconcile_keeps: "takes reachable (reconcile_starting_job v job) reachable"
  unfolding reconcile_starting_job_def
  by (intro call_rules takes_call) (auto intro: reachable_step db_step.reconcile)

lemma stop_keeps: "takes reachable (stop_job v i) reachable"
  unfolding stop_job_def
  by (intro call_rules takes_call) (auto intro!: reachable_update intro: reachable_step db_step.cancel)

lemma immediate_row:
  assumes "reachable d" "insert_job job d = Inr d'" "\<not> j_queue_managed job"
  shows "reachable d' \<and> get_job (j_id job) d' = Some job"
proof
  show "reachable d'" by (rule reachable_step [OF assms(1) db_step.immediate [OF assms(2,3)]])
  obtain js where "tbl_ins j_id job (t_jobs d) = Inr js" "d' = d\<lparr>t_jobs := js\<rparr>"
    using assms(2) by (auto simp: insert_job_def split: sum.splits)
  with jt.ins_then_get [of job "t_jobs d" js] show "get_job (j_id job) d' = Some job"
    by (simp add: get_job_def)
qed

lemma start_keeps: "takes reachable (start_job v command name pty) reachable"
  unfolding start_job_def Let_def
proof (intro takes_quiet db_unchanged_clock)
  fix i t
  let ?job = "(new_job i)\<lparr>j_worker := Some (w_id v), j_name := (case name of None \<Rightarrow> '''' | Some n \<Rightarrow> n),
                  j_command := command, j_status := STARTING, j_pty := pty, j_started := t, j_tmux := ''wh_'' @ i\<rparr>"
  have q: "\<not> j_queue_managed ?job" "j_status ?job = STARTING" by (simp_all add: new_job_def)
  show "takes reachable (seq (db_put (insert_job ?job)) (launch_job v ?job)) reachable"
    unfolding seq_def
  proof (rule takes_bnd [where S = "\<lambda>_ d. reachable d \<and> get_job (j_id ?job) d = Some ?job"])
    fix e :: env and w :: world assume w: "reachable (wd_db w)"
    show "\<exists>r w'. db_put (insert_job ?job) e w = Some (r, w') \<and> (case r of Inl _ \<Rightarrow> reachable (wd_db w')
        | Inr x \<Rightarrow> reachable (wd_db w') \<and> get_job (j_id ?job) (wd_db w') = Some ?job)"
    proof (cases "insert_job ?job (wd_db w)")
      case (Inl err)
      with w show ?thesis by (auto simp: db_put_def)
    next
      case (Inr d)
      with immediate_row [OF w Inr q(1)] show ?thesis by (auto simp: db_put_def)
    qed
  next
    show "takes (\<lambda>d. reachable d \<and> get_job (j_id ?job) d = Some ?job) (launch_job v ?job) reachable" for x :: unit
      by (rule takes_returns) (use launch_job_returns launch_job_keeps(1) [OF _ _ _ q(2)] in \<open>auto simp: returns_def\<close>)
  qed
qed auto

lemma enqueue_keeps:
  assumes "0 \<le> n"
  shows "takes reachable (enqueue_job v command name expected n pty) reachable"
  unfolding enqueue_job_def Let_def
proof (intro takes_quiet db_unchanged_clock)
  fix i
  let ?job = "(new_job i)\<lparr>j_worker := Some (w_id v), j_name := name, j_command := command,
                  j_status := PENDING, j_queue_managed := True, j_expected := expected,
                  j_gpu_count := n, j_pty := pty, j_tmux := ''wh_'' @ i\<rparr>"
  have "reachable d'" if "reachable d" "insert_queued_job ?job d = Inr (j, d')" for d d' j
    by (rule reachable_step [OF that(1) db_step.enqueue [OF that(2)]]) (simp_all add: assms)
  then have put: "takes reachable (db_try (insert_queued_job ?job)) reachable"
    by (intro takes_try) auto
  show "takes reachable (seq (db_try (insert_queued_job ?job)) (seq (dispatch_worker v)
      (bnd (ask (get_job i)) (\<lambda>p. case p of
              None \<Rightarrow> raise_err (RuntimeErr ''queued job disappeared after enqueue'')
            | Some j \<Rightarrow> ret j)))) reachable"
    by (intro takes_seq put dispatch_keeps takes_ask takes_opt takes_prim) auto
qed auto

lemma reconcilers_keep:
  "takes reachable reconcile_active_ssh_jobs reachable" "takes reachable reconcile_queued_jobs reachable"
  unfolding reconcile_active_ssh_jobs_def reconcile_queued_jobs_def
  by (intro takes_ask takes_seq takes_weaken [OF takes_each] takes_opt takes_catch takes_prim
      takes_weaken [OF refresh_keeps] takes_weaken [OF reconcile_keeps] takes_weaken [OF dispatch_keeps]; simp)+

section \<open>Manager calls in any order\<close>

text \<open>One call of the job manager or one round of a reconciliation loop, with its arguments.\<close>

datatype manager_call =
    StartJob worker string "string option" bool
  | EnqueueJob worker string string int int bool
  | DispatchWorker worker
  | StopJob worker string
  | RefreshJob worker job
  | ReconcileStarting worker job
  | ReconcileActiveRound
  | ReconcileQueueRound

fun run_call :: "manager_call \<Rightarrow> unit act" where
  "run_call (StartJob v command name pty) = seq (start_job v command name pty) (ret ())"
| "run_call (EnqueueJob v command name expected n pty) = seq (enqueue_job v command name expected n pty) (ret ())"
| "run_call (DispatchWorker v) = seq (dispatch_worker v) (ret ())"
| "run_call (StopJob v i) = seq (stop_job v i) (ret ())"
| "run_call (RefreshJob v j) = seq (refresh_job_status v j) (ret ())"
| "run_call (ReconcileStarting v j) = seq (reconcile_starting_job v j) (ret ())"
| "run_call ReconcileActiveRound = reconcile_active_ssh_jobs"
| "run_call ReconcileQueueRound = reconcile_queued_jobs"

text \<open>The calls one after the other; a call that raises has failed its caller, not the service.\<close>

fun run_calls :: "manager_call list \<Rightarrow> env \<Rightarrow> world \<Rightarrow> world option" where
  "run_calls [] e w = Some w"
| "run_calls (c # cs) e w = (case run_call c e w of None \<Rightarrow> None | Some (_, w') \<Rightarrow> run_calls cs e w')"

fun well_formed_call :: "manager_call \<Rightarrow> bool" where
  "well_formed_call (EnqueueJob v command name expected n pty) = (0 \<le> n)"
| "well_formed_call _ = True"

lemma run_call_keeps:
  assumes "well_formed_call c"
  shows "takes reachable (run_call c) reachable"
proof (cases c)
  case (EnqueueJob v command name expected n pty)
  with assms have "0 \<le> n" by simp
  then show ?thesis unfolding EnqueueJob by (auto intro!: takes_seq takes_prim enqueue_keeps)
qed (auto intro!: takes_seq takes_prim start_keeps dispatch_keeps stop_keeps refresh_keeps reconcile_keeps reconcilers_keep)

lemma run_calls_keep:
  assumes "\<forall>c \<in> set cs. well_formed_call c" "reachable (wd_db w)"
  shows "\<exists>w'. run_calls cs e w = Some w' \<and> reachable (wd_db w')"
  using assms
proof (induction cs arbitrary: w)
  case (Cons c cs)
  then obtain r w1 where "run_call c e w = Some (r, w1)" "reachable (wd_db w1)"
    using takesE [OF run_call_keeps [of c], of w e] by auto
  with Cons show ?case by auto
qed simp

text \<open>
  The manager as a whole: whatever start, enqueue, dispatch, stop, refresh and recovery
  calls are made, in whatever order and however the workers answer, every call ends and at no
  point do two claimed jobs of a worker hold the same GPU.
\<close>

theorem manager_calls_exclusive:
  assumes "\<forall>c \<in> set cs. well_formed_call c" "reachable (wd_db w)"
  shows "\<exists>w'. run_calls cs e w = Some w' \<and>
    (\<forall>wid. distinct (running_queue_gpu_indices wid (wd_db w')) \<and>
      (\<forall>j \<in> set (t_jobs (wd_db w')). claimed_on wid j \<longrightarrow> int (length (j_gpus j)) = j_gpu_count j))"
  using run_calls_keep [OF assms, of e] reachable_gpus by blast

theorem manager_calls_exclusive_witness:
  "\<exists>w'. run_calls [EnqueueJob demo_host ''train'' ''t'' 60 1 False, DispatchWorker demo_host, StopJob demo_host ''a'',
      ReconcileQueueRound] demo_env demo_world = Some w' \<and> distinct (running_queue_gpu_indices ''w'' (wd_db w'))"
proof -
  have "reachable (wd_db demo_world)" using demo_reachable(2) by (simp add: demo_world_def)
  from manager_calls_exclusive [OF _ this, where e = demo_env and cs = "[EnqueueJob demo_host ''train'' ''t'' 60 1 False,
      DispatchWorker demo_host, StopJob demo_host ''a'', ReconcileQueueRound]"]
  show ?thesis by auto
qed

end
