(* ===== verification/Herdr.thy ===== *)
theory Herdr
  imports Fleet Jobs
begin

text \<open>
  \<open>herdr_host.py\<close>: the verbs sent to the remote shim of a machine, the calls of its herdr server with
  the revival of a server that is down, and the typed wrappers.  A result that should be a dict but
  is not makes \<open>.get\<close> raise an AttributeError, here a \<open>RuntimeErr\<close>; no caller catches either.
\<close>

section \<open>Shim verbs\<close>

definition shim :: "machine \<Rightarrow> string list \<Rightarrow> string option \<Rightarrow> string act" where
  "shim m args stdin =
     (if args = [] then raise_err (ValueErr ''shim() needs a verb'')
      else bnd (lift_res (encode_args args)) (\<lambda>tokens.
        bnd (async_machine_run m (join '' '' tokens) stdin) (\<lambda>r.
          if sr_rc r \<noteq> 0 then raise_err (ShimErr (mc_name m) (hd args) (sr_rc r) (sr_err r))
          else ret (sr_out r))))"

section \<open>Calls of the herdr server\<close>

definition parse_herdr :: "string \<Rightarrow> string \<Rightarrow> int \<Rightarrow> (string \<times> json) list act" where
  "parse_herdr stdout stderr rc =
     bnd (if strip stdout = '''' then ret None else loads (strip stdout)) (\<lambda>p. case p of
       Some doc \<Rightarrow> ret doc
     | None \<Rightarrow> bnd (if strip stderr = '''' then ret None else loads (strip stderr)) (\<lambda>p. case p of
         Some doc \<Rightarrow> ret doc
       | None \<Rightarrow>
         if rc = 0 then ret [(''result'', JObj [])]
         else (let text = take 500 (strip (if stderr \<noteq> '''' then stderr else stdout))
               in raise_err (HerdrErr ''invalid_response'' (if text \<noteq> '''' then text else ''empty response'')))))"

definition herdr_once :: "machine \<Rightarrow> string list \<Rightarrow> (string \<times> json) list act" where
  "herdr_once m args =
     bnd (lift_res (encode_args args)) (\<lambda>tokens.
     bnd (async_machine_run m (join '' '' (''herdr'' # tokens)) None) (\<lambda>r.
       catch (parse_herdr (sr_out r) (sr_err r) (sr_rc r)) (\<lambda>err. case err of
         HerdrErr code message \<Rightarrow>
           if sr_rc r \<in> {-1, 2, 127, 255} then raise_err (ShimErr (mc_name m) ''herdr'' (sr_rc r) (sr_err r))
           else raise_err err
       | _ \<Rightarrow> raise_err err)))"

text \<open>\<open>error\<close> of a document when it is a dict, and its code and message.\<close>

definition doc_error :: "(string \<times> json) list \<Rightarrow> (string \<times> json) list option" where
  "doc_error doc = (case json_get doc ''error'' JNull of JObj error \<Rightarrow> Some error | _ \<Rightarrow> None)"

definition error_code :: "(string \<times> json) list \<Rightarrow> string act" where
  "error_code error = text_of (json_or (json_get error ''code'' JNull) (JStr ''unknown''))"

definition error_message :: "(string \<times> json) list \<Rightarrow> string act" where
  "error_message error = text_of (json_or (json_get error ''message'' JNull) (JStr ''''))"

definition doc_result :: "(string \<times> json) list \<Rightarrow> json" where
  "doc_result doc = json_or (json_get doc ''result'' JNull) (JObj [])"

text \<open>
  The readiness loop.  It sleeps half a second before every probe under a timeout of ten seconds,
  so at most twenty rounds fit; a probe that ends after the deadline is cancelled.
\<close>

fun await_server :: "nat \<Rightarrow> machine \<Rightarrow> int \<Rightarrow> unit act" where
  "await_server 0 m started = raise_err (HerdrUnavailableErr (''herdr server on '' @ mc_name m @ '' did not come up''))"
| "await_server (Suc n) m started =
     seq pause (bnd (herdr_once m [''api'', ''snapshot'']) (\<lambda>probe. bnd now (\<lambda>t.
       if t - started \<ge> 10 then raise_err (HerdrUnavailableErr (''herdr server on '' @ mc_name m @ '' did not come up''))
       else (case doc_error probe of
         None \<Rightarrow> ret ()
       | Some error \<Rightarrow> bnd (error_code error) (\<lambda>code.
           if code \<noteq> ''server_not_running'' then bnd (error_message error) (\<lambda>msg. raise_err (HerdrErr code msg))
           else await_server n m started)))))"

definition herdr :: "machine \<Rightarrow> string list \<Rightarrow> json act" where
  "herdr m args =
     bnd (herdr_once m args) (\<lambda>document. case doc_error document of
       None \<Rightarrow> ret (doc_result document)
     | Some error \<Rightarrow> bnd (error_code error) (\<lambda>code.
         if code \<noteq> ''server_not_running'' then bnd (error_message error) (\<lambda>msg. raise_err (HerdrErr code msg))
         else
           seq (catch (seq (shim m [''herdr-up''] None) (ret ())) (\<lambda>err. case err of
                  ShimErr mach verb rc txt \<Rightarrow> raise_err (HerdrUnavailableErr
                    (''could not start herdr server on '' @ mc_name m @ '': '' @ error_str err))
                | _ \<Rightarrow> raise_err err))
             (bnd now (\<lambda>started. seq (await_server 20 m started)
               (bnd (herdr_once m args) (\<lambda>document. case doc_error document of
                  None \<Rightarrow> ret (doc_result document)
                | Some error \<Rightarrow> bnd (error_code error) (\<lambda>code.
                    if code = ''server_not_running'' then
                      raise_err (HerdrUnavailableErr (''herdr server on '' @ mc_name m @ '' did not come up''))
                    else bnd (error_message error) (\<lambda>msg. raise_err (HerdrErr code msg)))))))))"

section \<open>Typed wrappers\<close>

definition as_dict :: "json \<Rightarrow> (string \<times> json) list act" where
  "as_dict v = (case v of JObj kvs \<Rightarrow> ret kvs | _ \<Rightarrow> raise_err (RuntimeErr ''AttributeError: get''))"

text \<open>\<open>(d.get(key) or {}).get(a) or (d.get(key) or {}).get(b)\<close>\<close>

definition sub_field :: "(string \<times> json) list \<Rightarrow> string \<Rightarrow> string \<Rightarrow> string \<Rightarrow> json act" where
  "sub_field d key a b = bnd (as_dict (json_or (json_get d key JNull) (JObj []))) (\<lambda>sub.
     ret (json_or (json_get sub a JNull) (json_get sub b JNull)))"

record workspace_info =
  wi_workspace :: json
  wi_tab :: json
  wi_pane :: json
  wi_raw :: json

definition workspace_create :: "machine \<Rightarrow> string \<Rightarrow> string \<Rightarrow> workspace_info act" where
  "workspace_create m cwd label =
     bnd (herdr m [''workspace'', ''create'', ''--cwd'', cwd, ''--label'', label, ''--no-focus'']) (\<lambda>result.
     bnd (as_dict result) (\<lambda>d.
     bnd (sub_field d ''root_pane'' ''pane_id'' ''id'') (\<lambda>pane.
     bnd (sub_field d ''workspace'' ''workspace_id'' ''id'') (\<lambda>ws.
     bnd (sub_field d ''tab'' ''tab_id'' ''id'') (\<lambda>tab.
       ret \<lparr>wi_workspace = ws, wi_tab = tab, wi_pane = pane, wi_raw = result\<rparr>)))))"

definition pane_run :: "machine \<Rightarrow> string \<Rightarrow> string \<Rightarrow> json act" where
  "pane_run m pane command = herdr m [''pane'', ''run'', pane, command]"

definition pane_read :: "machine \<Rightarrow> string \<Rightarrow> string \<Rightarrow> int \<Rightarrow> string act" where
  "pane_read m pane source lines =
     bnd (lift_res (encode_args [''herdr'', ''pane'', ''read'', pane, ''--source'', source, ''--lines'', int_to_string lines])) (\<lambda>tokens.
     bnd (async_machine_run m (join '' '' tokens) None) (\<lambda>r.
       if sr_rc r \<noteq> 0 then raise_err (HerdrErr ''pane_read_failed'' (take 500 (strip (sr_err r)))) else ret (sr_out r)))"

definition pane_close :: "machine \<Rightarrow> string \<Rightarrow> json act" where
  "pane_close m pane = herdr m [''pane'', ''close'', pane]"

definition agent_rename :: "machine \<Rightarrow> string \<Rightarrow> string \<Rightarrow> json act" where
  "agent_rename m pane name = herdr m [''agent'', ''rename'', pane, name]"

definition report_agent :: "machine \<Rightarrow> string \<Rightarrow> string \<Rightarrow> string \<Rightarrow> string \<Rightarrow> int \<Rightarrow> string \<Rightarrow> string \<Rightarrow> string \<Rightarrow> json act" where
  "report_agent m pane state source agent sequence message agent_session_id agent_session_path =
     herdr m ([''pane'', ''report-agent'', pane, ''--source'', source, ''--agent'', agent, ''--state'', state,
        ''--seq'', int_to_string sequence] @
       (if message \<noteq> '''' then [''--message'', message] else []) @
       (if agent_session_id \<noteq> '''' then [''--agent-session-id'', agent_session_id] else []) @
       (if agent_session_path \<noteq> '''' then [''--agent-session-path'', agent_session_path] else []))"

definition report_metadata :: "machine \<Rightarrow> string \<Rightarrow> string \<Rightarrow> string \<Rightarrow> string \<Rightarrow> json act" where
  "report_metadata m pane source agent display =
     herdr m [''pane'', ''report-metadata'', pane, ''--source'', source, ''--agent'', agent, ''--display-agent'', display]"

definition release_agent :: "machine \<Rightarrow> string \<Rightarrow> string \<Rightarrow> string \<Rightarrow> int \<Rightarrow> json act" where
  "release_agent m pane source agent sequence =
     herdr m [''pane'', ''release-agent'', pane, ''--source'', source, ''--agent'', agent, ''--seq'', int_to_string sequence]"

definition write_file :: "machine \<Rightarrow> string \<Rightarrow> string \<Rightarrow> unit act" where
  "write_file m path content = seq (shim m [''write-file'', path] (Some content)) (ret ())"

definition remove_file :: "machine \<Rightarrow> string \<Rightarrow> unit act" where
  "remove_file m path = seq (shim m [''rm-file'', path] None) (ret ())"

text \<open>Offsets are one-based; the result is the chunk and the next offset.\<close>

definition tail_transcript :: "machine \<Rightarrow> string \<Rightarrow> int \<Rightarrow> (string \<times> int) act" where
  "tail_transcript m path offset =
     (let start = max 1 offset
      in bnd (lift_res (encode_arg path)) (\<lambda>token.
         bnd (async_machine_run m (''tail '' @ token @ '' '' @ int_to_string start) None) (\<lambda>r.
           if sr_rc r \<noteq> 0 then ret ('''', offset) else ret (sr_out r, start + int (length (sr_out r))))))"

section \<open>What the actions send\<close>

definition command_of :: "remote_call \<Rightarrow> string" where
  "command_of c = last (rc_args c)"

definition call_words :: "remote_call \<Rightarrow> string list" where
  "call_words c = split_on (CHR '' '') (command_of c)"

lemma machine_call:
  "command_of (RemoteCall l (machine_base_args m @ [cmd]) i) = cmd"
  by (simp add: command_of_def)

lemma tokens_split:
  assumes "encode_args args = Inr ts" "args \<noteq> []"
  shows "split_on (CHR '' '') (join '' '' ts) = ts"
proof (rule split_on_join)
  have "length ts = length args" "\<forall>t \<in> set ts. t \<noteq> '''' \<and> CHR '' '' \<notin> set t"
    using encode_args_tokens [OF assms(1)] by simp_all
  then show "ts \<noteq> []" "\<forall>t \<in> set ts. CHR '' '' \<notin> set t" using assms(2) by auto
qed

text \<open>One remote call of a machine: which property of its words it has.\<close>

lemma emits_machine: "q (split_on (CHR '' '') cmd) \<Longrightarrow> emits (\<lambda>c. q (call_words c)) (async_machine_run m cmd i)"
  unfolding async_machine_run_def by (rule emits_remote) (simp add: call_words_def machine_call)

lemma emits_lift: "(\<And>x. r = Inr x \<Longrightarrow> emits p (f x)) \<Longrightarrow> emits p (bnd (lift_res r) f)"
  by (cases r) (auto simp: emits_def bnd_def lift_res_def)

lemma emits_shim:
  assumes "\<And>ts. encode_args args = Inr ts \<Longrightarrow> q ts"
  shows "emits (\<lambda>c. q (call_words c)) (shim m args stdin)"
proof (cases "args = []")
  case False
  have "emits (\<lambda>c. q (call_words c)) (async_machine_run m (join '' '' ts) i)" if "encode_args args = Inr ts" for ts i
    by (rule emits_machine) (simp add: tokens_split [OF that False] assms [OF that])
  then show ?thesis unfolding shim_def using False by (auto intro!: emits_lift emits_bnd intro: emits_intros)
qed (simp add: shim_def emits_intros)

lemma split_on_cons_word: "c \<notin> set w \<Longrightarrow> split_on c (join [c] (w # ts)) = w # (if ts = [] then [] else split_on c (join [c] ts))"
  by (cases ts) (simp_all add: split_on_no split_on_append)

lemma emits_text_of [emits_intros]: "emits p (error_code x)" "emits p (error_message x)" "emits p (parse_herdr a b r)"
  unfolding error_code_def error_message_def parse_herdr_def Let_def by (intro emits_intros)+

lemma emits_herdr_once:
  assumes "\<And>ts. encode_args args = Inr ts \<Longrightarrow> q (''herdr'' # ts)"
  shows "emits (\<lambda>c. q (call_words c)) (herdr_once m args)"
proof -
  have "emits (\<lambda>c. q (call_words c)) (async_machine_run m (join '' '' (''herdr'' # ts)) i)" if "encode_args args = Inr ts" for ts i
  proof (rule emits_machine)
    have "\<forall>t \<in> set (''herdr'' # ts). CHR '' '' \<notin> set t"
      using encode_args_tokens [OF that] by auto
    then have "split_on (CHR '' '') (join '' '' (''herdr'' # ts)) = ''herdr'' # ts"
      by (intro split_on_join) simp_all
    then show "q (split_on (CHR '' '') (join '' '' (''herdr'' # ts)))" using assms [OF that] by simp
  qed
  then show ?thesis
    unfolding herdr_once_def
    by (intro emits_lift emits_bnd emits_catch emits_text_of) (auto split: error.split intro: emits_intros)
qed

lemma emits_await:
  assumes "\<And>ts. encode_args [''api'', ''snapshot''] = Inr ts \<Longrightarrow> q (''herdr'' # ts)"
  shows "emits (\<lambda>c. q (call_words c)) (await_server n m started)"
proof (induction n)
  case (Suc n)
  show ?case
    unfolding await_server.simps
    by (intro emits_intros emits_herdr_once Suc) (rule assms)
qed (simp add: emits_intros)

text \<open>A call of herdr sends the command itself, the snapshot probe and the start verb, nothing else.\<close>

lemma emits_herdr:
  assumes "\<And>ts. encode_args args = Inr ts \<Longrightarrow> q (''herdr'' # ts)"
    and "q [''herdr'', ''api'', ''snapshot'']" and "q [''herdr-up'']"
  shows "emits (\<lambda>c. q (call_words c)) (herdr m args)"
proof -
  have api: "encode_args [''api'', ''snapshot''] = Inr [''api'', ''snapshot'']" and up: "encode_args [''herdr-up''] = Inr [''herdr-up'']"
    by code_simp+
  have a: "emits (\<lambda>c. q (call_words c)) (await_server 20 m started)" for started
    by (rule emits_await) (use assms(2) api in simp)
  have u: "emits (\<lambda>c. q (call_words c)) (shim m [''herdr-up''] None)"
    by (rule emits_shim) (use assms(3) up in simp)
  show ?thesis
    unfolding herdr_def
    by (intro emits_intros emits_herdr_once assms(1) a u) (auto split: error.split intro: emits_intros)
qed

section \<open>Every call ends\<close>

lemma returns_machine [returns_intros]: "returns (async_machine_run m cmd i)"
  unfolding async_machine_run_def by (intro returns_intros)

lemma returns_text_of [returns_intros]: "returns (error_code x)" "returns (error_message x)" "returns (parse_herdr a b r)"
  unfolding error_code_def error_message_def parse_herdr_def Let_def by (intro returns_intros)+

lemma returns_shim [returns_intros]: "returns (shim m args stdin)"
  unfolding shim_def by (intro returns_intros)

lemma returns_reraise: "(\<And>e. returns (h e)) \<Longrightarrow> returns (case err of HerdrErr a b \<Rightarrow> h (a, b) | _ \<Rightarrow> raise_err err)"
  by (auto split: error.split intro: returns_intros)

lemma returns_herdr_once [returns_intros]: "returns (herdr_once m args)"
  unfolding herdr_once_def
  by (intro returns_intros) (auto split: error.split intro: returns_intros)

lemma returns_await [returns_intros]: "returns (await_server n m started)"
  by (induction n) (auto intro!: returns_intros)

lemma returns_herdr [returns_intros]: "returns (herdr m args)"
  unfolding herdr_def
  by (intro returns_intros) (auto split: error.split intro: returns_intros)

lemma sends_machine: "sends (Suc 0) (async_machine_run m cmd i)"
  unfolding async_machine_run_def by (rule sends_remote)

lemma sends_shim: "sends 1 (shim m args stdin)"
proof -
  have "sends (0 + (1 + 0)) (bnd (lift_res (encode_args args)) (\<lambda>tokens.
        bnd (async_machine_run m (join '' '' tokens) stdin) (\<lambda>r.
          if sr_rc r \<noteq> 0 then raise_err (ShimErr (mc_name m) (hd args) (sr_rc r) (sr_err r))
          else ret (sr_out r))))"
    by (intro sends_bnd sends_ctrl) (auto intro!: sends_none emits_intros simp: sends_machine)
  then show ?thesis by (auto simp: shim_def intro!: sends_none emits_intros)
qed

lemma sends_herdr_once: "sends 1 (herdr_once m args)"
proof -
  have "sends (0 + (1 + 0)) (herdr_once m args)"
    unfolding herdr_once_def
  proof (intro sends_bnd)
    show "sends 1 (async_machine_run m cmd None)" for cmd using sends_machine by simp
  qed (auto intro!: sends_none emits_intros split: error.split)
  then show ?thesis by simp
qed

lemma sends_await: "sends n (await_server n m started)"
proof (induction n)
  case (Suc n)
  have "sends (0 + (1 + (0 + n))) (await_server (Suc n) m started)"
    unfolding await_server.simps
  proof (intro sends_seq sends_bnd)
    show "sends n (if t - started \<ge> 10 then raise_err (HerdrUnavailableErr (''herdr server on '' @ mc_name m @ '' did not come up''))
       else (case doc_error probe of
         None \<Rightarrow> ret ()
       | Some error \<Rightarrow> bnd (error_code error) (\<lambda>code.
           if code \<noteq> ''server_not_running'' then bnd (error_message error) (\<lambda>msg. raise_err (HerdrErr code msg))
           else await_server n m started)))" for t probe
    proof -
      have "sends (0 + n) (bnd (error_code error) (\<lambda>code.
           if code \<noteq> ''server_not_running'' then bnd (error_message error) (\<lambda>msg. raise_err (HerdrErr code msg))
           else await_server n m started))" for error
        by (intro sends_bnd sends_ctrl Suc) (auto intro!: sends_none emits_intros)
      then show ?thesis by (auto split: option.split intro!: sends_none emits_intros)
    qed
  qed (auto intro!: sends_none emits_intros simp: sends_herdr_once [simplified])
  then show ?case by simp
qed (simp add: sends_none emits_intros)

section \<open>Properties\<close>

text \<open>
  C22.  Arguments reach the shim unchanged: a verb sends at most one command, and what the shim's
  word splitting and decoding make of that command is the argument list of the caller, whatever
  characters it contains.
\<close>

theorem shim_roundtrip:
  assumes "shim m args stdin e w = Some (r, w')"
  shows "wd_calls w' = wd_calls w \<or>
    (\<exists>c. wd_calls w' = c # wd_calls w \<and> rc_input c = stdin \<and>
      map shim_decode (shim_words (command_of c)) = map Some args)"
proof (cases "args = [] \<or> (\<exists>err. encode_args args = Inl err)")
  case True
  with assms show ?thesis by (auto simp: shim_def bnd_def act_defs split: if_splits)
next
  case False
  then obtain ts where ts: "encode_args args = Inr ts" "args \<noteq> []" by (cases "encode_args args") auto
  have "\<forall>t \<in> set ts. t \<noteq> ''''" using encode_args_tokens [OF ts(1)] by blast
  then have "shim_words (join '' '' ts) = ts"
    using tokens_split [OF ts] by (simp add: shim_words_def filter_id_conv)
  with ts assms encode_args_tokens [OF ts(1)] show ?thesis
    by (auto simp: shim_def bnd_def act_defs async_machine_run_def command_of_def split: sum.splits if_splits)
qed

theorem shim_roundtrip_witness:
  "\<exists>r w'. shim \<lparr>mc_name = ''d'', mc_target = ''u@d'', mc_home = ''/home/u'', mc_session = ''wh'', mc_key_path = ''k''\<rparr>
       [''push'', ''/a b'', ''x;y''] None demo_env demo_world = Some (r, w') \<and>
     (wd_calls w' = [] \<or> (\<exists>c. wd_calls w' = [c] \<and> map shim_decode (shim_words (command_of c)) = [Some ''push'', Some ''/a b'', Some ''x;y'']))"
proof -
  let ?m = "\<lparr>mc_name = ''d'', mc_target = ''u@d'', mc_home = ''/home/u'', mc_session = ''wh'', mc_key_path = ''k''\<rparr>"
  obtain r w' where s: "shim ?m [''push'', ''/a b'', ''x;y''] None demo_env demo_world = Some (r, w')"
    using returns_shim [of ?m "[''push'', ''/a b'', ''x;y'']" None] unfolding returns_def by (metis option.exhaust prod.collapse)
  have "wd_calls demo_world = []" by (simp add: demo_world_def)
  with shim_roundtrip [OF s] s show ?thesis by auto
qed


end
