(* ===== verification/Orchestration.thy ===== *)
theory Orchestration
  imports Herdr
begin

text \<open>
  \<open>orchestration.py\<close>: worktrees, the launch of sandboxed agents, the session lifecycle of the
  orchestrator, the project managers and the task agents.  A call holds the lock of its project or
  of the orchestrator, so calls that ensure or launch do not interleave; other tasks act on the
  tables while a call sleeps (\<open>pause\<close>).  Herdr's workspace and pane ids are strings.
\<close>

section \<open>Configuration and errors\<close>

record fleet =
  fl_machines :: "(string \<times> machine) list"
  fl_projects :: "(string \<times> project) list"
  fl_base_url :: string

text \<open>\<open>_REMOTE_ERRORS\<close>; TimeoutError and PermissionError are subclasses of OSError.\<close>

fun remote_error :: "error \<Rightarrow> bool" where
  "remote_error (HerdrErr code message) = True"
| "remote_error (HerdrUnavailableErr s) = True"
| "remote_error (ShimErr mach verb rc err) = True"
| "remote_error (LaneTimeoutErr s) = True"
| "remote_error (OSErr s) = True"
| "remote_error (TimeoutErr s) = True"
| "remote_error (PermissionErr s) = True"
| "remote_error _ = False"

definition on_remote_error :: "'a act \<Rightarrow> (error \<Rightarrow> 'a act) \<Rightarrow> 'a act" where
  "on_remote_error m h = catch m (\<lambda>err. if remote_error err then h err else raise_err err)"

fun shim_error :: "error \<Rightarrow> bool" where
  "shim_error (ShimErr mach verb rc err) = True"
| "shim_error _ = False"

fun worktree_error :: "error \<Rightarrow> bool" where
  "worktree_error (WorktreeErr s) = True"
| "worktree_error _ = False"

fun herdr_error :: "error \<Rightarrow> bool" where
  "herdr_error (HerdrErr code message) = True"
| "herdr_error _ = False"

definition FLEET_SOURCE :: string where
  "FLEET_SOURCE = ''worker-harness:fleet''"

definition terminal_pm :: "session_state \<Rightarrow> bool" where
  "terminal_pm st = (st = STOPPED \<or> st = S_FAILED)"

text \<open>\<open>session.meta["key"]\<close> under \<open>str\<close>.\<close>

definition meta_item :: "pi_session \<Rightarrow> string \<Rightarrow> string act" where
  "meta_item s k = (case meta_get (s_meta s) k of None \<Rightarrow> raise_err (KeyErr k) | Some v \<Rightarrow> ret (scalar_str v))"

definition orchestrator_repo :: "string act" where
  "orchestrator_repo = bnd (getenv ''WH_ORCHESTRATOR_REPO'') (\<lambda>override. bnd (getenv ''HOME'') (\<lambda>home.
     ret (path_str (posix_path (expand_user home (if override \<noteq> '''' then override else ''~/Work/agent-orchestrator''))))))"

definition orchestrator_machine_name :: "string act" where
  "orchestrator_machine_name = bnd (getenv ''WH_ORCHESTRATOR_MACHINE'') (\<lambda>n. ret (if n \<noteq> '''' then n else ''desktop''))"

definition prompt_path :: "string \<Rightarrow> string act" where
  "prompt_path role = bnd orchestrator_repo (\<lambda>repo.
     ret (path_str (posix_path (repo @ ''/prompts/'' @ (if role = ''orchestrator'' then ''orchestrator-system.md'' else role @ ''.md'')))))"

section \<open>Agent names\<close>

definition agent_name_char :: "char \<Rightarrow> bool" where
  "agent_name_char c = (is_lower_alpha c \<or> is_digit c \<or> c = CHR ''_'' \<or> c = CHR ''-'')"

text \<open>\<open>re.sub(r"[^a-z0-9_-]+", "-", s)\<close>; the flag says that the last character was replaced.\<close>

fun squeeze :: "bool \<Rightarrow> string \<Rightarrow> string" where
  "squeeze replaced [] = []"
| "squeeze replaced (c # cs) =
     (if agent_name_char c then c # squeeze False cs
      else if replaced then squeeze True cs else CHR ''-'' # squeeze True cs)"

definition herdr_agent_name :: "string \<Rightarrow> string" where
  "herdr_agent_name name =
     (let cleaned = lstrip_char (CHR ''-'') (rstrip_char (CHR ''-'') (squeeze False (lower name)));
          cleaned = (if cleaned = '''' \<or> \<not> is_lower_alpha (hd cleaned) then CHR ''a'' # cleaned else cleaned);
          cut = rev (dropWhile (\<lambda>c. c = CHR ''-'' \<or> c = CHR ''_'') (rev (take 32 cleaned)))
      in if cut \<noteq> '''' then cut else ''agent'')"

section \<open>Worktrees\<close>

fun create_worktree_from :: "nat list \<Rightarrow> machine \<Rightarrow> string \<Rightarrow> string \<Rightarrow> string \<Rightarrow> (string \<times> string) act" where
  "create_worktree_from [] m repo branch base =
     raise_err (WorktreeErr (''could not create worktree for '' @ py_repr branch @ '' after 5 attempts''))"
| "create_worktree_from (attempt_no # rest) m repo branch base =
     (let actual_branch = (if attempt_no = 1 then branch else branch @ ''-'' @ nat_to_string attempt_no);
          branch_slug = replace_char (CHR ''/'') ''-'' actual_branch;
          path = worktree_dir m (repo_name_of repo) branch_slug
      in catch (seq (shim m [''worktree-add'', repo, actual_branch, base, path] None) (ret (path, actual_branch)))
           (\<lambda>err. if shim_error err then create_worktree_from rest m repo branch base else raise_err err))"

definition create_worktree :: "machine \<Rightarrow> string \<Rightarrow> string \<Rightarrow> string \<Rightarrow> (string \<times> string) act" where
  "create_worktree m repo branch base = create_worktree_from [1, 2, 3, 4, 5] m repo branch base"

definition destroy_worktree :: "machine \<Rightarrow> string \<Rightarrow> string \<Rightarrow> string \<Rightarrow> unit act" where
  "destroy_worktree m repo path branch =
     seq (catch (seq (shim m [''worktree-remove'', repo, path] None) (ret ()))
           (\<lambda>err. if shim_error err then raise_err (WorktreeErr (''could not remove worktree '' @ path @ '': '' @ error_str err))
                  else raise_err err))
       (catch (seq (shim m [''branch-delete'', repo, branch] None) (ret ()))
           (\<lambda>err. if shim_error err then ret () else raise_err err))"

section \<open>Session bookkeeping\<close>

definition fleet_project :: "fleet \<Rightarrow> string \<Rightarrow> project act" where
  "fleet_project fl name = (case map_of (fl_projects fl) name of
     None \<Rightarrow> raise_err (KeyErr (''unknown project: '' @ name)) | Some p \<Rightarrow> ret p)"

definition project_machine :: "fleet \<Rightarrow> project \<Rightarrow> machine act" where
  "project_machine fl p = (case map_of (fl_machines fl) (pj_machine p) of
     None \<Rightarrow> raise_err (KeyErr (''project '' @ py_repr (pj_name p) @ '' references unknown machine '' @ py_repr (pj_machine p)))
   | Some m \<Rightarrow> ret m)"

definition session_machine :: "fleet \<Rightarrow> pi_session \<Rightarrow> machine act" where
  "session_machine fl s =
     (let named = meta_str (s_meta s) ''machine''; name = (if named \<noteq> '''' then named else s_host s)
      in case map_of (fl_machines fl) name of
           None \<Rightarrow> raise_err (KeyErr (''session '' @ s_id s @ '' references unknown machine '' @ py_repr name))
         | Some m \<Rightarrow> ret m)"

definition record_event :: "string \<Rightarrow> string \<Rightarrow> (string \<times> json) list \<Rightarrow> unit act" where
  "record_event sid typ payload =
     bnd now (\<lambda>t. bnd uuid4 (\<lambda>i. modify (insert_pi_session_event (new_event i sid typ payload t))))"

definition remote_cleanup_error :: "pi_session \<Rightarrow> string \<Rightarrow> error \<Rightarrow> unit act" where
  "remote_cleanup_error s operation err =
     record_event (s_id s) ''herdr-error'' [(''operation'', JStr operation), (''detail'', JStr (error_str err))]"

definition mark_failed :: "pi_session \<Rightarrow> error \<Rightarrow> string \<Rightarrow> unit act" where
  "mark_failed s err event_type =
     bnd now (\<lambda>t. seq (modify (finish_pi_session t (s_id s) S_FAILED (error_str err)))
       (record_event (s_id s) event_type [(''detail'', JStr (error_str err)), (''error_type'', JStr (error_type err))]))"

definition close_after_failed_launch :: "machine \<Rightarrow> pi_session \<Rightarrow> unit act" where
  "close_after_failed_launch m s =
     seq (whenever (meta_str (s_meta s) ''pane_id'' \<noteq> '''')
           (on_remote_error (seq (pane_close m (meta_str (s_meta s) ''pane_id'')) (ret ())) (remote_cleanup_error s ''pane-close'')))
       (on_remote_error (remove_file m (meta_str (s_meta s) ''cache_dir'')) (remote_cleanup_error s ''remove-cache''))"

definition cleanup_failed_worktree :: "fleet \<Rightarrow> pi_session \<Rightarrow> unit act" where
  "cleanup_failed_worktree fl s =
     (let worktree = meta_str (s_meta s) ''worktree''; branch = meta_str (s_meta s) ''branch''
      in if worktree = '''' \<or> branch = '''' then ret ()
         else bnd (session_machine fl s) (\<lambda>m.
           catch (bnd (meta_item s ''repo'') (\<lambda>repo. destroy_worktree m repo worktree branch)) (\<lambda>err.
             if worktree_error err then
               record_event (s_id s) ''teardown-failed'' [(''operation'', JStr ''destroy-worktree''), (''detail'', JStr (error_str err))]
             else raise_err err)))"

definition next_pane_sequence :: "pi_session \<Rightarrow> int act" where
  "next_pane_sequence s = db_try (next_pi_session_pane_sequence (s_id s))"

definition report_state :: "fleet \<Rightarrow> pi_session \<Rightarrow> string \<Rightarrow> string \<Rightarrow> unit act" where
  "report_state fl s state message =
     bnd (session_machine fl s) (\<lambda>m. bnd (next_pane_sequence s) (\<lambda>sequence.
       on_remote_error
         (bnd (meta_item s ''pane_id'') (\<lambda>pane.
           seq (report_agent m pane state FLEET_SOURCE (herdr_agent_name (s_name s)) sequence message ''''
                  (meta_str (s_meta s) ''resume_path'')) (ret ())))
         (\<lambda>err. seq (record_event (s_id s) ''herdr-error''
                  [(''operation'', JStr ''report-state''), (''state'', JStr state), (''detail'', JStr (error_str err))])
                (raise_err err))))"

definition enqueue_briefing :: "pi_session \<Rightarrow> string \<Rightarrow> unit act" where
  "enqueue_briefing s briefing =
     bnd now (\<lambda>t. bnd uuid4 (\<lambda>i.
       seq (db_put (enqueue_pi_session_command t
              ((new_pi_command i (s_id s))\<lparr>c_kind := ''prompt'', c_message := briefing, c_deliver_as := ''steer'', c_created := t\<rparr>)))
         (record_event (s_id s) ''prompt-queued'' [(''command_id'', JStr i), (''deliver_as'', JStr ''steer'')])))"

section \<open>Waiting for the bridge\<close>

text \<open>The loop ends after 60 seconds and sleeps half a second in every round, so 120 rounds are
  enough; None is the timeout.\<close>

fun wait_loop :: "nat \<Rightarrow> machine \<Rightarrow> string \<Rightarrow> int \<Rightarrow> pi_session option act" where
  "wait_loop 0 m sid deadline = ret None"
| "wait_loop (Suc n) m sid deadline =
     bnd now (\<lambda>t. if t \<ge> deadline then ret None
       else bnd (ask (get_pi_session sid)) (\<lambda>current.
         case current of
           Some c \<Rightarrow>
             if terminal_pm (s_state c) then
               seq (close_after_failed_launch m c)
                 (raise_err (RuntimeErr (if s_detail c \<noteq> '''' then s_detail c
                    else ''agent session '' @ sid @ '' stopped during launch'')))
             else if s_incarnation c \<noteq> None \<and> s_incarnation c \<noteq> Some '''' then ret (Some c)
             else seq pause (wait_loop n m sid deadline)
         | None \<Rightarrow> seq pause (wait_loop n m sid deadline)))"

definition wait_for_bridge :: "machine \<Rightarrow> pi_session \<Rightarrow> pi_session act" where
  "wait_for_bridge m s =
     bnd now (\<lambda>t0. bnd (wait_loop 120 m (s_id s) (t0 + 60)) (\<lambda>found. case found of
       Some c \<Rightarrow> ret c
     | None \<Rightarrow>
       bnd (on_remote_error (bnd (meta_item s ''pane_id'') (\<lambda>pane. pane_read m pane ''recent-unwrapped'' 120))
             (\<lambda>err. seq (record_event (s_id s) ''herdr-error'' [(''operation'', JStr ''pane-read''), (''detail'', JStr (error_str err))])
                     (ret (''<pane read failed: '' @ error_str err @ ''>'')))) (\<lambda>pane_output.
         let detail = ''agent session '' @ s_id s @ '' did not register within 60 seconds''
         in bnd now (\<lambda>t. seq (modify (finish_pi_session t (s_id s) S_FAILED detail))
             (seq (close_after_failed_launch m s)
               (seq (record_event (s_id s) ''launch-failed'' [(''detail'', JStr detail), (''pane_output'', JStr pane_output)])
                 (raise_err (TimeoutErr detail))))))))"

section \<open>Launching\<close>

record launch_args =
  la_role :: string
  la_machine :: machine
  la_cwd :: string
  la_project :: string
  la_repo :: string
  la_remote :: string
  la_base :: string
  la_branch :: string
  la_briefing :: string
  la_parent :: "string option"
  la_resume :: "string option"

record launch_spec =
  ls_role :: string
  ls_machine :: machine
  ls_cwd :: string
  ls_project :: string
  ls_repo :: string
  ls_remote :: string
  ls_base :: string
  ls_name :: string
  ls_type :: session_type
  ls_prompt :: string
  ls_add_dirs :: "string list"

definition make_launch_spec :: "launch_args \<Rightarrow> string \<Rightarrow> string \<Rightarrow> launch_spec act" where
  "make_launch_spec la cwd branch =
     bnd (prompt_path (la_role la)) (\<lambda>prompt.
       if la_role la = ''orchestrator'' then
         ret \<lparr>ls_role = la_role la, ls_machine = la_machine la, ls_cwd = cwd, ls_project = '''', ls_repo = cwd, ls_remote = '''',
           ls_base = '''', ls_name = ''orchestrator'', ls_type = GLOBAL_ROUTER, ls_prompt = prompt, ls_add_dirs = []\<rparr>
       else if la_project la = '''' \<or> la_repo la = '''' then
         raise_err (ValueErr (la_role la @ '' launch requires project name and repository''))
       else
         ret \<lparr>ls_role = la_role la, ls_machine = la_machine la, ls_cwd = cwd, ls_project = la_project la, ls_repo = la_repo la,
           ls_remote = la_remote la, ls_base = la_base la,
           ls_name = (if la_role la = ''pm'' then ''pm-'' @ la_project la
                      else ''task-'' @ la_project la @ ''-'' @ replace_char (CHR ''/'') ''-'' branch),
           ls_type = INTERACTIVE, ls_prompt = prompt,
           ls_add_dirs = (if la_role la = ''task'' then [la_repo la] else [])\<rparr>)"

fun json_text :: "json \<Rightarrow> string" where
  "json_text (JStr s) = s"
| "json_text _ = ''''"

definition new_fleet_session :: "launch_spec \<Rightarrow> string \<Rightarrow> string \<Rightarrow> string option \<Rightarrow> string \<Rightarrow> string \<Rightarrow> string \<Rightarrow>
    workspace_info option \<Rightarrow> string option \<Rightarrow> int \<Rightarrow> pi_session" where
  "new_fleet_session spec sid token_hash parent briefing worktree branch workspace resume t =
     (let cache = session_dir (ls_machine spec) sid
      in (new_pi_session sid)\<lparr>s_parent := parent, s_type := ls_type spec, s_role := ls_role spec, s_state := S_STARTING,
           s_task := briefing, s_name := ls_name spec, s_cwd := ls_cwd spec, s_host := mc_name (ls_machine spec),
           s_agent := ''omp'', s_token_hash := token_hash, s_created := t, s_updated := t,
           s_meta := [(''machine'', SStr (mc_name (ls_machine spec))),
             (''workspace_id'', SStr (case workspace of None \<Rightarrow> '''' | Some ws \<Rightarrow> json_text (wi_workspace ws))),
             (''pane_id'', SStr (case workspace of None \<Rightarrow> '''' | Some ws \<Rightarrow> json_text (wi_pane ws))),
             (''project'', SStr (ls_project spec)), (''repo'', SStr (ls_repo spec)), (''remote'', SStr (ls_remote spec)),
             (''worktree'', SStr worktree), (''branch'', SStr branch),
             (''resume_path'', SStr (case resume of None \<Rightarrow> '''' | Some r \<Rightarrow> r)), (''pr_url'', SStr ''''),
             (''cache_dir'', SStr cache), (''paths_file'', SStr (cache @ ''/sandbox-paths'')),
             (''prompt_file'', SStr (cache @ ''/'' @ ls_role spec @ ''-prompt.md'')), (''pane_sequence'', SInt 0)]\<rparr>)"

definition join_path :: "posix_path \<Rightarrow> string \<Rightarrow> posix_path" where
  "join_path p s = p\<lparr>pp_names := pp_names p @ pp_names (posix_path s)\<rparr>"

definition resume_ok :: "machine \<Rightarrow> string \<Rightarrow> bool" where
  "resume_ok m resume =
     (let transcript = posix_path resume
      in path_is_relative_to transcript (join_path (posix_path (mc_home m)) ''.omp/agent/sessions'') \<and>
         ''..'' \<notin> set (path_parts transcript) \<and> path_suffix transcript = ''.jsonl'')"

text \<open>The handler of the launch: record the failure, close the pane, and clean the worktree only
  when no agent can have run in it.\<close>

definition fail_launch :: "fleet \<Rightarrow> machine \<Rightarrow> pi_session \<Rightarrow> bool \<Rightarrow> error \<Rightarrow> 'a act" where
  "fail_launch fl m s clean err =
     seq (mark_failed s err ''launch-failed'') (seq (close_after_failed_launch m s)
       (seq (whenever clean (cleanup_failed_worktree fl s)) (raise_err err)))"

text \<open>The part of the \<open>try\<close> block before \<open>launch_attempted\<close> is set, and the part after it.\<close>

definition write_launch_files :: "machine \<Rightarrow> pi_session \<Rightarrow> string \<Rightarrow> string \<Rightarrow> string \<Rightarrow> string act" where
  "write_launch_files m s paths_content prompt command =
     seq (write_file m (meta_str (s_meta s) ''paths_file'') paths_content)
       (seq (write_file m (meta_str (s_meta s) ''prompt_file'') prompt)
         (let launch_file = meta_str (s_meta s) ''cache_dir'' @ ''/launch.sh''
          in seq (write_file m launch_file (command @ nl)) (ret launch_file)))"

definition run_agent :: "fleet \<Rightarrow> machine \<Rightarrow> pi_session \<Rightarrow> string \<Rightarrow> string \<Rightarrow> unit act" where
  "run_agent fl m s launch_file briefing =
     (let pane = meta_str (s_meta s) ''pane_id''
      in seq (pane_run m pane (''exec /bin/sh '' @ shlex_quote launch_file))
         (seq (whenever (s_role s = ''task'') (enqueue_briefing s briefing))
         (seq (catch (seq (agent_rename m pane (herdr_agent_name (s_name s))) (ret ())) (\<lambda>err. case err of
                HerdrErr code message \<Rightarrow> record_event (s_id s) ''herdr-error''
                  [(''operation'', JStr ''agent-rename''), (''code'', JStr code), (''detail'', JStr (error_str err))]
              | _ \<Rightarrow> raise_err err))
         (seq (report_state fl s ''working'' '''')
         (seq (report_metadata m pane FLEET_SOURCE (herdr_agent_name (s_name s)) ([char_of (207 :: nat), char_of (128 :: nat)] @ '' '' @ s_name s))
           (ret ()))))))"

definition start_in_workspace :: "fleet \<Rightarrow> launch_args \<Rightarrow> launch_spec \<Rightarrow> pi_session \<Rightarrow> string \<Rightarrow> string \<Rightarrow> string \<Rightarrow> pi_session act" where
  "start_in_workspace fl la spec s token worktree briefing =
     (let m = la_machine la; role = la_role la;
          missing = RuntimeErr (''cannot read required '' @ role @ '' prompt: '' @ ls_prompt spec);
          empty = RuntimeErr (''required '' @ role @ '' prompt is empty: '' @ ls_prompt spec)
      in bnd (attempt (read_text (ls_prompt spec))) (\<lambda>p. case p of
           Inl _ \<Rightarrow> fail_launch fl m s (worktree \<noteq> '''') missing
         | Inr prompt \<Rightarrow>
           if strip prompt = '''' then fail_launch fl m s (worktree \<noteq> '''') empty
           else
             bnd (lift_res (paths_file_content role (mc_home m))) (\<lambda>paths_content.
             bnd (lift_res (launch_command m role (meta_str (s_meta s) ''paths_file'') (s_id s) token (fl_base_url fl)
                    (meta_str (s_meta s) ''prompt_file'') (ls_add_dirs spec))) (\<lambda>command0.
             let command = command0 @ (case la_resume la of None \<Rightarrow> '''' | Some r \<Rightarrow> if r = '''' then '''' else '' --resume '' @ shlex_quote r)
             in bnd (attempt (write_launch_files m s paths_content prompt command)) (\<lambda>written. case written of
                  Inl err \<Rightarrow> fail_launch fl m s (worktree \<noteq> '''') err
                | Inr launch_file \<Rightarrow>
                  bnd (attempt (run_agent fl m s launch_file briefing)) (\<lambda>started. case started of
                    Inl err \<Rightarrow> fail_launch fl m s False err
                  | Inr _ \<Rightarrow>
                    catch (wait_for_bridge m s) (\<lambda>err.
                      if err = CancelledErr then fail_launch fl m s False err else raise_err err)))))))"

definition launch :: "fleet \<Rightarrow> launch_args \<Rightarrow> pi_session act" where
  "launch fl la =
     (let m = la_machine la; role = la_role la;
          parent = (if role = ''orchestrator'' then None else la_parent la);
          briefing = (if role = ''orchestrator'' then '''' else la_briefing la)
      in if (case la_resume la of None \<Rightarrow> False | Some r \<Rightarrow> r \<noteq> '''' \<and> \<not> resume_ok m r)
         then raise_err (ValueErr ''resume path must be a transcript under the target machine's agent sessions'')
         else
           bnd (make_launch_spec la (la_cwd la) (la_branch la)) (\<lambda>spec0.
           bnd uuid4 (\<lambda>sid. bnd uuid4 (\<lambda>token. bnd (sha256_hex token) (\<lambda>token_hash.
           bnd (if role = ''task'' then
                  catch (create_worktree m (la_repo la) (la_branch la) (la_base la)) (\<lambda>err.
                    if worktree_error err then
                      bnd now (\<lambda>t. let s = new_fleet_session spec0 sid token_hash parent briefing '''' (la_branch la) None None t
                        in seq (db_put (insert_pi_session s)) (seq (mark_failed s err ''launch-failed'') (raise_err err)))
                    else raise_err err)
                else ret ('''', '''')) (\<lambda>wt. case wt of (worktree, branch) \<Rightarrow>
           bnd (if role = ''task'' then make_launch_spec la worktree branch else ret spec0) (\<lambda>spec.
           bnd (on_remote_error (workspace_create m (ls_cwd spec) (ls_name spec)) (\<lambda>err.
                  bnd now (\<lambda>t. let s = new_fleet_session spec sid token_hash parent briefing worktree branch None None t
                    in seq (db_put (insert_pi_session s)) (seq (mark_failed s err ''launch-failed'')
                        (seq (whenever (worktree \<noteq> '''') (cleanup_failed_worktree fl s)) (raise_err err)))))) (\<lambda>workspace.
           bnd now (\<lambda>t.
             let s = new_fleet_session spec sid token_hash parent briefing worktree branch (Some workspace) (la_resume la) t
             in seq (db_put (insert_pi_session s)) (start_in_workspace fl la spec s token worktree briefing))))))))))"

section \<open>Ensuring managers and launching tasks\<close>

definition first_resume :: "pi_session list \<Rightarrow> string option" where
  "first_resume ss = map_option (\<lambda>s. meta_str (s_meta s) ''resume_path'')
     (find (\<lambda>s. meta_str (s_meta s) ''resume_path'' \<noteq> '''') ss)"

text \<open>The live session to reuse; one that is still starting is waited for.\<close>

definition reuse :: "fleet \<Rightarrow> pi_session \<Rightarrow> pi_session act" where
  "reuse fl s = (if s_state s = S_STARTING then bnd (session_machine fl s) (\<lambda>m. wait_for_bridge m s) else ret s)"

definition ensure_orchestrator :: "fleet \<Rightarrow> pi_session act" where
  "ensure_orchestrator fl =
     bnd (ask (list_pi_sessions_by_role ''orchestrator'')) (\<lambda>ss.
       case find (\<lambda>s. \<not> terminal_pm (s_state s)) ss of
         Some s \<Rightarrow> reuse fl s
       | None \<Rightarrow>
         bnd orchestrator_machine_name (\<lambda>name. case map_of (fl_machines fl) name of
           None \<Rightarrow> raise_err (KeyErr (''orchestrator machine '' @ py_repr name @ '' is not configured''))
         | Some m \<Rightarrow>
           bnd (getenv ''WH_ORCHESTRATOR_CWD'') (\<lambda>cwd.
             let repo = (if cwd \<noteq> '''' then cwd else mc_home m @ ''/Work/agent-orchestrator'')
             in if \<not> startswith ''/'' repo then raise_err (ValueErr ''WH_ORCHESTRATOR_CWD must be an absolute remote path'')
                else launch fl \<lparr>la_role = ''orchestrator'', la_machine = m, la_cwd = repo, la_project = '''', la_repo = repo,
                  la_remote = '''', la_base = '''', la_branch = '''', la_briefing = '''', la_parent = None,
                  la_resume = first_resume ss\<rparr>)))"

definition project_pms :: "string \<Rightarrow> database \<Rightarrow> pi_session list" where
  "project_pms name d = filter (\<lambda>s. meta_get (s_meta s) ''project'' = Some (SStr name)) (list_pi_sessions_by_role ''pm'' d)"

definition ensure_pm :: "fleet \<Rightarrow> string \<Rightarrow> pi_session act" where
  "ensure_pm fl name =
     bnd (fleet_project fl name) (\<lambda>p. bnd (ask (project_pms name)) (\<lambda>ss.
       case find (\<lambda>s. \<not> terminal_pm (s_state s)) ss of
         Some s \<Rightarrow> reuse fl s
       | None \<Rightarrow>
         bnd (project_machine fl p) (\<lambda>m.
         bnd (launch fl \<lparr>la_role = ''pm'', la_machine = m, la_cwd = pj_repo p, la_project = pj_name p, la_repo = pj_repo p,
                la_remote = pj_remote p, la_base = pj_base p, la_branch = '''', la_briefing = '''', la_parent = None,
                la_resume = first_resume ss\<rparr>) (\<lambda>manager.
           seq (each (\<lambda>previous. modify (reparent_pi_session_children (s_id previous) (s_id manager))) ss) (ret manager)))))"

definition active_pm :: "string \<Rightarrow> pi_session option \<Rightarrow> bool" where
  "active_pm project parent = (case parent of None \<Rightarrow> False
     | Some s \<Rightarrow> s_role s = ''pm'' \<and> meta_get (s_meta s) ''project'' = Some (SStr project) \<and> \<not> terminal_pm (s_state s))"

definition launch_task :: "fleet \<Rightarrow> project \<Rightarrow> string \<Rightarrow> string \<Rightarrow> string \<Rightarrow> pi_session act" where
  "launch_task fl p branch briefing parent_id =
     bnd (ask (get_pi_session parent_id)) (\<lambda>parent.
       if \<not> active_pm (pj_name p) parent
       then raise_err (WorktreeErr ''task parent must be the active manager of its project'')
       else bnd (project_machine fl p) (\<lambda>m.
         launch fl \<lparr>la_role = ''task'', la_machine = m, la_cwd = pj_repo p, la_project = pj_name p, la_repo = pj_repo p,
           la_remote = pj_remote p, la_base = pj_base p, la_branch = branch, la_briefing = briefing,
           la_parent = Some parent_id, la_resume = None\<rparr>))"

section \<open>Stopping\<close>

definition finish_stopped :: "pi_session \<Rightarrow> (string \<times> json) list \<Rightarrow> unit act" where
  "finish_stopped s payload =
     bnd now (\<lambda>t. seq (modify (finish_pi_session t (s_id s) STOPPED '''')) (record_event (s_id s) ''stopped'' payload))"

definition release_pane :: "machine \<Rightarrow> pi_session \<Rightarrow> string \<Rightarrow> unit act" where
  "release_pane m s pane =
     on_remote_error
       (bnd (next_pane_sequence s) (\<lambda>sequence.
         seq (release_agent m pane FLEET_SOURCE (herdr_agent_name (s_name s)) sequence) (ret ())))
       (remote_cleanup_error s ''release-agent'')"

definition teardown_task :: "fleet \<Rightarrow> pi_session \<Rightarrow> bool \<Rightarrow> unit act" where
  "teardown_task fl s force =
     (if s_role s \<noteq> ''task'' then raise_err (WorktreeErr (''session '' @ s_id s @ '' is not a task session''))
      else if \<not> truthy (meta_get (s_meta s) ''pr_url'') \<and> \<not> force then
        raise_err (WorktreeErr (''refusing to destroy task session '' @ s_id s @ '' without a PR; pass force=True to override''))
      else bnd (session_machine fl s) (\<lambda>m.
        let pane = meta_str (s_meta s) ''pane_id''
        in seq (whenever (pane \<noteq> '''')
              (seq (on_remote_error (seq (pane_close m pane) (ret ())) (\<lambda>err.
                     seq (remote_cleanup_error s ''pane-close'' err)
                       (raise_err (WorktreeErr ''refusing to remove a worktree while its pane may still run''))))
                (release_pane m s pane)))
          (seq (catch (bnd (meta_item s ''repo'') (\<lambda>repo. bnd (meta_item s ''worktree'') (\<lambda>worktree.
                  bnd (meta_item s ''branch'') (\<lambda>branch. destroy_worktree m repo worktree branch))))
                (\<lambda>err. if worktree_error err then seq (mark_failed s err ''teardown-failed'') (raise_err err) else raise_err err))
            (seq (on_remote_error (bnd (meta_item s ''cache_dir'') (remove_file m)) (remote_cleanup_error s ''remove-cache''))
              (finish_stopped s [(''force'', JBool force)])))))"

definition stop_session :: "fleet \<Rightarrow> pi_session \<Rightarrow> unit act" where
  "stop_session fl s =
     bnd (session_machine fl s) (\<lambda>m.
       let pane = meta_str (s_meta s) ''pane_id''
       in seq (whenever (pane \<noteq> '''')
             (seq (release_pane m s pane)
               (on_remote_error (seq (pane_close m pane) (ret ())) (\<lambda>err.
                  seq (remote_cleanup_error s ''pane-close'' err) (raise_err err)))))
         (seq (on_remote_error (remove_file m (meta_str (s_meta s) ''cache_dir'')) (remote_cleanup_error s ''remove-cache''))
           (finish_stopped s [])))"

section \<open>The poll\<close>

definition retirable :: "int \<Rightarrow> int \<Rightarrow> pi_session list \<Rightarrow> pi_session \<Rightarrow> bool" where
  "retirable t idle tasks s =
     (s_state s = IDLE \<and> t - s_updated s \<ge> idle \<and> \<not> s_has_pending s \<and>
      \<not> list_ex (\<lambda>task. s_parent task = Some (s_id s) \<and> \<not> terminal_pm (s_state task)) tasks)"

definition poll_session :: "fleet \<Rightarrow> int \<Rightarrow> int \<Rightarrow> pi_session list \<Rightarrow> pi_session \<Rightarrow> unit act" where
  "poll_session fl t idle tasks s =
     (if terminal_pm (s_state s) \<or> \<not> truthy (meta_get (s_meta s) ''pane_id'') then ret ()
      else catch
        (if s_role s = ''pm'' \<and> idle > 0 \<and> retirable t idle tasks s then
           bnd (meta_item s ''project'') (\<lambda>name. case map_of (fl_projects fl) name of
             None \<Rightarrow> raise_err (KeyErr name)
           | Some _ \<Rightarrow> bnd (ask (get_pi_session (s_id s))) (\<lambda>current. bnd (ask (list_pi_sessions_by_role ''task'')) (\<lambda>current_tasks.
               case current of
                 None \<Rightarrow> ret ()
               | Some c \<Rightarrow> if retirable t idle current_tasks c then stop_session fl c else ret ())))
         else report_state fl s (if s_state s = IDLE then ''idle'' else ''working'') (if s_question s \<noteq> '''' then s_question s else s_detail s))
        (\<lambda>err. if err = CancelledErr then raise_err err else ret ()))"

definition poll :: "fleet \<Rightarrow> unit act" where
  "poll fl =
     bnd now (\<lambda>t. bnd (getenv_opt ''WH_PM_IDLE_SECONDS'') (\<lambda>v.
       case py_int (case v of None \<Rightarrow> ''1800'' | Some text \<Rightarrow> text) of
         None \<Rightarrow> raise_err (ValueErr ''invalid literal for int()'')
       | Some idle \<Rightarrow>
         bnd (ask (list_pi_sessions_by_role ''task'')) (\<lambda>tasks.
         bnd (ask (list_pi_sessions_by_role ''orchestrator'')) (\<lambda>routers.
         bnd (ask (list_pi_sessions_by_role ''pm'')) (\<lambda>pms.
           each (poll_session fl t idle tasks) (routers @ pms @ tasks))))))"

end
