(* ===== verification/Auth.thy ===== *)
theory Auth
  imports Orchestration
begin

text \<open>
  Who may call the control API: \<open>_operator_token\<close>, \<open>require_role\<close> and \<open>require_api_caller\<close> of
  \<open>heartbeat.py\<close>.  A caller is None for the operator and a session for an agent.
\<close>

record app =
  ap_operator :: string
  ap_fleet :: fleet

type_synonym caller = "pi_session option"

section \<open>The operator token\<close>

definition token_char :: "char \<Rightarrow> bool" where
  "token_char c = (is_alnum c \<or> c = CHR ''_'' \<or> c = CHR ''-'')"

definition operator_token :: "string act" where
  "operator_token =
     bnd (getenv ''WH_OPERATOR_TOKEN'') (\<lambda>given. bnd (getenv ''WH_OPERATOR_TOKEN_FILE'') (\<lambda>token_file.
     bnd (if given = '''' \<and> token_file \<noteq> '''' then
            bnd (getenv ''HOME'') (\<lambda>home. bnd (read_text (path_str (posix_path (expand_user home token_file)))) (\<lambda>text. ret (strip text)))
          else ret given) (\<lambda>token.
       if (token \<noteq> '''' \<or> token_file \<noteq> '''') \<and> (length token < 43 \<or> \<not> list_all token_char token)
       then raise_err (ValueErr ''operator token must be at least 43 base64url characters'')
       else ret token)))"

section \<open>Callers\<close>

definition is_ascii :: "char \<Rightarrow> bool" where
  "is_ascii c = ((of_char c :: nat) < 128)"

text \<open>The token of an \<open>Authorization\<close> header, None when the header is malformed.\<close>

definition bearer_token :: "string \<Rightarrow> string option" where
  "bearer_token header = (case partition_char (CHR '' '') header of (scheme, sep, token) \<Rightarrow>
     if sep \<noteq> '' '' \<or> lower scheme \<noteq> ''bearer'' \<or> strip token = '''' \<or> \<not> list_all is_ascii token then None
     else Some (strip token))"

definition require_role :: "app \<Rightarrow> string list \<Rightarrow> string option \<Rightarrow> caller act" where
  "require_role app allowed authorization =
     (case authorization of
        None \<Rightarrow>
          if ap_operator app \<noteq> '''' \<or> fl_machines (ap_fleet app) \<noteq> []
          then raise_err (HTTPErr 401 ''operator or session bearer token required'')
          else if ''operator'' \<in> set allowed then ret None
          else raise_err (HTTPErr 403 ''operator is not allowed'')
      | Some header \<Rightarrow> (case bearer_token header of
          None \<Rightarrow> raise_err (HTTPErr 401 ''invalid bearer token'')
        | Some token \<Rightarrow>
          if ap_operator app \<noteq> '''' \<and> token = ap_operator app then
            if ''operator'' \<in> set allowed then ret None else raise_err (HTTPErr 403 ''operator is not allowed'')
          else bnd (sha256_hex token) (\<lambda>digest. bnd (ask (get_pi_session_by_token_hash digest)) (\<lambda>found. case found of
            None \<Rightarrow> raise_err (HTTPErr 401 ''invalid bearer token'')
          | Some caller \<Rightarrow>
            if s_state caller \<in> {STOPPED, S_FAILED, TERMINATION_UNKNOWN}
            then raise_err (HTTPErr 401 ''session token is no longer active'')
            else if s_role caller \<notin> set allowed then raise_err (HTTPErr 403 ''caller role is not allowed'')
            else ret (Some caller)))))"

definition require_api_caller :: "app \<Rightarrow> string \<Rightarrow> bool \<Rightarrow> string option \<Rightarrow> unit act" where
  "require_api_caller app path websocket authorization =
     (if path = ''/health'' then ret ()
      else if websocket then ret ()
      else seq (require_role app ([''operator'', ''pm'', ''task''] @
                 (if startswith ''/api/v1/pi/'' path then [''orchestrator''] else [])) authorization) (ret ()))"

text \<open>A handler behind both dependencies.\<close>

definition endpoint :: "app \<Rightarrow> string \<Rightarrow> string list \<Rightarrow> string option \<Rightarrow> (caller \<Rightarrow> 'a act) \<Rightarrow> 'a act" where
  "endpoint app path allowed authorization handler =
     seq (require_api_caller app path False authorization) (bnd (require_role app allowed authorization) handler)"

section \<open>Properties\<close>

text \<open>What a caller has shown.\<close>

definition proven :: "app \<Rightarrow> string list \<Rightarrow> string option \<Rightarrow> (string \<Rightarrow> string) \<Rightarrow> database \<Rightarrow> caller \<Rightarrow> bool" where
  "proven app allowed authorization hash d c = (case c of
     None \<Rightarrow> ''operator'' \<in> set allowed \<and>
       (case authorization of
          None \<Rightarrow> ap_operator app = '''' \<and> fl_machines (ap_fleet app) = []
        | Some h \<Rightarrow> ap_operator app \<noteq> '''' \<and> bearer_token h = Some (ap_operator app))
   | Some s \<Rightarrow> s \<in> set (t_sessions d) \<and> s_role s \<in> set allowed \<and> \<not> terminal_state (s_state s) \<and>
       (\<exists>h t. authorization = Some h \<and> bearer_token h = Some t \<and> hash t = s_token_hash s))"

lemma require_role_result:
  "\<exists>r. require_role app allowed authorization e w = Some (r, w) \<and>
     (case r of Inl err \<Rightarrow> (\<exists>detail. err = HTTPErr 401 detail) \<or> (\<exists>detail. err = HTTPErr 403 detail)
      | Inr c \<Rightarrow> proven app allowed authorization (o_sha256 e) (wd_db w) c)"
proof (cases authorization)
  case None
  then show ?thesis by (simp add: require_role_def proven_def act_defs)
next
  case (Some h)
  show ?thesis
  proof (cases "bearer_token h")
    case None
    with Some show ?thesis by (simp add: require_role_def proven_def act_defs)
  next
    case tok: (Some t)
    show ?thesis
    proof (cases "ap_operator app \<noteq> '''' \<and> t = ap_operator app")
      case True
      with Some tok show ?thesis by (simp add: require_role_def proven_def act_defs)
    next
      case False
      have q: "s \<in> set (t_sessions (wd_db w)) \<and> s_token_hash s = o_sha256 e t"
        if "get_pi_session_by_token_hash (o_sha256 e t) (wd_db w) = Some s" for s
        using find_SomeD [OF that [unfolded get_pi_session_by_token_hash_def]] by simp
      have run: "require_role app allowed authorization e w = Some (case get_pi_session_by_token_hash (o_sha256 e t) (wd_db w) of
            None \<Rightarrow> Inl (HTTPErr 401 ''invalid bearer token'')
          | Some caller \<Rightarrow> if s_state caller \<in> {STOPPED, S_FAILED, TERMINATION_UNKNOWN}
              then Inl (HTTPErr 401 ''session token is no longer active'')
              else if s_role caller \<notin> set allowed then Inl (HTTPErr 403 ''caller role is not allowed'')
              else Inr (Some caller), w)"
        unfolding require_role_def Some option.case tok using False
        by (auto simp: act_defs bnd_def split: option.split)
      show ?thesis
        unfolding run using q Some tok
        by (auto simp: proven_def terminal_state_def split: option.split)
    qed
  qed
qed

lemma endpoint_cases:
  "(\<exists>err. endpoint app path allowed authorization handler e w = Some (Inl err, w) \<and>
      ((\<exists>detail. err = HTTPErr 401 detail) \<or> (\<exists>detail. err = HTTPErr 403 detail))) \<or>
   (\<exists>c. proven app allowed authorization (o_sha256 e) (wd_db w) c \<and>
      endpoint app path allowed authorization handler e w = handler c e w)"
proof -
  define roles where "roles = [''operator'', ''pm'', ''task''] @ (if startswith ''/api/v1/pi/'' path then [''orchestrator''] else [])"
  obtain r1 where r1: "require_role app roles authorization e w = Some (r1, w)"
      "case r1 of Inl err \<Rightarrow> (\<exists>detail. err = HTTPErr 401 detail) \<or> (\<exists>detail. err = HTTPErr 403 detail) | Inr c \<Rightarrow> True"
    using require_role_result [of app roles authorization e w] by (fastforce split: sum.splits)
  obtain r2 where r2: "require_role app allowed authorization e w = Some (r2, w)"
      "case r2 of Inl err \<Rightarrow> (\<exists>detail. err = HTTPErr 401 detail) \<or> (\<exists>detail. err = HTTPErr 403 detail)
       | Inr c \<Rightarrow> proven app allowed authorization (o_sha256 e) (wd_db w) c"
    using require_role_result by blast
  have gate: "require_api_caller app path False authorization e w =
      (if path = ''/health'' then Some (Inr (), w) else (case r1 of Inl err \<Rightarrow> Some (Inl err, w) | Inr c \<Rightarrow> Some (Inr (), w)))"
    unfolding require_api_caller_def roles_def [symmetric] using r1(1) by (cases r1) (auto simp: seq_def bnd_def ret_def)
  show ?thesis
  proof (cases "path \<noteq> ''/health'' \<and> (\<exists>err. r1 = Inl err)")
    case True
    with gate r1(2) show ?thesis by (auto simp: endpoint_def seq_def bnd_def)
  next
    case False
    then have "require_api_caller app path False authorization e w = Some (Inr (), w)"
      using gate by (cases r1) auto
    then have "endpoint app path allowed authorization handler e w = bnd (require_role app allowed authorization) handler e w"
      by (simp add: endpoint_def seq_def bnd_def)
    with r2 show ?thesis by (cases r2) (auto simp: bnd_def)
  qed
qed


end
