(* ===== verification/Pr.thy ===== *)
theory Pr
  imports Orchestration
begin

text \<open>
  \<open>pr.py\<close>: the template a pull request has to follow and the commands that open one.
\<close>

section \<open>The template\<close>

definition PR_SECTIONS :: "string list" where
  "PR_SECTIONS = [''## Task'', ''## Planned implementation'', ''## Deviations and issues'', ''## Surprises and decisions'',
     ''## Outcome'', ''## Change size and architecture impact'']"

text \<open>\<open>re.fullmatch(re.escape(section) + r"\s*", line)\<close>\<close>

definition heading :: "string \<Rightarrow> string \<Rightarrow> bool" where
  "heading section line = (startswith section line \<and> list_all is_ws (drop (length section) line))"

definition missing_sections :: "string \<Rightarrow> string list" where
  "missing_sections summary = filter (\<lambda>section. \<not> list_ex (heading section) (splitlines summary)) PR_SECTIONS"

fun title_from :: "bool \<Rightarrow> string list \<Rightarrow> string res" where
  "title_from in_task [] = Inl (ValueErr ''PR summary has no title text under ## Task'')"
| "title_from in_task (line # rest) =
     (if heading ''## Task'' line then title_from True rest
      else if in_task \<and> startswith ''## '' line then Inl (ValueErr ''PR summary has no title text under ## Task'')
      else if in_task \<and> strip line \<noteq> '''' then Inr (take 72 (strip line))
      else title_from in_task rest)"

definition task_title :: "string \<Rightarrow> string res" where
  "task_title summary = title_from False (splitlines summary)"

text \<open>\<open>https://github\.com/<remote>/pull/[1-9][0-9]*\<close>\<close>

definition is_pr_url :: "string \<Rightarrow> string \<Rightarrow> bool" where
  "is_pr_url slug url =
     (let prefix = ''https://github.com/'' @ slug @ ''/pull/''; number = drop (length prefix) url
      in startswith prefix url \<and> number \<noteq> [] \<and> list_all is_digit number \<and> hd number \<noteq> CHR ''0'')"

section \<open>Opening\<close>

definition open_pr :: "machine \<Rightarrow> project \<Rightarrow> string \<Rightarrow> string \<Rightarrow> string \<Rightarrow> string \<Rightarrow> string act" where
  "open_pr m p branch worktree summary session_id =
     (let missing = missing_sections summary
      in if missing \<noteq> [] then raise_err (PrRejectedErr missing)
         else bnd (lift_res (task_title summary)) (\<lambda>title.
           let title_file = session_dir m session_id @ ''/pr-title.txt''; body_file = session_dir m session_id @ ''/pr-body.md''
           in seq (shim m [''push'', worktree, branch] None)
             (seq (write_file m title_file (title @ nl))
             (seq (write_file m body_file summary)
             (bnd (shim m [''pr-create'', pj_remote p, branch, pj_base p, title_file, body_file] None) (\<lambda>output.
               let urls = filter (is_pr_url (pj_remote p)) (map strip (splitlines output))
               in if urls = [] then raise_err (RuntimeErr ''pr-create succeeded without returning a PR URL for the project'')
                  else ret (last urls)))))))"

section \<open>What an opened pull request means\<close>

definition sent :: "string list \<Rightarrow> string option \<Rightarrow> remote_call \<Rightarrow> bool" where
  "sent args stdin c = (rc_input c = stdin \<and> map shim_decode (shim_words (command_of c)) = map Some args)"

lemma shim_ok:
  assumes "shim m args stdin e w = Some (Inr out, w')"
  shows "\<exists>c. wd_calls w' = c # wd_calls w \<and> wd_db w' = wd_db w \<and> sent args stdin c"
proof -
  obtain ts where ts: "encode_args args = Inr ts" "args \<noteq> []"
    using assms by (cases "encode_args args") (auto simp: shim_def bnd_def act_defs split: if_splits)
  have "\<forall>t \<in> set ts. t \<noteq> ''''" using encode_args_tokens [OF ts(1)] by blast
  then have "shim_words (join '' '' ts) = ts"
    using tokens_split [OF ts] by (simp add: shim_words_def filter_id_conv)
  with ts assms encode_args_tokens [OF ts(1)] show ?thesis
    by (auto simp: shim_def bnd_def act_defs async_machine_run_def command_of_def sent_def split: sum.splits if_splits)
qed

lemma shim_quiet: "shim m args stdin e w = Some (r, w') \<Longrightarrow> wd_db w' = wd_db w"
  by (auto simp: shim_def bnd_def act_defs async_machine_run_def split: sum.splits if_splits)

lemma open_pr_quiet: "db_unchanged (open_pr m p branch worktree summary sid)"
proof (rule db_unchanged_keeps)
  have sh: "keeps (\<lambda>w. wd_db w = d) (shim m args stdin)" for d args stdin
    unfolding keeps_def using shim_quiet by metis
  show "keeps (\<lambda>w. wd_db w = d0) (open_pr m p branch worktree summary sid)" for d0
    unfolding open_pr_def write_file_def Let_def by (intro keeps_intros sh)
  show "returns (open_pr m p branch worktree summary sid)"
    unfolding open_pr_def write_file_def Let_def by (intro returns_intros)
qed

lemma open_pr_ok:
  assumes "open_pr m p branch worktree summary sid e w = Some (Inr url, w')"
  shows "missing_sections summary = [] \<and> is_pr_url (pj_remote p) url \<and>
    (\<exists>title c1 c2 c3 c4. task_title summary = Inr title \<and> wd_calls w' = [c4, c3, c2, c1] @ wd_calls w \<and>
       sent [''push'', worktree, branch] None c1 \<and>
       sent [''write-file'', session_dir m sid @ ''/pr-title.txt''] (Some (title @ nl)) c2 \<and>
       sent [''write-file'', session_dir m sid @ ''/pr-body.md''] (Some summary) c3 \<and>
       sent [''pr-create'', pj_remote p, branch, pj_base p, session_dir m sid @ ''/pr-title.txt'', session_dir m sid @ ''/pr-body.md''] None c4)"
proof -
  have m: "missing_sections summary = []" using assms by (auto simp: open_pr_def Let_def raise_err_def split: if_splits)
  have u: "is_pr_url r (last us)" if "filter (is_pr_url r) xs = us" "us \<noteq> []" for r us xs
    using last_in_set [OF that(2)] that(1) by auto
  obtain title w1 w2 w3 w4 o1 o2 o3 o4 where t: "task_title summary = Inr title"
    and s: "shim m [''push'', worktree, branch] None e w = Some (Inr o1, w1)"
      "shim m [''write-file'', session_dir m sid @ ''/pr-title.txt''] (Some (title @ nl)) e w1 = Some (Inr o2, w2)"
      "shim m [''write-file'', session_dir m sid @ ''/pr-body.md''] (Some summary) e w2 = Some (Inr o3, w3)"
      "shim m [''pr-create'', pj_remote p, branch, pj_base p, session_dir m sid @ ''/pr-title.txt'', session_dir m sid @ ''/pr-body.md''] None e w3
         = Some (Inr o4, w4)"
    and fin: "w' = w4" "is_pr_url (pj_remote p) url"
    using assms m
    by (auto simp: open_pr_def Let_def bnd_Inr seq_def write_file_def ret_def raise_err_def lift_res_def u split: if_splits)
  from shim_ok [OF s(1)] shim_ok [OF s(2)] shim_ok [OF s(3)] shim_ok [OF s(4)] m t fin show ?thesis by auto
qed

end
