(* ===== verification/Api_Sessions.thy ===== *)
theory Api_Sessions
  imports Auth Pr
begin

text \<open>
  The session endpoints of the control API in \<open>heartbeat.py\<close>.  A handler gets the caller that
  \<open>require_role\<close> has resolved and a request body that pydantic has validated; its result is the value
  the response is built from.  Times are in whole seconds.
\<close>

section \<open>Commands in a mailbox\<close>

text \<open>The tail shared by every endpoint that queues a command: the row and its audit event carry the
  same time.\<close>

definition queue_command :: "string \<Rightarrow> (string \<Rightarrow> pi_command) \<Rightarrow> string \<Rightarrow> (string \<Rightarrow> (string \<times> json) list) \<Rightarrow> string act" where
  "queue_command sid mk typ payload =
     bnd now (\<lambda>t. bnd uuid4 (\<lambda>i.
       seq (db_put (enqueue_pi_session_command t ((mk i)\<lparr>c_created := t\<rparr>)))
         (bnd uuid4 (\<lambda>j. seq (modify (insert_pi_session_event (new_event j sid typ (payload i) t))) (ret i)))))"

definition sender_id :: "caller \<Rightarrow> string" where
  "sender_id c = (case c of None \<Rightarrow> '''' | Some s \<Rightarrow> s_id s)"

definition enqueue_prompt :: "pi_session \<Rightarrow> string \<Rightarrow> string \<Rightarrow> caller \<Rightarrow> string act" where
  "enqueue_prompt target message0 deliver_as caller =
     (let message = strip message0
      in if message = '''' then raise_err (HTTPErr 422 ''message must not be empty'')
         else queue_command (s_id target)
           (\<lambda>i. (new_pi_command i (s_id target))\<lparr>c_kind := ''prompt'', c_message := message, c_deliver_as := deliver_as,
              c_payload := [(''sender_session_id'', JStr (sender_id caller))]\<rparr>)
           ''prompt-queued''
           (\<lambda>i. [(''command_id'', JStr i), (''deliver_as'', JStr deliver_as), (''sender_session_id'', JStr (sender_id caller))]))"

section \<open>The bridge\<close>

definition foreign :: "caller \<Rightarrow> string \<Rightarrow> bool" where
  "foreign c sid = (case c of None \<Rightarrow> False | Some s \<Rightarrow> s_id s \<noteq> sid)"

definition mismatch :: error where
  "mismatch = HTTPErr 403 ''session token does not match bridge session''"

text \<open>\<open>except KeyError\<close> and \<open>except PermissionError\<close> of the bridge endpoints.\<close>

definition bridge_errors :: "'a act \<Rightarrow> 'a act" where
  "bridge_errors m = catch m (\<lambda>err. case err of
     KeyErr s \<Rightarrow> raise_err (HTTPErr 404 ''interactive Pi session not found'')
   | PermissionErr s \<Rightarrow> raise_err (HTTPErr 409 s)
   | _ \<Rightarrow> raise_err err)"

definition transcript_ok :: "app \<Rightarrow> pi_session \<Rightarrow> string \<Rightarrow> bool" where
  "transcript_ok app s resume_path =
     (let named = meta_str (s_meta s) ''machine''
      in case map_of (fl_machines (ap_fleet app)) (if named \<noteq> '''' then named else s_host s) of
           None \<Rightarrow> False | Some m \<Rightarrow> resume_ok m resume_path)"

definition pi_bridge_register :: "app \<Rightarrow> bridge_register \<Rightarrow> caller \<Rightarrow> pi_session act" where
  "pi_bridge_register app payload caller =
     (if foreign caller (b_session_id payload) then raise_err mismatch
      else if b_resume_path payload \<noteq> '''' \<and> (case caller of None \<Rightarrow> False | Some s \<Rightarrow> \<not> transcript_ok app s (b_resume_path payload))
      then raise_err (HTTPErr 403 ''transcript path is outside the agent session directory'')
      else bnd now (\<lambda>t. bnd (uuid_batch (length (b_initial_events payload))) (\<lambda>uuid.
        bnd (catch (db_try (register_interactive_pi_session uuid t payload)) (\<lambda>err. case err of
               ValueErr s \<Rightarrow> raise_err (HTTPErr 409 s) | _ \<Rightarrow> raise_err err)) (\<lambda>session.
        bnd uuid4 (\<lambda>i. seq (modify (insert_pi_session_event (new_event i (s_id session) ''bridge-registered''
               [(''incarnation'', JStr (b_incarnation payload)), (''host'', JStr (b_host payload))] t))) (ret session))))))"

definition pi_bridge_events :: "string \<Rightarrow> bridge_batch \<Rightarrow> caller \<Rightarrow> (session_state \<times> nat) act" where
  "pi_bridge_events session_id payload caller =
     (if foreign caller session_id then raise_err mismatch
      else bnd now (\<lambda>t. bnd (uuid_batch (length (bb_events payload))) (\<lambda>uuid.
        bnd (bridge_errors (db_try (\<lambda>d. case apply_interactive_pi_events uuid t session_id payload d of
               Inl err \<Rightarrow> Inl err | Inr (session, persisted, d') \<Rightarrow> Inr ((session, persisted), d')))) (\<lambda>r. case r of (session, persisted) \<Rightarrow>
          ret (s_state session, length persisted)))))"

definition claim_now :: "string \<Rightarrow> string \<Rightarrow> pi_command list act" where
  "claim_now session_id incarnation = bnd now (\<lambda>t. bridge_errors (db_try (claim_pi_session_commands session_id incarnation t 30)))"

text \<open>Every round sleeps half a second or until the deadline, but at least a hundredth, and a client
  waits at most 30 seconds: 64 rounds are enough.\<close>

fun poll_commands :: "nat \<Rightarrow> string \<Rightarrow> string \<Rightarrow> int \<Rightarrow> pi_command list act" where
  "poll_commands 0 session_id incarnation deadline = claim_now session_id incarnation"
| "poll_commands (Suc n) session_id incarnation deadline =
     bnd (claim_now session_id incarnation) (\<lambda>commands.
       if commands \<noteq> [] then ret commands
       else bnd now (\<lambda>t. if t \<ge> deadline then ret commands
         else bnd now (\<lambda>_. seq pause (poll_commands n session_id incarnation deadline))))"

definition pi_bridge_commands :: "string \<Rightarrow> string \<Rightarrow> int \<Rightarrow> caller \<Rightarrow> pi_command list act" where
  "pi_bridge_commands session_id incarnation wait_seconds caller =
     (if foreign caller session_id then raise_err mismatch
      else bnd now (\<lambda>t. poll_commands 64 session_id incarnation (t + wait_seconds)))"

definition pi_bridge_command_ack :: "string \<Rightarrow> string \<Rightarrow> string \<Rightarrow> caller \<Rightarrow> string act" where
  "pi_bridge_command_ack session_id command_id incarnation caller =
     (if foreign caller session_id then raise_err mismatch
      else bnd now (\<lambda>t. bnd (bridge_errors (db_try (ack_pi_session_command session_id command_id incarnation t))) (\<lambda>acknowledged.
        if \<not> acknowledged then raise_err (HTTPErr 404 ''pending command not found'') else ret command_id)))"

section \<open>Reading\<close>

definition caller_role :: "caller \<Rightarrow> string" where
  "caller_role c = (case c of None \<Rightarrow> ''operator'' | Some s \<Rightarrow> s_role s)"

definition same_project :: "pi_session \<Rightarrow> pi_session \<Rightarrow> bool" where
  "same_project c s = (truthy (meta_get (s_meta c) ''project'') \<and> meta_get (s_meta s) ''project'' = meta_get (s_meta c) ''project'')"

definition own_task :: "pi_session \<Rightarrow> pi_session \<Rightarrow> unit act" where
  "own_task c task =
     (if s_role task \<noteq> ''task'' \<or> s_parent task \<noteq> Some (s_id c) then raise_err (HTTPErr 403 ''project manager does not own task'')
      else if \<not> same_project c task then raise_err (HTTPErr 403 ''cross-project task'')
      else ret ())"

definition lookup :: "string \<Rightarrow> pi_session act" where
  "lookup session_id = bnd (ask (get_pi_session session_id)) (\<lambda>s. case s of
     None \<Rightarrow> raise_err (HTTPErr 404 ''Pi session not found'') | Some s \<Rightarrow> ret s)"

definition readable_session :: "string \<Rightarrow> caller \<Rightarrow> pi_session act" where
  "readable_session session_id caller =
     bnd (lookup session_id) (\<lambda>session. case caller of
       None \<Rightarrow> ret session
     | Some c \<Rightarrow>
       if s_role c = ''task'' \<and> s_id session \<noteq> s_id c then raise_err (HTTPErr 403 ''task may only read its own session'')
       else if s_role c = ''pm'' \<and> s_id session \<noteq> s_id c \<and> s_role session \<noteq> ''orchestrator''
       then seq (own_task c session) (ret session)
       else ret session)"

definition pi_sessions_list :: "string option \<Rightarrow> bool \<Rightarrow> caller \<Rightarrow> pi_session list act" where
  "pi_sessions_list worker_id include_attach_info caller =
     (if include_attach_info \<and> caller \<noteq> None then raise_err (HTTPErr 403 ''terminal attachment is operator-only'')
      else bnd (ask (list_pi_sessions worker_id)) (\<lambda>sessions. case caller of
        None \<Rightarrow> ret sessions
      | Some c \<Rightarrow> ret (if s_role c = ''pm'' then
            filter (\<lambda>s. s_id s = s_id c \<or> (s_role s = ''task'' \<and> s_parent s = Some (s_id c) \<and> same_project c s) \<or>
              s_role s = ''orchestrator'') sessions
          else sessions)))"

definition pi_session_events :: "string \<Rightarrow> int \<Rightarrow> int \<Rightarrow> caller \<Rightarrow> pi_event list act" where
  "pi_session_events session_id after limit caller =
     bnd (readable_session session_id caller) (\<lambda>_. ask (list_pi_session_events session_id after limit))"

text \<open>Where a stream starts: after the query parameter or the \<open>Last-Event-ID\<close> header.\<close>

definition stream_start :: "int \<Rightarrow> string \<Rightarrow> int" where
  "stream_start after last_event_id =
     (if last_event_id \<noteq> '''' \<and> list_all is_digit last_event_id
      then max after (case py_int last_event_id of None \<Rightarrow> 0 | Some n \<Rightarrow> n) else after)"

definition pi_orchestrator_get :: "pi_session act" where
  "pi_orchestrator_get = bnd (ask (list_pi_sessions_by_role ''orchestrator'')) (\<lambda>ss.
     case find (\<lambda>s. s_state s \<notin> {STOPPED, S_FAILED}) ss of
       None \<Rightarrow> raise_err (HTTPErr 404 ''no live orchestrator session'') | Some s \<Rightarrow> ret s)"

section \<open>Messages, interrupts and configuration\<close>

text \<open>\<open>except Exception\<close>: everything but the cancellation.\<close>

definition unavailable :: "string \<Rightarrow> 'a act \<Rightarrow> 'a act" where
  "unavailable text m = catch m (\<lambda>err.
     if err = CancelledErr then raise_err err else raise_err (HTTPErr 503 (text @ error_str err)))"

definition pi_orchestrator_send :: "app \<Rightarrow> string \<Rightarrow> caller \<Rightarrow> (pi_session \<times> string) act" where
  "pi_orchestrator_send app message caller =
     bnd (unavailable ''could not launch orchestrator session: '' (ensure_orchestrator (ap_fleet app))) (\<lambda>session.
       bnd (enqueue_prompt session message ''steer'' caller) (\<lambda>i. ret (session, i)))"

definition may_message :: "caller \<Rightarrow> pi_session \<Rightarrow> unit act" where
  "may_message caller target = (case caller of
     None \<Rightarrow> ret ()
   | Some c \<Rightarrow>
     if s_role c = ''orchestrator'' then
       (if s_role target \<noteq> ''pm'' then raise_err (HTTPErr 403 ''orchestrator may only message project managers'') else ret ())
     else if s_role c = ''pm'' then
       (let is_own_task = (s_role target = ''task'' \<and> s_parent target = Some (s_id c))
        in if \<not> is_own_task \<and> s_role target \<noteq> ''orchestrator''
           then raise_err (HTTPErr 403 ''project manager may only message its own tasks or the orchestrator'')
           else if is_own_task \<and> \<not> same_project c target then raise_err (HTTPErr 403 ''cross-project target'')
           else ret ())
     else ret ())"

definition pi_session_send :: "app \<Rightarrow> string \<Rightarrow> string \<Rightarrow> caller \<Rightarrow> string act" where
  "pi_session_send app session_id message caller =
     bnd (lookup session_id) (\<lambda>target. seq (may_message caller target)
       (if s_role target = ''pm'' then
          (case meta_get (s_meta target) ''project'' of
             None \<Rightarrow> raise_err (KeyErr ''project'')
           | Some (SStr project) \<Rightarrow> bnd (ensure_pm (ap_fleet app) project) (\<lambda>manager. enqueue_prompt manager message ''steer'' caller)
           | Some v \<Rightarrow> raise_err (KeyErr (''unknown project: '' @ scalar_str v)))
        else enqueue_prompt target message ''steer'' caller))"

definition bridge_active :: "pi_session \<Rightarrow> bool" where
  "bridge_active s = (bridge_backed (s_type s) \<and> s_incarnation s \<noteq> None \<and> s_incarnation s \<noteq> Some '''' \<and>
     s_state s \<in> {WORKING, IDLE, BLOCKED})"

definition pi_session_interrupt :: "string \<Rightarrow> caller \<Rightarrow> string act" where
  "pi_session_interrupt session_id caller =
     bnd (lookup session_id) (\<lambda>target.
     seq (case caller of None \<Rightarrow> ret () | Some c \<Rightarrow>
            if s_role c = ''orchestrator'' \<and> s_role target \<noteq> ''pm''
            then raise_err (HTTPErr 403 ''orchestrator may only interrupt project managers'')
            else if s_role c = ''pm'' then
              if s_role target \<noteq> ''task'' \<or> s_parent target \<noteq> Some (s_id c)
              then raise_err (HTTPErr 403 ''project manager may only interrupt its own tasks'')
              else if \<not> same_project c target then raise_err (HTTPErr 403 ''cross-project target'')
              else ret ()
            else ret ())
       (if \<not> bridge_active target then raise_err (HTTPErr 409 ''interactive Pi bridge is not active'')
        else queue_command (s_id target) (\<lambda>i. (new_pi_command i (s_id target))\<lparr>c_kind := ''interrupt''\<rparr>) ''interrupt-queued''
          (\<lambda>i. [(''command_id'', JStr i), (''sender_session_id'', JStr (sender_id caller))])))"

definition present :: "string option \<Rightarrow> bool" where
  "present v = (case v of None \<Rightarrow> False | Some s \<Rightarrow> s \<noteq> '''')"

definition bad_name :: "string option \<Rightarrow> bool" where
  "bad_name v = (case v of None \<Rightarrow> False | Some s \<Rightarrow> s \<noteq> '''' \<and> (length s > 256 \<or> strip s = ''''))"

definition pi_session_configure :: "string \<Rightarrow> string option \<Rightarrow> string option \<Rightarrow> string option \<Rightarrow> string act" where
  "pi_session_configure session_id provider model thinking_level =
     bnd (ask (get_pi_session session_id)) (\<lambda>found. case found of
       None \<Rightarrow> raise_err (HTTPErr 409 ''interactive Pi bridge is not active'')
     | Some target \<Rightarrow>
       if \<not> bridge_active target then raise_err (HTTPErr 409 ''interactive Pi bridge is not active'')
       else if present provider \<noteq> present model then raise_err (HTTPErr 422 ''provider and model must be set together'')
       else if \<not> present provider \<and> \<not> present thinking_level then raise_err (HTTPErr 422 ''model or thinking_level is required'')
       else if bad_name provider then raise_err (HTTPErr 422 ''invalid provider'')
       else if bad_name model then raise_err (HTTPErr 422 ''invalid model'')
       else
         let payload = (if present provider \<and> present model then
                [(''provider'', JStr (strip (the provider))), (''model'', JStr (strip (the model)))] else []) @
              (if present thinking_level then [(''thinking_level'', JStr (the thinking_level))] else [])
         in queue_command (s_id target)
              (\<lambda>i. (new_pi_command i (s_id target))\<lparr>c_kind := ''configure'', c_payload := payload\<rparr>) ''configure-queued''
              (\<lambda>i. (''command_id'', JStr i) # payload))"

section \<open>Tasks and their manager\<close>

definition own_manager :: "pi_session \<Rightarrow> pi_session act" where
  "own_manager c =
     bnd (ask (get_pi_session (case s_parent c of None \<Rightarrow> '''' | Some p \<Rightarrow> p))) (\<lambda>parent. case parent of
       None \<Rightarrow> raise_err (HTTPErr 403 ''task has no project manager'')
     | Some p \<Rightarrow>
       if s_role p \<noteq> ''pm'' then raise_err (HTTPErr 403 ''task has no project manager'')
       else if \<not> same_project c p then raise_err (HTTPErr 403 ''cross-project parent'')
       else ret p)"

definition pi_session_ask_pm :: "string \<Rightarrow> string \<Rightarrow> pi_session \<Rightarrow> string act" where
  "pi_session_ask_pm session_id question0 c =
     (if s_id c \<noteq> session_id then raise_err (HTTPErr 403 ''task may only block its own session'')
      else bnd (own_manager c) (\<lambda>parent.
        let question = strip question0
        in if question = '''' then raise_err (HTTPErr 422 ''question must not be empty'')
           else bnd now (\<lambda>t. bnd uuid4 (\<lambda>i.
             seq (catch (db_put (set_pi_session_blocked t i (s_id c) question)) (\<lambda>err. case err of
                    ValueErr s \<Rightarrow> raise_err (HTTPErr 409 s) | _ \<Rightarrow> raise_err err))
               (enqueue_prompt parent (''Task '' @ s_id c @ '' asks: '' @ question) ''followUp'' (Some c))))))"

definition pi_session_notify_pm :: "string \<Rightarrow> string \<Rightarrow> pi_session \<Rightarrow> string act" where
  "pi_session_notify_pm session_id note0 c =
     (if s_id c \<noteq> session_id then raise_err (HTTPErr 403 ''task may only notify from its own session'')
      else bnd (own_manager c) (\<lambda>parent.
        let note = strip note0
        in if note = '''' then raise_err (HTTPErr 422 ''note must not be empty'')
           else enqueue_prompt parent (''Task '' @ s_id c @ '' reports: '' @ note) ''followUp'' (Some c)))"

section \<open>Projects\<close>

definition pi_projects_list :: "app \<Rightarrow> project list" where
  "pi_projects_list app = map snd (fl_projects (ap_fleet app))"

definition pi_project_send :: "app \<Rightarrow> string \<Rightarrow> string \<Rightarrow> caller \<Rightarrow> (pi_session \<times> string) act" where
  "pi_project_send app project message caller =
     (if map_of (fl_projects (ap_fleet app)) project = None then raise_err (HTTPErr 404 ''project not found'')
      else unavailable (''could not launch project manager for '' @ project @ '': '')
        (bnd (ensure_pm (ap_fleet app) project) (\<lambda>manager.
          bnd (enqueue_prompt manager message ''steer'' caller) (\<lambda>i. ret (manager, i)))))"

definition pi_project_task_create :: "app \<Rightarrow> string \<Rightarrow> string \<Rightarrow> string \<Rightarrow> pi_session \<Rightarrow> pi_session act" where
  "pi_project_task_create app project branch0 briefing0 c =
     (if meta_get (s_meta c) ''project'' \<noteq> Some (SStr project) then raise_err (HTTPErr 403 ''cross-project task launch'')
      else (case map_of (fl_projects (ap_fleet app)) project of
        None \<Rightarrow> raise_err (HTTPErr 404 ''project not found'')
      | Some p \<Rightarrow>
        let branch = strip branch0; briefing = strip briefing0
        in if branch = '''' \<or> briefing = '''' then raise_err (HTTPErr 422 ''branch and briefing must not be empty'')
           else launch_task (ap_fleet app) p branch briefing (s_id c)))"

definition pi_session_teardown :: "app \<Rightarrow> string \<Rightarrow> bool \<Rightarrow> pi_session \<Rightarrow> string act" where
  "pi_session_teardown app session_id force c =
     bnd (lookup session_id) (\<lambda>task. seq (own_task c task)
       (seq (catch (teardown_task (ap_fleet app) task force) (\<lambda>err. case err of
               WorktreeErr s \<Rightarrow> raise_err (HTTPErr 409 s) | _ \<Rightarrow> raise_err err))
         (ret (s_id task))))"

definition pi_session_submit_pr :: "app \<Rightarrow> string \<Rightarrow> string \<Rightarrow> pi_session \<Rightarrow> string act" where
  "pi_session_submit_pr app session_id summary c =
     bnd (lookup session_id) (\<lambda>task. seq (own_task c task)
       (let project = map_of (fl_projects (ap_fleet app)) (meta_str (s_meta task) ''project'');
            named = meta_str (s_meta task) ''machine'';
            machine_name = (if named \<noteq> '''' then named else (case project of None \<Rightarrow> '''' | Some p \<Rightarrow> pj_machine p))
        in case project of
             None \<Rightarrow> raise_err (HTTPErr 409 ''task launch metadata is incomplete'')
           | Some p \<Rightarrow> (case map_of (fl_machines (ap_fleet app)) machine_name of
               None \<Rightarrow> raise_err (HTTPErr 409 ''task launch metadata is incomplete'')
             | Some m \<Rightarrow>
               bnd (catch (open_pr m p (meta_str (s_meta task) ''branch'') (meta_str (s_meta task) ''worktree'') summary (s_id task))
                     (\<lambda>err. case err of
                        PrRejectedErr missing \<Rightarrow> raise_err (HTTPErr 422 (error_str err)) | _ \<Rightarrow> raise_err err)) (\<lambda>url.
                 seq (modify (update_pi_session_meta (s_id task) [(''pr_url'', SStr url)])) (ret url)))))"

end
