(* ===== verification/Url.thy ===== *)
theory Url
  imports Codec "HOL-Library.AList"
begin

text \<open>
  The part of \<open>urllib.parse\<close> that the terminal attachments use: percent-encoding, query strings,
  \<open>urlsplit\<close> and \<open>urlunsplit\<close> for WebSocket URLs, and the function that puts the size of a terminal
  into such a URL.  Characters are bytes.  \<open>urlsplit\<close>'s check that a bracketed host is an IP literal
  is left out.
\<close>

section \<open>Percent-encoding\<close>

definition upper_hex :: "nat \<Rightarrow> char" where
  "upper_hex n = (if n < 10 then char_of (48 + n) else char_of (55 + n))"

text \<open>\<open>urllib.parse.quote(s, safe="")\<close>\<close>

definition quote_char :: "char \<Rightarrow> string" where
  "quote_char c = (if is_alnum c \<or> c \<in> {CHR ''_'', CHR ''.'', CHR ''-'', CHR ''~''} then [c]
     else [CHR ''%'', upper_hex (of_char c div 16), upper_hex (of_char c mod 16)])"

definition url_quote :: "string \<Rightarrow> string" where
  "url_quote s = concat (map quote_char s)"

definition quote_plus :: "string \<Rightarrow> string" where
  "quote_plus s = concat (map (\<lambda>c. if c = CHR '' '' then ''+'' else quote_char c) s)"

definition hex_value :: "char \<Rightarrow> nat option" where
  "hex_value c = (let n = (of_char c :: nat)
     in if 48 \<le> n \<and> n \<le> 57 then Some (n - 48) else if 65 \<le> n \<and> n \<le> 70 then Some (n - 55)
        else if 97 \<le> n \<and> n \<le> 102 then Some (n - 87) else None)"

fun unquote :: "string \<Rightarrow> string" where
  "unquote [] = []"
| "unquote (c # cs) =
     (if c = CHR ''%'' then
        (case cs of
           a # b # rest \<Rightarrow> (case (hex_value a, hex_value b) of
             (Some h, Some l) \<Rightarrow> char_of (16 * h + l) # unquote rest | _ \<Rightarrow> c # unquote cs)
         | _ \<Rightarrow> c # unquote cs)
      else c # unquote cs)"

definition unquote_plus :: "string \<Rightarrow> string" where
  "unquote_plus s = unquote (map (\<lambda>c. if c = CHR ''+'' then CHR '' '' else c) s)"

section \<open>Query strings\<close>

text \<open>\<open>parse_qsl(qs, keep_blank_values=True)\<close>, \<open>dict(...)\<close> of its pairs, and \<open>urlencode\<close>.\<close>

definition parse_qsl :: "string \<Rightarrow> (string \<times> string) list" where
  "parse_qsl qs = map (\<lambda>nv. case partition_char (CHR ''='') nv of (n, sep, v) \<Rightarrow> (unquote_plus n, unquote_plus v))
     (filter (\<lambda>nv. nv \<noteq> '''') (split_on (CHR ''&'') qs))"

definition py_dict :: "(string \<times> 'a) list \<Rightarrow> (string \<times> 'a) list" where
  "py_dict kvs = fold (\<lambda>kv m. AList.update (fst kv) (snd kv) m) kvs []"

definition urlencode :: "(string \<times> string) list \<Rightarrow> string" where
  "urlencode kvs = join ''&'' (map (\<lambda>kv. quote_plus (fst kv) @ ''='' @ quote_plus (snd kv)) kvs)"

section \<open>URLs\<close>

record split_url =
  us_scheme :: string
  us_netloc :: string
  us_path :: string
  us_query :: string
  us_fragment :: string

definition scheme_char :: "char \<Rightarrow> bool" where
  "scheme_char c = (is_alnum c \<or> c \<in> {CHR ''+'', CHR ''-'', CHR ''.''})"

definition is_alpha :: "char \<Rightarrow> bool" where
  "is_alpha c = (is_lower_alpha c \<or> is_upper_alpha c)"

definition url_clean :: "string \<Rightarrow> string" where
  "url_clean s = filter (\<lambda>c. c \<notin> {CHR 9, CHR 10, CHR 13}) (dropWhile (\<lambda>c. (of_char c :: nat) \<le> 32) s)"

definition split_scheme :: "string \<Rightarrow> string \<times> string" where
  "split_scheme s = (case partition_char (CHR '':'') s of (h, sep, r) \<Rightarrow>
     if sep \<noteq> '''' \<and> h \<noteq> '''' \<and> is_alpha (hd h) \<and> list_all scheme_char h then (lower h, r) else ('''', s))"

definition netloc_end :: "char \<Rightarrow> bool" where
  "netloc_end c = (c \<in> {CHR ''/'', CHR ''?'', CHR ''#''})"

definition urlsplit :: "string \<Rightarrow> split_url res" where
  "urlsplit url =
     (case split_scheme (url_clean url) of (scheme, r) \<Rightarrow>
       let authority = startswith ''//'' r;
           netloc = (if authority then takeWhile (\<lambda>c. \<not> netloc_end c) (drop 2 r) else '''');
           rest = (if authority then dropWhile (\<lambda>c. \<not> netloc_end c) (drop 2 r) else r)
       in if (CHR ''['' \<in> set netloc) \<noteq> (CHR '']'' \<in> set netloc) then Inl (ValueErr ''Invalid IPv6 URL'')
          else (case partition_char (CHR ''#'') rest of (front, _, fragment) \<Rightarrow>
            case partition_char (CHR ''?'') front of (path, _, query) \<Rightarrow>
              Inr \<lparr>us_scheme = scheme, us_netloc = netloc, us_path = path, us_query = query, us_fragment = fragment\<rparr>))"

text \<open>\<open>urlunsplit\<close>; the schemes that always take an authority are here \<open>ws\<close> and \<open>wss\<close>.\<close>

definition urlunsplit :: "split_url \<Rightarrow> string" where
  "urlunsplit p =
     (let authority = us_netloc p \<noteq> '''' \<or> (us_scheme p \<in> {''ws'', ''wss''} \<and> \<not> startswith ''//'' (us_path p));
          path = (if authority \<and> us_path p \<noteq> '''' \<and> \<not> startswith ''/'' (us_path p) then ''/'' @ us_path p else us_path p)
      in (if us_scheme p \<noteq> '''' then us_scheme p @ '':'' else '''') @
         (if authority then ''//'' @ us_netloc p else '''') @ path @
         (if us_query p \<noteq> '''' then ''?'' @ us_query p else '''') @
         (if us_fragment p \<noteq> '''' then ''#'' @ us_fragment p else ''''))"

definition terminal_url :: "string \<Rightarrow> int \<Rightarrow> int \<Rightarrow> string res" where
  "terminal_url websocket_url rows cols = (case urlsplit websocket_url of
     Inl err \<Rightarrow> Inl err
   | Inr parts \<Rightarrow>
     let query = py_dict (parse_qsl (us_query parts));
         query1 = AList.update ''cols'' (int_to_string cols) (AList.update ''rows'' (int_to_string rows) query)
     in Inr (urlunsplit (parts\<lparr>us_query := urlencode query1\<rparr>)))"

section \<open>Round trips\<close>

lemma hex_value_upper_hex: "n < 16 \<Longrightarrow> hex_value (upper_hex n) = Some n"
  by (auto simp: hex_value_def upper_hex_def)

lemma upper_hex_plain: "n < 16 \<Longrightarrow> is_alnum (upper_hex n)"
  by (auto simp: upper_hex_def is_alnum_def is_digit_def is_upper_alpha_def)

lemma quote_char_shape:
  "quote_char c = [c] \<and> c \<noteq> CHR ''%'' \<and> (is_alnum c \<or> c \<in> {CHR ''_'', CHR ''.'', CHR ''-'', CHR ''~''}) \<or>
   quote_char c = [CHR ''%'', upper_hex (of_char c div 16), upper_hex (of_char c mod 16)]"
proof -
  have "\<not> is_alnum (CHR ''%'')" by code_simp
  then show ?thesis by (auto simp: quote_char_def)
qed

lemma char_div_lt [simp]: "(of_char c :: nat) div 16 < 16"
  by (rule less_mult_imp_div_less) simp

lemma unquote_quote_char: "unquote (quote_char c @ t) = c # unquote t"
proof -
  have "char_of (16 * ((of_char c :: nat) div 16) + of_char c mod 16) = c" by simp
  then show ?thesis using quote_char_shape [of c] by (auto simp: hex_value_upper_hex)
qed

lemma quote_char_safe: "list_all (\<lambda>x. is_alnum x \<or> x \<in> {CHR ''_'', CHR ''.'', CHR ''-'', CHR ''~'', CHR ''%''}) (quote_char c)"
  using quote_char_shape [of c] upper_hex_plain by auto

lemma not_alnum_marks:
  "\<not> is_alnum (CHR ''+'')" "\<not> is_alnum (CHR ''&'')" "\<not> is_alnum (CHR ''='')" "\<not> is_alnum (CHR ''#'')" "\<not> is_alnum (CHR ''?'')"
  "\<not> is_alnum (CHR 9)" "\<not> is_alnum (CHR 10)" "\<not> is_alnum (CHR 13)" "\<not> is_alnum (CHR ''/'')"
  by code_simp+

lemma unquote_plus_quote_plus: "unquote_plus (quote_plus s) = s"
proof -
  let ?f = "\<lambda>c. if c = CHR ''+'' then CHR '' '' else c"
  have q: "map ?f (quote_char c) = quote_char c" for c
    using quote_char_safe [of c] not_alnum_marks(1) by (auto simp: list_all_iff intro!: map_idI)
  show ?thesis
    unfolding unquote_plus_def quote_plus_def
  proof (induction s)
    case (Cons c s)
    then show ?case by (simp add: q unquote_quote_char)
  qed simp
qed

text \<open>The characters of a quoted string are none of the delimiters of a URL.\<close>

lemma quote_plus_marks:
  "set (quote_plus s) \<inter> {CHR ''&'', CHR ''='', CHR ''#'', CHR ''?'', CHR ''/'', CHR 9, CHR 10, CHR 13} = {}"
proof -
  have "x \<notin> {CHR ''&'', CHR ''='', CHR ''#'', CHR ''?'', CHR ''/'', CHR 9, CHR 10, CHR 13}" if "x \<in> set (quote_char c)" for x c
    using quote_char_safe [of c] that not_alnum_marks by (auto simp: list_all_iff)
  then show ?thesis by (auto simp: quote_plus_def split: if_splits)
qed

lemma partition_char_sep: "c \<notin> set x \<Longrightarrow> partition_char c (x @ c # s) = (x, [c], s)"
  by (auto simp: partition_char_def takeWhile_append dropWhile_append)

lemma partition_char_fresh: "c \<notin> set x \<Longrightarrow> partition_char c x = (x, [], [])"
proof -
  assume "c \<notin> set x"
  then have "dropWhile (\<lambda>y. y \<noteq> c) x = []" by (auto simp: dropWhile_eq_Nil_conv)
  then show ?thesis unfolding partition_char_def Let_def by (simp only: list.case)
qed

lemma parse_qsl_urlencode: "parse_qsl (urlencode kvs) = kvs"
proof (cases "kvs = []")
  case True
  then show ?thesis by (simp add: parse_qsl_def urlencode_def)
next
  case False
  let ?p = "\<lambda>kv. quote_plus (fst kv) @ ''='' @ quote_plus (snd kv)"
  have "split_on (CHR ''&'') (urlencode kvs) = map ?p kvs"
    unfolding urlencode_def using False quote_plus_marks by (intro split_on_join) fastforce+
  moreover have "partition_char (CHR ''='') (?p kv) = (quote_plus (fst kv), ''='', quote_plus (snd kv))" for kv
    using partition_char_sep [of "CHR ''=''" "quote_plus (fst kv)" "quote_plus (snd kv)"] quote_plus_marks [of "fst kv"] by auto
  ultimately show ?thesis by (simp add: parse_qsl_def filter_map comp_def unquote_plus_quote_plus)
qed

text \<open>What \<open>urlsplit\<close> delivers for a URL with a scheme and an authority, and that \<open>urlunsplit\<close> is
  undone by it on every such result.\<close>

definition blank_free :: "string \<Rightarrow> bool" where
  "blank_free s = (set s \<inter> {CHR 9, CHR 10, CHR 13} = {})"

definition wf_url :: "split_url \<Rightarrow> bool" where
  "wf_url p = (us_scheme p \<noteq> '''' \<and> is_alpha (hd (us_scheme p)) \<and> list_all scheme_char (us_scheme p) \<and> lower (us_scheme p) = us_scheme p \<and>
     us_netloc p \<noteq> '''' \<and> list_all (\<lambda>c. \<not> netloc_end c) (us_netloc p) \<and>
     ((CHR ''['' \<in> set (us_netloc p)) = (CHR '']'' \<in> set (us_netloc p))) \<and>
     (us_path p = '''' \<or> startswith ''/'' (us_path p)) \<and> set (us_path p) \<inter> {CHR ''?'', CHR ''#''} = {} \<and>
     CHR ''#'' \<notin> set (us_query p) \<and>
     blank_free (us_netloc p @ us_path p @ us_query p @ us_fragment p))"

lemma lower_char_idem: "lower_char (lower_char c) = lower_char c"
  by (auto simp: lower_char_def Let_def)

lemma lower_char_classes:
  "is_alpha c \<Longrightarrow> is_alpha (lower_char c)" "scheme_char c \<Longrightarrow> scheme_char (lower_char c)"
  by (auto simp: is_alpha_def scheme_char_def is_alnum_def lower_char_def is_lower_alpha_def is_upper_alpha_def is_digit_def Let_def)

lemma alpha_not_low: "is_alpha c \<Longrightarrow> \<not> (of_char c :: nat) \<le> 32"
  by (auto simp: is_alpha_def is_lower_alpha_def is_upper_alpha_def Let_def)

lemma scheme_char_marks: "\<not> scheme_char (CHR '':'')" "\<not> scheme_char (CHR 9)" "\<not> scheme_char (CHR 10)" "\<not> scheme_char (CHR 13)"
  by code_simp+

lemma urlsplit_unsplit:
  assumes wf: "wf_url p"
  shows "urlsplit (urlunsplit p) = Inr p"
proof -
  let ?tail = "us_path p @ (if us_query p \<noteq> '''' then ''?'' @ us_query p else '''') @ (if us_fragment p \<noteq> '''' then ''#'' @ us_fragment p else '''')"
  have u: "urlunsplit p = us_scheme p @ CHR '':'' # ''//'' @ us_netloc p @ ?tail"
    using wf by (auto simp: urlunsplit_def wf_url_def)
  have sch: "CHR '':'' \<notin> set (us_scheme p)" "blank_free (us_scheme p)"
    using wf scheme_char_marks by (auto simp: wf_url_def list_all_iff blank_free_def)
  have low: "\<not> (of_char (hd (us_scheme p)) :: nat) \<le> 32" using wf alpha_not_low unfolding wf_url_def by blast
  have "url_clean (urlunsplit p) = filter (\<lambda>c. c \<notin> {CHR 9, CHR 10, CHR 13}) (urlunsplit p)"
    using low wf unfolding url_clean_def u wf_url_def by (cases "us_scheme p") auto
  also have "\<dots> = urlunsplit p"
    using wf sch unfolding u wf_url_def blank_free_def by (intro filter_True) (auto split: if_splits)
  finally have c: "url_clean (urlunsplit p) = urlunsplit p" .
  have s: "split_scheme (urlunsplit p) = (us_scheme p, ''//'' @ us_netloc p @ ?tail)"
    unfolding split_scheme_def u using wf partition_char_sep [OF sch(1)] by (simp add: wf_url_def)
  have stop: "?tail = '''' \<or> netloc_end (hd ?tail)"
    using wf by (cases "us_path p") (auto simp: wf_url_def netloc_end_def startswith_def)
  have tw: "takeWhile (\<lambda>c. \<not> netloc_end c) (us_netloc p @ ?tail) = us_netloc p"
    "dropWhile (\<lambda>c. \<not> netloc_end c) (us_netloc p @ ?tail) = ?tail"
    using wf stop unfolding wf_url_def by (cases ?tail; auto simp: list_all_iff)+
  have frag: "partition_char (CHR ''#'') ?tail =
      (us_path p @ (if us_query p \<noteq> '''' then ''?'' @ us_query p else ''''), if us_fragment p \<noteq> '''' then ''#'' else '''', us_fragment p)"
    using wf partition_char_sep [of "CHR ''#''" "us_path p @ (if us_query p \<noteq> '''' then ''?'' @ us_query p else '''')" "us_fragment p"]
      partition_char_fresh [of "CHR ''#''" "us_path p @ (if us_query p \<noteq> '''' then ''?'' @ us_query p else '''')"]
    by (auto simp: wf_url_def split: if_splits)
  have qry: "partition_char (CHR ''?'') (us_path p @ (if us_query p \<noteq> '''' then ''?'' @ us_query p else '''')) =
      (us_path p, if us_query p \<noteq> '''' then ''?'' else '''', us_query p)"
    using wf partition_char_sep [of "CHR ''?''" "us_path p" "us_query p"] partition_char_fresh [of "CHR ''?''" "us_path p"]
    by (auto simp: wf_url_def)
  have d: "drop 2 (''//'' @ us_netloc p @ ?tail) = us_netloc p @ ?tail" by simp
  have sw: "startswith ''//'' (''//'' @ us_netloc p @ ?tail) = True" by (rule eqTrueI, rule startswith_append)
  have br: "((CHR ''['' \<in> set (us_netloc p)) \<noteq> (CHR '']'' \<in> set (us_netloc p))) = False" using wf by (simp add: wf_url_def)
  show ?thesis
    unfolding urlsplit_def c s prod.case Let_def d sw if_True tw br if_False frag qry by simp
qed

lemma partition_char_Cons:
  "partition_char c (y # ys) = (if y = c then ([], [c], ys) else (case partition_char c ys of (h, sep, r) \<Rightarrow> (y # h, sep, r)))"
  by (cases "dropWhile (\<lambda>x. x \<noteq> c) ys") (simp_all add: partition_char_def del: dropWhile_eq_Nil_conv)

lemma partition_char_parts:
  "partition_char c s = (h, sep, r) \<Longrightarrow> c \<notin> set h \<and> set h \<subseteq> set s \<and> set r \<subseteq> set s"
proof -
  assume p: "partition_char c s = (h, sep, r)"
  show ?thesis
  proof (cases "dropWhile (\<lambda>x. x \<noteq> c) s")
    case Nil
    then have "c \<notin> set s" by (auto simp: dropWhile_eq_Nil_conv)
    then show ?thesis using p Nil by (auto simp: partition_char_def)
  next
    case (Cons y ys)
    have "set (dropWhile (\<lambda>x. x \<noteq> c) s) \<subseteq> set s" by (auto dest: set_dropWhileD)
    then show ?thesis using p Cons by (auto simp: partition_char_def dest: set_takeWhileD)
  qed
qed

lemma urlsplit_wf:
  assumes "urlsplit url = Inr p" "us_scheme p \<noteq> ''''" "us_netloc p \<noteq> ''''"
  shows "wf_url p"
proof -
  define u where "u = url_clean url"
  obtain scheme r where sr: "split_scheme u = (scheme, r)" by (cases "split_scheme u")
  define x where "x = drop 2 r"
  obtain front sep fragment where f: "partition_char (CHR ''#'') (dropWhile (\<lambda>c. \<not> netloc_end c) x) = (front, sep, fragment)"
    by (metis prod_cases3)
  obtain path sep2 query where q: "partition_char (CHR ''?'') front = (path, sep2, query)" by (metis prod_cases3)
  have auth: "startswith ''//'' r" using assms sr by (auto simp: urlsplit_def u_def Let_def split: if_splits prod.splits)
  have p: "p = \<lparr>us_scheme = scheme, us_netloc = takeWhile (\<lambda>c. \<not> netloc_end c) x, us_path = path, us_query = query, us_fragment = fragment\<rparr>"
    and br: "(CHR ''['' \<in> set (us_netloc p)) = (CHR '']'' \<in> set (us_netloc p))"
    using assms(1) sr f q auth by (auto simp: urlsplit_def u_def [symmetric] x_def [symmetric] Let_def split: if_splits)
  obtain h sep3 where h: "partition_char (CHR '':'') u = (h, sep3, r)" "scheme = lower h" "h \<noteq> ''''" "is_alpha (hd h)" "list_all scheme_char h"
    using sr assms(2) by (auto simp: p split_scheme_def split: prod.splits if_splits)
  have sch: "is_alpha (hd scheme) \<and> list_all scheme_char scheme \<and> lower scheme = scheme \<and> scheme \<noteq> ''''"
    using h(3-5) unfolding h(2) by (cases h) (auto simp: lower_def lower_char_idem lower_char_classes list_all_iff)
  have "set x \<subseteq> set u" using partition_char_parts [OF h(1)] set_drop_subset [of 2 r] by (auto simp: x_def)
  moreover have "blank_free u" by (auto simp: blank_free_def u_def url_clean_def)
  ultimately have bx: "blank_free x" by (auto simp: blank_free_def)
  have fr: "CHR ''#'' \<notin> set front" "set front \<subseteq> set x" "set fragment \<subseteq> set x"
    using partition_char_parts [OF f] by (auto dest: set_dropWhileD)
  have pq: "CHR ''?'' \<notin> set path" "set path \<subseteq> set front" "set query \<subseteq> set front" using partition_char_parts [OF q] by auto
  have "path = '''' \<or> startswith ''/'' path"
  proof (cases "dropWhile (\<lambda>c. \<not> netloc_end c) x")
    case Nil
    then have "path = ''''" using f [unfolded Nil] q by (simp add: partition_char_def)
    then show ?thesis ..
  next
    case (Cons y ys)
    then have "netloc_end y" using hd_dropWhile [of "\<lambda>c. \<not> netloc_end c" x] by simp
    then have "y = CHR ''/'' \<or> y = CHR ''?'' \<or> y = CHR ''#''" by (simp add: netloc_end_def)
    then consider "y = CHR ''#''" | "y = CHR ''?''" | "y = CHR ''/''" by blast
    then show ?thesis
    proof cases
      case 1
      then have "front = []" using f unfolding Cons by (simp add: partition_char_Cons)
      then show ?thesis using q by (simp add: partition_char_def)
    next
      case 2
      then obtain fr' where "front = CHR ''?'' # fr'" using f unfolding Cons by (auto simp: partition_char_Cons split: prod.splits)
      then show ?thesis using q by (simp add: partition_char_Cons)
    next
      case 3
      then obtain fr' where "front = CHR ''/'' # fr'" using f unfolding Cons by (auto simp: partition_char_Cons split: prod.splits)
      then show ?thesis using q by (auto simp: partition_char_Cons startswith_def split: prod.splits)
    qed
  qed
  then show ?thesis
    using sch br assms(3) bx fr pq
    by (auto simp: wf_url_def p blank_free_def list_all_iff dest: set_takeWhileD)
qed

section \<open>The size of a terminal in a URL\<close>

lemma digits_char: "c \<in> set (nat_to_string n) \<Longrightarrow> is_digit c"
proof (induction n rule: nat_to_string.induct)
  case (1 n)
  have "is_digit (char_of (48 + n mod 10))" by (rule digit_char(1)) simp
  then show ?case
    using 1 digit_char(1) [of n] by (subst (asm) (2) nat_to_string.simps) (auto split: if_splits)
qed

lemma nat_to_string_ne [simp]: "nat_to_string n \<noteq> []"
  by (subst nat_to_string.simps) simp

lemma strip_noop_ends:
  assumes "s \<noteq> []" "\<not> is_ws (hd s)" "\<not> is_ws (last s)"
  shows "strip s = s"
proof -
  have "dropWhile is_ws s = s" "dropWhile is_ws (rev s) = rev s" using assms by (simp_all add: dropWhile_eq_self_iff hd_rev)
  then show ?thesis by (simp add: strip_def lstrip_def rstrip_def)
qed

lemma digit_not_ws: "is_digit c \<Longrightarrow> \<not> is_ws c \<and> c \<noteq> CHR ''-'' \<and> c \<noteq> CHR ''+''"
  by (auto simp: is_digit_def is_ws_def Let_def)

lemma py_int_int_to_string: "py_int (int_to_string i) = Some i"
proof -
  have d: "digits_value False 0 (nat_to_string n) = Some (int n)" for n using digits_value_nat [of False 0 n "[]"] by simp
  have h: "is_digit (hd (nat_to_string n))" "is_digit (last (nat_to_string n))" for n
    using digits_char hd_in_set last_in_set nat_to_string_ne by blast+
  have s: "strip (int_to_string i) = int_to_string i"
    using h [THEN digit_not_ws] by (intro strip_noop_ends) (auto simp: int_to_string_def, simp add: is_ws_def)
  show ?thesis
  proof (cases "i < 0")
    case True
    then show ?thesis using d [of "nat (- i)"] by (simp add: py_int_def s) (simp add: int_to_string_def startswith_def)
  next
    case False
    then have i: "int_to_string i = nat_to_string (nat i)" by (simp add: int_to_string_def)
    obtain c cs where c: "nat_to_string (nat i) = c # cs" by (cases "nat_to_string (nat i)") auto
    then have "c \<noteq> CHR ''-'' \<and> c \<noteq> CHR ''+''" using h(1) [of "nat i", THEN digit_not_ws] by simp
    then have "py_int (int_to_string i) = digits_value False 0 (nat_to_string (nat i))"
      using s unfolding i c py_int_def Let_def by (simp only: startswith_def) simp
    then show ?thesis using d [of "nat i"] False by simp
  qed
qed

lemma map_of_py_dict: "map_of (py_dict kvs) = fold (\<lambda>kv m. m(fst kv \<mapsto> snd kv)) kvs Map.empty"
proof -
  have "map_of (fold (\<lambda>kv m. AList.update (fst kv) (snd kv) m) kvs m) = fold (\<lambda>kv m. m(fst kv \<mapsto> snd kv)) kvs (map_of m)" for m
    by (induction kvs arbitrary: m) (simp_all add: update_conv')
  from this [of "[]"] show ?thesis by (simp add: py_dict_def)
qed

lemma py_dict_distinct: "distinct (map fst kvs) \<Longrightarrow> map_of (py_dict kvs) = map_of kvs"
proof -
  assume "distinct (map fst kvs)"
  then have "fold (\<lambda>kv m. m(fst kv \<mapsto> snd kv)) kvs m = m ++ map_of kvs" for m
  proof (induction kvs arbitrary: m)
    case (Cons kv kvs)
    then have "map_of kvs (fst kv) = None" by (simp add: map_of_eq_None_iff)
    then have e: "m(fst kv \<mapsto> snd kv) ++ map_of kvs = m ++ (map_of kvs)(fst kv \<mapsto> snd kv)"
      by (auto simp: fun_eq_iff map_add_def split: option.splits)
    have "map_of (kv # kvs) = (map_of kvs)(fst kv \<mapsto> snd kv)" by (cases kv) simp
    moreover have "distinct (map fst kvs)" using Cons.prems by simp
    ultimately show ?case by (simp only: fold_simps Cons.IH e)
  qed simp
  then show ?thesis by (simp add: map_of_py_dict)
qed

lemma distinct_py_dict: "distinct (map fst (py_dict kvs))"
proof -
  have "distinct (map fst m) \<Longrightarrow> distinct (map fst (fold (\<lambda>kv m. AList.update (fst kv) (snd kv) m) kvs m))" for m
    by (induction kvs arbitrary: m) (simp_all add: distinct_update)
  then show ?thesis by (simp add: py_dict_def)
qed

text \<open>The URL with the size splits like the original one, and its query has the size and every other
  parameter unchanged.\<close>

lemma terminal_url_parts:
  assumes "urlsplit url = Inr p" "us_scheme p \<noteq> ''''" "us_netloc p \<noteq> ''''"
  obtains u q where "terminal_url url rows cols = Inr u" "urlsplit u = Inr (p\<lparr>us_query := q\<rparr>)"
    "map_of (py_dict (parse_qsl q)) =
       (map_of (py_dict (parse_qsl (us_query p))))(''rows'' \<mapsto> int_to_string rows, ''cols'' \<mapsto> int_to_string cols)"
proof -
  define d where "d = AList.update ''cols'' (int_to_string cols) (AList.update ''rows'' (int_to_string rows) (py_dict (parse_qsl (us_query p))))"
  define q where "q = urlencode d"
  have dd: "distinct (map fst d)" unfolding d_def by (intro distinct_update distinct_py_dict)
  have m: "set (join ''&'' xs) \<subseteq> {CHR ''&''} \<union> \<Union> (set ` set xs)" for xs by (induction xs rule: induct_list012) auto
  have marks: "set q \<inter> {CHR ''#'', CHR 9, CHR 10, CHR 13} = {}"
    unfolding q_def urlencode_def using m quote_plus_marks by fastforce
  have "wf_url (p\<lparr>us_query := q\<rparr>)" using urlsplit_wf [OF assms] marks by (auto simp: wf_url_def blank_free_def)
  then have "urlsplit (urlunsplit (p\<lparr>us_query := q\<rparr>)) = Inr (p\<lparr>us_query := q\<rparr>)" by (rule urlsplit_unsplit)
  moreover have "terminal_url url rows cols = Inr (urlunsplit (p\<lparr>us_query := q\<rparr>))"
    by (simp add: terminal_url_def assms(1) Let_def q_def d_def)
  moreover have "map_of (py_dict (parse_qsl q)) = (map_of (py_dict (parse_qsl (us_query p))))(''rows'' \<mapsto> int_to_string rows, ''cols'' \<mapsto> int_to_string cols)"
    unfolding q_def parse_qsl_urlencode using dd by (simp add: py_dict_distinct) (simp add: d_def update_conv')
  ultimately show ?thesis using that by blast
qed

end
