(* ===== verification/Gateway.thy ===== *)
theory Gateway
  imports Api_Sessions Url
begin

text \<open>
  Terminal attachments in \<open>heartbeat.py\<close>: the admission of a client to the gateway of a session, the
  registry of attachments with the eviction of the longest idle one, and the frames a client sends.
  Both registry operations run under \<open>pi_gateway_lock\<close>, so each is one step.  Times are event-loop
  times.
\<close>

section \<open>Configuration and dimensions\<close>

definition positive_int_env :: "string \<Rightarrow> int \<Rightarrow> int act" where
  "positive_int_env name dflt = bnd (getenv_opt name) (\<lambda>v.
     case (case v of None \<Rightarrow> Some dflt | Some s \<Rightarrow> py_int s) of
       None \<Rightarrow> ret dflt | Some n \<Rightarrow> ret (if n > 0 then n else dflt))"

text \<open>\<open>int(value or fallback)\<close>, clamped; None is a missing query parameter.\<close>

definition terminal_dimension :: "json \<Rightarrow> int \<Rightarrow> int" where
  "terminal_dimension value fallback =
     (let parsed = (case json_or value (JInt fallback) of
            JInt i \<Rightarrow> i | JBool b \<Rightarrow> (if b then 1 else 0)
          | JStr s \<Rightarrow> (case py_int s of None \<Rightarrow> fallback | Some i \<Rightarrow> i)
          | _ \<Rightarrow> fallback)
      in max 1 (min 1000 parsed))"

text \<open>\<open>_terminal_url_with_dimensions\<close> repeats the client's \<open>terminal_url\<close> word for word.\<close>

definition terminal_url_with_dimensions :: "string \<Rightarrow> int \<Rightarrow> int \<Rightarrow> string res" where
  "terminal_url_with_dimensions url rows cols = terminal_url url rows cols"

section \<open>Admission\<close>

text \<open>\<open>build_pi_attach_info\<close>: the reason why a session cannot be attached, or the relay's URL.\<close>

definition build_pi_attach_info :: "pi_session \<Rightarrow> string + string" where
  "build_pi_attach_info s =
     (if s_state s \<notin> {WORKING, IDLE, BLOCKED} then Inl (''Session is '' @ session_state_value (s_state s))
      else if \<not> bridge_backed (s_type s) then Inl ''Session has no terminal transport''
      else if \<not> s_attachable s \<or> s_term_host s = '''' \<or> s_term_port s = 0 then Inl ''Interactive session host relay is unavailable''
      else Inr (''ws://'' @ s_term_host s @ '':'' @ int_to_string (s_term_port s) @ ''/v1/sessions/'' @ url_quote (s_id s) @ ''/attach''))"

definition gateway_url :: "bool \<Rightarrow> string \<Rightarrow> pi_session \<Rightarrow> string" where
  "gateway_url https netloc s =
     (if https then ''wss'' else ''ws'') @ ''://'' @ netloc @ ''/api/v1/pi/sessions/'' @ url_quote (s_id s) @ ''/attach-gateway''"

text \<open>The checks of \<open>pi_session_attach_gateway\<close> before the attachment is reserved: the close code of
  a client that is turned away, or the URL it is connected to.\<close>

definition gateway_admission :: "app \<Rightarrow> string \<Rightarrow> string option \<Rightarrow> (nat + string) act" where
  "gateway_admission app session_id authorization =
     bnd (attempt (require_role app [''operator''] authorization)) (\<lambda>who. case who of
       Inl (HTTPErr code detail) \<Rightarrow> ret (Inl (4400 + code mod 100))
     | Inl err \<Rightarrow> raise_err err
     | Inr _ \<Rightarrow> bnd (ask (get_pi_session session_id)) (\<lambda>s. case s of
         None \<Rightarrow> ret (Inl 4404)
       | Some s \<Rightarrow> (case build_pi_attach_info s of Inl reason \<Rightarrow> ret (Inl 4409) | Inr url \<Rightarrow> ret (Inr url))))"

section \<open>The registry of attachments\<close>

text \<open>Attachments are objects with an identity; the registry maps a session to the ids of its active
  attachments.\<close>

record attachment =
  at_activity :: int
  at_rows :: int
  at_cols :: int
  at_evict :: bool
  at_released :: bool

record gateway =
  gw_max :: nat
  gw_active :: "string \<Rightarrow> string list"
  gw_objects :: "string \<Rightarrow> attachment option"
  gw_evictions :: nat

definition new_attachment :: "int \<Rightarrow> int \<Rightarrow> int \<Rightarrow> attachment" where
  "new_attachment t rows cols = \<lparr>at_activity = t, at_rows = rows, at_cols = cols, at_evict = False, at_released = False\<rparr>"

definition activity_of :: "gateway \<Rightarrow> string \<Rightarrow> int" where
  "activity_of g i = (case gw_objects g i of None \<Rightarrow> 0 | Some a \<Rightarrow> at_activity a)"

text \<open>\<open>min(active.values(), key=lambda c: (c.last_activity, c.id))\<close>\<close>

definition older :: "gateway \<Rightarrow> string \<Rightarrow> string \<Rightarrow> bool" where
  "older g i k = (activity_of g i < activity_of g k \<or> activity_of g i = activity_of g k \<and> i < k)"

fun victim_from :: "gateway \<Rightarrow> string \<Rightarrow> string list \<Rightarrow> string" where
  "victim_from g best [] = best"
| "victim_from g best (i # ids) = victim_from g (if older g i best then i else best) ids"

definition evict :: "string \<Rightarrow> gateway \<Rightarrow> gateway" where
  "evict i g = g\<lparr>gw_objects := (gw_objects g)(i := map_option (\<lambda>a. a\<lparr>at_evict := True\<rparr>) (gw_objects g i))\<rparr>"

definition reserve :: "string \<Rightarrow> string \<Rightarrow> attachment \<Rightarrow> gateway \<Rightarrow> string option \<times> gateway" where
  "reserve sid i a g =
     (let active = gw_active g sid; g1 = g\<lparr>gw_objects := (gw_objects g)(i := Some a)\<rparr>
      in if gw_max g \<le> length active then
           (let victim = (case active of [] \<Rightarrow> i | k # ks \<Rightarrow> victim_from g k ks)
            in (Some victim, evict victim (g1\<lparr>gw_active := (gw_active g)(sid := removeAll victim active @ [i]),
                  gw_evictions := gw_evictions g + 1\<rparr>)))
         else (None, g1\<lparr>gw_active := (gw_active g)(sid := active @ [i])\<rparr>))"

definition release :: "string \<Rightarrow> string \<Rightarrow> gateway \<Rightarrow> gateway" where
  "release sid i g = g\<lparr>gw_active := (gw_active g)(sid := removeAll i (gw_active g sid)),
     gw_objects := (gw_objects g)(i := map_option (\<lambda>a. a\<lparr>at_released := True\<rparr>) (gw_objects g i))\<rparr>"

text \<open>A frame from the client.  Only input and a resize that changes something count as activity.\<close>

datatype frame = BytesFrame | TextFrame string

definition note_client_frame :: "(string \<Rightarrow> (string \<times> json) list option) \<Rightarrow> int \<Rightarrow> frame \<Rightarrow> attachment \<Rightarrow> attachment" where
  "note_client_frame parse t fr a = (case fr of
     BytesFrame \<Rightarrow> a\<lparr>at_activity := t\<rparr>
   | TextFrame s \<Rightarrow> (case parse s of
       None \<Rightarrow> a\<lparr>at_activity := t\<rparr>
     | Some doc \<Rightarrow>
       if json_get doc ''type'' JNull = JStr ''resize'' then
         (let rows = terminal_dimension (json_get doc ''rows'' JNull) (at_rows a);
              cols = terminal_dimension (json_get doc ''cols'' JNull) (at_cols a)
          in if (rows, cols) \<noteq> (at_rows a, at_cols a) then a\<lparr>at_rows := rows, at_cols := cols, at_activity := t\<rparr> else a)
       else a\<lparr>at_activity := t\<rparr>))"

definition note_frame :: "(string \<Rightarrow> (string \<times> json) list option) \<Rightarrow> int \<Rightarrow> frame \<Rightarrow> string \<Rightarrow> gateway \<Rightarrow> gateway" where
  "note_frame parse t fr i g = g\<lparr>gw_objects := (gw_objects g)(i := map_option (note_client_frame parse t fr) (gw_objects g i))\<rparr>"

section \<open>Reachable registries\<close>

definition new_gateway :: "nat \<Rightarrow> gateway" where
  "new_gateway m = \<lparr>gw_max = m, gw_active = (\<lambda>_. []), gw_objects = (\<lambda>_. None), gw_evictions = 0\<rparr>"

text \<open>Attachments get fresh uuids, and a handler releases its own attachment.\<close>

inductive gw_reach :: "nat \<Rightarrow> gateway \<Rightarrow> bool" for m :: nat where
  start: "gw_reach m (new_gateway m)"
| attach: "gw_reach m g \<Longrightarrow> gw_objects g i = None \<Longrightarrow> gw_reach m (snd (reserve sid i (new_attachment t rows cols) g))"
| frame: "gw_reach m g \<Longrightarrow> gw_reach m (note_frame parse t fr i g)"
| leave: "gw_reach m g \<Longrightarrow> (\<And>s. i \<in> set (gw_active g s) \<Longrightarrow> s = sid) \<Longrightarrow> gw_reach m (release sid i g)"

definition live :: "gateway \<Rightarrow> string \<Rightarrow> bool" where
  "live g i = (case gw_objects g i of None \<Rightarrow> False | Some a \<Rightarrow> \<not> at_evict a \<and> \<not> at_released a)"

definition gw_inv :: "gateway \<Rightarrow> bool" where
  "gw_inv g = ((\<forall>sid. distinct (gw_active g sid) \<and> length (gw_active g sid) \<le> gw_max g) \<and>
     (\<forall>s s' i. i \<in> set (gw_active g s) \<longrightarrow> i \<in> set (gw_active g s') \<longrightarrow> s = s') \<and>
     (\<forall>i. live g i \<longleftrightarrow> (\<exists>sid. i \<in> set (gw_active g sid))))"

lemma victim_in: "victim_from g k ks \<in> set (k # ks)"
  by (induction ks arbitrary: k) (auto split: if_splits)

lemma victim_oldest: "x \<in> set (k # ks) \<Longrightarrow> activity_of g (victim_from g k ks) \<le> activity_of g x"
proof (induction ks arbitrary: k x)
  case (Cons i ks)
  let ?b = "if older g i k then i else k"
  have b: "activity_of g ?b \<le> activity_of g i" "activity_of g ?b \<le> activity_of g k" by (auto simp: older_def)
  have "activity_of g (victim_from g ?b ks) \<le> activity_of g y" if "y \<in> set (?b # ks)" for y
    using Cons.IH [OF that] .
  then have "activity_of g (victim_from g ?b ks) \<le> activity_of g ?b" "\<And>y. y \<in> set ks \<Longrightarrow> activity_of g (victim_from g ?b ks) \<le> activity_of g y"
    by simp_all
  then show ?case using Cons.prems b by (simp only: victim_from.simps set_simps insert_iff) (metis order_trans)
qed simp

lemma live_frame: "live (note_frame parse t fr k g) i = live g i"
  by (auto simp: live_def note_frame_def note_client_frame_def Let_def split: option.splits frame.splits)

lemma gw_invD:
  assumes "gw_inv g"
  shows "distinct (gw_active g s)" "length (gw_active g s) \<le> gw_max g" "live g i \<longleftrightarrow> (\<exists>s. i \<in> set (gw_active g s))"
    "i \<in> set (gw_active g s) \<Longrightarrow> i \<in> set (gw_active g s') \<Longrightarrow> s = s'"
  using assms unfolding gw_inv_def by blast+

lemma gw_invI:
  assumes "\<And>s. distinct (gw_active g s) \<and> length (gw_active g s) \<le> gw_max g"
    and "\<And>s s' i. i \<in> set (gw_active g s) \<Longrightarrow> i \<in> set (gw_active g s') \<Longrightarrow> s = s'"
    and "\<And>i. live g i \<longleftrightarrow> (\<exists>s. i \<in> set (gw_active g s))"
  shows "gw_inv g"
  using assms unfolding gw_inv_def by blast

lemma fresh_not_active: "gw_inv g \<Longrightarrow> gw_objects g i = None \<Longrightarrow> i \<notin> set (gw_active g s)"
  using gw_invD(3) [of g i] by (auto simp: live_def)

text \<open>The two outcomes of a reservation.\<close>

lemma reserve_room:
  assumes "length (gw_active g sid) < gw_max g"
  shows "fst (reserve sid i (new_attachment t rows cols) g) = None"
    "gw_active (snd (reserve sid i (new_attachment t rows cols) g)) = (gw_active g)(sid := gw_active g sid @ [i])"
    "live (snd (reserve sid i (new_attachment t rows cols) g)) k = (k = i \<or> live g k)"
    "gw_max (snd (reserve sid i (new_attachment t rows cols) g)) = gw_max g"
  using assms by (auto simp: reserve_def Let_def live_def new_attachment_def)

lemma reserve_full:
  assumes "gw_max g \<le> length (gw_active g sid)" "gw_active g sid = x # xs" "gw_objects g i = None" "i \<notin> set (gw_active g sid)"
  shows "fst (reserve sid i (new_attachment t rows cols) g) = Some (victim_from g x xs)"
    "gw_active (snd (reserve sid i (new_attachment t rows cols) g)) =
       (gw_active g)(sid := removeAll (victim_from g x xs) (gw_active g sid) @ [i])"
    "live (snd (reserve sid i (new_attachment t rows cols) g)) k = (k = i \<or> k \<noteq> victim_from g x xs \<and> live g k)"
    "gw_max (snd (reserve sid i (new_attachment t rows cols) g)) = gw_max g"
  using assms victim_in [of g x xs]
  by (auto simp: reserve_def Let_def live_def new_attachment_def evict_def split: option.splits)

lemma active_upd: "(\<exists>s. k \<in> set ((f(sid := xs)) s)) \<longleftrightarrow> k \<in> set xs \<or> (\<exists>s. s \<noteq> sid \<and> k \<in> set (f s))"
  by (metis fun_upd_apply)

lemma active_split: "(\<exists>s. k \<in> set (f s)) \<longleftrightarrow> k \<in> set (f sid) \<or> (\<exists>s. s \<noteq> sid \<and> k \<in> set (f s))"
  by metis

lemma reserve_inv:
  assumes inv: "gw_inv g" and new: "gw_objects g i = None" and m: "0 < gw_max g"
  shows "gw_inv (snd (reserve sid i (new_attachment t rows cols) g))"
proof (cases "length (gw_active g sid) < gw_max g")
  case True
  show ?thesis
  proof (rule gw_invI)
    show "live (snd (reserve sid i (new_attachment t rows cols) g)) k \<longleftrightarrow>
        (\<exists>s. k \<in> set (gw_active (snd (reserve sid i (new_attachment t rows cols) g)) s))" for k
      unfolding reserve_room [OF True] gw_invD(3) [OF inv]
      by (metis Un_iff fun_upd_apply list.set_intros(1) set_ConsD set_append list.set(1) empty_iff)
  qed (use reserve_room [OF True] gw_invD [OF inv] fresh_not_active [OF inv new] True in \<open>auto split: if_splits\<close>)
next
  case False
  then obtain x xs where x: "gw_active g sid = x # xs" using m by (cases "gw_active g sid") auto
  define v where "v = victim_from g x xs"
  have full: "gw_max g \<le> length (gw_active g sid)" using False by simp
  note res = reserve_full [OF full x new fresh_not_active [OF inv new], folded v_def]
  have v: "v \<in> set (gw_active g sid)" using victim_in x by (simp add: v_def)
  have len: "length (removeAll v (gw_active g sid)) < length (gw_active g sid)"
    using v by (simp add: length_removeAll_less)
  show ?thesis
  proof (rule gw_invI)
    show "live (snd (reserve sid i (new_attachment t rows cols) g)) k \<longleftrightarrow>
        (\<exists>s. k \<in> set (gw_active (snd (reserve sid i (new_attachment t rows cols) g)) s))" for k
      unfolding res active_upd gw_invD(3) [OF inv] active_split [of k "gw_active g" sid]
      using gw_invD(4) [OF inv] v by auto
    show "distinct (gw_active (snd (reserve sid i (new_attachment t rows cols) g)) s) \<and>
        length (gw_active (snd (reserve sid i (new_attachment t rows cols) g)) s) \<le> gw_max (snd (reserve sid i (new_attachment t rows cols) g))" for s
      unfolding res using gw_invD(1,2) [OF inv] fresh_not_active [OF inv new] len
      by (cases "s = sid") (auto simp: distinct_removeAll intro: order_trans [OF Suc_leI])
  qed (use res gw_invD(4) [OF inv] fresh_not_active [OF inv new] in \<open>auto split: if_splits\<close>)
qed

lemma reach_inv:
  assumes "gw_reach m g" "0 < m"
  shows "gw_inv g \<and> gw_max g = m"
  using assms(1)
proof (induction rule: gw_reach.induct)
  case start
  show ?case by (simp add: gw_inv_def new_gateway_def live_def)
next
  case (attach g i sid t rows cols)
  then show ?case using reserve_inv [of g i sid t rows cols] assms(2)
    by (simp add: reserve_def evict_def Let_def)
next
  case (frame g parse t fr i)
  then have "gw_active (note_frame parse t fr i g) = gw_active g" "gw_max (note_frame parse t fr i g) = gw_max g"
    by (simp_all add: note_frame_def)
  with frame show ?case by (auto simp: gw_inv_def live_frame)
next
  case (leave g i sid)
  have live: "live (release sid i g) k = (k \<noteq> i \<and> live g k)" for k
    by (auto simp: live_def release_def split: option.splits)
  have acts: "gw_active (release sid i g) = (gw_active g)(sid := removeAll i (gw_active g sid))" by (simp add: release_def)
  have "gw_inv (release sid i g)"
  proof (rule gw_invI)
    show "live (release sid i g) k \<longleftrightarrow> (\<exists>s. k \<in> set (gw_active (release sid i g) s))" for k
      using gw_invD(3) [of g k] leave active_split [of k "gw_active g" sid]
      unfolding live acts active_upd by auto
  qed (use gw_invD leave in \<open>auto simp: release_def distinct_removeAll split: if_splits intro: order_trans [OF length_removeAll_less_eq]\<close>)
  then show ?case using leave by (simp add: release_def)
qed

section \<open>Property\<close>

text \<open>
  C27.  The gateway is bounded and fair.  In every reachable registry a session never has more than the
  configured number of attachments, and an attachment is registered exactly while it has neither been
  evicted nor released.  A new attachment is always admitted, it displaces nobody while there is room,
  and otherwise exactly one attachment of the same session, of which none has been idle longer, and
  the number of attachments stays the same.
\<close>

theorem gateway_bounded_and_fair:
  assumes "gw_reach m g" and "0 < m" and "gw_objects g i = None"
  shows "length (gw_active g sid) \<le> m \<and> live g k = (\<exists>s. k \<in> set (gw_active g s)) \<and>
    (case reserve sid i (new_attachment t rows cols) g of
       (None, g') \<Rightarrow> length (gw_active g sid) < m \<and> gw_active g' sid = gw_active g sid @ [i]
     | (Some v, g') \<Rightarrow> length (gw_active g sid) = m \<and> v \<in> set (gw_active g sid) \<and>
         filter (\<lambda>x. activity_of g x < activity_of g v) (gw_active g sid) = [] \<and>
         gw_active g' sid = removeAll v (gw_active g sid) @ [i] \<and> length (gw_active g' sid) = m \<and> \<not> live g' v)"
proof -
  have inv: "gw_inv g" and m: "gw_max g = m" using reach_inv [OF assms(1,2)] by simp_all
  let ?r = "reserve sid i (new_attachment t rows cols) g"
  show ?thesis
  proof (cases "length (gw_active g sid) < gw_max g")
    case True
    then show ?thesis using gw_invD(2,3) [OF inv] m reserve_room [OF True, of i t rows cols]
      by (cases ?r) auto
  next
    case False
    then obtain x xs where x: "gw_active g sid = x # xs" using assms(2) m by (cases "gw_active g sid") auto
    define v where "v = victim_from g x xs"
    have full: "gw_max g \<le> length (gw_active g sid)" using False by simp
    note res = reserve_full [OF full x assms(3) fresh_not_active [OF inv assms(3)], folded v_def]
    have v: "v \<in> set (gw_active g sid)" using victim_in x by (simp add: v_def)
    have n: "length (gw_active g sid) = m" using gw_invD(2) [OF inv, of sid] full m by simp
    have "length (removeAll v (gw_active g sid)) = m - 1"
      using v gw_invD(1) [OF inv, of sid] n by (simp add: distinct_remove1_removeAll [symmetric] length_remove1)
    moreover have "\<not> activity_of g y < activity_of g v" if "y \<in> set (gw_active g sid)" for y
      using victim_oldest [of y x xs g] that by (simp add: v_def x not_less)
    then have "filter (\<lambda>y. activity_of g y < activity_of g v) (gw_active g sid) = []" by (simp add: filter_empty_conv)
    moreover have "v \<noteq> i" using v fresh_not_active [OF inv assms(3)] by metis
    ultimately show ?thesis using res [of t rows cols] v n assms(2) gw_invD(2,3) [OF inv] m
      by (cases ?r) auto
  qed
qed

theorem gateway_bounded_and_fair_witness:
  "\<exists>g g'. gw_reach 1 g \<and> gw_active g ''s'' = [''a''] \<and> reserve ''s'' ''b'' (new_attachment 5 24 80) g = (Some ''a'', g') \<and>
     gw_active g' ''s'' = [''b'']"
proof -
  let ?g = "snd (reserve ''s'' ''a'' (new_attachment 3 24 80) (new_gateway 1))"
  have r: "gw_reach 1 ?g" by (intro gw_reach.intros) (simp add: new_gateway_def)
  have a: "gw_active ?g ''s'' = [''a'']" "gw_objects ?g ''b'' = None"
    by (simp_all add: reserve_def new_gateway_def Let_def)
  from gateway_bounded_and_fair [OF r _ a(2), of "''s''" "''a''" 5 24 80] a(1) r show ?thesis
    by (cases "reserve ''s'' ''b'' (new_attachment 5 24 80) ?g") (auto split: option.splits)
qed

section \<open>The size of the client's terminal\<close>

text \<open>The size the gateway reads from the query of a WebSocket URL.\<close>

definition query_dimension :: "string \<Rightarrow> string \<Rightarrow> int \<Rightarrow> int" where
  "query_dimension url name fallback = (case urlsplit url of
     Inl _ \<Rightarrow> fallback
   | Inr p \<Rightarrow> terminal_dimension (case map_of (py_dict (parse_qsl (us_query p))) name of None \<Rightarrow> JNull | Some v \<Rightarrow> JStr v) fallback)"

text \<open>
  The size of the client's terminal reaches the gateway.  For every URL with a scheme and a
  host, whatever its query holds, the client's URL exists, names the same endpoint with the same
  other parameters, and the gateway reads from it the rows and columns of the client, clamped to
  1 to 1000, and never its fallback.
\<close>

theorem terminal_size_reaches_gateway:
  assumes "urlsplit url = Inr p" "us_scheme p \<noteq> ''''" "us_netloc p \<noteq> ''''"
  shows "\<exists>u q. terminal_url url rows cols = Inr u \<and> urlsplit u = Inr (p\<lparr>us_query := q\<rparr>) \<and>
    (map_of (py_dict (parse_qsl q))) |` (- {''rows'', ''cols''}) = (map_of (py_dict (parse_qsl (us_query p)))) |` (- {''rows'', ''cols''}) \<and>
    query_dimension u ''rows'' 24 = max 1 (min 1000 rows) \<and> query_dimension u ''cols'' 80 = max 1 (min 1000 cols)"
proof -
  obtain u q where u: "terminal_url url rows cols = Inr u" "urlsplit u = Inr (p\<lparr>us_query := q\<rparr>)"
    and m: "map_of (py_dict (parse_qsl q)) =
       (map_of (py_dict (parse_qsl (us_query p))))(''rows'' \<mapsto> int_to_string rows, ''cols'' \<mapsto> int_to_string cols)"
    by (rule terminal_url_parts [OF assms])
  have "int_to_string n \<noteq> ''''" for n by (simp add: int_to_string_def)
  then have t: "terminal_dimension (JStr (int_to_string n)) k = max 1 (min 1000 n)" for n k
    by (simp add: terminal_dimension_def json_or_def py_int_int_to_string)
  have "query_dimension u ''rows'' 24 = max 1 (min 1000 rows)" "query_dimension u ''cols'' 80 = max 1 (min 1000 cols)"
    using t by (simp_all add: query_dimension_def u m)
  moreover have "(map_of (py_dict (parse_qsl q))) |` (- {''rows'', ''cols''}) = (map_of (py_dict (parse_qsl (us_query p)))) |` (- {''rows'', ''cols''})"
    by (auto simp: m restrict_map_def fun_eq_iff)
  ultimately show ?thesis using u by blast
qed

theorem terminal_size_reaches_gateway_witness:
  "\<exists>u. terminal_url ''ws://h:1/p?rows=7&x=a+b'' 30 2000 = Inr u \<and> query_dimension u ''rows'' 24 = 30 \<and> query_dimension u ''cols'' 80 = 1000"
proof -
  have "urlsplit ''ws://h:1/p?rows=7&x=a+b'' =
      Inr \<lparr>us_scheme = ''ws'', us_netloc = ''h:1'', us_path = ''/p'', us_query = ''rows=7&x=a+b'', us_fragment = ''''\<rparr>"
    by code_simp
  from terminal_size_reaches_gateway [OF this, of 30 2000] show ?thesis by auto
qed

end
