(* ===== verification/Terminal.thy ===== *)
theory Terminal
  imports Url Models
begin

text \<open>
  The native terminal client of \<open>pi_terminal.py\<close>: keyboard input, output, the resize loop and the choice
  between the direct relay and the gateway.  The exceptions are kept as far as the handlers tell them
  apart; what the peer sends, how much the kernel accepts per write and how a connection ends are
  arguments.  Strings are byte strings.
\<close>

datatype term_error = RelayUnavailable string | TransportErr string | OtherErr string

section \<open>Keyboard input\<close>

definition DETACH_BYTE :: char where "DETACH_BYTE = CHR 29"
definition NEXT_BYTE :: char where "NEXT_BYTE = CHR 30"
definition PREVIOUS_BYTE :: char where "PREVIOUS_BYTE = CHR 31"

text \<open>\<open>chunk.find(byte)\<close>, None for \<open>-1\<close>.\<close>

fun find_byte :: "char \<Rightarrow> string \<Rightarrow> nat option" where
  "find_byte b [] = None"
| "find_byte b (c # cs) = (if c = b then Some 0 else map_option Suc (find_byte b cs))"

definition controls :: "string \<Rightarrow> (nat \<times> string option) list" where
  "controls chunk = concat (map (\<lambda>bd. case find_byte (fst bd) chunk of None \<Rightarrow> [] | Some i \<Rightarrow> [(i, snd bd)])
     [(DETACH_BYTE, None), (NEXT_BYTE, Some ''next''), (PREVIOUS_BYTE, Some ''previous'')])"

text \<open>\<open>min(controls, key=lambda item: item[0])\<close>\<close>

fun first_control :: "nat \<times> string option \<Rightarrow> (nat \<times> string option) list \<Rightarrow> nat \<times> string option" where
  "first_control best [] = best"
| "first_control best (x # xs) = first_control (if fst x < fst best then x else best) xs"

text \<open>The input task still waits, or it has returned a direction (None to detach).  An empty read is
  the end of the input.\<close>

datatype input_state = Waiting | Returned "string option"

fun send_input :: "string list \<Rightarrow> string list \<times> input_state" where
  "send_input [] = ([], Waiting)"
| "send_input (chunk # chunks) =
     (if chunk = [] then ([], Returned None)
      else (case controls chunk of
        c # cs \<Rightarrow> (case first_control c cs of (index, direction) \<Rightarrow>
          (if index \<noteq> 0 then [take index chunk] else [], Returned direction))
      | [] \<Rightarrow> (case send_input chunks of (sent, s) \<Rightarrow> (chunk # sent, s))))"

section \<open>Output\<close>

text \<open>\<open>_write_all\<close>: \<open>accept k data\<close> is what the \<open>k\<close>-th \<open>os.write\<close> returns.\<close>

function write_all :: "(nat \<Rightarrow> string \<Rightarrow> int) \<Rightarrow> nat \<Rightarrow> string \<Rightarrow> string \<times> nat \<times> (term_error + unit)" where
  "write_all accept k remaining =
     (if remaining = [] then ([], k, Inr ())
      else let written = accept k remaining
           in if written \<le> 0 then ([], Suc k, Inl (TransportErr ''terminal output write made no progress''))
              else (case write_all accept (Suc k) (drop (nat written) remaining) of
                (out, k', r) \<Rightarrow> (take (nat written) remaining @ out, k', r)))"
  by pat_completeness auto
termination by (relation "measure (\<lambda>(accept, k, remaining). length remaining)") auto

declare write_all.simps [simp del]

record screen =
  sc_out :: string
  sc_writes :: nat
  sc_ready :: bool
  sc_changed :: bool

datatype message = Binary string | Text string

text \<open>How the iteration over the websocket ends: closed normally, or with \<open>ConnectionClosed\<close> and the
  code received from the peer.\<close>

datatype closing = ClosedNormally | ClosedWith "nat option"

definition emit :: "(nat \<Rightarrow> string \<Rightarrow> int) \<Rightarrow> string \<Rightarrow> screen \<Rightarrow> (term_error + unit) \<times> screen" where
  "emit accept data sc = (case write_all accept (sc_writes sc) data of
     (out, k, r) \<Rightarrow> (r, sc\<lparr>sc_out := sc_out sc @ out, sc_writes := k\<rparr>))"

definition frame_get :: "json \<Rightarrow> string \<Rightarrow> json option" where
  "frame_get frame key = (case frame of JObj kvs \<Rightarrow> Some (json_get kvs key JNull) | _ \<Rightarrow> None)"

text \<open>A text message that is no JSON is output; an object may be an error or status frame.  Other JSON
  values have no \<open>get\<close>.\<close>

fun receive_output :: "(string \<Rightarrow> json option) \<Rightarrow> (json \<Rightarrow> string) \<Rightarrow> (nat \<Rightarrow> string \<Rightarrow> int) \<Rightarrow> message list \<Rightarrow> closing \<Rightarrow> screen \<Rightarrow>
    (term_error + string option) \<times> screen" where
  "receive_output parse repr accept [] closing sc = (case closing of
     ClosedNormally \<Rightarrow> (Inr None, sc)
   | ClosedWith code \<Rightarrow> if code = Some 4410 then (Inr (Some ''select''), sc) else (Inl (TransportErr ''connection closed''), sc))"
| "receive_output parse repr accept (Binary data # ms) closing sc = (case emit accept data sc of
     (Inl err, sc') \<Rightarrow> (Inl err, sc') | (Inr _, sc') \<Rightarrow> receive_output parse repr accept ms closing sc')"
| "receive_output parse repr accept (Text text # ms) closing sc = (case parse text of
     None \<Rightarrow> (case emit accept text sc of
       (Inl err, sc') \<Rightarrow> (Inl err, sc') | (Inr _, sc') \<Rightarrow> receive_output parse repr accept ms closing sc')
   | Some frame \<Rightarrow> (case frame_get frame ''type'' of
       None \<Rightarrow> (Inl (OtherErr ''AttributeError''), sc)
     | Some typ \<Rightarrow>
       let state = the (frame_get frame ''state'')
       in if typ = JStr ''error'' then
            (Inl (OtherErr (py_str repr (json_or (the (frame_get frame ''detail'')) (json_or (the (frame_get frame ''code''))
              (JStr ''terminal relay reported an error''))))), sc)
          else if typ = JStr ''status'' \<and> state = JStr ''replaced'' then (Inr (Some ''select''), sc)
          else if typ = JStr ''status'' \<and> state = JStr ''connected''
          then receive_output parse repr accept ms closing (sc\<lparr>sc_ready := True, sc_changed := True\<rparr>)
          else receive_output parse repr accept ms closing sc))"

section \<open>Resizes\<close>

text \<open>\<open>terminal_size\<close> of a size the system reports.\<close>

definition terminal_size :: "int \<Rightarrow> int \<Rightarrow> int \<times> int" where
  "terminal_size lines columns = (max 1 lines, max 1 columns)"

text \<open>One round of \<open>_send_resizes\<close>: the frames it sends and the new \<open>last_size\<close>; \<open>refresh\<close> says that the
  backend became ready since the last round.\<close>

definition resize_round :: "(int \<times> int) option \<Rightarrow> bool \<Rightarrow> int \<times> int \<Rightarrow> (int \<times> int) list \<times> (int \<times> int) option" where
  "resize_round last0 refresh dims = (case dims of (rows, cols) \<Rightarrow>
     ((if refresh \<and> Some dims = last0 then [(rows, if cols > 1 then cols - 1 else cols + 1)] else []) @
      (if refresh \<or> Some dims \<noteq> last0 then [(rows, cols)] else []),
      if refresh \<or> Some dims \<noteq> last0 then Some dims else last0))"

fun send_resizes :: "(int \<times> int) option \<Rightarrow> (bool \<times> int \<times> int) list \<Rightarrow> (int \<times> int) list \<times> (int \<times> int) option" where
  "send_resizes last0 [] = ([], last0)"
| "send_resizes last0 ((refresh, dims) # rounds) =
     (case resize_round last0 refresh (terminal_size (fst dims) (snd dims)) of (frames, last1) \<Rightarrow>
       case send_resizes last1 rounds of (later, last2) \<Rightarrow> (frames @ later, last2))"

section \<open>The attachment\<close>

text \<open>The tasks that are done when the first one is, with their results.  The resize task can only be done
  by raising.\<close>

record finish =
  fi_cycle :: "string option"
  fi_input :: "(term_error + string option) option"
  fi_output :: "(term_error + string option) option"
  fi_resize :: "term_error option"
  fi_close_code :: "nat option"

definition conclude :: "finish \<Rightarrow> term_error + string option" where
  "conclude f =
     (let rest = (\<lambda>direction. case fi_resize f of Some err \<Rightarrow> Inl err | None \<Rightarrow> Inr direction)
      in case fi_cycle f of
           Some direction \<Rightarrow> rest (Some direction)
         | None \<Rightarrow> (case fi_input f of
             Some (Inl err) \<Rightarrow> Inl err
           | Some (Inr direction) \<Rightarrow> rest direction
           | None \<Rightarrow> (case fi_output f of
               Some (Inl err) \<Rightarrow> Inl err
             | Some (Inr None) \<Rightarrow>
                 if fi_close_code f = Some 1000 then Inr None
                 else Inl (RelayUnavailable ''terminal relay disconnected'')
             | Some (Inr direction) \<Rightarrow> rest direction
             | None \<Rightarrow> rest None)))"

text \<open>A connection attempt fails before the tasks run, or they run until the first is done.\<close>

datatype attempt = Refused term_error | Ran finish

definition run_attempt :: "attempt \<Rightarrow> term_error + string option" where
  "run_attempt a = (case a of Refused err \<Rightarrow> Inl err | Ran f \<Rightarrow> conclude f)"

definition retried :: "term_error \<Rightarrow> bool" where
  "retried err = (case err of OtherErr _ \<Rightarrow> False | _ \<Rightarrow> True)"

definition final_error :: "term_error \<Rightarrow> term_error" where
  "final_error err = (case err of TransportErr s \<Rightarrow> RelayUnavailable (''terminal relay unavailable: '' @ s) | _ \<Rightarrow> err)"

text \<open>The loop over the URLs: the connections it opens, each with the headers it sends, and how it ends.\<close>

fun attach_loop :: "'h option \<Rightarrow> (nat \<Rightarrow> attempt) \<Rightarrow> nat \<Rightarrow> string list \<Rightarrow> (string \<times> 'h option) list \<times> (term_error + string option)" where
  "attach_loop headers attempts index [] = ([], Inr None)"
| "attach_loop headers attempts index (url # urls) =
     (let connection = (url, if index > 0 then headers else None)
      in case run_attempt (attempts index) of
           Inr direction \<Rightarrow> ([connection], Inr direction)
         | Inl err \<Rightarrow>
           if retried err \<and> urls \<noteq> [] then
             (case attach_loop headers attempts (Suc index) urls of (cs, r) \<Rightarrow> (connection # cs, r))
           else ([connection], Inl (final_error err)))"

definition valid_scheme :: "string \<Rightarrow> bool" where
  "valid_scheme url = (startswith ''ws://'' url \<or> startswith ''wss://'' url)"

fun all_res :: "'a res list \<Rightarrow> 'a list res" where
  "all_res [] = Inr []"
| "all_res (r # rs) = (case r of Inl err \<Rightarrow> Inl err | Inr x \<Rightarrow> (case all_res rs of Inl err \<Rightarrow> Inl err | Inr xs \<Rightarrow> Inr (x # xs)))"

definition attach_terminal :: "string \<Rightarrow> string option \<Rightarrow> 'h option \<Rightarrow> int \<times> int \<Rightarrow> (nat \<Rightarrow> attempt) \<Rightarrow>
    (string \<times> 'h option) list \<times> (term_error + string option)" where
  "attach_terminal websocket_url fallback headers dims attempts =
     (let urls = websocket_url # (case fallback of None \<Rightarrow> [] | Some f \<Rightarrow> if f \<noteq> '''' \<and> f \<noteq> websocket_url then [f] else []);
          (rows, cols) = dims
      in if \<not> list_all valid_scheme urls then ([], Inl (OtherErr ''attach-info returned an invalid WebSocket URL''))
         else (case all_res (map (\<lambda>u. terminal_url u rows cols) urls) of
           Inl err \<Rightarrow> ([], Inl (OtherErr ''ValueError''))
         | Inr sized \<Rightarrow> attach_loop headers attempts 0 sized))"

section \<open>Properties\<close>

definition direction_of :: "char \<Rightarrow> string option" where
  "direction_of c = (if c = NEXT_BYTE then Some ''next'' else if c = PREVIOUS_BYTE then Some ''previous'' else None)"

definition is_control :: "char \<Rightarrow> bool" where
  "is_control c = (c \<in> {DETACH_BYTE, NEXT_BYTE, PREVIOUS_BYTE})"

lemma bytes_differ: "DETACH_BYTE \<noteq> NEXT_BYTE" "DETACH_BYTE \<noteq> PREVIOUS_BYTE" "NEXT_BYTE \<noteq> PREVIOUS_BYTE"
  by code_simp+

lemma find_byte_None: "b \<notin> set s \<Longrightarrow> find_byte b s = None"
  by (induction s) auto

lemma find_byte_first: "b \<notin> set s \<Longrightarrow> find_byte b (s @ b # t) = Some (length s)"
  by (induction s) auto

lemma find_byte_later: "b \<notin> set s \<Longrightarrow> b \<noteq> c \<Longrightarrow> find_byte b (s @ c # t) = None \<or> (\<exists>k > length s. find_byte b (s @ c # t) = Some k)"
proof (induction s)
  case Nil
  then show ?case by (cases "find_byte b t") auto
next
  case (Cons a s)
  then show ?case by auto
qed

lemma controls_None: "list_all (\<lambda>c. \<not> is_control c) s \<Longrightarrow> controls s = []"
proof -
  assume "list_all (\<lambda>c. \<not> is_control c) s"
  then have "DETACH_BYTE \<notin> set s" "NEXT_BYTE \<notin> set s" "PREVIOUS_BYTE \<notin> set s" by (auto simp: is_control_def list_all_iff)
  then show ?thesis by (simp add: controls_def find_byte_None)
qed

text \<open>In a chunk with a control byte the earliest one decides.\<close>

lemma controls_first:
  assumes s: "list_all (\<lambda>c. \<not> is_control c) s" and c: "is_control c"
  shows "\<exists>x xs. controls (s @ c # t) = x # xs \<and> first_control x xs = (length s, direction_of c)"
proof -
  have n: "DETACH_BYTE \<notin> set s" "NEXT_BYTE \<notin> set s" "PREVIOUS_BYTE \<notin> set s" using s by (auto simp: is_control_def list_all_iff)
  note later = n [THEN find_byte_later, of c t]
  from c consider "c = DETACH_BYTE" | "c = NEXT_BYTE" | "c = PREVIOUS_BYTE" by (auto simp: is_control_def)
  then show ?thesis
    using n later bytes_differ bytes_differ [symmetric]
    by cases (auto simp: controls_def find_byte_first direction_of_def)
qed

text \<open>
  The keyboard is transparent up to the first control byte.  However the input is cut into
  reads, what is sent to the session is exactly the input before the first detach or switch byte, no
  empty message is sent, and the client returns the direction of that byte; without one it ends with
  the input or keeps waiting.
\<close>

theorem input_transparent:
  "case send_input chunks of (sent, state) \<Rightarrow>
     let typed = concat (takeWhile (\<lambda>c. c \<noteq> []) chunks)
     in concat sent = takeWhile (\<lambda>c. \<not> is_control c) typed \<and> [] \<notin> set sent \<and>
        state = (case dropWhile (\<lambda>c. \<not> is_control c) typed of
          c # _ \<Rightarrow> Returned (direction_of c) | [] \<Rightarrow> if [] \<in> set chunks then Returned None else Waiting)"
proof (induction chunks)
  case (Cons chunk chunks)
  show ?case
  proof (cases "chunk = []")
    case False
    show ?thesis
    proof (cases "list_all (\<lambda>c. \<not> is_control c) chunk")
      case True
      have "takeWhile (\<lambda>c. \<not> is_control c) (chunk @ t) = chunk @ takeWhile (\<lambda>c. \<not> is_control c) t"
        "dropWhile (\<lambda>c. \<not> is_control c) (chunk @ t) = dropWhile (\<lambda>c. \<not> is_control c) t" for t
        using True by (auto simp: list_all_iff)
      then show ?thesis using Cons.IH False by (simp add: controls_None [OF True] Let_def split: prod.splits)
    next
      case no: False
      obtain s c t where split: "chunk = s @ c # t" "list_all (\<lambda>c. \<not> is_control c) s" "is_control c"
        using no split_list_first_prop [of chunk is_control] by (auto simp: list_all_iff)
      obtain x xs where f: "controls chunk = x # xs" "first_control x xs = (length s, direction_of c)"
        using controls_first [OF split(2,3)] split(1) by blast
      have "takeWhile (\<lambda>c. \<not> is_control c) (chunk @ u) = s" "dropWhile (\<lambda>c. \<not> is_control c) (chunk @ u) = c # t @ u" for u
        using split by (auto simp: list_all_iff)
      then show ?thesis using False f by (simp add: Let_def split(1))
    qed
  qed (simp add: Let_def)
qed (simp add: Let_def)

text \<open>Output: what is written is a prefix of the data, all of it when no write stalls.\<close>

lemma write_all_result:
  "case write_all accept k data of (out, k', r) \<Rightarrow>
     (case r of Inr _ \<Rightarrow> out = data | Inl err \<Rightarrow> out \<noteq> data \<and> (\<exists>rest. data = out @ rest) \<and> err = TransportErr ''terminal output write made no progress'')"
proof (induction accept k data rule: write_all.induct)
  case (1 accept k data)
  show ?case
  proof (cases "data = [] \<or> accept k data \<le> 0")
    case True
    then show ?thesis by (auto simp: write_all.simps [of accept k data] Let_def)
  next
    case False
    let ?n = "nat (accept k data)"
    obtain out k' r where w: "write_all accept (Suc k) (drop ?n data) = (out, k', r)" by (metis prod_cases3)
    have run: "write_all accept k data = (take ?n data @ out, k', r)" using False w by (subst write_all.simps) (simp add: Let_def)
    have ih: "case r of Inr _ \<Rightarrow> out = drop ?n data
      | Inl err \<Rightarrow> out \<noteq> drop ?n data \<and> (\<exists>rest. drop ?n data = out @ rest) \<and> err = TransportErr ''terminal output write made no progress''"
      using 1 [OF _ refl] False w by simp
    have eq: "take ?n data @ out = data \<longleftrightarrow> out = drop ?n data" by (metis append_take_drop_id same_append_eq)
    have pre: "drop ?n data = out @ rest \<Longrightarrow> data = (take ?n data @ out) @ rest" for rest by (metis append.assoc append_take_drop_id)
    show ?thesis unfolding run using ih eq pre by (cases r) (simp_all, blast)
  qed
qed

lemma resize_round_result:
  assumes "resize_round last0 refresh dims = (frames, last1)"
  shows "last1 = Some dims" "frames = [] \<Longrightarrow> last0 = Some dims" "frames \<noteq> [] \<Longrightarrow> last frames = dims"
proof -
  have f: "frames = fst (resize_round last0 refresh dims)" "last1 = snd (resize_round last0 refresh dims)" using assms by simp_all
  show "last1 = Some dims" "frames = [] \<Longrightarrow> last0 = Some dims" "frames \<noteq> [] \<Longrightarrow> last frames = dims"
    unfolding f by (cases dims; cases refresh; cases "Some dims = last0"; simp add: resize_round_def)+
qed

lemma refresh_changes: "fst (resize_round (Some d) True dims) \<noteq> [] \<and> hd (fst (resize_round (Some d) True dims)) \<noteq> d"
  by (cases d; cases dims; cases "dims = d") (simp_all add: resize_round_def)

lemma resize_round_positive:
  assumes "resize_round last0 refresh (terminal_size l c) = (frames, last1)"
  shows "list_all (\<lambda>rc. 1 \<le> fst rc \<and> 1 \<le> snd rc) frames"
proof -
  have f: "frames = fst (resize_round last0 refresh (terminal_size l c))" using assms by simp
  show ?thesis unfolding f by (cases refresh; cases "Some (terminal_size l c) = last0"; auto simp: resize_round_def terminal_size_def max_def)
qed

lemma send_resizes_result:
  "send_resizes last0 rounds = (sent, last1) \<Longrightarrow> rounds \<noteq> [] \<Longrightarrow>
     (\<exists>l c. snd (last rounds) = (l, c) \<and> last1 = Some (terminal_size l c)) \<and> (if sent = [] then last0 = last1 else Some (last sent) = last1)"
proof (induction rounds arbitrary: last0 sent)
  case (Cons rd rounds)
  obtain refresh dims where rd: "rd = (refresh, dims)" by (cases rd)
  obtain frames l where f: "resize_round last0 refresh (terminal_size (fst dims) (snd dims)) = (frames, l)"
    by (cases "resize_round last0 refresh (terminal_size (fst dims) (snd dims))")
  obtain rest l2 where r: "send_resizes l rounds = (rest, l2)" by (cases "send_resizes l rounds")
  have s: "sent = frames @ rest" "l2 = last1" using Cons.prems f r by (simp_all add: rd)
  note fr = resize_round_result [OF f]
  show ?case
  proof (cases "rounds = []")
    case True
    then show ?thesis using r s fr by (cases dims) (auto simp: rd)
  next
    case False
    then show ?thesis using Cons.IH [OF r [unfolded s(2)] False] s fr by (auto split: if_splits)
  qed
qed simp

lemma send_resizes_positive: "list_all (\<lambda>rc. 1 \<le> fst rc \<and> 1 \<le> snd rc) (fst (send_resizes last0 rounds))"
proof (induction rounds arbitrary: last0)
  case (Cons rd rounds)
  obtain refresh l c where rd: "rd = (refresh, l, c)" by (metis prod_cases3)
  obtain frames last1 where f: "resize_round last0 refresh (terminal_size l c) = (frames, last1)"
    by (cases "resize_round last0 refresh (terminal_size l c)")
  show ?case using Cons.IH [of last1] resize_round_positive [OF f] by (cases "send_resizes last1 rounds") (simp add: rd f)
qed simp

text \<open>
  The session has the size of the terminal.  After any number of rounds of the resize loop the
  last size sent is the terminal's and every size sent is positive; and when the backend becomes
  ready in a later round, that round first sends a size the far end does not have and then the
  terminal's size, so that a backend started at the right size still sees a resize.
\<close>

theorem resizes_reach_backend:
  assumes "rounds \<noteq> []"
  shows "case send_resizes None rounds of (sent, last0) \<Rightarrow>
     sent \<noteq> [] \<and> last sent = terminal_size (fst (snd (last rounds))) (snd (snd (last rounds))) \<and>
     list_all (\<lambda>rc. 1 \<le> fst rc \<and> 1 \<le> snd rc) sent \<and>
     (case resize_round last0 True (terminal_size l c) of (frames, last1) \<Rightarrow>
        frames \<noteq> [] \<and> hd frames \<noteq> last sent \<and> last frames = terminal_size l c)"
proof -
  obtain sent last0 where s: "send_resizes None rounds = (sent, last0)" by (cases "send_resizes None rounds")
  have r: "\<exists>l c. snd (last rounds) = (l, c) \<and> last0 = Some (terminal_size l c)" "if sent = [] then None = last0 else Some (last sent) = last0"
    using send_resizes_result [OF s assms] by blast+
  then have ne: "sent \<noteq> []" "last0 = Some (last sent)" by (auto split: if_splits)
  obtain frames last1 where f: "resize_round last0 True (terminal_size l c) = (frames, last1)"
    by (cases "resize_round last0 True (terminal_size l c)")
  have fe: "frames = fst (resize_round last0 True (terminal_size l c))" using f by simp
  have "frames \<noteq> [] \<and> hd frames \<noteq> last sent"
    unfolding fe ne(2) using refresh_changes by blast
  then have "case resize_round last0 True (terminal_size l c) of (frames, last1) \<Rightarrow>
        frames \<noteq> [] \<and> hd frames \<noteq> last sent \<and> last frames = terminal_size l c"
    using resize_round_result(3) [OF f] by (simp add: f)
  moreover have "list_all (\<lambda>rc. 1 \<le> fst rc \<and> 1 \<le> snd rc) sent" using send_resizes_positive [of None rounds] s by simp
  ultimately show ?thesis using r(1) ne unfolding s by auto
qed

theorem resizes_reach_backend_witness:
  "case send_resizes None [(False, 24, 80), (False, 24, 80)] of (sent, last0) \<Rightarrow>
     sent = [(24, 80)] \<and> fst (resize_round last0 True (terminal_size 24 80)) = [(24, 79), (24, 80)]"
  using resizes_reach_backend [of "[(False, 24, 80), (False, 24, 80)]" 24 80]
  by (simp add: resize_round_def terminal_size_def)

text \<open>A backend that is ready before the first round gets no such change: the size it was opened with is
  sent once more.\<close>

lemma no_resize_for_early_backend: "fst (resize_round None True dims) = [dims]"
  by (simp add: resize_round_def split: prod.split)

text \<open>
  C30.  The operator's credentials stay with the gateway.  Whatever the URLs, the sizes and the way the
  connections fail, at most two connections are opened: the direct one, without headers, and after a
  failure of the transport, never after the user has left or the relay has reported an error, the
  gateway's with them; both have the terminal's size in their URL.
\<close>

theorem headers_only_to_gateway:
  "case attach_terminal url fallback headers dims attempts of (connections, result) \<Rightarrow>
     connections = [] \<and> isl result \<or>
     (\<exists>u. terminal_url url (fst dims) (snd dims) = Inr u \<and>
       (connections = [(u, None)] \<and> result = (case run_attempt (attempts 0) of Inl err \<Rightarrow> Inl (final_error err) | Inr d \<Rightarrow> Inr d) \<or>
        (\<exists>gateway g err. fallback = Some gateway \<and> gateway \<noteq> url \<and> terminal_url gateway (fst dims) (snd dims) = Inr g \<and>
          connections = [(u, None), (g, headers)] \<and> run_attempt (attempts 0) = Inl err \<and> retried err \<and>
          result = (case run_attempt (attempts 1) of Inl err \<Rightarrow> Inl (final_error err) | Inr d \<Rightarrow> Inr d))))"
proof -
  obtain rows cols where d: "dims = (rows, cols)" by (cases dims)
  consider "fallback = None \<or> fallback = Some '''' \<or> fallback = Some url" | f where "fallback = Some f" "f \<noteq> ''''" "f \<noteq> url"
    by (cases fallback) auto
  then show ?thesis
  proof cases
    case 1
    then have u: "url # (case fallback of None \<Rightarrow> [] | Some f \<Rightarrow> if f \<noteq> '''' \<and> f \<noteq> url then [f] else []) = [url]" by auto
    show ?thesis unfolding attach_terminal_def u Let_def
      by (auto simp: d Let_def split: sum.splits)
  next
    case 2
    then have u: "url # (case fallback of None \<Rightarrow> [] | Some f \<Rightarrow> if f \<noteq> '''' \<and> f \<noteq> url then [f] else []) = [url, f]" by simp
    show ?thesis unfolding attach_terminal_def u Let_def
      using 2 by (auto simp: d Let_def split: sum.splits)
  qed
qed

end
