(* ===== verification/Relay.thy ===== *)
theory Relay
  imports Gateway Terminal
begin

text \<open>
  One attachment through the gateway of \<open>heartbeat.py\<close>: the two pumps of \<open>_pump_terminal_gateway\<close> and the
  handler \<open>pi_session_attach_gateway\<close> from the reservation on, with its close reasons, the frames it sends
  to the client and the release.  What the websockets deliver, when a send fails, how a connection ends
  and what other handlers do to the registry meanwhile are arguments.
\<close>

section \<open>The pumps\<close>

datatype payload = PBytes string | PText string

datatype client_message = Disconnect | Data payload | NoData

text \<open>Exceptions by the clause that catches them: \<open>ConnectionClosed\<close> with code and reason; one of
  \<open>OSError, WebSocketException, asyncio.TimeoutError, ValueError\<close>; any other.\<close>

datatype wire_error = ConnClosed int string | Unavailable string | Uncaught string

text \<open>What was sent on, which frames were noted, and how the task ended; None while it waits.\<close>

fun client_to_upstream :: "(nat \<Rightarrow> wire_error option) \<Rightarrow> nat \<Rightarrow> client_message list \<Rightarrow>
    payload list \<times> payload list \<times> (wire_error + unit) option" where
  "client_to_upstream fails k [] = ([], [], None)"
| "client_to_upstream fails k (m # ms) = (case m of
     Disconnect \<Rightarrow> ([], [], Some (Inr ()))
   | NoData \<Rightarrow> client_to_upstream fails k ms
   | Data p \<Rightarrow> (case fails k of
       Some err \<Rightarrow> ([], [p], Some (Inl err))
     | None \<Rightarrow> (case client_to_upstream fails (Suc k) ms of (out, noted, r) \<Rightarrow> (p # out, p # noted, r))))"

fun upstream_to_client :: "(nat \<Rightarrow> wire_error option) \<Rightarrow> nat \<Rightarrow> payload list \<Rightarrow> (wire_error + unit) option \<Rightarrow>
    payload list \<times> (wire_error + unit) option" where
  "upstream_to_client fails k [] ending = ([], ending)"
| "upstream_to_client fails k (p # ps) ending = (case fails k of
     Some err \<Rightarrow> ([], Some (Inl err))
   | None \<Rightarrow> (case upstream_to_client fails (Suc k) ps ending of (out, r) \<Rightarrow> (p # out, r)))"

text \<open>The tasks that are done when the first one is; the order in which their results are asked for is
  that of a set.\<close>

record pump_end =
  pe_client :: "(wire_error + unit) option"
  pe_upstream :: "(wire_error + unit) option"
  pe_evicted :: bool
  pe_client_first :: bool

definition pump_result :: "pump_end \<Rightarrow> wire_error + string" where
  "pump_result pe =
     (let results = (if pe_client_first pe then [pe_client pe, pe_upstream pe] else [pe_upstream pe, pe_client pe])
      in case List.map_filter (\<lambda>r. case r of Some (Inl err) \<Rightarrow> Some err | _ \<Rightarrow> None) results of
           err # _ \<Rightarrow> Inl err
         | [] \<Rightarrow> Inr (if pe_evicted pe then ''replaced'' else ''completed''))"

section \<open>The handler\<close>

datatype client_event = StatusReplaced | UpstreamUnavailable string | Closed int string

record relay =
  rl_gateway :: gateway
  rl_reasons :: "(string \<times> nat) list"
  rl_sent :: "client_event list"

datatype connection = ConnectFails wire_error | Connected pump_end

definition replaced_frames :: "client_event list" where
  "replaced_frames = [StatusReplaced, Closed 4410 ''replaced by newer attachment'']"

text \<open>The \<open>except\<close> clauses: the close reason, the frames for the client and what still propagates.\<close>

definition upstream_failed :: "wire_error \<Rightarrow> string \<times> client_event list \<times> wire_error option" where
  "upstream_failed err = (case err of
     ConnClosed code reason \<Rightarrow> (''upstream-'' @ int_to_string code,
       [Closed (if 1000 \<le> code \<and> code \<le> 4999 then code else 1011) (take 120 (if reason \<noteq> '''' then reason else ''upstream terminal closed''))], None)
   | Unavailable detail \<Rightarrow> (''upstream-unavailable'', [UpstreamUnavailable detail, Closed 1011 ''upstream terminal unavailable''], None)
   | Uncaught e \<Rightarrow> (''completed'', [], Some err))"

definition relay_outcome :: "bool \<Rightarrow> connection \<Rightarrow> string \<times> client_event list \<times> wire_error option" where
  "relay_outcome evicted conn =
     (if evicted then (''replaced'', replaced_frames, None)
      else (case conn of
        ConnectFails err \<Rightarrow> upstream_failed err
      | Connected pe \<Rightarrow> (case pump_result pe of
          Inl err \<Rightarrow> upstream_failed err
        | Inr outcome \<Rightarrow> if outcome = ''replaced'' then (''replaced'', replaced_frames, None) else (''completed'', [], None))))"

text \<open>A client that is gone: sending raises \<open>RuntimeError\<close>, which the \<open>except\<close> clauses swallow and the \<open>try\<close>
  block lets through.\<close>

definition delivered :: "bool \<Rightarrow> string \<times> client_event list \<times> wire_error option \<Rightarrow> string \<times> client_event list \<times> wire_error option" where
  "delivered client_gone outcome = (case outcome of (reason, frames, err) \<Rightarrow>
     if client_gone \<and> frames \<noteq> [] then (reason, [], if reason = ''replaced'' then Some (Uncaught ''RuntimeError'') else err)
     else outcome)"

definition count_reason :: "string \<Rightarrow> (string \<times> nat) list \<Rightarrow> (string \<times> nat) list" where
  "count_reason k m = AList.update k ((case map_of m k of None \<Rightarrow> 0 | Some n \<Rightarrow> n) + 1) m"

definition evicted_now :: "string \<Rightarrow> gateway \<Rightarrow> bool" where
  "evicted_now i g = (case gw_objects g i of None \<Rightarrow> False | Some a \<Rightarrow> at_evict a)"

text \<open>From the reservation on.  \<open>waited\<close> says how the wait for the victim ended, None when it was
  cancelled; it and the URL stand before the \<open>try\<close>.\<close>

definition attach_gateway :: "string \<Rightarrow> string \<Rightarrow> int \<Rightarrow> int \<Rightarrow> int \<Rightarrow> bool option \<Rightarrow> string res \<Rightarrow> connection \<Rightarrow> bool \<Rightarrow>
    (gateway \<Rightarrow> gateway) \<Rightarrow> (gateway \<Rightarrow> gateway) \<Rightarrow> relay \<Rightarrow> wire_error option \<times> relay" where
  "attach_gateway sid i t rows cols waited direct_url conn client_gone before during rl =
     (case reserve sid i (new_attachment t rows cols) (rl_gateway rl) of (victim, g) \<Rightarrow>
       let g1 = (if victim = None then g else before g); rl1 = rl\<lparr>rl_gateway := g1\<rparr>
       in if victim \<noteq> None \<and> waited = None then (Some (Uncaught ''CancelledError''), rl1)
          else (case (case direct_url of Inl err \<Rightarrow> Inl err | Inr u \<Rightarrow> terminal_url_with_dimensions u rows cols) of
            Inl err \<Rightarrow> (Some (Unavailable ''ValueError''), rl1)
          | Inr upstream \<Rightarrow>
            (case delivered client_gone (relay_outcome (evicted_now i g1) conn) of (reason, frames, err) \<Rightarrow>
              (err, rl1\<lparr>rl_gateway := release sid i (if evicted_now i g1 then g1 else during g1),
                 rl_reasons := count_reason reason (rl_reasons rl), rl_sent := rl_sent rl @ frames\<rparr>))))"

section \<open>Nothing is lost on the way\<close>

definition data_of :: "client_message list \<Rightarrow> payload list" where
  "data_of ms = List.map_filter (\<lambda>m. case m of Data p \<Rightarrow> Some p | _ \<Rightarrow> None) (takeWhile (\<lambda>m. m \<noteq> Disconnect) ms)"

lemma client_to_upstream_all:
  "\<forall>n. fails n = None \<Longrightarrow> client_to_upstream fails k ms =
    (data_of ms, data_of ms, if Disconnect \<in> set ms then Some (Inr ()) else None)"
  by (induction ms arbitrary: k) (auto simp: data_of_def map_filter_simps split: client_message.split)

lemma client_to_upstream_prefix:
  "case client_to_upstream fails k ms of (out, noted, r) \<Rightarrow> \<exists>rest. data_of ms = out @ rest \<and>
    (noted = out \<or> (\<exists>p err. noted = out @ [p] \<and> r = Some (Inl err)))"
proof (induction ms arbitrary: k)
  case (Cons m ms)
  show ?case
  proof (cases m)
    case (Data p)
    then show ?thesis using Cons.IH [of "Suc k"]
      by (cases "fails k") (auto simp: data_of_def map_filter_simps split: prod.splits)
  qed (use Cons.IH [of k] in \<open>auto simp: data_of_def map_filter_simps\<close>)
qed (simp add: data_of_def map_filter_simps)

lemma upstream_to_client_all: "\<forall>n. fails n = None \<Longrightarrow> upstream_to_client fails k ps ending = (ps, ending)"
  by (induction ps arbitrary: k) auto

text \<open>What a payload holds for either side.\<close>

definition bytes_of :: "payload \<Rightarrow> string option" where
  "bytes_of p = (case p of PBytes b \<Rightarrow> Some b | PText _ \<Rightarrow> None)"

definition text_in :: "payload \<Rightarrow> string option" where
  "text_in p = (case p of PText s \<Rightarrow> Some s | PBytes _ \<Rightarrow> None)"

definition message_of :: "payload \<Rightarrow> message" where
  "message_of p = (case p of PBytes b \<Rightarrow> Binary b | PText s \<Rightarrow> Text s)"

lemma screen_shows:
  "case receive_output parse repr accept (map Binary bs) ClosedNormally sc of
     (Inr _, sc') \<Rightarrow> sc_out sc' = sc_out sc @ concat bs | (Inl _, sc') \<Rightarrow> \<exists>rest. sc_out sc @ concat bs = sc_out sc' @ rest"
proof (induction bs arbitrary: sc)
  case (Cons b bs)
  obtain out k r where w: "write_all accept (sc_writes sc) b = (out, k, r)" by (metis prod_cases3)
  note wr = write_all_result [where accept = accept and k = "sc_writes sc" and data = b, unfolded w prod.case]
  define sc1 where "sc1 = sc\<lparr>sc_out := sc_out sc @ out, sc_writes := k\<rparr>"
  have e: "emit accept b sc = (r, sc1)" by (simp add: emit_def w sc1_def)
  show ?case
  proof (cases r)
    case (Inl err)
    then obtain rest where "b = out @ rest" using wr by auto
    then show ?thesis using Inl e by (simp add: sc1_def)
  next
    case (Inr u)
    then have "sc_out sc1 = sc_out sc @ b" using wr by (simp add: sc1_def)
    then show ?thesis using Cons.IH [of sc1] Inr e by (simp split: prod.splits sum.splits)
  qed
qed simp

text \<open>
  C36.  What is typed reaches the session and what the session prints reaches the screen.  Through the
  client and the gateway, however the keyboard is read and resizes are mixed in, the session gets
  exactly the bytes typed before the first control byte, and the resize frames unchanged and in order;
  and when neither side fails the screen shows exactly the session's output, and a prefix of it otherwise.
\<close>

theorem keys_reach_session:
  assumes "List.map_filter bytes_of (data_of ms) = fst (send_input chunks)" "Disconnect \<notin> set ms" "\<forall>n. fails n = None"
  shows "(case client_to_upstream fails k ms of (out, noted, r) \<Rightarrow>
      concat (List.map_filter bytes_of out) = takeWhile (\<lambda>c. \<not> is_control c) (concat (takeWhile (\<lambda>c. c \<noteq> []) chunks)) \<and>
      List.map_filter text_in out = List.map_filter text_in (data_of ms) \<and> noted = out \<and> r = None) \<and>
    (case upstream_to_client fails k (map PBytes bs) (Some (Inr ())) of (out, r) \<Rightarrow>
       r = Some (Inr ()) \<and>
       (case receive_output parse repr accept (map message_of out) ClosedNormally sc of
          (Inr _, sc') \<Rightarrow> sc_out sc' = sc_out sc @ concat bs
        | (Inl _, sc') \<Rightarrow> \<exists>rest. sc_out sc @ concat bs = sc_out sc' @ rest))"
proof -
  have "concat (fst (send_input chunks)) = takeWhile (\<lambda>c. \<not> is_control c) (concat (takeWhile (\<lambda>c. c \<noteq> []) chunks))"
    using input_transparent [of chunks] by (auto simp: Let_def split: prod.splits)
  moreover have "map (message_of \<circ> PBytes) bs = map Binary bs" by (simp add: message_of_def)
  moreover have "client_to_upstream fails k ms = (data_of ms, data_of ms, None)" using client_to_upstream_all [OF assms(3)] assms(2) by simp
  moreover note upstream_to_client_all [OF assms(3), of k "map PBytes bs" "Some (Inr ())"]
  ultimately show ?thesis
    using assms(1) screen_shows [where parse = parse and repr = repr and accept = accept and bs = bs and sc = sc]
    by (simp only: prod.case map_map)
qed

theorem keys_reach_session_witness:
  "fst (client_to_upstream (\<lambda>_. None) 0 [Data (PText ''resize''), Data (PBytes ''ls''), NoData]) = [PText ''resize'', PBytes ''ls''] \<and>
   concat (List.map_filter bytes_of (fst (client_to_upstream (\<lambda>_. None) 0 [Data (PText ''resize''), Data (PBytes ''ls''), NoData]))) = ''ls''"
proof -
  let ?ms = "[Data (PText ''resize''), Data (PBytes ''ls''), NoData]"
  have 1: "List.map_filter bytes_of (data_of ?ms) = fst (send_input [''ls'', [DETACH_BYTE]])" by code_simp
  have "takeWhile (\<lambda>c. \<not> is_control c) (concat (takeWhile (\<lambda>c. c \<noteq> []) [''ls'', [DETACH_BYTE]])) = ''ls''" by code_simp
  then show ?thesis using keys_reach_session [OF 1, of "\<lambda>_. None" 0] by (simp split: prod.splits)
qed

section \<open>Every attachment is released\<close>

lemma count_reason_total: "sum_list (map snd (count_reason k m)) = sum_list (map snd m) + 1"
proof -
  have "sum_list (map snd (AList.update k ((case map_of m k of None \<Rightarrow> 0 | Some n \<Rightarrow> n) + c) m)) = sum_list (map snd m) + c" for c :: nat
    by (induction m) auto
  from this [of 1] show ?thesis by (simp add: count_reason_def)
qed

definition close_codes :: "client_event list \<Rightarrow> int list" where
  "close_codes es = List.map_filter (\<lambda>ev. case ev of Closed code _ \<Rightarrow> Some code | _ \<Rightarrow> None) es"

lemma outcome_codes:
  "case delivered client_gone (relay_outcome ev conn) of (reason, frames, err) \<Rightarrow>
    length (close_codes frames) \<le> 1 \<and> list_all (\<lambda>c. 1000 \<le> c \<and> c \<le> 4999) (close_codes frames) \<and>
    (ev \<longrightarrow> reason = ''replaced'' \<and> (client_gone \<or> frames = replaced_frames))"
  by (auto simp: delivered_def relay_outcome_def upstream_failed_def replaced_frames_def close_codes_def map_filter_simps
      split: connection.splits wire_error.splits sum.splits)



text \<open>Two limits.  A cancellation while the handler waits for the attachment it displaced comes before the
  \<open>try\<close>, so the new attachment is never released; and a connection that was lost without a close frame is
  passed on as 1006, a code that must not be sent.\<close>

lemma cancelled_wait_leaks:
  assumes "fst (reserve sid i (new_attachment t rows cols) (rl_gateway rl)) \<noteq> None"
  shows "attach_gateway sid i t rows cols None direct_url conn client_gone before during rl =
    (Some (Uncaught ''CancelledError''), rl\<lparr>rl_gateway := before (snd (reserve sid i (new_attachment t rows cols) (rl_gateway rl)))\<rparr>)"
  using assms by (auto simp: attach_gateway_def Let_def split: prod.splits)

lemma lost_connection_sends_1006:
  "close_codes (fst (snd (relay_outcome False (ConnectFails (ConnClosed 1006 ''''))))) = [1006]"
  by (simp add: relay_outcome_def upstream_failed_def close_codes_def map_filter_simps)

end
