(* ===== verification/Api_Jobs.thy ===== *)
theory Api_Jobs
  imports Auth Data "HOL-Library.AList"
begin

text \<open>
  The worker, job, file and data endpoints of the control API and the registration service in
  \<open>heartbeat.py\<close>.  Request bodies arrive validated; results are the values the responses are built
  from.  Where the text of an answer quotes something the model has no value for it is shortened.
\<close>

section \<open>Workers\<close>

definition resolve_worker :: "string \<Rightarrow> database \<Rightarrow> worker option" where
  "resolve_worker name d = (case get_worker name d of
     Some v \<Rightarrow> Some v
   | None \<Rightarrow> find (\<lambda>v. lower (w_name v) = lower name) (list_workers d))"

definition not_found :: "string \<Rightarrow> string \<Rightarrow> error" where
  "not_found what i = HTTPErr 404 (what @ '' not found: '' @ i)"

definition need_worker :: "string \<Rightarrow> worker act" where
  "need_worker name = bnd (ask (resolve_worker name)) (\<lambda>v. case v of
     None \<Rightarrow> raise_err (not_found ''Worker'' name) | Some v \<Rightarrow> ret v)"

record worker_summary =
  ws_total :: nat
  ws_online :: nat
  ws_offline :: nat
  ws_draining :: nat

definition workers_summary :: "database \<Rightarrow> worker_summary" where
  "workers_summary d =
     (let ws = list_workers d; with_status = (\<lambda>s. length (filter (\<lambda>v. w_status v = s) ws))
      in \<lparr>ws_total = length ws, ws_online = with_status ONLINE, ws_offline = with_status OFFLINE, ws_draining = with_status DRAINING\<rparr>)"

definition workers_prune :: "int \<Rightarrow> nat act" where
  "workers_prune minutes = bnd now (\<lambda>t. db_call (prune_workers (t - minutes * 60)))"

section \<open>Registration service\<close>

definition register :: "registration \<Rightarrow> string act" where
  "register reg = bnd now (\<lambda>t. catch (bnd (db_try (upsert_worker t reg)) (\<lambda>v. ret (w_id v)))
     (\<lambda>err. if err = CancelledErr then raise_err err else raise_err (HTTPErr 500 (error_str err))))"

fun apply_reports :: "string \<Rightarrow> job_report list \<Rightarrow> nat \<Rightarrow> nat act" where
  "apply_reports worker_id [] applied = ret applied"
| "apply_reports worker_id (r # rs) applied =
     bnd (db_try (\<lambda>d. case upsert_reported_worker_job worker_id r d of
            Inl err \<Rightarrow> Inl err | Inr (j, changed, d') \<Rightarrow> Inr (changed, d')))
       (\<lambda>changed. apply_reports worker_id rs (applied + (if changed then 1 else 0)))"

definition worker_pi_jobs :: "string \<Rightarrow> job_report list \<Rightarrow> (nat \<times> nat) act" where
  "worker_pi_jobs worker_id reports =
     bnd (ask (get_worker worker_id)) (\<lambda>v. case v of
       None \<Rightarrow> raise_err (HTTPErr 404 ''worker not found'')
     | Some _ \<Rightarrow> bnd (catch (apply_reports worker_id reports 0) (\<lambda>err. case err of
           KeyErr s \<Rightarrow> raise_err (HTTPErr 410 ''origin session projection is gone'')
         | ValueErr s \<Rightarrow> raise_err (HTTPErr 404 s)
         | _ \<Rightarrow> raise_err err)) (\<lambda>applied. ret (length reports, applied)))"

section \<open>The queue\<close>

definition jobs_queue_create :: "string \<Rightarrow> string \<Rightarrow> string \<Rightarrow> int \<Rightarrow> int \<Rightarrow> bool \<Rightarrow> job act" where
  "jobs_queue_create worker_id command name expected gpu_count no_pty =
     bnd (need_worker worker_id) (\<lambda>v.
       if gpu_count > w_gpu_count v then raise_err (HTTPErr 422 (''gpu_count exceeds worker capacity ('' @ int_to_string (w_gpu_count v) @ '')''))
       else enqueue_job v command name expected gpu_count (\<not> no_pty))"

text \<open>An entry of the queue listing: the job, its worker's name and its position.\<close>

type_synonym queue_item = "job \<times> string option \<times> nat"

definition job_worker_key :: "job \<Rightarrow> string" where
  "job_worker_key j = (case j_worker j of None \<Rightarrow> '''' | Some w \<Rightarrow> w)"

definition worker_name_of :: "worker list \<Rightarrow> job \<Rightarrow> string option" where
  "worker_name_of ws j = map_option w_name (worker_by_id ws (job_worker_key j))"

fun queue_items :: "worker list \<Rightarrow> (string \<times> nat) list \<Rightarrow> job list \<Rightarrow> queue_item list" where
  "queue_items ws counts [] = []"
| "queue_items ws counts (j # js) =
     (let key = job_worker_key j
      in if j_status j = PENDING then
           (let n = (case map_of counts key of None \<Rightarrow> 0 | Some k \<Rightarrow> k) + 1
            in (j, worker_name_of ws j, n) # queue_items ws (AList.update key n counts) js)
         else (j, worker_name_of ws j, 0) # queue_items ws counts js)"

definition jobs_queue_list :: "string option \<Rightarrow> database \<Rightarrow> queue_item list" where
  "jobs_queue_list worker_id d = queue_items (list_workers d) [] (list_queued_jobs worker_id d)"

record queue_update =
  qu_worker :: "string option"
  qu_position :: "int option"
  qu_name :: "string option"
  qu_expected :: "int option"
  qu_gpus :: "int option"

text \<open>The position of a pending job among the pending jobs of its worker, counted from one.\<close>

fun position_in :: "string \<Rightarrow> nat \<Rightarrow> job list \<Rightarrow> nat option" where
  "position_in i n [] = None"
| "position_in i n (j # js) = (if j_id j = i then Some n else position_in i (n + 1) js)"

definition updated_item :: "string \<Rightarrow> queue_item act" where
  "updated_item job_id =
     bnd (ask (list_queued_jobs None)) (\<lambda>snapshot. bnd (ask (get_job job_id)) (\<lambda>row.
       case (case find (\<lambda>q. j_id q = job_id) snapshot of Some q \<Rightarrow> Some q | None \<Rightarrow> row) of
         None \<Rightarrow> raise_err (not_found ''Job'' job_id)
       | Some updated \<Rightarrow> bnd (ask (get_worker (job_worker_key updated))) (\<lambda>v.
           if j_status updated = PENDING then
             (case position_in (j_id updated) 1
                 (filter (\<lambda>q. j_worker q = j_worker updated \<and> j_status q = PENDING) snapshot) of
                None \<Rightarrow> raise_err (RuntimeErr ''StopIteration'')
              | Some n \<Rightarrow> ret (updated, map_option w_name v, n))
           else ret (updated, map_option w_name v, 0))))"

definition jobs_queue_update :: "string \<Rightarrow> queue_update \<Rightarrow> queue_item act" where
  "jobs_queue_update job_id payload =
     bnd (ask (get_job job_id)) (\<lambda>found. case found of
       None \<Rightarrow> raise_err (not_found ''Job'' job_id)
     | Some job \<Rightarrow>
       if \<not> j_queue_managed job \<or> j_status job \<noteq> PENDING then raise_err (HTTPErr 409 ''only pending queued jobs can be updated'')
       else bnd (ask (get_worker (job_worker_key job))) (\<lambda>source.
         bnd (case qu_worker payload of
                None \<Rightarrow> (case source of None \<Rightarrow> raise_err (not_found ''Worker'' (job_worker_key job)) | Some v \<Rightarrow> ret (v, None))
              | Some name \<Rightarrow> bnd (need_worker name) (\<lambda>v. ret (v, Some (w_id v)))) (\<lambda>dest. case dest of (destination, destination_id) \<Rightarrow>
         let requested = (case qu_gpus payload of None \<Rightarrow> j_gpu_count job | Some n \<Rightarrow> if n = 0 then j_gpu_count job else n)
         in if requested > w_gpu_count destination
            then raise_err (HTTPErr 422 (''gpu_count exceeds worker capacity ('' @ int_to_string (w_gpu_count destination) @ '')''))
            else seq (catch (seq (db_try (update_pending_job job_id destination_id (qu_position payload) (qu_name payload)
                                (qu_expected payload) (qu_gpus payload))) (ret ())) (\<lambda>err. case err of
                   KeyErr s \<Rightarrow> raise_err (not_found ''Job'' job_id) | ValueErr s \<Rightarrow> raise_err (HTTPErr 409 s) | _ \<Rightarrow> raise_err err))
              (seq (each (\<lambda>v. seq (dispatch_worker v) (ret ()))
                  (case source of None \<Rightarrow> [destination]
                   | Some s \<Rightarrow> if w_id s = w_id destination then [destination] else [s, destination]))
                (updated_item job_id)))))"

section \<open>Jobs\<close>

text \<open>The loop of a synchronous call sleeps half a second per round until \<open>sync_timeout\<close> has passed;
  \<open>n\<close> bounds the rounds.\<close>

fun wait_for_job :: "nat \<Rightarrow> worker \<Rightarrow> job \<Rightarrow> int \<Rightarrow> job act" where
  "wait_for_job 0 v job deadline = ret job"
| "wait_for_job (Suc n) v job deadline =
     bnd now (\<lambda>t. if t \<ge> deadline then ret job
       else bnd (refresh_job_status v job) (\<lambda>j.
         if j_status j \<notin> {STARTING, RUNNING, PENDING} then ret j else seq pause (wait_for_job n v j deadline)))"

definition jobs_create :: "string \<Rightarrow> string \<Rightarrow> string option \<Rightarrow> bool \<Rightarrow> bool \<Rightarrow> int \<Rightarrow> (job \<times> string option) act" where
  "jobs_create worker_id command name no_pty sync sync_timeout =
     bnd (need_worker worker_id) (\<lambda>v. bnd (start_job v command name (\<not> no_pty)) (\<lambda>job.
       if \<not> sync then ret (job, None)
       else bnd now (\<lambda>t. bnd (wait_for_job (2 * nat sync_timeout + 1) v job (t + sync_timeout)) (\<lambda>job.
         let log_path = rstrip_char (CHR ''/'') (w_harness_dir v) @ ''/'' @ j_id job @ ''/output.log''
         in bnd (async_ssh_run v (''cat '' @ squote log_path @ '' 2>/dev/null'')) (\<lambda>r.
           ret (job, Some (join nl (filter (\<lambda>line. \<not> startswith ''EXIT:'' line) (splitlines (sr_out r))))))))))"

definition status_of_text :: "string \<Rightarrow> job_status option" where
  "status_of_text s = find (\<lambda>st. job_status_value st = s) [PENDING, STARTING, RUNNING, DONE, FAILED]"

definition jobs_list :: "string option \<Rightarrow> string option \<Rightarrow> string option \<Rightarrow> (job \<times> string option) list act" where
  "jobs_list worker_id status_value origin =
     bnd (case status_value of
            None \<Rightarrow> ret None
          | Some s \<Rightarrow> if s = '''' then ret None else (case status_of_text s of
              None \<Rightarrow> raise_err (HTTPErr 400 (''Invalid status: '' @ s)) | Some st \<Rightarrow> ret (Some st))) (\<lambda>status.
       bnd (ask (list_jobs worker_id status origin)) (\<lambda>jobs. bnd (ask list_workers) (\<lambda>ws.
         ret (map (\<lambda>j. (j, worker_name_of ws j)) jobs))))"

definition job_and_worker :: "string \<Rightarrow> (job \<times> worker) act" where
  "job_and_worker job_id =
     bnd (ask (get_job job_id)) (\<lambda>job. case job of
       None \<Rightarrow> raise_err (not_found ''Job'' job_id)
     | Some j \<Rightarrow> (case j_worker j of
         None \<Rightarrow> raise_err (not_found ''Job'' job_id)
       | Some wid \<Rightarrow> if wid = '''' then raise_err (not_found ''Job'' job_id)
           else bnd (ask (get_worker wid)) (\<lambda>v. case v of
             None \<Rightarrow> raise_err (not_found ''Worker'' wid) | Some v \<Rightarrow> ret (j, v))))"

definition jobs_logs :: "string \<Rightarrow> int option \<Rightarrow> int option \<Rightarrow> string act" where
  "jobs_logs job_id tail head =
     (if tail \<noteq> None \<and> head \<noteq> None then raise_err (HTTPErr 400 ''tail and head are mutually exclusive'')
      else bnd (job_and_worker job_id) (\<lambda>jv. case jv of (j, v) \<Rightarrow>
        ssh_read_log v job_id (if tail \<noteq> None then tail else if head \<noteq> None then None else Some 10) head))"

text \<open>One round of the log stream: what is yielded from the fetched tail, and the new \<open>last_len\<close>.\<close>

definition log_stream_round :: "string list \<Rightarrow> nat \<Rightarrow> string list \<times> nat" where
  "log_stream_round lines last_len = (drop last_len lines, length lines)"

fun log_stream :: "nat \<Rightarrow> nat \<Rightarrow> string list list \<Rightarrow> string list" where
  "log_stream tail last_len [] = []"
| "log_stream tail last_len (entry # logs) =
     (case log_stream_round (drop (length entry - tail) entry) last_len of (out, n) \<Rightarrow> out @ log_stream tail n logs)"

record stop_answer =
  sa_already_terminal :: bool
  sa_status :: "job_status option"

definition jobs_delete :: "string \<Rightarrow> stop_answer act" where
  "jobs_delete job_id =
     bnd (ask (get_job job_id)) (\<lambda>job. case job of
       None \<Rightarrow> raise_err (not_found ''Job'' job_id)
     | Some j \<Rightarrow>
       if job_worker_key j = '''' then raise_err (not_found ''Job'' job_id)
       else if j_status j \<in> {DONE, FAILED} then ret \<lparr>sa_already_terminal = True, sa_status = Some (j_status j)\<rparr>
       else bnd (ask (get_worker (job_worker_key j))) (\<lambda>v. case v of
         None \<Rightarrow> raise_err (not_found ''Worker'' (job_worker_key j))
       | Some v \<Rightarrow> bnd (stop_job v job_id) (\<lambda>stopped.
           if \<not> stopped then raise_err (HTTPErr 500 (''Failed to stop job: '' @ job_id))
           else bnd (ask (get_job job_id)) (\<lambda>updated.
             ret \<lparr>sa_already_terminal = False, sa_status = map_option j_status updated\<rparr>))))"

section \<open>Files\<close>

definition MAX_FILE_TRANSFER_BYTES :: int where
  "MAX_FILE_TRANSFER_BYTES = 10 * 1024 * 1024"

definition or_unknown :: "string \<Rightarrow> string" where
  "or_unknown s = (if s \<noteq> '''' then s else ''unknown error'')"

definition worker_file_upload :: "string \<Rightarrow> string \<Rightarrow> string \<Rightarrow> nat act" where
  "worker_file_upload worker_id path content_b64 =
     bnd (need_worker worker_id) (\<lambda>v. case b64decode content_b64 of
       None \<Rightarrow> raise_err (HTTPErr 400 ''Invalid base64 content'')
     | Some content \<Rightarrow>
       if int (length content) > MAX_FILE_TRANSFER_BYTES then raise_err (HTTPErr 413 ''File too large'')
       else bnd (ssh_upload_bytes v content path) (\<lambda>r.
         if sr_rc r \<noteq> 0 then raise_err (HTTPErr 502 (''SSH upload failed: '' @ or_unknown (sr_err r)))
         else ret (length content)))"

definition worker_file_download :: "string \<Rightarrow> string \<Rightarrow> int \<Rightarrow> string act" where
  "worker_file_download worker_id path max_bytes =
     bnd (need_worker worker_id) (\<lambda>v. bnd (ssh_download_bytes v path max_bytes) (\<lambda>cr. case cr of (content, r) \<Rightarrow>
       if sr_rc r \<noteq> 0 then raise_err (HTTPErr 502 (''SSH download failed: '' @ or_unknown (sr_err r)))
       else if int (length content) > max_bytes then raise_err (HTTPErr 413 ''File too large'')
       else ret (b64encode content)))"

section \<open>Copies between workers\<close>

record copy_request =
  cr_src_worker :: string
  cr_src_path :: string
  cr_dst_worker :: string
  cr_dst_path :: string
  cr_ttl :: int

text \<open>The endpoint that the export prints: the last line of its output as JSON, with a port and
  credentials; None when any of it is missing or of the wrong shape.\<close>

definition export_endpoint :: "(json \<Rightarrow> string) \<Rightarrow> (string \<times> json) list \<Rightarrow> (int \<times> string \<times> string) option" where
  "export_endpoint repr doc =
     (case (map_of doc ''port'', map_of doc ''username'', map_of doc ''password'') of
        (Some p, Some u, Some pw) \<Rightarrow>
          (case (case p of JInt i \<Rightarrow> Some i | JBool b \<Rightarrow> Some (if b then 1 else 0) | JStr s \<Rightarrow> py_int s | _ \<Rightarrow> None) of
             None \<Rightarrow> None
           | Some port \<Rightarrow>
             if 22000 \<le> port \<and> port \<le> 22999 \<and> py_str repr u \<noteq> '''' \<and> py_str repr pw \<noteq> ''''
             then Some (port, py_str repr u, py_str repr pw) else None)
      | _ \<Rightarrow> None)"

definition read_endpoint :: "string \<Rightarrow> (int \<times> string \<times> string) option act" where
  "read_endpoint out =
     (let lines = splitlines (strip out)
      in if lines = [] then ret None
         else bnd (loads (last lines)) (\<lambda>doc. case doc of
           None \<Rightarrow> ret None
         | Some d \<Rightarrow> (\<lambda>e w. Some (Inr (export_endpoint (o_repr e) d), w))))"

definition end_export :: "worker \<Rightarrow> string \<Rightarrow> unit act" where
  "end_export source transfer_id =
     seq (async_ssh_run source (with_worker_dir source (source_cleanup_command transfer_id))) (ret ())"

definition invalid_path :: "error \<Rightarrow> error" where
  "invalid_path err = HTTPErr 400 (error_str err)"

text \<open>The copy up to the start of the job on the destination; every failure after the export ends the
  export again.\<close>

definition data_copy :: "copy_request \<Rightarrow> (string \<times> job) act" where
  "data_copy payload =
     bnd (case validate_data_path (cr_src_path payload) of Inl err \<Rightarrow> raise_err (invalid_path err) | Inr p \<Rightarrow> ret p) (\<lambda>src_path.
     bnd (case validate_data_path (cr_dst_path payload) of Inl err \<Rightarrow> raise_err (invalid_path err) | Inr p \<Rightarrow> ret p) (\<lambda>dst_path.
     if \<not> (60 \<le> cr_ttl payload \<and> cr_ttl payload \<le> 24 * 60 * 60) then raise_err (HTTPErr 400 ''ttl_seconds must be between 60 and 86400'')
     else bnd (ask (resolve_worker (cr_src_worker payload))) (\<lambda>src. bnd (ask (resolve_worker (cr_dst_worker payload))) (\<lambda>dst. case src of
       None \<Rightarrow> raise_err (not_found ''Source worker'' (cr_src_worker payload))
     | Some source \<Rightarrow> (case dst of
       None \<Rightarrow> raise_err (not_found ''Destination worker'' (cr_dst_worker payload))
     | Some destination \<Rightarrow>
       if w_id source = w_id destination then raise_err (HTTPErr 400 ''source and destination workers must differ'')
       else if w_status source \<noteq> ONLINE \<or> w_status destination \<noteq> ONLINE
       then raise_err (HTTPErr 409 ''source and destination workers must be online'')
       else bnd (lift_res (is_advertised_data_path src_path (w_data_paths source))) (\<lambda>advertised.
         if \<not> advertised then raise_err (HTTPErr 400 ''source path is outside the source worker's advertised data directories'')
         else bnd uuid4 (\<lambda>transfer_id.
         bnd (lift_res (source_export_command src_path transfer_id (cr_ttl payload))) (\<lambda>export.
         bnd (async_ssh_run source (with_worker_dir source export)) (\<lambda>exported.
         if sr_rc exported \<noteq> 0 then raise_err (HTTPErr 502 (''source export failed: '' @ or_unknown (sr_err exported)))
         else bnd (read_endpoint (sr_out exported)) (\<lambda>endpoint. case endpoint of
           None \<Rightarrow> seq (end_export source transfer_id) (raise_err (HTTPErr 502 ''source export returned invalid metadata''))
         | Some (port, username, password) \<Rightarrow>
           let secret_path = rstrip_char (CHR ''/'') (w_harness_dir destination) @ ''/data-transfer-'' @ transfer_id @ ''.secret''
           in bnd (ssh_upload_bytes destination password secret_path) (\<lambda>uploaded.
             if sr_rc uploaded \<noteq> 0
             then seq (end_export source transfer_id)
               (raise_err (HTTPErr 502 (''destination credential upload failed: '' @ or_unknown (sr_err uploaded))))
             else bnd (lift_res (destination_copy_command (ssh_host source) port dst_path username secret_path)) (\<lambda>copy.
               bnd (catch (start_job destination (with_worker_dir destination copy) (Some (''data-copy-'' @ transfer_id)) False) (\<lambda>err.
                      if err = CancelledErr then raise_err err
                      else seq (end_export source transfer_id)
                        (raise_err (HTTPErr 502 (''destination copy job failed to start: '' @ error_str err))))) (\<lambda>job.
                 ret (transfer_id, job))))))))))))))"

text \<open>\<open>cleanup_after_copy\<close>: watch the job until it ends or the export expires, then end the export,
  whatever happens.  The loop sleeps five seconds per round.\<close>

fun watch_copy :: "nat \<Rightarrow> worker \<Rightarrow> job \<Rightarrow> int \<Rightarrow> unit act" where
  "watch_copy 0 destination current deadline = ret ()"
| "watch_copy (Suc n) destination current deadline =
     bnd now (\<lambda>t. if t \<ge> deadline then ret ()
       else bnd (refresh_job_status destination current) (\<lambda>j.
         if j_status j \<in> {DONE, FAILED} then ret () else seq pause (watch_copy n destination j deadline)))"

definition cleanup_after_copy :: "worker \<Rightarrow> worker \<Rightarrow> job \<Rightarrow> string \<Rightarrow> int \<Rightarrow> unit act" where
  "cleanup_after_copy source destination job transfer_id ttl =
     bnd now (\<lambda>t. bnd (attempt (watch_copy (nat ttl) destination job (t + ttl))) (\<lambda>r.
       seq (end_export source transfer_id)
         (case r of Inl CancelledErr \<Rightarrow> raise_err CancelledErr | _ \<Rightarrow> ret ())))"

section \<open>Findings\<close>

text \<open>Once the log is longer than the window, the stream is silent for ever, whatever the job writes.\<close>

lemma log_stream_goes_silent:
  assumes "list_all (\<lambda>l. length l \<ge> tail) logs"
  shows "log_stream tail tail logs = []"
  using assms by (induction logs) (auto simp: log_stream_round_def)

text \<open>The size check of a download cannot fail: the content has already been cut to the limit.\<close>

lemma download_never_too_large:
  assumes "max_bytes \<ge> 0" "worker_file_download i path max_bytes e w = Some (Inl (HTTPErr 413 detail), w')"
  shows "o_remote e (wd_calls w') = Inl (HTTPErr 413 detail)"
  using assms
  by (auto simp: worker_file_download_def need_worker_def bnd_def act_defs ssh_download_bytes_def not_found_def
      split: option.splits sum.splits if_splits)

section \<open>The listing shows the queue\<close>

definition entry_of :: "string \<Rightarrow> queue_item \<Rightarrow> bool" where
  "entry_of wid it = (case it of (j, name, n) \<Rightarrow> j_status j = PENDING \<and> j_worker j = Some wid)"

definition position_and_id :: "queue_item \<Rightarrow> nat \<times> string" where
  "position_and_id it = (case it of (j, name, n) \<Rightarrow> (n, j_id j))"

lemma item_simps [simp]: "entry_of wid (j, name, n) = (j_status j = PENDING \<and> j_worker j = Some wid)" "position_and_id (j, name, n) = (n, j_id j)"
  by (simp_all add: entry_of_def position_and_id_def)

lemma queue_items_positions:
  assumes "wid \<noteq> ''''"
  shows "map position_and_id (filter (entry_of wid) (queue_items ws counts js)) =
    enumerate ((case map_of counts wid of None \<Rightarrow> 0 | Some k \<Rightarrow> k) + 1)
      (map j_id (filter (\<lambda>j. j_status j = PENDING \<and> j_worker j = Some wid) js))"
proof (induction js arbitrary: counts)
  case (Cons j js)
  show ?case
  proof (cases "j_status j = PENDING \<and> j_worker j = Some wid")
    case True
    then show ?thesis by (simp add: Let_def job_worker_key_def Cons.IH update_conv)
  next
    case False
    have "job_worker_key j \<noteq> wid" if "j_status j = PENDING"
      using False that assms by (auto simp: job_worker_key_def split: option.splits)
    then show ?thesis using False by (auto simp: Let_def Cons.IH update_conv)
  qed
qed simp

lemma listed_pending:
  assumes "sel = None \<or> sel = Some wid"
  shows "map j_id (filter (\<lambda>j. j_status j = PENDING \<and> j_worker j = Some wid) (list_queued_jobs sel d)) = pending_ids wid (t_jobs d)"
proof -
  let ?K = "\<lambda>j. (j_worker j, status_rank (j_status j),
                    if j_status j = PENDING then j_order j else j_started j, j_order j, j_id j)"
  have f: "filter (\<lambda>j. (queue_active j \<and> (case sel of None \<Rightarrow> True | Some w \<Rightarrow> j_worker j = Some w)) \<and> j_status j = PENDING \<and> j_worker j = Some wid) (t_jobs d) =
      filter (pending_on wid) (t_jobs d)"
    using assms by (auto simp: pending_on_def queue_active_def intro!: filter_cong)
  have "filter (\<lambda>j. j_status j = PENDING \<and> j_worker j = Some wid) (list_queued_jobs sel d) = sort_key ?K (filter (pending_on wid) (t_jobs d))"
    unfolding list_queued_jobs_def filter_sort_key filter_filter using f by (simp add: conj_ac)
  also have "\<dots> = sort_key (\<lambda>j. (j_order j, j_id j)) (filter (pending_on wid) (t_jobs d))"
    by (rule sort_key_iso) (auto simp: pending_on_def)
  finally show ?thesis by (simp add: pending_ids_def)
qed

text \<open>
  The listing tells the truth.  For every worker with an id, the pending entries of the queue
  listing are exactly its pending queue, in the order in which the dispatcher takes the jobs, and
  their positions count from one.
\<close>

theorem listing_shows_queue:
  "map position_and_id (filter (entry_of (c # cs)) (jobs_queue_list None d)) =
     enumerate 1 (pending_ids (c # cs) (t_jobs d)) \<and>
   map position_and_id (filter (entry_of (c # cs)) (jobs_queue_list (Some (c # cs)) d)) =
     enumerate 1 (pending_ids (c # cs) (t_jobs d))"
  by (simp add: jobs_queue_list_def queue_items_positions listed_pending)

end
