(* ===== verification/Tunnels.thy ===== *)
theory Tunnels
  imports Api_Jobs
begin

text \<open>
  Persistent port forwards: the registry of \<open>tunnel_registry.py\<close>, one tick of \<open>reaper.py\<close>, the tunnel
  endpoints of \<open>heartbeat.py\<close> with their rollback, and the launch of notebooks in \<open>marimo.py\<close>.  Processes
  are not code of the repository: a process group is alive until it is terminated, its leader may exit
  at any time and leave descendants behind.  An exception or cancellation that strikes a handler at an
  await is an argument of its model.
\<close>

section \<open>The registry\<close>

record tunnel_process =
  tp_id :: string
  tp_worker :: string
  tp_local :: int
  tp_remote :: int
  tp_pid :: nat
  tp_created :: int

record tunnels =
  tn_db :: database
  tn_entries :: "(string \<times> tunnel_process) list"
  tn_groups :: "nat list"
  tn_exited :: "nat list"
  tn_next :: nat

definition registry_add :: "tunnel_process \<Rightarrow> tunnels \<Rightarrow> tunnels" where
  "registry_add p st = st\<lparr>tn_entries := AList.update (tp_id p) p (tn_entries st)\<rparr>"

definition registry_get :: "string \<Rightarrow> tunnels \<Rightarrow> tunnel_process option" where
  "registry_get i st = map_of (tn_entries st) i"

definition registry_remove :: "string \<Rightarrow> tunnels \<Rightarrow> tunnel_process option \<times> tunnels" where
  "registry_remove i st = (map_of (tn_entries st) i, st\<lparr>tn_entries := AList.delete i (tn_entries st)\<rparr>)"

definition leader_exited :: "nat \<Rightarrow> tunnels \<Rightarrow> bool" where
  "leader_exited pid st = (pid \<in> set (tn_exited st))"

text \<open>\<open>stop\<close>: whether anything of the tunnel was alive, and the whole process group is gone.\<close>

definition registry_stop :: "nat \<Rightarrow> tunnels \<Rightarrow> bool \<times> tunnels" where
  "registry_stop pid st = (\<not> leader_exited pid st \<or> pid \<in> set (tn_groups st),
     st\<lparr>tn_groups := removeAll pid (tn_groups st), tn_exited := List.insert pid (tn_exited st)\<rparr>)"

fun stop_all :: "tunnel_process list \<Rightarrow> tunnels \<Rightarrow> nat \<times> tunnels" where
  "stop_all [] st = (0, st)"
| "stop_all (p # ps) st = (case registry_stop (tp_pid p) st of (was_live, st1) \<Rightarrow>
     case stop_all ps st1 of (n, st2) \<Rightarrow> ((if was_live then 1 else 0) + n, st2))"

definition reap_dead :: "tunnels \<Rightarrow> nat \<times> tunnels" where
  "reap_dead st =
     (let dead = filter (\<lambda>e. leader_exited (tp_pid (snd e)) st) (tn_entries st);
          st1 = snd (stop_all (map snd dead) st)
      in (length dead, st1\<lparr>tn_entries := filter (\<lambda>e. fst e \<notin> fst ` set dead) (tn_entries st1)\<rparr>))"

definition registry_shutdown :: "tunnels \<Rightarrow> nat \<times> tunnels" where
  "registry_shutdown st = stop_all (map snd (tn_entries st)) (st\<lparr>tn_entries := []\<rparr>)"

record tunnel_stats =
  ts_live :: nat
  ts_dead :: nat
  ts_by_worker :: "(string \<times> nat) list"

definition count_worker :: "string \<Rightarrow> (string \<times> nat) list \<Rightarrow> (string \<times> nat) list" where
  "count_worker k m = AList.update k ((case map_of m k of None \<Rightarrow> 0 | Some n \<Rightarrow> n) + 1) m"

definition registry_stats :: "tunnels \<Rightarrow> tunnel_stats" where
  "registry_stats st =
     (let ps = map snd (tn_entries st); alive = filter (\<lambda>p. \<not> leader_exited (tp_pid p) st) ps
      in \<lparr>ts_live = length alive, ts_dead = length ps - length alive,
          ts_by_worker = fold (\<lambda>p m. count_worker (tp_worker p) m) alive []\<rparr>)"

section \<open>The endpoints\<close>

record tunnel_request =
  tr_worker :: string
  tr_local :: int
  tr_remote :: int
  tr_name :: string

text \<open>What strikes a creation: the setup of the forward raises (and has then terminated its own
  process); the forward exits at once; the insertion of the row raises, before or after the row was
  committed; the invalidation of the cache is cancelled; the deletion in the rollback fails.\<close>

record faults =
  ft_setup :: "error option"
  ft_exits :: bool
  ft_insert :: "(bool \<times> error) option"
  ft_invalidate :: "error option"
  ft_delete :: bool

definition delete_row :: "string \<Rightarrow> bool \<Rightarrow> tunnels \<Rightarrow> tunnels" where
  "delete_row i failing st = (if failing then st else st\<lparr>tn_db := delete_port_forward i (tn_db st)\<rparr>)"

definition cleanup_failed_tunnel :: "bool \<Rightarrow> string \<Rightarrow> nat option \<Rightarrow> bool \<Rightarrow> tunnels \<Rightarrow> tunnels" where
  "cleanup_failed_tunnel registered i pid failing st =
     (case (if registered then registry_remove i st else (None, st)) of (entry, st1) \<Rightarrow>
        delete_row i failing (case entry of
          Some p \<Rightarrow> snd (registry_stop (tp_pid p) st1)
        | None \<Rightarrow> (case pid of Some k \<Rightarrow> snd (registry_stop k st1) | None \<Rightarrow> st1)))"

definition new_forward :: "string \<Rightarrow> worker \<Rightarrow> tunnel_request \<Rightarrow> int \<Rightarrow> port_forward" where
  "new_forward i v req t = \<lparr>pf_id = i, pf_worker = w_id v, pf_local = tr_local req, pf_remote = tr_remote req,
     pf_service = (if tr_name req \<noteq> '''' then tr_name req else ''port-'' @ int_to_string (tr_remote req)),
     pf_pid = 0, pf_created = t\<rparr>"

definition tunnels_create :: "tunnel_request \<Rightarrow> string \<Rightarrow> int \<Rightarrow> faults \<Rightarrow> tunnels \<Rightarrow> port_forward res \<times> tunnels" where
  "tunnels_create req i t f st = (case resolve_worker (tr_worker req) (tn_db st) of
     None \<Rightarrow> (Inl (not_found ''Worker'' (tr_worker req)), st)
   | Some v \<Rightarrow>
     if list_ex (\<lambda>p. pf_local p = tr_local req) (list_port_forwards None (tn_db st))
     then (Inl (HTTPErr 409 (''Local port '' @ int_to_string (tr_local req) @ '' already forwarded'')), st)
     else
       let pf0 = new_forward i v req t
       in case ft_setup f of
            Some err \<Rightarrow> (Inl err, cleanup_failed_tunnel False i None (ft_delete f) st)
          | None \<Rightarrow>
            let pid = tn_next st; pf = pf0\<lparr>pf_pid := int pid\<rparr>;
                st1 = st\<lparr>tn_groups := pid # tn_groups st, tn_next := Suc pid\<rparr>
            in if ft_exits f then
                 (Inl (HTTPErr 502 ''SSH tunnel setup exited immediately''),
                  cleanup_failed_tunnel False i (Some pid) (ft_delete f) (st1\<lparr>tn_exited := pid # tn_exited st1\<rparr>))
               else (case insert_port_forward pf (tn_db st1) of
                 Inl err \<Rightarrow> (Inl err, cleanup_failed_tunnel False i (Some pid) (ft_delete f) st1)
               | Inr d \<Rightarrow> (case ft_insert f of
                   Some (committed, err) \<Rightarrow>
                     (Inl err, cleanup_failed_tunnel False i (Some pid) (ft_delete f) (if committed then st1\<lparr>tn_db := d\<rparr> else st1))
                 | None \<Rightarrow>
                   let entry = \<lparr>tp_id = i, tp_worker = w_id v, tp_local = tr_local req, tp_remote = tr_remote req, tp_pid = pid, tp_created = t\<rparr>;
                       st2 = registry_add entry (st1\<lparr>tn_db := d\<rparr>)
                   in (case ft_invalidate f of
                         Some err \<Rightarrow> (Inl err, cleanup_failed_tunnel True i (Some pid) (ft_delete f) st2)
                       | None \<Rightarrow> (Inr pf, st2)))))"

definition tunnels_list :: "database \<Rightarrow> (port_forward \<times> string option) list" where
  "tunnels_list d = map (\<lambda>p. (p, map_option w_name (worker_by_id (list_workers d) (pf_worker p)))) (list_port_forwards None d)"

definition tunnels_delete :: "string \<Rightarrow> tunnels \<Rightarrow> string res \<times> tunnels" where
  "tunnels_delete i st = (case find (\<lambda>p. pf_id p = i) (list_port_forwards None (tn_db st)) of
     None \<Rightarrow> (Inl (not_found ''Tunnel'' i), st)
   | Some pf \<Rightarrow> (case registry_remove (pf_id pf) st of (entry, st1) \<Rightarrow>
       let st2 = (case entry of None \<Rightarrow> st1 | Some p \<Rightarrow> snd (registry_stop (tp_pid p) st1))
       in (Inr (pf_id pf), st2\<lparr>tn_db := delete_port_forward (pf_id pf) (tn_db st2)\<rparr>)))"

section \<open>Notebooks\<close>

definition validate_absolute_path :: "string \<Rightarrow> string \<Rightarrow> string res" where
  "validate_absolute_path value label =
     (if value = '''' \<or> CHR 10 \<in> set value \<or> CHR 13 \<in> set value \<or> char_of (0 :: nat) \<in> set value
      then Inl (ValueErr (label @ '' must be a non-empty single-line absolute path''))
      else if \<not> startswith ''/'' value \<or> ''..'' \<in> set (path_parts (posix_path value))
      then Inl (ValueErr (label @ '' must be an absolute normalized path''))
      else Inr (path_str (posix_path value)))"

definition build_launch_command :: "string \<Rightarrow> string \<Rightarrow> int \<Rightarrow> string res" where
  "build_launch_command notebook_path environment port =
     (case validate_absolute_path notebook_path ''notebook_path'' of Inl err \<Rightarrow> Inl err
      | Inr notebook \<Rightarrow> (case validate_absolute_path environment ''environment'' of Inl err \<Rightarrow> Inl err
        | Inr env \<Rightarrow>
          if \<not> (1 \<le> port \<and> port \<le> 65535) then Inl (ValueErr ''port must be between 1 and 65535'')
          else Inr (join '' '' (map shlex_quote [''/usr/local/lib/worker-harness/wh-marimo-launch'', ''--notebook'', notebook,
             ''--environment'', env, ''--port'', int_to_string port]))))"

definition allocate_worker_port :: "worker \<Rightarrow> int act" where
  "allocate_worker_port v =
     bnd (async_ssh_run v (''python3 -c '' @ shlex_quote
        (''import socket; s=socket.socket(); s.bind(('' @ squote ''127.0.0.1'' @ '',0)); print(s.getsockname()[1]); s.close()''))) (\<lambda>r.
       if sr_rc r \<noteq> 0 then raise_err (RuntimeErr (''failed to allocate worker port: '' @ strip (sr_err r)))
       else (let lines = splitlines (strip (sr_out r))
             in case (if lines = [] then None else py_int (last lines)) of
                  None \<Rightarrow> raise_err (RuntimeErr ''worker returned an invalid port'')
                | Some port \<Rightarrow> if 1 \<le> port \<and> port \<le> 65535 then ret port
                    else raise_err (RuntimeErr ''worker returned an out-of-range port'')))"

text \<open>The status a notebook is listed with: its job as refreshed and its tunnel both have to live.\<close>

definition marimo_status :: "job option \<Rightarrow> string \<Rightarrow> tunnels \<Rightarrow> string" where
  "marimo_status refreshed tunnel_id st =
     (case (refreshed, registry_get tunnel_id st) of
        (Some j, Some p) \<Rightarrow> if j_status j = RUNNING \<and> \<not> leader_exited (tp_pid p) st then ''ready'' else ''stopped''
      | _ \<Rightarrow> ''stopped'')"

section \<open>No process is lost\<close>

text \<open>Reachable states: requests with a fresh uuid and any fault, deletions, ticks of the reaper, leaders
  that exit on their own and the shutdown.\<close>

inductive tun_reach :: "tunnels \<Rightarrow> bool" where
  boot: "tun_reach \<lparr>tn_db = d, tn_entries = [], tn_groups = [], tn_exited = [], tn_next = n\<rparr>"
| create: "tun_reach st \<Longrightarrow> i \<notin> fst ` set (tn_entries st) \<Longrightarrow> tun_reach (snd (tunnels_create req i t f st))"
| delete: "tun_reach st \<Longrightarrow> tun_reach (snd (tunnels_delete i st))"
| reap: "tun_reach st \<Longrightarrow> tun_reach (snd (reap_dead st))"
| exits: "tun_reach st \<Longrightarrow> tun_reach (st\<lparr>tn_exited := pid # tn_exited st\<rparr>)"
| shutdown: "tun_reach st \<Longrightarrow> tun_reach (snd (registry_shutdown st))"

abbreviation (input) entry_pids :: "tunnels \<Rightarrow> nat list" where
  "entry_pids st \<equiv> map (\<lambda>e. tp_pid (snd e)) (tn_entries st)"

definition tun_inv :: "tunnels \<Rightarrow> bool" where
  "tun_inv st = (distinct (map fst (tn_entries st)) \<and> distinct (entry_pids st) \<and> set (tn_groups st) \<subseteq> set (entry_pids st) \<and>
     (\<forall>p \<in> set (entry_pids st). p < tn_next st))"

lemma stop_all_effect:
  "tn_groups (snd (stop_all ps st)) = filter (\<lambda>g. g \<notin> tp_pid ` set ps) (tn_groups st)"
  "tn_entries (snd (stop_all ps st)) = tn_entries st" "tn_next (snd (stop_all ps st)) = tn_next st"
  "tn_db (snd (stop_all ps st)) = tn_db st"
proof (induction ps arbitrary: st)
  case (Cons p ps)
  have e: "tn_groups (snd (registry_stop (tp_pid p) st)) = removeAll (tp_pid p) (tn_groups st)"
    "tn_entries (snd (registry_stop (tp_pid p) st)) = tn_entries st" "tn_next (snd (registry_stop (tp_pid p) st)) = tn_next st"
    "tn_db (snd (registry_stop (tp_pid p) st)) = tn_db st" for st
    by (simp_all add: registry_stop_def)
  have s: "snd (stop_all (p # ps) st) = snd (stop_all ps (snd (registry_stop (tp_pid p) st)))" for st
    by (simp split: prod.split)
  { case 1 show ?case unfolding s Cons.IH(1) e by (auto simp: removeAll_filter_not_eq intro!: filter_cong) }
  { case 2 show ?case unfolding s Cons.IH(2) e .. }
  { case 3 show ?case unfolding s Cons.IH(3) e .. }
  { case 4 show ?case unfolding s Cons.IH(4) e .. }
qed simp_all

text \<open>The outcomes of a creation.\<close>

lemma create_outcome:
  assumes inv: "tun_inv st" and new: "i \<notin> fst ` set (tn_entries st)"
  shows "case tunnels_create req i t f st of
    (Inl err, st') \<Rightarrow> tn_entries st' = tn_entries st \<and> tn_groups st' = tn_groups st \<and> tn_next st \<le> tn_next st' \<and>
       filter (\<lambda>p. pf_id p \<noteq> i) (t_forwards (tn_db st')) = filter (\<lambda>p. pf_id p \<noteq> i) (t_forwards (tn_db st)) \<and>
       (ft_delete f \<or> t_forwards (tn_db st') = filter (\<lambda>p. pf_id p \<noteq> i) (t_forwards (tn_db st)) \<or> st' = st)
  | (Inr pf, st') \<Rightarrow> pf_id pf = i \<and> (\<exists>p. tn_entries st' = tn_entries st @ [(i, p)] \<and> tp_pid p = tn_next st) \<and>
       tn_groups st' = tn_next st # tn_groups st \<and> tn_next st' = Suc (tn_next st) \<and>
       t_forwards (tn_db st') = t_forwards (tn_db st) @ [pf]"
proof -
  have n: "tn_next st \<notin> set (tn_groups st)" using inv unfolding tun_inv_def by fastforce
  have upd: "AList.update i p xs = xs @ [(i, p)]" if "i \<notin> fst ` set xs" for p and xs :: "(string \<times> tunnel_process) list"
    using that by (induction xs) auto
  have del: "AList.delete i (xs @ [(i, p)]) = xs" if "i \<notin> fst ` set xs" for p and xs :: "(string \<times> tunnel_process) list"
    using that by (induction xs) (auto simp: AList.delete_eq)
  have none: "map_of (tn_entries st) i = None" using new by (simp add: map_of_eq_None_iff)
  show ?thesis
    using n
    by (auto simp: none tunnels_create_def cleanup_failed_tunnel_def delete_row_def registry_stop_def registry_remove_def registry_add_def
        Let_def new_forward_def insert_port_forward_def delete_port_forward_def tbl_ins_def tbl_del_def upd[OF new] del[OF new]
        split: option.splits sum.splits prod.splits if_splits)
qed

text \<open>A step that drops entries keeps the invariant when the groups of the dropped ones are gone.\<close>

lemma tun_inv_drop:
  assumes inv: "tun_inv st" and e: "tn_entries st' = filter P (tn_entries st)" and n: "tn_next st' = tn_next st"
    and g: "set (tn_groups st') \<subseteq> {g \<in> set (tn_groups st). \<forall>e \<in> set (tn_entries st). \<not> P e \<longrightarrow> tp_pid (snd e) \<noteq> g}"
  shows "tun_inv st'"
proof -
  have "set (tn_groups st') \<subseteq> set (entry_pids st')"
  proof
    fix x assume x: "x \<in> set (tn_groups st')"
    then have "x \<in> set (entry_pids st)" using g inv unfolding tun_inv_def by blast
    then obtain y where "y \<in> set (tn_entries st)" "x = tp_pid (snd y)" by auto
    then show "x \<in> set (entry_pids st')" using g x e by auto
  qed
  then show ?thesis using inv unfolding tun_inv_def e n by (simp add: distinct_map_filter)
qed

lemma tun_inv_delete:
  assumes "tun_inv st" shows "tun_inv (snd (tunnels_delete i st))"
proof (cases "find (\<lambda>p. pf_id p = i) (list_port_forwards None (tn_db st))")
  case None then show ?thesis using assms by (simp add: tunnels_delete_def)
next
  case (Some pf)
  have u: "tp_pid (snd e) \<noteq> tp_pid p" if "map_of (tn_entries st) k = Some p" "e \<in> set (tn_entries st)" "fst e \<noteq> k \<or> e \<noteq> (k, p)" for k p e
    using assms that map_of_SomeD[OF that(1)] unfolding tun_inv_def distinct_map inj_on_def by fastforce
  show ?thesis
  proof (rule tun_inv_drop[OF assms, where P = "\<lambda>e. fst e \<noteq> pf_id pf"])
    have "fst e = k \<Longrightarrow> e \<in> set (tn_entries st) \<Longrightarrow> map_of (tn_entries st) k = Some (snd e)" for e k
      using assms by (cases e) (auto simp: tun_inv_def)
    moreover have "map_of (tn_entries st) k = None \<Longrightarrow> e \<in> set (tn_entries st) \<Longrightarrow> fst e \<noteq> k" for e k
      by (cases e) (auto simp: map_of_eq_None_iff image_iff)
    ultimately show "set (tn_groups (snd (tunnels_delete i st))) \<subseteq> {g \<in> set (tn_groups st). \<forall>e \<in> set (tn_entries st). \<not> fst e \<noteq> pf_id pf \<longrightarrow> tp_pid (snd e) \<noteq> g}"
      by (fastforce simp: tunnels_delete_def Some registry_remove_def registry_stop_def split: option.splits)
  qed (auto simp: tunnels_delete_def Some registry_remove_def registry_stop_def AList.delete_eq split: option.splits intro!: filter_cong)
qed

lemma tun_inv_reap:
  assumes "tun_inv st" shows "tun_inv (snd (reap_dead st))"
proof -
  let ?d = "filter (\<lambda>e. leader_exited (tp_pid (snd e)) st) (tn_entries st)"
  show ?thesis
    by (rule tun_inv_drop[OF assms, where P = "\<lambda>e. fst e \<notin> fst ` set ?d"])
      (use assms in \<open>auto simp: reap_dead_def Let_def stop_all_effect image_image tun_inv_def distinct_map inj_on_def\<close>)
qed

lemma tun_inv_shutdown:
  assumes "tun_inv st"
  shows "tun_inv (snd (registry_shutdown st))" "tn_groups (snd (registry_shutdown st)) = []" "tn_entries (snd (registry_shutdown st)) = []"
proof -
  show g: "tn_groups (snd (registry_shutdown st)) = []"
    using assms unfolding registry_shutdown_def stop_all_effect by (auto simp: filter_empty_conv tun_inv_def image_image)
  show e: "tn_entries (snd (registry_shutdown st)) = []" unfolding registry_shutdown_def stop_all_effect by simp
  show "tun_inv (snd (registry_shutdown st))" using g e by (simp add: tun_inv_def)
qed

lemma tun_inv_create:
  assumes inv: "tun_inv st" and new: "i \<notin> fst ` set (tn_entries st)"
  shows "tun_inv (snd (tunnels_create req i t f st))"
proof -
  obtain r st' where c: "tunnels_create req i t f st = (r, st')" by (cases "tunnels_create req i t f st")
  show ?thesis
  proof (cases r)
    case (Inl err)
    then show ?thesis using create_outcome[OF inv new, where req = req and t = t and f = f] inv unfolding c tun_inv_def by fastforce
  next
    case (Inr pf)
    then show ?thesis using create_outcome[OF inv new, where req = req and t = t and f = f] inv new unfolding c tun_inv_def by fastforce
  qed
qed

lemma tun_reach_inv: "tun_reach st \<Longrightarrow> tun_inv st"
proof (induction rule: tun_reach.induct)
  case (exits st pid) then show ?case by (simp add: tun_inv_def)
next
  case (boot d n) show ?case by (simp add: tun_inv_def)
qed (simp_all add: tun_inv_create tun_inv_delete tun_inv_reap tun_inv_shutdown)


definition demo_tunnels :: tunnels where
  "demo_tunnels = \<lparr>tn_db = snd demo_registered, tn_entries = [], tn_groups = [], tn_exited = [], tn_next = 7\<rparr>"

definition demo_request :: tunnel_request where
  "demo_request = \<lparr>tr_worker = r_worker_id demo_worker, tr_local = 8080, tr_remote = 80, tr_name = ''web''\<rparr>"

definition struck_by :: "error option \<Rightarrow> faults" where
  "struck_by e = \<lparr>ft_setup = None, ft_exits = False, ft_insert = None, ft_invalidate = e, ft_delete = False\<rparr>"


end
