(* ===== verification/Notebooks.thy ===== *)
theory Notebooks
  imports Tunnels
begin

text \<open>
  Marimo notebooks: a job on the worker and a tunnel to it, from \<open>marimo.py\<close> and the endpoints of
  \<open>heartbeat.py\<close>.  The address of the control plane, the ports that can be bound and the answers of the
  health probe come from the system.
\<close>

section \<open>Addresses and ports\<close>

record notebook_host =
  nh_aton :: "string \<Rightarrow> bool"
  nh_tailscale :: "string option"
  nh_bindable :: "string \<Rightarrow> int \<Rightarrow> bool"
  nh_probe :: "nat \<Rightarrow> rat \<times> int option"

text \<open>\<open>ip_address\<close> on four decimal octets without leading zeros.\<close>

definition octet :: "string \<Rightarrow> int option" where
  "octet s = (if s \<noteq> '''' \<and> length s \<le> 3 \<and> list_all (\<lambda>c. c \<in> set ''0123456789'') s \<and> (hd s = CHR ''0'' \<longrightarrow> s = ''0'')
     then (case py_int s of Some n \<Rightarrow> if n \<le> 255 then Some n else None | None \<Rightarrow> None) else None)"

definition ipv4_address :: "string \<Rightarrow> int list option" where
  "ipv4_address s = (let parts = split_on (CHR ''.'') s
     in if length parts = 4 \<and> list_all (\<lambda>p. octet p \<noteq> None) parts then Some (List.map_filter octet parts) else None)"

text \<open>Membership in \<open>100.64.0.0/10\<close>.\<close>

definition in_tailnet :: "int list \<Rightarrow> bool" where
  "in_tailnet octets = (octets \<noteq> [] \<and> octets ! 0 = 100 \<and> octets ! 1 div 64 = 1)"

definition check_host :: "(string \<Rightarrow> bool) \<Rightarrow> string \<Rightarrow> string \<Rightarrow> string \<Rightarrow> string res" where
  "check_host aton malformed elsewhere host =
     (if \<not> aton host then Inl (RuntimeErr malformed)
      else (case ipv4_address host of
        None \<Rightarrow> Inl (ValueErr host)
      | Some octets \<Rightarrow> if in_tailnet octets then Inr host else Inl (RuntimeErr elsewhere)))"

definition tailnet_bind_host :: "(string \<Rightarrow> bool) \<Rightarrow> string option \<Rightarrow> string option \<Rightarrow> string res" where
  "tailnet_bind_host aton variable output =
     (let configured = strip (case variable of None \<Rightarrow> '''' | Some s \<Rightarrow> s)
      in if configured \<noteq> '''' then
           check_host aton ''WH_TAILNET_BIND_HOST must be an IPv4 address'' ''WH_TAILNET_BIND_HOST must be a Tailnet IPv4 address'' configured
         else (case output of
           None \<Rightarrow> Inl (RuntimeErr ''cannot determine orchestrator Tailnet IPv4 address'')
         | Some text \<Rightarrow> check_host aton ''tailscale returned an invalid IPv4 address'' ''tailscale did not return a Tailnet IPv4 address''
             (case filter (\<lambda>l. strip l \<noteq> '''') (splitlines text) of [] \<Rightarrow> '''' | l # _ \<Rightarrow> strip l)))"

definition port_setting :: "string option \<Rightarrow> string \<Rightarrow> int res" where
  "port_setting variable dflt = (case py_int (case variable of None \<Rightarrow> dflt | Some s \<Rightarrow> s) of
     None \<Rightarrow> Inl (ValueErr ''invalid literal for int()'') | Some n \<Rightarrow> Inr n)"

definition allocate_local_port :: "(int \<Rightarrow> bool) \<Rightarrow> string option \<Rightarrow> string option \<Rightarrow> int res" where
  "allocate_local_port bindable port_min port_max = (case port_setting port_min ''18000'' of
     Inl err \<Rightarrow> Inl err
   | Inr first \<Rightarrow> (case port_setting port_max ''18999'' of
       Inl err \<Rightarrow> Inl err
     | Inr final \<Rightarrow>
       if \<not> (1 \<le> first \<and> first \<le> final \<and> final \<le> 65535) then Inl (RuntimeErr ''invalid WH_MARIMO_PORT_MIN/WH_MARIMO_PORT_MAX range'')
       else (case find bindable [first..final] of
         None \<Rightarrow> Inl (RuntimeErr ''no free marimo tunnel port'') | Some port \<Rightarrow> Inr port)))"

text \<open>\<open>wait_until_ready\<close>: the \<open>n\<close>-th probe takes some time and gives a status, None for an HTTP error.
  The clock never goes back.\<close>

function wait_until_ready :: "(nat \<Rightarrow> rat \<times> int option) \<Rightarrow> rat \<Rightarrow> nat \<Rightarrow> rat \<Rightarrow> bool \<times> nat \<times> rat" where
  "wait_until_ready probe deadline n t =
     (if t < deadline then
        (case probe n of (duration, status) \<Rightarrow>
           if status = Some 200 then (True, Suc n, t + max 0 duration)
           else wait_until_ready probe deadline (Suc n) (t + max 0 duration + 1 / 4))
      else (False, n, t))"
  by pat_completeness auto
termination
proof (relation "measure (\<lambda>(probe, deadline, n, t). nat \<lceil>(deadline - t) * 4\<rceil>)")
  fix probe :: "nat \<Rightarrow> rat \<times> int option" and deadline t duration :: rat and n status
  assume t: "t < deadline"
  have "(deadline - (t + max 0 duration + 1 / 4)) * 4 \<le> (deadline - t) * 4 - 1" by (simp add: field_simps)
  then have "\<lceil>(deadline - (t + max 0 duration + 1 / 4)) * 4\<rceil> \<le> \<lceil>(deadline - t) * 4\<rceil> - 1"
    by (metis ceiling_diff_one ceiling_mono)
  moreover have "0 < \<lceil>(deadline - t) * 4\<rceil>" using t by simp
  ultimately show "((probe, deadline, Suc n, t + max 0 duration + 1 / 4), probe, deadline, n, t) \<in> measure (\<lambda>(probe, deadline, n, t). nat \<lceil>(deadline - t) * 4\<rceil>)"
    by simp
qed auto

declare wait_until_ready.simps [simp del]

section \<open>The endpoints\<close>

record notebook_request =
  nr_worker :: string
  nr_notebook :: string
  nr_environment :: string
  nr_timeout :: rat

text \<open>What strikes a creation: as for a tunnel, and the wait for the server is cancelled; the insertion
  of the session raises, before or after it was committed; the final invalidation is cancelled.\<close>

record notebook_faults =
  nf_setup :: "error option"
  nf_exits :: bool
  nf_insert :: "(bool \<times> error) option"
  nf_wait :: "error option"
  nf_session :: "(bool \<times> error) option"
  nf_delete :: bool
  nf_invalidate :: "error option"

text \<open>\<open>except (ValueError, RuntimeError, OSError)\<close>\<close>

definition request_error :: "error \<Rightarrow> bool" where
  "request_error err = (case err of ValueErr _ \<Rightarrow> True | RuntimeErr _ \<Rightarrow> True | OSErr _ \<Rightarrow> True | PermissionErr _ \<Rightarrow> True
     | TimeoutErr _ \<Rightarrow> True | _ \<Rightarrow> False)"

definition startup_error :: "error \<Rightarrow> error" where
  "startup_error err = (if err = CancelledErr then err else HTTPErr 502 (''marimo startup failed: '' @ error_str err))"

definition notebook_plan :: "worker \<Rightarrow> notebook_request \<Rightarrow> notebook_host \<Rightarrow> (int \<times> string \<times> int \<times> string) act" where
  "notebook_plan v req h =
     bnd (allocate_worker_port v) (\<lambda>remote_port.
       bnd (getenv_opt ''WH_TAILNET_BIND_HOST'') (\<lambda>variable.
         bnd (lift_res (tailnet_bind_host (nh_aton h) variable (nh_tailscale h))) (\<lambda>bind_host.
           bnd (getenv_opt ''WH_MARIMO_PORT_MIN'') (\<lambda>port_min. bnd (getenv_opt ''WH_MARIMO_PORT_MAX'') (\<lambda>port_max.
             bnd (lift_res (allocate_local_port (nh_bindable h bind_host) port_min port_max)) (\<lambda>local_port.
               bnd (lift_res (build_launch_command (nr_notebook req) (nr_environment req) remote_port)) (\<lambda>command.
                 ret (remote_port, bind_host, local_port, command))))))))"

definition notebook_start :: "worker \<Rightarrow> notebook_request \<Rightarrow> notebook_host \<Rightarrow> (int \<times> string \<times> int \<times> job) act" where
  "notebook_start v req h =
     bnd (catch (notebook_plan v req h) (\<lambda>err. raise_err (if request_error err then HTTPErr 422 (error_str err) else err))) (\<lambda>p.
       case p of (remote_port, bind_host, local_port, command) \<Rightarrow>
         bnd uuid4 (\<lambda>u. bnd (start_job v command (Some (''marimo-'' @ take 12 (filter (\<lambda>c. c \<noteq> CHR ''-'') u))) False) (\<lambda>job.
           if j_status job = FAILED then raise_err (HTTPErr 502 ''failed to start marimo worker process'')
           else ret (remote_port, bind_host, local_port, job))))"

text \<open>How far the part of the creation inside \<open>try\<close> has come when it raises: whether the tunnel is
  registered, and the process.\<close>

record progress =
  pg_error :: error
  pg_registered :: bool
  pg_pid :: "nat option"
  pg_world :: world
  pg_tunnels :: tunnels

definition notebook_ready :: "notebook_host \<Rightarrow> rat \<Rightarrow> error option \<Rightarrow> error option" where
  "notebook_ready h timeout cancelled = (case cancelled of
     Some err \<Rightarrow> Some err
   | None \<Rightarrow> if fst (wait_until_ready (nh_probe h) timeout 0 0) then None else Some (TimeoutErr ''marimo did not become ready''))"

definition notebook_session :: "string \<Rightarrow> notebook_request \<Rightarrow> string \<Rightarrow> job \<Rightarrow> port_forward \<Rightarrow> marimo_session" where
  "notebook_session i req bind_host job pf = \<lparr>m_id = i, m_worker = pf_worker pf, m_notebook = nr_notebook req, m_environment = nr_environment req,
     m_job = j_id job, m_tunnel = pf_id pf, m_local = pf_local pf, m_remote = pf_remote pf, m_bind = bind_host,
     m_url = ''http://'' @ bind_host @ '':'' @ int_to_string (pf_local pf), m_status = ''ready'', m_created = pf_created pf\<rparr>"

definition notebook_steps :: "port_forward \<Rightarrow> marimo_session \<Rightarrow> rat \<Rightarrow> notebook_host \<Rightarrow> notebook_faults \<Rightarrow> world \<Rightarrow> tunnels \<Rightarrow>
    progress + world \<times> tunnels" where
  "notebook_steps pf0 session timeout h f w st = (case nf_setup f of
     Some err \<Rightarrow> Inl \<lparr>pg_error = err, pg_registered = False, pg_pid = None, pg_world = w, pg_tunnels = st\<rparr>
   | None \<Rightarrow>
     let pid = tn_next st; pf = pf0\<lparr>pf_pid := int pid\<rparr>; st1 = st\<lparr>tn_groups := pid # tn_groups st, tn_next := Suc pid\<rparr>;
         raised = (\<lambda>err registered w' st'. Inl \<lparr>pg_error = err, pg_registered = registered, pg_pid = Some pid, pg_world = w', pg_tunnels = st'\<rparr>)
     in if nf_exits f then raised (RuntimeErr ''SSH tunnel exited immediately'') False w (st1\<lparr>tn_exited := pid # tn_exited st1\<rparr>)
        else (case insert_port_forward pf (wd_db w) of
          Inl err \<Rightarrow> raised err False w st1
        | Inr d1 \<Rightarrow> (case nf_insert f of
            Some (committed, err) \<Rightarrow> raised err False (if committed then w\<lparr>wd_db := d1\<rparr> else w) st1
          | None \<Rightarrow>
            let st2 = registry_add \<lparr>tp_id = pf_id pf, tp_worker = pf_worker pf, tp_local = pf_local pf, tp_remote = pf_remote pf,
                  tp_pid = pid, tp_created = pf_created pf\<rparr> st1; w1 = w\<lparr>wd_db := d1\<rparr>
            in case notebook_ready h timeout (nf_wait f) of
                 Some err \<Rightarrow> raised err True w1 st2
               | None \<Rightarrow> (case insert_marimo_session session d1 of
                   Inl err \<Rightarrow> raised err True w1 st2
                 | Inr d2 \<Rightarrow> (case nf_session f of
                     Some (committed, err) \<Rightarrow> raised err True (if committed then w\<lparr>wd_db := d2\<rparr> else w1) st2
                   | None \<Rightarrow> Inr (w\<lparr>wd_db := d2\<rparr>, st2))))))"

text \<open>The cleanup: the tunnel is stopped, its row deleted, which may fail, and the job stopped.\<close>

definition undone :: "progress \<Rightarrow> string \<Rightarrow> tunnels" where
  "undone p i = (case (if pg_registered p then registry_remove i (pg_tunnels p) else (None, pg_tunnels p)) of (entry, st1) \<Rightarrow>
     (case entry of
        Some q \<Rightarrow> snd (registry_stop (tp_pid q) st1)
      | None \<Rightarrow> (case pg_pid p of Some k \<Rightarrow> snd (registry_stop k st1) | None \<Rightarrow> st1)))"

definition notebook_rollback :: "progress \<Rightarrow> string \<Rightarrow> bool \<Rightarrow> worker \<Rightarrow> string \<Rightarrow> env \<Rightarrow> (world \<times> tunnels) option" where
  "notebook_rollback p i failing v job e =
    (case stop_job v job e (if failing then pg_world p else (pg_world p)\<lparr>wd_db := delete_port_forward i (wd_db (pg_world p))\<rparr>) of
       None \<Rightarrow> None | Some (_, w2) \<Rightarrow> Some (w2, undone p i))"

definition marimo_create :: "notebook_request \<Rightarrow> notebook_host \<Rightarrow> notebook_faults \<Rightarrow> env \<Rightarrow> world \<Rightarrow> tunnels \<Rightarrow>
    (marimo_session res \<times> world \<times> tunnels) option" where
  "marimo_create req h f e w st = (case resolve_worker (nr_worker req) (wd_db w) of
     None \<Rightarrow> Some (Inl (not_found ''Worker'' (nr_worker req)), w, st)
   | Some v \<Rightarrow>
     if \<not> (1 \<le> nr_timeout req \<and> nr_timeout req \<le> 300)
     then Some (Inl (HTTPErr 422 ''ready_timeout must be between 1 and 300 seconds''), w, st)
     else (case notebook_start v req h e w of
       None \<Rightarrow> None
     | Some (Inl err, w1) \<Rightarrow> Some (Inl err, w1, st)
     | Some (Inr (remote_port, bind_host, local_port, job), w1) \<Rightarrow>
       let i = o_uuid e (wd_uuids w1); s = o_uuid e (Suc (wd_uuids w1));
           pf = \<lparr>pf_id = i, pf_worker = w_id v, pf_local = local_port, pf_remote = remote_port,
             pf_service = ''marimo:'' @ nr_notebook req, pf_pid = 0, pf_created = o_clock e (wd_ticks w1)\<rparr>;
           session = notebook_session s req bind_host job pf;
           w2 = w1\<lparr>wd_uuids := wd_uuids w1 + 2, wd_ticks := Suc (wd_ticks w1)\<rparr>
       in case notebook_steps pf session (nr_timeout req) h f w2 st of
            Inl p \<Rightarrow> (case notebook_rollback p i (nf_delete f) v (j_id job) e of
              None \<Rightarrow> None | Some (w3, st3) \<Rightarrow> Some (Inl (startup_error (pg_error p)), w3, st3))
          | Inr (w3, st3) \<Rightarrow> (case nf_invalidate f of
              Some err \<Rightarrow> Some (Inl err, w3, st3) | None \<Rightarrow> Some (Inr session, w3, st3))))"

definition stop_marimo_session :: "marimo_session \<Rightarrow> env \<Rightarrow> world \<Rightarrow> tunnels \<Rightarrow> (unit res \<times> world \<times> tunnels) option" where
  "stop_marimo_session session e w st =
     (let finish = (\<lambda>w1. case registry_remove (m_tunnel session) st of (entry, st1) \<Rightarrow>
            Some (Inr (), w1\<lparr>wd_db := delete_marimo_session (m_id session) (delete_port_forward (m_tunnel session) (wd_db w1))\<rparr>,
              case entry of None \<Rightarrow> st1 | Some p \<Rightarrow> snd (registry_stop (tp_pid p) st1)))
      in case (get_job (m_job session) (wd_db w), get_worker (m_worker session) (wd_db w)) of
           (Some job, Some v) \<Rightarrow>
             if job_active job then (case stop_job v (j_id job) e w of
               None \<Rightarrow> None
             | Some (Inl err, w1) \<Rightarrow> Some (Inl err, w1, st)
             | Some (Inr stopped, w1) \<Rightarrow> if stopped then finish w1
                 else Some (Inl (RuntimeErr (''failed to stop marimo job '' @ j_id job)), w1, st))
             else finish w
         | _ \<Rightarrow> finish w)"

definition marimo_delete :: "string \<Rightarrow> env \<Rightarrow> world \<Rightarrow> tunnels \<Rightarrow> (string res \<times> world \<times> tunnels) option" where
  "marimo_delete i e w st = (case get_marimo_session i (wd_db w) of
     None \<Rightarrow> Some (Inl (not_found ''Marimo session'' i), w, st)
   | Some session \<Rightarrow> (case stop_marimo_session session e w st of
       None \<Rightarrow> None
     | Some (Inl err, w1, st1) \<Rightarrow> Some (Inl (case err of RuntimeErr m \<Rightarrow> HTTPErr 502 m | _ \<Rightarrow> err), w1, st1)
     | Some (Inr _, w1, st1) \<Rightarrow> Some (Inr i, w1, st1)))"

text \<open>The row of a notebook as it is listed: its status, and the name of its worker.\<close>

definition notebook_item :: "worker option \<Rightarrow> tunnels \<Rightarrow> marimo_session \<Rightarrow> (marimo_session \<times> string option) act" where
  "notebook_item v st session =
     bnd (ask (get_job (m_job session))) (\<lambda>job.
       bnd (case (job, v) of (Some j, Some v') \<Rightarrow> if job_active j then bnd (refresh_job_status v' j) (\<lambda>j'. ret (Some j')) else ret job
            | _ \<Rightarrow> ret job) (\<lambda>refreshed.
         ret (session\<lparr>m_status := marimo_status refreshed (m_tunnel session) st\<rparr>, map_option w_name v)))"

fun notebook_items :: "worker list \<Rightarrow> tunnels \<Rightarrow> marimo_session list \<Rightarrow> (marimo_session \<times> string option) list act" where
  "notebook_items workers st [] = ret []"
| "notebook_items workers st (s # ss) =
     bnd (notebook_item (worker_by_id workers (m_worker s)) st s) (\<lambda>x. bnd (notebook_items workers st ss) (\<lambda>xs. ret (x # xs)))"

definition marimo_list :: "string option \<Rightarrow> tunnels \<Rightarrow> (marimo_session \<times> string option) list act" where
  "marimo_list worker_id st =
     bnd (ask (list_marimo_sessions worker_id)) (\<lambda>sessions. bnd (ask list_workers) (\<lambda>workers. notebook_items workers st sessions))"

definition marimo_get :: "string \<Rightarrow> tunnels \<Rightarrow> (marimo_session \<times> string option) act" where
  "marimo_get i st = bnd (ask (get_marimo_session i)) (\<lambda>s. case s of
     None \<Rightarrow> raise_err (not_found ''Marimo session'' i)
   | Some session \<Rightarrow> bnd (ask (get_worker (m_worker session))) (\<lambda>v. notebook_item v st session))"

section \<open>The job manager leaves tunnels and notebooks alone\<close>

definition aside :: "port_forward list \<Rightarrow> marimo_session list \<Rightarrow> database \<Rightarrow> bool" where
  "aside fs ms d = (t_forwards d = fs \<and> t_marimo d = ms)"

abbreviation keeps_aside :: "'a act \<Rightarrow> bool" where
  "keeps_aside m \<equiv> (\<forall>fs ms. keeps (\<lambda>w. aside fs ms (wd_db w)) m)"

lemma aside_update_job [simp]: "aside fs ms (update_job j d) = aside fs ms d"
  by (simp add: aside_def update_job_def)

lemma aside_unchanged:
  assumes "db_unchanged m" shows "keeps (\<lambda>w. aside fs ms (wd_db w)) m"
  unfolding keeps_def by (metis assms db_unchangedD)

lemmas aside_ssh = ssh_db_unchanged [THEN aside_unchanged]
lemmas aside_rules = keeps_intros aside_ssh keeps_modify

lemma aside_launch: "keeps (\<lambda>w. aside fs ms (wd_db w)) (launch_job v job)"
  unfolding launch_job_def Let_def by (intro aside_rules) simp_all

lemma aside_dispatch_loop:
  assumes "dispatch_loop v available launched e w = Some (r, w')" "aside fs ms (wd_db w)"
  shows "aside fs ms (wd_db w')"
proof -
  have "aside fs ms (wd_db w) \<longrightarrow> aside fs ms (wd_db (snd (r, w')))"
  proof (rule dispatch_loop.raw_induct [where P = "\<lambda>v a l e w y. aside fs ms (wd_db w) \<longrightarrow> aside fs ms (wd_db (snd y))", OF _ assms(1)])
    fix loop :: "worker \<Rightarrow> int list \<Rightarrow> job list \<Rightarrow> env \<Rightarrow> world \<Rightarrow> (job list res \<times> world) option" and v a l e w y
    assume IH: "\<And>v a l e w y. loop v a l e w = Some y \<Longrightarrow> aside fs ms (wd_db w) \<longrightarrow> aside fs ms (wd_db (snd y))"
    assume step: "(let free = unclaimed_gpus a (w_id v) (wd_db w)
      in case queue_head (w_id v) (wd_db w) of
           None \<Rightarrow> Some (Inr l, w)
         | Some head \<Rightarrow>
           if j_gpu_count head > int (length free) then Some (Inr l, w)
           else (let w1 = w\<lparr>wd_ticks := Suc (wd_ticks w)\<rparr>
                 in case claim_queued_job (j_id head) (py_prefix (j_gpu_count head) free)
                           (o_clock e (wd_ticks w)) (w_id v) (wd_db w) of
                      (None, d) \<Rightarrow> loop v a l e (w1\<lparr>wd_db := d\<rparr>)
                    | (Some claimed, d) \<Rightarrow>
                      (case launch_job v claimed e (w1\<lparr>wd_db := d\<rparr>) of
                         None \<Rightarrow> None
                       | Some (Inl err, w2) \<Rightarrow> Some (Inl err, w2)
                       | Some (Inr job, w2) \<Rightarrow> loop v a (l @ [job]) e w2))) = Some y"
    have claim: "aside fs ms (snd (claim_queued_job i g t wid d)) = aside fs ms d" for i g t wid d
      by (simp add: claim_queued_job_def Let_def aside_def)
    note launch = aside_launch [THEN keepsD]
    show "aside fs ms (wd_db w) \<longrightarrow> aside fs ms (wd_db (snd y))"
    proof
      assume a: "aside fs ms (wd_db w)"
      show "aside fs ms (wd_db (snd y))"
      proof (cases "queue_head (w_id v) (wd_db w)")
        case None then show ?thesis using step a by auto
      next
        case (Some head)
        obtain c d where cd: "claim_queued_job (j_id head) (py_prefix (j_gpu_count head) (unclaimed_gpus a (w_id v) (wd_db w)))
          (o_clock e (wd_ticks w)) (w_id v) (wd_db w) = (c, d)" by fastforce
        have d: "aside fs ms d" using claim [of "j_id head" "py_prefix (j_gpu_count head) (unclaimed_gpus a (w_id v) (wd_db w))"
          "o_clock e (wd_ticks w)" "w_id v" "wd_db w"] a cd by simp
        consider "y = (Inr l, w)" | w1 l1 where "loop v a l1 e w1 = Some y" "aside fs ms (wd_db w1)"
          | cl r w2 where "launch_job v cl e (w\<lparr>wd_ticks := Suc (wd_ticks w), wd_db := d\<rparr>) = Some (r, w2)" "y = (Inl (projl r), w2)"
          using step Some cd d launch [where w = "w\<lparr>wd_ticks := Suc (wd_ticks w), wd_db := d\<rparr>"]
          by (fastforce simp: Let_def split: if_splits option.splits sum.splits)
        then show ?thesis
        proof cases
          case 1 then show ?thesis using a by simp
        next
          case 2 then show ?thesis using IH by blast
        next
          case 3 then show ?thesis using launch [OF _ 3(1)] d by simp
        qed
      qed
    qed
  qed
  then show ?thesis using assms(2) by simp
qed

lemma aside_dispatch: "keeps (\<lambda>w. aside fs ms (wd_db w)) (dispatch_worker v)"
  unfolding keeps_def dispatch_worker_def using aside_dispatch_loop by (auto simp: ret_def)

lemma aside_stop: "keeps (\<lambda>w. aside fs ms (wd_db w)) (stop_job v i)"
  unfolding stop_job_def
  by (intro aside_rules aside_dispatch keeps_db_call; (simp only: aside_update_job)?)
    (auto simp: fail_pending_job_def Let_def aside_def split: option.splits)

lemma aside_start: "keeps (\<lambda>w. aside fs ms (wd_db w)) (start_job v command name pty)"
  unfolding start_job_def Let_def
  by (intro aside_rules aside_launch keeps_db_put; auto simp: insert_job_def aside_def split: sum.splits)

lemma aside_allocate: "keeps (\<lambda>w. aside fs ms (wd_db w)) (allocate_worker_port v)"
  unfolding allocate_worker_port_def async_ssh_run_def Let_def
  by (intro aside_rules db_unchanged_clock [THEN aside_unchanged])

lemma aside_notebook_start: "keeps (\<lambda>w. aside fs ms (wd_db w)) (notebook_start v req h)"
  unfolding notebook_start_def notebook_plan_def Let_def case_prod_unfold
  by (intro aside_rules aside_allocate aside_start db_unchanged_clock [THEN aside_unchanged])

lemma takes_then: "takes Q m R \<Longrightarrow> (\<And>x. takes R (f x) R) \<Longrightarrow> takes Q (bnd m f) R"
  by (rule takes_bnd [where S = "\<lambda>_. R"]) (auto elim!: takesE split: sum.split intro: exI)

lemma takes_lift: "takes R (lift_res r) R"
  by (simp add: takes_def lift_res_def)

lemma allocate_takes: "takes reachable (allocate_worker_port v) reachable"
  unfolding allocate_worker_port_def async_ssh_run_def Let_def
  by (intro call_rules db_unchanged_clock; assumption?)

lemma notebook_start_takes: "takes reachable (notebook_start v req h) reachable"
  unfolding notebook_start_def notebook_plan_def Let_def case_prod_unfold
  by (intro takes_then takes_catch takes_if takes_prim takes_lift allocate_takes start_keeps takes_quiet db_unchanged_clock; assumption?)

lemma get_update_job: "get_job k (update_job j d) = (if j_id j = k then map_option (\<lambda>_. j) (get_job k d) else get_job k d)"
proof -
  have "tbl_get j_id k (tbl_upd (\<lambda>r. j_id r = j_id j) (\<lambda>_. j) js) = (if j_id j = k then map_option (\<lambda>_. j) (tbl_get j_id k js) else tbl_get j_id k js)" for js
    by (induction js) (auto simp: tbl_get_def tbl_upd_def)
  then show ?thesis by (simp add: get_job_def update_job_def)
qed

lemma bnd_uuid4: "bnd uuid4 f e w = f (o_uuid e (wd_uuids w)) e (w\<lparr>wd_uuids := Suc (wd_uuids w)\<rparr>)"
  by (simp add: bnd_def uuid4_def)

lemma bnd_now: "bnd now f e w = f (o_clock e (wd_ticks w)) e (w\<lparr>wd_ticks := Suc (wd_ticks w)\<rparr>)"
  by (simp add: bnd_def now_def)

text \<open>The row of a job that was started, and what a stop that answers true leaves of it.\<close>

lemma started_row:
  assumes "start_job v command name pty e w = Some (Inr job, w')" "reachable (wd_db w)"
  shows "get_job (j_id job) (wd_db w') = Some job \<and> \<not> j_queue_managed job \<and> j_worker job = Some (w_id v) \<and> reachable (wd_db w')"
proof -
  have re: "reachable (wd_db w')" using takesD [OF start_keeps assms(2) assms(1)] .
  define job0 where "job0 = (new_job (o_uuid e (wd_uuids w)))\<lparr>j_worker := Some (w_id v), j_name := (case name of None \<Rightarrow> '''' | Some n \<Rightarrow> n),
                  j_command := command, j_status := STARTING, j_pty := pty, j_started := o_clock e (wd_ticks w), j_tmux := ''wh_'' @ o_uuid e (wd_uuids w)\<rparr>"
  have q: "\<not> j_queue_managed job0" "j_worker job0 = Some (w_id v)" by (simp_all add: job0_def new_job_def)
  define w0 where "w0 = w\<lparr>wd_uuids := Suc (wd_uuids w), wd_ticks := Suc (wd_ticks w)\<rparr>"
  have "seq (db_put (insert_job job0)) (launch_job v job0) e w0 = Some (Inr job, w')"
    using assms(1) by (simp add: start_job_def job0_def w0_def bnd_uuid4 bnd_now Let_def)
  then obtain d where di: "insert_job job0 (wd_db w) = Inr d" "launch_job v job0 e (w0\<lparr>wd_db := d\<rparr>) = Some (Inr job, w')"
    by (cases "insert_job job0 (wd_db w)") (auto simp: seq_def bnd_def db_put_def w0_def)
  then obtain w1 where d: "insert_job job0 (wd_db w) = Inr d" "wd_db w1 = d" "launch_job v job0 e w1 = Some (Inr job, w')"
    by (metis world.select_convs(1) world.surjective world.update_convs(1))
  have row: "get_job (j_id job0) d = Some job0" using immediate_row [OF assms(2) d(1) q(1)] by blast
  from d(3) show ?thesis
  proof (cases rule: launch_job_cases)
    case 1 then show ?thesis using row q d(2) re by simp
  next
    case (3 j)
    then have "j_id j = j_id job0" "\<not> j_queue_managed j" "j_worker j = Some (w_id v)" using q by (auto simp: launch_outcome_def)
    then show ?thesis using 3 row d(2) re by (simp add: get_update_job)
  qed simp
qed

lemma stopped_row:
  assumes "stop_job v i e w = Some (Inr True, w')" "get_job i (wd_db w) = Some j" "\<not> j_queue_managed j"
  shows "case get_job i (wd_db w') of Some j' \<Rightarrow> \<not> job_active j' | None \<Rightarrow> True"
proof -
  have terminal: "\<not> job_active j'" if "j_status j' \<in> {DONE, FAILED}" for j' using that by (auto simp: job_active_def)
  show ?thesis
  proof (cases "j_status j \<in> {DONE, FAILED}")
    case True
    then have "w' = w" using assms by (auto simp: stop_job_def bnd_def ask_def ret_def split: if_splits)
    then show ?thesis using assms(2) terminal [OF True] by simp
  next
    case False
    obtain r w1 where k: "ssh_tmux_kill v i e w = Some (r, w1)" "wd_db w1 = wd_db w"
      using ssh_db_unchanged(2) [of v i] unfolding db_unchanged_def by blast
    have "get_job i (wd_db w1) = Some j" using k(2) assms(2) by simp
    then have "wd_db w' = update_job (j\<lparr>j_status := FAILED, j_exit_code := Some (- 1), j_finished := o_clock e (wd_ticks w1)\<rparr>) (wd_db w1) \<or>
        \<not> job_active j \<and> wd_db w' = wd_db w1"
      using assms k False by (auto simp: stop_job_def bnd_def seq_def act_defs split: if_splits sum.splits)
    then show ?thesis using get_job_id [OF assms(2)] k(2) assms(2) by (auto simp: get_update_job job_active_def)
  qed
qed

section \<open>A notebook is started completely or not at all\<close>

lemma steps_outcome:
  assumes inv: "tun_inv st" and new: "pf_id pf \<notin> fst ` set (tn_entries st)"
  shows "case notebook_steps pf s timeout h f w st of
    Inl p \<Rightarrow> t_jobs (wd_db (pg_world p)) = t_jobs (wd_db w) \<and>
      filter (\<lambda>x. pf_id x \<noteq> pf_id pf) (t_forwards (wd_db (pg_world p))) = filter (\<lambda>x. pf_id x \<noteq> pf_id pf) (t_forwards (wd_db w)) \<and>
      (t_marimo (wd_db (pg_world p)) = t_marimo (wd_db w) \<or> (\<exists>err. nf_session f = Some (True, err))) \<and>
      tn_entries (undone p (pf_id pf)) = tn_entries st \<and> tn_groups (undone p (pf_id pf)) = tn_groups st \<and> tn_next st \<le> tn_next (undone p (pf_id pf))
  | Inr (w', st') \<Rightarrow> t_jobs (wd_db w') = t_jobs (wd_db w) \<and> t_marimo (wd_db w') = t_marimo (wd_db w) @ [s] \<and>
      t_forwards (wd_db w') = t_forwards (wd_db w) @ [pf\<lparr>pf_pid := int (tn_next st)\<rparr>] \<and>
      (\<exists>p. tn_entries st' = tn_entries st @ [(pf_id pf, p)] \<and> tp_pid p = tn_next st) \<and>
      tn_groups st' = tn_next st # tn_groups st \<and> tn_next st' = Suc (tn_next st)"
proof -
  have n: "tn_next st \<notin> set (tn_groups st)" using inv unfolding tun_inv_def by fastforce
  have upd: "AList.update i p xs = xs @ [(i, p)]" if "i \<notin> fst ` set xs" for i p and xs :: "(string \<times> tunnel_process) list"
    using that by (induction xs) auto
  have del: "AList.delete i (xs @ [(i, p)]) = xs" if "i \<notin> fst ` set xs" for i p and xs :: "(string \<times> tunnel_process) list"
    using that by (induction xs) (auto simp: AList.delete_eq)
  have none: "map_of (tn_entries st) (pf_id pf) = None" using new by (simp add: map_of_eq_None_iff)
  have rm: "removeAll (tn_next st) (tn_groups st) = tn_groups st" using n by simp
  show ?thesis
    by (auto simp: notebook_steps_def undone_def registry_stop_def registry_remove_def registry_add_def insert_port_forward_def insert_marimo_session_def
        tbl_ins_def Let_def none rm upd [OF new] del [OF new] split: option.splits sum.splits prod.splits if_splits)
qed

lemma stop_returns:
  assumes "reachable (wd_db w)"
  obtains s w' where "stop_job v i e w = Some (s, w')" "reachable (wd_db w')"
    "t_forwards (wd_db w') = t_forwards (wd_db w)" "t_marimo (wd_db w') = t_marimo (wd_db w)"
proof -
  obtain s w' where s: "stop_job v i e w = Some (s, w')" "reachable (wd_db w')" using takesE [OF stop_keeps assms] by blast
  then show thesis using that aside_stop [THEN keepsD, OF _ s(1), of "t_forwards (wd_db w)" "t_marimo (wd_db w)"] by (simp add: aside_def)
qed

lemma started_notebook:
  assumes "notebook_start v req h e w = Some (Inr (rp, bh, lp, job), w')" "reachable (wd_db w)"
  shows "get_job (j_id job) (wd_db w') = Some job \<and> \<not> j_queue_managed job \<and> j_worker job = Some (w_id v) \<and> reachable (wd_db w') \<and>
    j_status job \<noteq> FAILED \<and> (\<exists>octets. ipv4_address bh = Some octets \<and> in_tailnet octets) \<and> nh_bindable h bh lp"
proof -
  obtain p w1 where p: "notebook_plan v req h e w = Some (Inr p, w1)"
    and k: "(case p of (remote_port, bind_host, local_port, command) \<Rightarrow>
         bnd uuid4 (\<lambda>u. bnd (start_job v command (Some (''marimo-'' @ take 12 (filter (\<lambda>c. c \<noteq> CHR ''-'') u))) False) (\<lambda>job.
           if j_status job = FAILED then raise_err (HTTPErr 502 ''failed to start marimo worker process'')
           else ret (remote_port, bind_host, local_port, job)))) e w1 = Some (Inr (rp, bh, lp, job), w')"
    using assms(1) by (auto simp: notebook_start_def bnd_Inr catch_def raise_err_def split: option.splits sum.splits)
  have plan: "takes reachable (notebook_plan v req h) reachable"
    unfolding notebook_plan_def
    by (intro takes_then takes_prim takes_lift allocate_takes takes_quiet db_unchanged_clock; assumption?)
  have re: "reachable (wd_db w1)" by (rule takesD [where Q = reachable, OF plan assms(2) p])
  obtain command where c: "p = (rp, bh, lp, command)"
    using k by (cases p) (auto simp: bnd_Inr ret_def raise_err_def split: if_splits)
  obtain u w2 where s: "start_job v command u False e (w1\<lparr>wd_uuids := Suc (wd_uuids w1)\<rparr>) = Some (Inr job, w')" "j_status job \<noteq> FAILED"
    using k by (auto simp: c bnd_uuid4 bnd_Inr ret_def raise_err_def split: if_splits)
  have host: "tailnet_bind_host a x y = Inr z \<Longrightarrow> \<exists>octets. ipv4_address z = Some octets \<and> in_tailnet octets" for a x y z
    by (auto simp: tailnet_bind_host_def check_host_def Let_def split: if_splits option.splits)
  have port: "allocate_local_port b x y = Inr z \<Longrightarrow> b z" for b x y z
    by (auto simp: allocate_local_port_def find_Some_iff split: sum.splits if_splits option.splits)
  have "(\<exists>octets. ipv4_address bh = Some octets \<and> in_tailnet octets) \<and> nh_bindable h bh lp"
    using p unfolding c notebook_plan_def
    by (auto simp: bnd_Inr getenv_opt_def lift_res_def ret_def dest: host port)
  moreover have "reachable (wd_db (w1\<lparr>wd_uuids := Suc (wd_uuids w1)\<rparr>))" using re by simp
  ultimately show ?thesis using started_row [OF s(1)] s(2) by blast
qed

inductive net_reach :: "tunnels \<Rightarrow> bool" where
  boot: "net_reach \<lparr>tn_db = d, tn_entries = [], tn_groups = [], tn_exited = [], tn_next = n\<rparr>"
| create: "net_reach st \<Longrightarrow> i \<notin> fst ` set (tn_entries st) \<Longrightarrow> net_reach (snd (tunnels_create req i t f st))"
| delete: "net_reach st \<Longrightarrow> net_reach (snd (tunnels_delete i st))"
| reap: "net_reach st \<Longrightarrow> net_reach (snd (reap_dead st))"
| exits: "net_reach st \<Longrightarrow> net_reach (st\<lparr>tn_exited := pid # tn_exited st\<rparr>)"
| shutdown: "net_reach st \<Longrightarrow> net_reach (snd (registry_shutdown st))"
| notebook: "net_reach st \<Longrightarrow> \<forall>n. o_uuid e n \<notin> fst ` set (tn_entries st) \<Longrightarrow> wd_db w = tn_db st \<Longrightarrow>
    \<forall>n. o_uuid e n \<notin> pf_id ` set (t_forwards (wd_db w)) \<Longrightarrow> reachable (wd_db w) \<Longrightarrow> marimo_create nreq h nf e w st = Some (r, w', st') \<Longrightarrow> net_reach (st'\<lparr>tn_db := wd_db w'\<rparr>)"
| unload: "net_reach st \<Longrightarrow> wd_db w = tn_db st \<Longrightarrow> reachable (wd_db w) \<Longrightarrow> marimo_delete i e w st = Some (r', w', st') \<Longrightarrow> net_reach (st'\<lparr>tn_db := wd_db w'\<rparr>)"

text \<open>The two ways a creation can end once its job has been started.\<close>

definition notebook_up :: "database \<Rightarrow> tunnels \<Rightarrow> database \<Rightarrow> tunnels \<Rightarrow> marimo_session \<Rightarrow> job \<Rightarrow> bool" where
  "notebook_up d st d' st' s job =
     (t_marimo d' = t_marimo d @ [s] \<and> m_job s = j_id job \<and> get_job (j_id job) d' = Some job \<and> j_status job \<noteq> FAILED \<and>
      (\<exists>pf. t_forwards d' = t_forwards d @ [pf] \<and> pf_id pf = m_tunnel s \<and> pf_pid pf = int (tn_next st)) \<and>
      (\<exists>p. tn_entries st' = tn_entries st @ [(m_tunnel s, p)] \<and> tp_pid p = tn_next st) \<and>
      tn_groups st' = tn_next st # tn_groups st \<and> tn_next st' = Suc (tn_next st) \<and> m_tunnel s \<notin> fst ` set (tn_entries st) \<and>
      (\<exists>octets. ipv4_address (m_bind s) = Some octets \<and> in_tailnet octets))"

definition notebook_down :: "notebook_faults \<Rightarrow> database \<Rightarrow> tunnels \<Rightarrow> database \<Rightarrow> tunnels \<Rightarrow> bool" where
  "notebook_down f d st d' st' =
     (tn_entries st' = tn_entries st \<and> tn_groups st' = tn_groups st \<and> tn_next st \<le> tn_next st' \<and>
      (nf_delete f \<or> t_forwards d' = t_forwards d) \<and>
      (t_marimo d' = t_marimo d \<or> (case nf_session f of Some (committed, _) \<Rightarrow> committed | None \<Rightarrow> False)))"

lemma delete_keeps_forwards:
  assumes "filter (\<lambda>x. pf_id x \<noteq> i) fs = filter (\<lambda>x. pf_id x \<noteq> i) (t_forwards d)" "i \<notin> pf_id ` set (t_forwards d)"
    "t_forwards d1 = fs"
  shows "t_forwards (delete_port_forward i d1) = t_forwards d"
proof -
  have "filter (\<lambda>x. pf_id x \<noteq> i) (t_forwards d) = t_forwards d" using assms(2) by (auto intro!: filter_True)
  then show ?thesis using assms(1,3) by (simp add: delete_port_forward_def tbl_del_def)
qed

lemma marimo_create_outcome:
  assumes inv: "tun_inv st" and re: "reachable (wd_db w)" and new: "\<forall>n. o_uuid e n \<notin> fst ` set (tn_entries st)"
    and fresh: "\<forall>n. o_uuid e n \<notin> pf_id ` set (t_forwards (wd_db w))"
  shows "\<exists>r w' st'. marimo_create req h f e w st = Some (r, w', st') \<and> reachable (wd_db w') \<and>
    ((\<exists>s job. r = (case nf_invalidate f of None \<Rightarrow> Inr s | Some err \<Rightarrow> Inl err) \<and> notebook_up (wd_db w) st (wd_db w') st' s job) \<or>
     isl r \<and> notebook_down f (wd_db w) st (wd_db w') st' \<and>
       (case resolve_worker (nr_worker req) (wd_db w) of None \<Rightarrow> w' = w
        | Some v \<Rightarrow> (case notebook_start v req h e w of
            Some (Inr (_, _, _, job), _) \<Rightarrow> w' = w \<or> (\<exists>s w2. stop_job v (j_id job) e w2 = Some (s, w') \<and>
              (s = Inr True \<longrightarrow> (case get_job (j_id job) (wd_db w') of Some j \<Rightarrow> \<not> job_active j | None \<Rightarrow> True)))
          | _ \<Rightarrow> True)))"
proof (cases "resolve_worker (nr_worker req) (wd_db w)")
  case None
  then show ?thesis using re by (simp add: marimo_create_def notebook_down_def)
next
  case (Some v)
  show ?thesis
  proof (cases "1 \<le> nr_timeout req \<and> nr_timeout req \<le> 300")
    case False
    then show ?thesis using re Some by (auto simp: marimo_create_def notebook_down_def split: option.split sum.split prod.split)
  next
    case True
    obtain r1 w1 where s: "notebook_start v req h e w = Some (r1, w1)" "reachable (wd_db w1)"
      using takesE [OF notebook_start_takes re] by blast
    have a1: "t_forwards (wd_db w1) = t_forwards (wd_db w)" "t_marimo (wd_db w1) = t_marimo (wd_db w)"
      using aside_notebook_start [THEN keepsD, OF _ s(1), of "t_forwards (wd_db w)" "t_marimo (wd_db w)"] by (simp_all add: aside_def)
    show ?thesis
    proof (cases r1)
      case (Inl err)
      then show ?thesis using Some True s a1 by (simp add: marimo_create_def notebook_down_def)
    next
      case (Inr q)
      obtain rp bh lp job where q: "q = (rp, bh, lp, job)" by (cases q)
      note start = started_notebook [OF s(1) [unfolded Inr q] re]
      define i where "i = o_uuid e (wd_uuids w1)"
      define pf where "pf = \<lparr>pf_id = i, pf_worker = w_id v, pf_local = lp, pf_remote = rp,
             pf_service = ''marimo:'' @ nr_notebook req, pf_pid = 0, pf_created = o_clock e (wd_ticks w1)\<rparr>"
      define session where "session = notebook_session (o_uuid e (Suc (wd_uuids w1))) req bh job pf"
      define w2 where "w2 = w1\<lparr>wd_uuids := wd_uuids w1 + 2, wd_ticks := Suc (wd_ticks w1)\<rparr>"
      have i: "pf_id pf \<notin> fst ` set (tn_entries st)" "pf_id pf = i" "i \<notin> pf_id ` set (t_forwards (wd_db w))"
        using new fresh by (simp_all add: pf_def i_def)
      have db: "wd_db w2 = wd_db w1" by (simp add: w2_def)
      have m: "m_job session = j_id job" "m_tunnel session = i" "m_bind session = bh" by (simp_all add: session_def notebook_session_def pf_def)
      have c: "marimo_create req h f e w st = (case notebook_steps pf session (nr_timeout req) h f w2 st of
            Inl p \<Rightarrow> (case notebook_rollback p i (nf_delete f) v (j_id job) e of
              None \<Rightarrow> None | Some (w3, st3) \<Rightarrow> Some (Inl (startup_error (pg_error p)), w3, st3))
          | Inr (w3, st3) \<Rightarrow> (case nf_invalidate f of
              Some err \<Rightarrow> Some (Inl err, w3, st3) | None \<Rightarrow> Some (Inr session, w3, st3)))"
        unfolding marimo_create_def Some option.case s(1) [unfolded Inr q] sum.case prod.case Let_def session_def pf_def i_def w2_def
        using True by simp
      note out = steps_outcome [OF inv i(1), where s = session and timeout = "nr_timeout req" and h = h and f = f and w = w2]
      show ?thesis
      proof (cases "notebook_steps pf session (nr_timeout req) h f w2 st")
        case (Inr z)
        then obtain w3 st3 where z: "notebook_steps pf session (nr_timeout req) h f w2 st = Inr (w3, st3)" by (cases z) auto
        have o: "t_jobs (wd_db w3) = t_jobs (wd_db w1)" "t_marimo (wd_db w3) = t_marimo (wd_db w) @ [session]"
          "t_forwards (wd_db w3) = t_forwards (wd_db w) @ [pf\<lparr>pf_pid := int (tn_next st)\<rparr>]"
          "\<exists>p. tn_entries st3 = tn_entries st @ [(i, p)] \<and> tp_pid p = tn_next st"
          "tn_groups st3 = tn_next st # tn_groups st" "tn_next st3 = Suc (tn_next st)"
          using out unfolding z by (simp_all add: db a1 i(2))
        have "notebook_up (wd_db w) st (wd_db w3) st3 session job"
          using o start i(1,2) by (simp add: notebook_up_def m get_job_def)
        moreover have "reachable (wd_db w3)" by (rule reachable_quiet [OF s(2) o(1)])
        ultimately show ?thesis unfolding c z by (cases "nf_invalidate f") auto
      next
        case (Inl p)
        define d3 where "d3 = (if nf_delete f then pg_world p else (pg_world p)\<lparr>wd_db := delete_port_forward i (wd_db (pg_world p))\<rparr>)"
        have o: "t_jobs (wd_db (pg_world p)) = t_jobs (wd_db w1)"
          "filter (\<lambda>x. pf_id x \<noteq> i) (t_forwards (wd_db (pg_world p))) = filter (\<lambda>x. pf_id x \<noteq> i) (t_forwards (wd_db w))"
          "t_marimo (wd_db (pg_world p)) = t_marimo (wd_db w) \<or> (\<exists>err. nf_session f = Some (True, err))"
          "tn_entries (undone p i) = tn_entries st" "tn_groups (undone p i) = tn_groups st" "tn_next st \<le> tn_next (undone p i)"
          using out unfolding Inl by (simp_all add: db a1 i(2))
        have j: "t_jobs (wd_db d3) = t_jobs (wd_db w1)" using o(1) by (simp add: d3_def delete_port_forward_def)
        have f: "nf_delete f \<or> t_forwards (wd_db d3) = t_forwards (wd_db w)"
          using delete_keeps_forwards [OF o(2) i(3) refl] by (simp add: d3_def)
        have mm: "t_marimo (wd_db d3) = t_marimo (wd_db (pg_world p))" by (simp add: d3_def delete_port_forward_def)
        obtain a w3 where stop: "stop_job v (j_id job) e d3 = Some (a, w3)" "reachable (wd_db w3)"
          "t_forwards (wd_db w3) = t_forwards (wd_db d3)" "t_marimo (wd_db w3) = t_marimo (wd_db d3)"
          by (rule stop_returns [OF reachable_quiet [OF s(2) j]])
        have "marimo_create req h f e w st = Some (Inl (startup_error (pg_error p)), w3, undone p i)"
          using stop(1) unfolding c Inl by (simp add: notebook_rollback_def d3_def)
        moreover have "notebook_down f (wd_db w) st (wd_db w3) (undone p i)"
          using o f stop(3,4) mm by (auto simp: notebook_down_def)
        moreover have "a = Inr True \<Longrightarrow> (case get_job (j_id job) (wd_db w3) of Some j \<Rightarrow> \<not> job_active j | None \<Rightarrow> True)"
          using stopped_row [of v "j_id job" e d3 w3 job] stop(1) start j by (simp add: get_job_def)
        ultimately show ?thesis using stop(1,2) Some s(1) by (fastforce simp: Inr q)
      qed
    qed
  qed
qed

definition taken_down :: "string \<Rightarrow> tunnels \<Rightarrow> tunnels" where
  "taken_down i st = (case registry_remove i st of (entry, st1) \<Rightarrow>
     (case entry of None \<Rightarrow> st1 | Some p \<Rightarrow> snd (registry_stop (tp_pid p) st1)))"

lemma tun_inv_db [simp]: "tun_inv (st\<lparr>tn_db := d\<rparr>) = tun_inv st"
  by (simp add: tun_inv_def)

lemma tun_inv_taken_down:
  assumes "tun_inv st" shows "tun_inv (taken_down i st)"
proof -
  define row where "row = \<lparr>pf_id = i, pf_worker = '''', pf_local = 0, pf_remote = 0, pf_service = '''', pf_pid = 0, pf_created = 0\<rparr>"
  have f: "find (\<lambda>p. pf_id p = i) (list_port_forwards None ((tn_db st)\<lparr>t_forwards := [row]\<rparr>)) = Some row"
    by (simp add: list_port_forwards_def opt_filter_def row_def)
  have "tun_inv (snd (tunnels_delete i (st\<lparr>tn_db := (tn_db st)\<lparr>t_forwards := [row]\<rparr>\<rparr>)))"
    by (rule tun_inv_delete) (simp add: assms)
  moreover have "\<exists>d. snd (tunnels_delete i (st\<lparr>tn_db := (tn_db st)\<lparr>t_forwards := [row]\<rparr>\<rparr>)) = (taken_down i st)\<lparr>tn_db := d\<rparr>"
    using f by (auto simp: tunnels_delete_def taken_down_def registry_remove_def registry_stop_def row_def split: option.split)
  ultimately show ?thesis by auto
qed

lemma marimo_delete_outcome:
  assumes re: "reachable (wd_db w)"
  shows "\<exists>r w' st'. marimo_delete i e w st = Some (r, w', st') \<and> reachable (wd_db w') \<and>
    (case r of
       Inl _ \<Rightarrow> st' = st \<and> t_forwards (wd_db w') = t_forwards (wd_db w) \<and> t_marimo (wd_db w') = t_marimo (wd_db w)
     | Inr _ \<Rightarrow> get_marimo_session i (wd_db w') = None \<and>
         (\<exists>s. get_marimo_session i (wd_db w) = Some s \<and> st' = taken_down (m_tunnel s) st \<and>
           t_forwards (wd_db w') = filter (\<lambda>f. pf_id f \<noteq> m_tunnel s) (t_forwards (wd_db w))))"
proof (cases "get_marimo_session i (wd_db w)")
  case None
  then show ?thesis using re by (simp add: marimo_delete_def)
next
  case (Some s)
  have id: "m_id s = i" using Some by (auto simp: get_marimo_session_def dest: tbl_get_key)
  define fin :: "world \<Rightarrow> world" where "fin w1 = w1\<lparr>wd_db := delete_marimo_session (m_id s) (delete_port_forward (m_tunnel s) (wd_db w1))\<rparr>" for w1
  have gone: "get_marimo_session i (wd_db (fin w1)) = None" for w1
    using id by (auto simp: fin_def get_marimo_session_def delete_marimo_session_def tbl_get_def tbl_del_def find_None_iff)
  have jobs: "t_jobs (wd_db (fin w1)) = t_jobs (wd_db w1)" "t_forwards (wd_db (fin w1)) = filter (\<lambda>f. pf_id f \<noteq> m_tunnel s) (t_forwards (wd_db w1))" for w1
    by (simp_all add: fin_def delete_marimo_session_def delete_port_forward_def tbl_del_def)
  note kept = reachable_quiet [OF _ jobs(1)]
  have f: "(case registry_remove (m_tunnel s) st of (entry, st1) \<Rightarrow>
            Some (Inr (), w1\<lparr>wd_db := delete_marimo_session (m_id s) (delete_port_forward (m_tunnel s) (wd_db w1))\<rparr>,
              case entry of None \<Rightarrow> st1 | Some p \<Rightarrow> snd (registry_stop (tp_pid p) st1))) = Some (Inr (), fin w1, taken_down (m_tunnel s) st)" for w1
    by (simp add: taken_down_def fin_def split: prod.split)
  show ?thesis
  proof (cases "\<exists>job v. get_job (m_job s) (wd_db w) = Some job \<and> get_worker (m_worker s) (wd_db w) = Some v \<and> job_active job")
    case True
    then obtain job v where jv: "get_job (m_job s) (wd_db w) = Some job" "get_worker (m_worker s) (wd_db w) = Some v" "job_active job" by blast
    obtain a w1 where stop: "stop_job v (j_id job) e w = Some (a, w1)" "reachable (wd_db w1)"
      "t_forwards (wd_db w1) = t_forwards (wd_db w)" "t_marimo (wd_db w1) = t_marimo (wd_db w)" by (rule stop_returns [OF re])
    show ?thesis
    proof (cases a)
      case (Inl err)
      then show ?thesis using Some jv stop by (simp add: marimo_delete_def stop_marimo_session_def Let_def)
    next
      case (Inr stopped)
      have "stop_marimo_session s e w st = (if stopped then Some (Inr (), fin w1, taken_down (m_tunnel s) st)
          else Some (Inl (RuntimeErr (''failed to stop marimo job '' @ j_id job)), w1, st))"
        unfolding stop_marimo_session_def Let_def f using jv stop(1) Inr by simp
      then show ?thesis using Some stop gone [of w1] jobs [of w1] kept [OF stop(2)]
        by (cases stopped) (simp_all add: marimo_delete_def)
    qed
  next
    case False
    then have "stop_marimo_session s e w st = Some (Inr (), fin w, taken_down (m_tunnel s) st)"
      by (auto simp: stop_marimo_session_def Let_def f split: option.splits)
    then show ?thesis using Some gone jobs kept [OF re] by (simp add: marimo_delete_def)
  qed
qed

lemma tun_inv_up:
  assumes "tun_inv st" "notebook_up d st d' st' s job"
  shows "tun_inv st'"
proof -
  obtain p where "tn_entries st' = tn_entries st @ [(m_tunnel s, p)]" "tp_pid p = tn_next st"
    "tn_groups st' = tn_next st # tn_groups st" "tn_next st' = Suc (tn_next st)" "m_tunnel s \<notin> fst ` set (tn_entries st)"
    using assms(2) by (auto simp: notebook_up_def)
  then show ?thesis using assms(1) unfolding tun_inv_def by fastforce
qed

lemma tun_inv_down: "tun_inv st \<Longrightarrow> notebook_down f d st d' st' \<Longrightarrow> tun_inv st'"
  unfolding tun_inv_def notebook_down_def by fastforce

lemma net_reach_inv: "net_reach st \<Longrightarrow> tun_inv st"
proof (induction rule: net_reach.induct)
  case (exits st pid) then show ?case by (simp add: tun_inv_def)
next
  case (boot d n) show ?case by (simp add: tun_inv_def)
next
  case (notebook st e w nreq h nf r w' st')
  from marimo_create_outcome [OF notebook.IH notebook.hyps(5,2,4), of nreq h nf] notebook.hyps(6)
  consider s job where "notebook_up (wd_db w) st (wd_db w') st' s job" | "notebook_down nf (wd_db w) st (wd_db w') st'" by auto
  then show ?case
  proof cases
    case (1 s job)
    then show ?thesis using tun_inv_up [OF notebook.IH 1] by simp
  next
    case 2
    then show ?thesis using tun_inv_down [OF notebook.IH] by simp
  qed
next
  case (unload st w i e r' w' st')
  from marimo_delete_outcome [OF unload.hyps(3), of i e st] unload.hyps(4)
  have "st' = st \<or> (\<exists>k. st' = taken_down k st)" by (auto split: sum.splits)
  then show ?case using unload.IH tun_inv_taken_down by auto
qed (simp_all add: tun_inv_create tun_inv_delete tun_inv_reap tun_inv_shutdown)


definition notebook_env :: env where
  "notebook_env = demo_env\<lparr>o_remote := (\<lambda>_. Inr \<lparr>sr_out = ''80'', sr_err = '''', sr_rc = 0\<rparr>),
     o_environ := (\<lambda>k. if k = ''WH_TAILNET_BIND_HOST'' then Some ''100.64.0.5''
       else if k = ''WH_MARIMO_PORT_MIN'' then Some ''5'' else if k = ''WH_MARIMO_PORT_MAX'' then Some ''6'' else None)\<rparr>"

definition notebook_on :: notebook_host where
  "notebook_on = \<lparr>nh_aton = (\<lambda>_. True), nh_tailscale = None, nh_bindable = (\<lambda>_ p. p = 6), nh_probe = (\<lambda>n. (0, if n = 1 then Some 200 else None))\<rparr>"

definition notebook_ask :: notebook_request where
  "notebook_ask = \<lparr>nr_worker = ''w'', nr_notebook = ''/n.py'', nr_environment = ''/env'', nr_timeout = 10\<rparr>"

definition calm :: "error option \<Rightarrow> notebook_faults" where
  "calm cancelled = \<lparr>nf_setup = None, nf_exits = False, nf_insert = None, nf_wait = cancelled, nf_session = None, nf_delete = False, nf_invalidate = None\<rparr>"


end
