(* ===== verification/Cache.thy ===== *)
theory Cache
  imports Complex_Main "HOL-Library.AList" Py_Lib
begin

text \<open>
  \<open>TTLCache\<close> of \<open>cache.py\<close> and the cached loaders of \<open>heartbeat.py\<close>.  Every method holds the lock
  throughout and reads the monotonic clock at most once, so a method is a function of that reading
  and the state.  The dict is an association list in insertion order.
\<close>

section \<open>State and operations\<close>

record 'v entry =
  en_value :: 'v
  en_expires :: rat

record 'v cache =
  ca_store :: "(string \<times> 'v entry) list"
  ca_hits :: int
  ca_misses :: int
  ca_evictions :: int
  ca_size :: int

definition new_cache :: "'v cache" where
  "new_cache = \<lparr>ca_store = [], ca_hits = 0, ca_misses = 0, ca_evictions = 0, ca_size = 0\<rparr>"

definition store_size :: "(string \<times> 'v entry) list \<Rightarrow> int" where
  "store_size s = int (length s)"

definition cache_get :: "string \<Rightarrow> rat \<Rightarrow> 'v cache \<Rightarrow> 'v option \<times> 'v cache" where
  "cache_get key t c = (case map_of (ca_store c) key of
     None \<Rightarrow> (None, c\<lparr>ca_misses := ca_misses c + 1\<rparr>)
   | Some e \<Rightarrow>
     if en_expires e < t then
       (let s = AList.delete key (ca_store c)
        in (None, c\<lparr>ca_store := s, ca_size := store_size s, ca_evictions := ca_evictions c + 1,
              ca_misses := ca_misses c + 1\<rparr>))
     else (Some (en_value e), c\<lparr>ca_hits := ca_hits c + 1\<rparr>))"

definition cache_set :: "string \<Rightarrow> 'v \<Rightarrow> rat \<Rightarrow> rat \<Rightarrow> 'v cache \<Rightarrow> 'v cache" where
  "cache_set key v ttl t c =
     (let s = AList.update key \<lparr>en_value = v, en_expires = t + ttl\<rparr> (ca_store c)
      in c\<lparr>ca_store := s, ca_size := store_size s\<rparr>)"

definition cache_invalidate :: "string \<Rightarrow> 'v cache \<Rightarrow> bool \<times> 'v cache" where
  "cache_invalidate key c =
     (if map_of (ca_store c) key \<noteq> None then
        (let s = AList.delete key (ca_store c)
         in (True, c\<lparr>ca_store := s, ca_size := store_size s, ca_evictions := ca_evictions c + 1\<rparr>))
      else (False, c))"

definition cache_invalidate_prefix :: "string \<Rightarrow> 'v cache \<Rightarrow> int \<times> 'v cache" where
  "cache_invalidate_prefix prefix c =
     (let keys = filter (startswith prefix) (map fst (ca_store c));
          s = fold AList.delete keys (ca_store c)
      in (int (length keys), c\<lparr>ca_store := s, ca_evictions := ca_evictions c + int (length keys), ca_size := store_size s\<rparr>))"

definition cache_clear :: "'v cache \<Rightarrow> 'v cache" where
  "cache_clear c = c\<lparr>ca_store := [], ca_size := 0, ca_evictions := ca_evictions c + 1\<rparr>"

text \<open>\<open>stats\<close>: hits, misses, size, evictions.\<close>

definition cache_stats :: "'v cache \<Rightarrow> int \<times> int \<times> int \<times> int" where
  "cache_stats c = (ca_hits c, ca_misses c, store_size (ca_store c), ca_evictions c)"

text \<open>The query is a dict of already converted values.\<close>

definition cache_key_for_request :: "string \<Rightarrow> (string \<times> string) list \<Rightarrow> string" where
  "cache_key_for_request path query =
     (if query = [] then path
      else path @ ''?'' @ join ''&'' (map (\<lambda>(k, v). k @ ''='' @ v) (sort_key (\<lambda>kv. kv) query)))"

text \<open>The helper \<open>cached\<close> of \<open>heartbeat.py\<close>: \<open>loaded\<close> is what the loader returns or raises, and is
  used only after a miss.\<close>

definition cached_load :: "string \<Rightarrow> rat \<Rightarrow> rat \<Rightarrow> rat \<Rightarrow> 'v res \<Rightarrow> 'v cache \<Rightarrow> 'v res \<times> 'v cache" where
  "cached_load key ttl t1 t2 loaded c = (case cache_get key t1 c of
     (Some v, c') \<Rightarrow> (Inr v, c')
   | (None, c') \<Rightarrow> (case loaded of Inl err \<Rightarrow> (Inl err, c') | Inr v \<Rightarrow> (Inr v, cache_set key v ttl t2 c')))"

definition invalidate_workers_cache :: "'v cache \<Rightarrow> 'v cache" where
  "invalidate_workers_cache c =
     fold (\<lambda>k c. snd (cache_invalidate k c)) [''workers:list'', ''workers:summary'', ''data:paths:False'', ''data:paths:True''] c"

section \<open>Runs of operations and what they should mean\<close>

datatype 'v cache_op = Get string | Put string 'v rat | Invalidate string | InvalidatePrefix string | Clear

fun cache_apply :: "rat \<Rightarrow> 'v cache_op \<Rightarrow> 'v cache \<Rightarrow> 'v cache" where
  "cache_apply t (Get k) c = snd (cache_get k t c)"
| "cache_apply t (Put k v ttl) c = cache_set k v ttl t c"
| "cache_apply t (Invalidate k) c = snd (cache_invalidate k c)"
| "cache_apply t (InvalidatePrefix p) c = snd (cache_invalidate_prefix p c)"
| "cache_apply t Clear c = cache_clear c"

text \<open>A history is newest first; \<open>last_put\<close> is what a map that forgets at its deadline and at an
  invalidation holds for a key.\<close>

fun cache_run :: "(rat \<times> 'v cache_op) list \<Rightarrow> 'v cache" where
  "cache_run [] = new_cache"
| "cache_run ((t, op) # older) = cache_apply t op (cache_run older)"

fun last_put :: "string \<Rightarrow> (rat \<times> 'v cache_op) list \<Rightarrow> ('v \<times> rat) option" where
  "last_put k [] = None"
| "last_put k ((t, op) # older) = (case op of
     Get _ \<Rightarrow> last_put k older
   | Put k' v ttl \<Rightarrow> if k' = k then Some (v, t + ttl) else last_put k older
   | Invalidate k' \<Rightarrow> if k' = k then None else last_put k older
   | InvalidatePrefix p \<Rightarrow> if startswith p k then None else last_put k older
   | Clear \<Rightarrow> None)"

definition visible :: "rat \<Rightarrow> ('v \<times> rat) option \<Rightarrow> 'v option" where
  "visible t x = (case x of None \<Rightarrow> None | Some (v, expires) \<Rightarrow> if expires < t then None else Some v)"

definition entry_pair :: "'v entry \<Rightarrow> 'v \<times> rat" where
  "entry_pair e = (en_value e, en_expires e)"

section \<open>Lemmas\<close>

lemma map_of_fold_delete: "map_of (fold AList.delete ks s) k = (if k \<in> set ks then None else map_of s k)"
  by (induction ks arbitrary: s) (auto simp: AList.delete_conv)

lemma get_visible: "fst (cache_get k t c) = visible t (map_option entry_pair (map_of (ca_store c) k))"
  by (auto simp: cache_get_def visible_def entry_pair_def Let_def split: option.split)

lemma store_after:
  "map_of (ca_store (snd (cache_get k' u c))) k =
     (case map_of (ca_store c) k of None \<Rightarrow> None | Some e \<Rightarrow> if k = k' \<and> en_expires e < u then None else Some e)"
  "map_of (ca_store (cache_set k' v ttl u c)) k =
     (if k = k' then Some \<lparr>en_value = v, en_expires = u + ttl\<rparr> else map_of (ca_store c) k)"
  "map_of (ca_store (snd (cache_invalidate k' c))) k = (if k = k' then None else map_of (ca_store c) k)"
  "map_of (ca_store (snd (cache_invalidate_prefix p c))) k = (if startswith p k then None else map_of (ca_store c) k)"
  "map_of (ca_store (cache_clear c)) k = None"
proof -
  have "map_of s k = None" if "k \<notin> fst ` set s" for s :: "(string \<times> 'a entry) list" using that by (simp add: map_of_eq_None_iff)
  then show "map_of (ca_store (snd (cache_invalidate_prefix p c))) k = (if startswith p k then None else map_of (ca_store c) k)"
    by (auto simp: cache_invalidate_prefix_def Let_def map_of_fold_delete)
qed (auto simp: cache_get_def cache_set_def cache_invalidate_def cache_clear_def Let_def AList.delete_conv AList.update_conv
    split: option.split)

lemma visible_simps [simp]: "visible t None = None" "visible t (Some (v, x)) = (if x < t then None else Some v)"
    "entry_pair \<lparr>en_value = v, en_expires = x\<rparr> = (v, x)"
  by (simp_all add: visible_def entry_pair_def)

lemma run_visible:
  assumes "sorted_wrt (\<ge>) (t # map fst ops)"
  shows "visible t (map_option entry_pair (map_of (ca_store (cache_run ops)) k)) = visible t (last_put k ops)"
  using assms
proof (induction ops rule: cache_run.induct)
  case (2 u op older)
  have IH: "visible t (map_option entry_pair (map_of (ca_store (cache_run older)) k)) = visible t (last_put k older)"
    using 2 by simp
  have "u \<le> t" using "2.prems" by simp
  show ?case
  proof (cases op)
    case (Get k')
    with IH \<open>u \<le> t\<close> show ?thesis
      by (cases "map_of (ca_store (cache_run older)) k") (auto simp: store_after entry_pair_def)
  qed (use IH in \<open>simp_all add: store_after\<close>)
qed (simp add: new_cache_def)

lemma fold_delete_distinct: "distinct (map fst s) \<Longrightarrow> distinct (map fst (fold AList.delete ks s))"
  by (induction ks arbitrary: s) (simp_all add: AList.distinct_delete)

definition cache_ok :: "'v cache \<Rightarrow> bool" where
  "cache_ok c = (ca_size c = store_size (ca_store c) \<and> distinct (map fst (ca_store c)))"

lemma cache_apply_ok: "cache_ok c \<Longrightarrow> cache_ok (cache_apply t op c)"
  by (cases op)
    (auto simp: cache_ok_def cache_get_def cache_set_def cache_invalidate_def cache_invalidate_prefix_def cache_clear_def
      store_size_def Let_def AList.distinct_delete AList.distinct_update fold_delete_distinct split: option.split)

lemma cache_run_ok: "cache_ok (cache_run ops)"
proof (induction ops rule: cache_run.induct)
  case 1
  show ?case by (simp add: new_cache_def cache_ok_def store_size_def)
qed (simp add: cache_apply_ok)

lemma stored_keys: "distinct (map fst s) \<Longrightarrow> card (dom (map_of s)) = length s"
  by (metis distinct_card dom_map_of_conv_image_fst length_map set_map)

definition gets :: "(rat \<times> 'v cache_op) list \<Rightarrow> int" where
  "gets ops = int (length (filter (\<lambda>(t, op). case op of Get _ \<Rightarrow> True | _ \<Rightarrow> False) ops))"

lemma cache_run_counts: "ca_hits (cache_run ops) + ca_misses (cache_run ops) = gets ops"
proof (induction ops rule: cache_run.induct)
  case (2 t op older)
  then show ?case
    by (cases op)
      (auto simp: gets_def cache_get_def cache_set_def cache_invalidate_def cache_invalidate_prefix_def cache_clear_def
        Let_def split: option.split)
qed (simp add: new_cache_def gets_def)

section \<open>Properties\<close>

text \<open>
  The cache is a map with deadlines: after any history of calls with a monotonic clock, a
  read of a key returns exactly the value of the last \<open>set\<close> of that key, unless that value has
  passed its deadline or was dropped since by \<open>invalidate\<close>, \<open>invalidate_prefix\<close> or \<open>clear\<close>; the lazy
  eviction on reads is never visible.
\<close>

theorem cache_is_deadline_map:
  assumes "sorted_wrt (\<ge>) (t # map fst ops)"
  shows "fst (cache_get k t (cache_run ops)) = visible t (last_put k ops)"
  using run_visible [OF assms] by (simp add: get_visible)

theorem cache_is_deadline_map_witness:
  "fst (cache_get ''a'' 9 (cache_run [(8, Get ''a''), (5, InvalidatePrefix ''b''), (4, Put ''a'' (7 :: nat) 5), (2, Put ''bc'' 3 60)])) = Some 7"
  using cache_is_deadline_map [of 9 "[(8, Get ''a''), (5, InvalidatePrefix ''b''), (4, Put ''a'' (7 :: nat) 5), (2, Put ''bc'' 3 60)]" "''a''"]
  by (simp add: visible_def startswith_def)

text \<open>
  The statistics are consistent: after any history the size gauge is the number of stored
  keys, no key is stored twice, and every read was counted as either a hit or a miss.
\<close>

theorem cache_statistics:
  "ca_size (cache_run ops) = int (card (dom (map_of (ca_store (cache_run ops))))) \<and>
   distinct (map fst (ca_store (cache_run ops))) \<and>
   ca_hits (cache_run ops) + ca_misses (cache_run ops) = gets ops"
  using cache_run_ok [of ops] stored_keys cache_run_counts
  by (auto simp: cache_ok_def store_size_def)

end
