(* ===== verification/Lanes.thy ===== *)
theory Lanes
  imports Models
begin

text \<open>
  \<open>WorkerLanes\<close> of \<open>lanes.py\<close>: at most \<open>max_concurrent\<close> remote calls per worker, a bounded FIFO
  queue of waiters behind them.  The code holds \<open>state.lock\<close> only over code that does not suspend,
  so every section under the lock is one step.  A waiter is the future of one \<open>acquire\<close> call; calls
  are numbered and the phase of each is part of the state, because timeouts, cancellations and
  wake-ups of the waiting tasks come from the event loop in any order.  Waiting times only feed the
  metrics and are left out.
\<close>

section \<open>State\<close>

text \<open>The state of a waiter future, and the phase of an \<open>acquire\<close> call.  A call that is woken with a
  granted future but has not run yet is \<open>Queued Granted\<close>.\<close>

datatype fut = Waiting | Granted | Cancelled

datatype phase = Queued fut | Holding | Finished

record lane =
  ln_available :: int
  ln_max_queue :: int
  ln_waiters :: "nat list"
  ln_in_use :: int
  ln_timeouts :: int
  ln_acquires :: int
  ln_calls :: "phase list"

definition new_lane :: "int \<Rightarrow> int \<Rightarrow> lane" where
  "new_lane max_concurrent max_queue = \<lparr>ln_available = max_concurrent, ln_max_queue = max_queue, ln_waiters = [],
     ln_in_use = 0, ln_timeouts = 0, ln_acquires = 0, ln_calls = []\<rparr>"

definition phase_of :: "lane \<Rightarrow> nat \<Rightarrow> phase" where
  "phase_of s f = (if f < length (ln_calls s) then ln_calls s ! f else Finished)"

definition set_phase :: "nat \<Rightarrow> phase \<Rightarrow> lane \<Rightarrow> lane" where
  "set_phase f p s = s\<lparr>ln_calls := (ln_calls s)[f := p]\<rparr>"

definition fut_done :: "lane \<Rightarrow> nat \<Rightarrow> bool" where
  "fut_done s f = (phase_of s f \<noteq> Queued Waiting)"

section \<open>Operations\<close>

text \<open>\<open>_release_locked\<close>: the loop pops waiters until one can be handed the slot.\<close>

fun release_to :: "nat list \<Rightarrow> lane \<Rightarrow> lane" where
  "release_to [] s = s\<lparr>ln_waiters := [], ln_in_use := ln_in_use s - 1, ln_available := ln_available s + 1\<rparr>"
| "release_to (f # fs) s =
    (if \<not> fut_done s f then set_phase f (Queued Granted) (s\<lparr>ln_waiters := fs\<rparr>) else release_to fs s)"

definition release_locked :: "lane \<Rightarrow> lane" where
  "release_locked s = release_to (ln_waiters s) s"

definition abandon_waiter :: "nat \<Rightarrow> lane \<Rightarrow> bool \<times> lane" where
  "abandon_waiter f s =
     (if f \<in> set (ln_waiters s)
      then (False, set_phase f (Queued Cancelled) (s\<lparr>ln_waiters := remove1 f (ln_waiters s)\<rparr>))
      else if phase_of s f = Queued Granted then (True, release_locked s) else (False, s))"

text \<open>The first section of \<open>acquire\<close>: a slot, a place in the queue, or \<open>LaneTimeout\<close> because the
  queue is full.\<close>

definition acquire_enter :: "lane \<Rightarrow> phase \<times> lane" where
  "acquire_enter s =
     (if ln_available s > 0 \<and> ln_waiters s = []
      then (Holding, s\<lparr>ln_available := ln_available s - 1, ln_in_use := ln_in_use s + 1,
              ln_acquires := ln_acquires s + 1, ln_calls := ln_calls s @ [Holding]\<rparr>)
      else if int (length (ln_waiters s)) \<ge> ln_max_queue s
      then (Finished, s\<lparr>ln_timeouts := ln_timeouts s + 1, ln_calls := ln_calls s @ [Finished]\<rparr>)
      else (Queued Waiting, s\<lparr>ln_waiters := ln_waiters s @ [length (ln_calls s)],
              ln_calls := ln_calls s @ [Queued Waiting]\<rparr>))"

text \<open>The four ways a call goes on: it wakes up with the slot, it times out, it is cancelled, or the
  body of the \<open>async with\<close> ends and the slot is released.\<close>

definition acquire_wake :: "nat \<Rightarrow> lane \<Rightarrow> lane" where
  "acquire_wake f s = set_phase f Holding (s\<lparr>ln_acquires := ln_acquires s + 1\<rparr>)"

definition acquire_timeout :: "nat \<Rightarrow> lane \<Rightarrow> lane" where
  "acquire_timeout f s =
     (let s' = snd (abandon_waiter f s) in set_phase f Finished (s'\<lparr>ln_timeouts := ln_timeouts s' + 1\<rparr>))"

definition acquire_cancelled :: "nat \<Rightarrow> lane \<Rightarrow> lane" where
  "acquire_cancelled f s = set_phase f Finished (snd (abandon_waiter f s))"

definition acquire_exit :: "nat \<Rightarrow> lane \<Rightarrow> lane" where
  "acquire_exit f s = set_phase f Finished (release_locked s)"

text \<open>\<open>shutdown\<close> of one lane: the queued waiters are popped and cancelled.\<close>

fun cancel_all :: "nat list \<Rightarrow> lane \<Rightarrow> lane" where
  "cancel_all [] s = s\<lparr>ln_waiters := []\<rparr>"
| "cancel_all (f # fs) s = cancel_all fs (if fut_done s f then s else set_phase f (Queued Cancelled) s)"

definition shutdown_lane :: "lane \<Rightarrow> lane" where
  "shutdown_lane s = cancel_all (ln_waiters s) s"

section \<open>The registry\<close>

record worker_lanes =
  wl_max_concurrent :: int
  wl_max_queue :: int
  wl_states :: "(string \<times> lane) list"

definition new_worker_lanes :: "int \<Rightarrow> int \<Rightarrow> worker_lanes res" where
  "new_worker_lanes max_concurrent max_queue =
     (if max_concurrent < 1 then Inl (ValueErr ''max_concurrent must be >= 1'')
      else if max_queue < 0 then Inl (ValueErr ''max_queue must be >= 0'')
      else Inr \<lparr>wl_max_concurrent = max_concurrent, wl_max_queue = max_queue, wl_states = []\<rparr>)"

definition state_for :: "string \<Rightarrow> worker_lanes \<Rightarrow> lane \<times> worker_lanes" where
  "state_for wid ls = (case map_of (wl_states ls) wid of
     Some s \<Rightarrow> (s, ls)
   | None \<Rightarrow> (let s = new_lane (wl_max_concurrent ls) (wl_max_queue ls)
              in (s, ls\<lparr>wl_states := wl_states ls @ [(wid, s)]\<rparr>)))"

definition put_lane :: "string \<Rightarrow> lane \<Rightarrow> worker_lanes \<Rightarrow> worker_lanes" where
  "put_lane wid s ls = ls\<lparr>wl_states := map (\<lambda>(k, v). if k = wid then (k, s) else (k, v)) (wl_states ls)\<rparr>"

text \<open>\<open>stats\<close>: (in_use, queue_depth, acquires_total, timeouts_total) per worker.\<close>

definition lane_stats :: "worker_lanes \<Rightarrow> (string \<times> int \<times> int \<times> int \<times> int) list" where
  "lane_stats ls = map (\<lambda>(k, s). (k, ln_in_use s, int (length (ln_waiters s)), ln_acquires s, ln_timeouts s)) (wl_states ls)"

text \<open>Everything that can happen to the lanes of all workers, one section under a lock at a time.\<close>

inductive lanes_step :: "worker_lanes \<Rightarrow> worker_lanes \<Rightarrow> bool" where
  enter: "state_for wid ls = (s, ls') \<Longrightarrow> acquire_enter s = (p, s') \<Longrightarrow> lanes_step ls (put_lane wid s' ls')"
| wake: "map_of (wl_states ls) wid = Some s \<Longrightarrow> phase_of s f = Queued Granted \<Longrightarrow>
    lanes_step ls (put_lane wid (acquire_wake f s) ls)"
| timeout: "map_of (wl_states ls) wid = Some s \<Longrightarrow> phase_of s f = Queued x \<Longrightarrow>
    lanes_step ls (put_lane wid (acquire_timeout f s) ls)"
| cancelled: "map_of (wl_states ls) wid = Some s \<Longrightarrow> phase_of s f = Queued x \<Longrightarrow>
    lanes_step ls (put_lane wid (acquire_cancelled f s) ls)"
| exit: "map_of (wl_states ls) wid = Some s \<Longrightarrow> phase_of s f = Holding \<Longrightarrow>
    lanes_step ls (put_lane wid (acquire_exit f s) ls)"
| shutdown: "map_of (wl_states ls) wid = Some s \<Longrightarrow> lanes_step ls (put_lane wid (shutdown_lane s) ls)"
| forget: "lanes_step ls (ls\<lparr>wl_states := []\<rparr>)"

definition lanes_reachable :: "worker_lanes \<Rightarrow> bool" where
  "lanes_reachable ls = (\<exists>c q ls0. new_worker_lanes c q = Inr ls0 \<and> lanes_step\<^sup>*\<^sup>* ls0 ls)"

section \<open>The invariant of a lane\<close>

definition owns_slot :: "phase \<Rightarrow> bool" where
  "owns_slot p = (p = Holding \<or> p = Queued Granted)"

fun owners :: "phase list \<Rightarrow> int" where
  "owners [] = 0"
| "owners (p # ps) = (if owns_slot p then 1 else 0) + owners ps"

definition waiting_calls :: "phase list \<Rightarrow> nat list" where
  "waiting_calls ps = filter (\<lambda>f. ps ! f = Queued Waiting) [0..<length ps]"

definition lane_inv :: "int \<Rightarrow> int \<Rightarrow> lane \<Rightarrow> bool" where
  "lane_inv c q s = (ln_in_use s = owners (ln_calls s) \<and> ln_available s + ln_in_use s = c \<and> 0 \<le> ln_available s \<and>
     ln_waiters s = waiting_calls (ln_calls s) \<and> ln_max_queue s = q \<and> int (length (waiting_calls (ln_calls s))) \<le> q \<and>
     (ln_waiters s \<noteq> [] \<longrightarrow> ln_available s = 0))"

lemma owners_append [simp]: "owners (ps @ qs) = owners ps + owners qs"
  by (induction ps) auto

lemma owners_nonneg [simp]: "0 \<le> owners ps"
  by (induction ps) auto

lemma owners_update: "f < length ps \<Longrightarrow>
    owners (ps[f := p]) = owners ps - (if owns_slot (ps ! f) then 1 else 0) + (if owns_slot p then 1 else 0)"
  by (induction ps arbitrary: f) (auto split: nat.splits)

lemma owners_pos: "f < length ps \<Longrightarrow> owns_slot (ps ! f) \<Longrightarrow> 1 \<le> owners ps"
  by (induction ps arbitrary: f) (auto simp: nth_Cons split: nat.splits)

lemma owners_0: "(\<forall>p \<in> set ps. \<not> owns_slot p) \<Longrightarrow> owners ps = 0"
  by (induction ps) auto

lemma waiting_calls_append: "waiting_calls (ps @ [p]) = waiting_calls ps @ (if p = Queued Waiting then [length ps] else [])"
  by (auto simp: waiting_calls_def nth_append intro!: filter_cong)

lemma set_waiting_calls: "f \<in> set (waiting_calls ps) \<longleftrightarrow> f < length ps \<and> ps ! f = Queued Waiting"
  by (auto simp: waiting_calls_def)

lemma distinct_waiting_calls: "distinct (waiting_calls ps)"
  by (simp add: waiting_calls_def)

lemma sorted_waiting_calls: "sorted_wrt (<) (waiting_calls ps)"
  by (simp add: waiting_calls_def sorted_wrt_filter)

lemma waiting_calls_update: "p \<noteq> Queued Waiting \<Longrightarrow> waiting_calls (ps[f := p]) = filter (\<lambda>g. g \<noteq> f) (waiting_calls ps)"
  by (cases "f < length ps") (auto simp: waiting_calls_def nth_list_update intro!: filter_cong)

lemma waiting_calls_drop: "ps ! f \<noteq> Queued Waiting \<Longrightarrow> filter (\<lambda>g. g \<noteq> f) (waiting_calls ps) = waiting_calls ps"
  by (rule filter_True) (auto simp: set_waiting_calls)

lemma lane_inv_new: "1 \<le> c \<Longrightarrow> 0 \<le> q \<Longrightarrow> lane_inv c q (new_lane c q)"
  by (simp add: lane_inv_def new_lane_def waiting_calls_def)

lemma acquire_enter_inv: "lane_inv c q s \<Longrightarrow> acquire_enter s = (p, s') \<Longrightarrow> lane_inv c q s'"
  by (auto simp: acquire_enter_def lane_inv_def waiting_calls_append owns_slot_def split: if_splits)

lemma phase_of_len: "phase_of s f = Queued x \<or> phase_of s f = Holding \<Longrightarrow> f < length (ln_calls s) \<and> ln_calls s ! f = phase_of s f"
  by (auto simp: phase_of_def split: if_splits)

text \<open>A release by the call \<open>g\<close> that owns a slot, with \<open>g\<close> finished afterwards.\<close>

lemma release_inv:
  assumes inv: "lane_inv c q s" and g: "g < length (ln_calls s)" "owns_slot (ln_calls s ! g)"
  shows "lane_inv c q (set_phase g Finished (release_locked s))"
proof (cases "ln_waiters s")
  case Nil
  with inv g show ?thesis
    by (auto simp: release_locked_def set_phase_def lane_inv_def owners_update waiting_calls_update owns_slot_def)
next
  case (Cons f fs)
  have wc: "waiting_calls (ln_calls s) = f # fs" using inv Cons by (simp add: lane_inv_def)
  have f: "f < length (ln_calls s)" "ln_calls s ! f = Queued Waiting"
    using set_waiting_calls [of f "ln_calls s"] unfolding wc by simp_all
  have "f \<noteq> g" using f(2) g(2) by (auto simp: owns_slot_def)
  have "f \<notin> set fs" "g \<notin> set fs"
    using distinct_waiting_calls [of "ln_calls s"] set_waiting_calls [of g "ln_calls s"] g(2)
    unfolding wc by (auto simp: owns_slot_def)
  have fs: "filter (\<lambda>h. h \<noteq> g) (filter (\<lambda>h. h \<noteq> f) (waiting_calls (ln_calls s))) = fs"
    unfolding wc using \<open>f \<notin> set fs\<close> \<open>g \<notin> set fs\<close> by (auto simp: filter_id_conv)
  have r: "release_locked s = set_phase f (Queued Granted) (s\<lparr>ln_waiters := fs\<rparr>)"
    using Cons f by (simp add: release_locked_def fut_done_def phase_of_def)
  have "owners ((ln_calls s)[f := Queued Granted, g := Finished]) = owners (ln_calls s)"
    using f g \<open>f \<noteq> g\<close> by (simp add: owners_update owns_slot_def)
  moreover have "waiting_calls ((ln_calls s)[f := Queued Granted, g := Finished]) = fs"
    using fs by (simp add: waiting_calls_update)
  ultimately show ?thesis
    using inv Cons wc unfolding r by (simp add: lane_inv_def set_phase_def)
qed

lemma wake_inv:
  assumes "lane_inv c q s" "phase_of s f = Queued Granted"
  shows "lane_inv c q (acquire_wake f s)"
  using assms phase_of_len [of s f]
  by (auto simp: lane_inv_def acquire_wake_def set_phase_def owners_update owns_slot_def waiting_calls_update waiting_calls_drop)

lemma exit_inv:
  assumes "lane_inv c q s" "phase_of s f = Holding"
  shows "lane_inv c q (acquire_exit f s)"
  unfolding acquire_exit_def
  by (rule release_inv [OF assms(1)]) (use assms(2) phase_of_len [of s f] in \<open>auto simp: owns_slot_def\<close>)

lemma cancelled_inv:
  assumes inv: "lane_inv c q s" and f: "phase_of s f = Queued x"
  shows "lane_inv c q (acquire_cancelled f s)"
proof -
  have l: "f < length (ln_calls s)" "ln_calls s ! f = Queued x" using f phase_of_len [of s f] by auto
  have w: "f \<in> set (ln_waiters s) \<longleftrightarrow> x = Waiting"
    using inv l by (auto simp: lane_inv_def set_waiting_calls)
  show ?thesis
  proof (cases x)
    case Waiting
    have "remove1 f (ln_waiters s) = filter (\<lambda>g. g \<noteq> f) (waiting_calls (ln_calls s))"
      using inv distinct_waiting_calls by (simp add: lane_inv_def distinct_remove1_removeAll removeAll_filter_not_eq neq_commute)
    moreover have "int (length (filter (\<lambda>g. g \<noteq> f) (waiting_calls (ln_calls s)))) \<le> q"
    proof -
      have "int (length (waiting_calls (ln_calls s))) \<le> q" using inv unfolding lane_inv_def by metis
      with length_filter_le [of "\<lambda>g. g \<noteq> f" "waiting_calls (ln_calls s)"] show ?thesis by linarith
    qed
    ultimately show ?thesis
      using inv l w Waiting
      by (auto simp: acquire_cancelled_def abandon_waiter_def set_phase_def lane_inv_def owners_update owns_slot_def
          waiting_calls_update)
  next
    case Granted
    then have "acquire_cancelled f s = set_phase f Finished (release_locked s)"
      using w f by (simp add: acquire_cancelled_def abandon_waiter_def)
    with release_inv [OF inv l(1)] l(2) Granted show ?thesis by (simp add: owns_slot_def)
  next
    case Cancelled
    then show ?thesis
      using inv l w f
      by (simp add: acquire_cancelled_def abandon_waiter_def set_phase_def lane_inv_def owners_update owns_slot_def
          waiting_calls_update waiting_calls_drop)
  qed
qed

lemma lane_inv_timeouts [simp]: "lane_inv c q (s\<lparr>ln_timeouts := n\<rparr>) = lane_inv c q s"
  by (simp add: lane_inv_def)

lemma timeout_inv:
  assumes "lane_inv c q s" "phase_of s f = Queued x"
  shows "lane_inv c q (acquire_timeout f s)"
proof -
  have "acquire_timeout f s = (acquire_cancelled f s)\<lparr>ln_timeouts := ln_timeouts (snd (abandon_waiter f s)) + 1\<rparr>"
    by (simp add: acquire_timeout_def acquire_cancelled_def set_phase_def Let_def)
  with cancelled_inv [OF assms] show ?thesis by simp
qed

lemma cancel_all_inv:
  assumes "lane_inv c q s"
  shows "lane_inv c q (shutdown_lane s)"
proof -
  have gen: "owners (ln_calls (cancel_all fs s)) = owners (ln_calls s) \<and>
     waiting_calls (ln_calls (cancel_all fs s)) = filter (\<lambda>g. g \<notin> set fs) (waiting_calls (ln_calls s)) \<and>
     ln_waiters (cancel_all fs s) = [] \<and> ln_in_use (cancel_all fs s) = ln_in_use s \<and>
     ln_available (cancel_all fs s) = ln_available s \<and> ln_max_queue (cancel_all fs s) = ln_max_queue s" for fs s
  proof (induction fs arbitrary: s)
    case (Cons f fs)
    have "waiting_calls (ln_calls (if fut_done s f then s else set_phase f (Queued Cancelled) s)) =
        filter (\<lambda>g. g \<noteq> f) (waiting_calls (ln_calls s))"
      by (auto simp: set_phase_def fut_done_def phase_of_def waiting_calls_update set_waiting_calls
          intro!: filter_True [symmetric] split: if_splits)
    moreover have "owners (ln_calls (if fut_done s f then s else set_phase f (Queued Cancelled) s)) = owners (ln_calls s)"
      by (auto simp: set_phase_def fut_done_def phase_of_def owners_update owns_slot_def split: if_splits)
    ultimately show ?case
      using Cons.IH [of "if fut_done s f then s else set_phase f (Queued Cancelled) s"]
      by (auto simp: set_phase_def conj_commute intro!: filter_cong)
  qed simp
  have "filter (\<lambda>g. g \<notin> set (ln_waiters s)) (waiting_calls (ln_calls s)) = []"
    using assms by (simp add: lane_inv_def filter_False)
  with gen [of "ln_waiters s" s] assms show ?thesis
    by (auto simp: shutdown_lane_def lane_inv_def)
qed

section \<open>The registry keeps the invariant\<close>

definition lanes_inv :: "worker_lanes \<Rightarrow> bool" where
  "lanes_inv ls = (1 \<le> wl_max_concurrent ls \<and> 0 \<le> wl_max_queue ls \<and>
     (\<forall>wid s. map_of (wl_states ls) wid = Some s \<longrightarrow> lane_inv (wl_max_concurrent ls) (wl_max_queue ls) s))"

lemma map_of_put: "map_of (map (\<lambda>(k, v). if k = wid then (k, s) else (k, v)) xs) k =
    (if k = wid then map_option (\<lambda>_. s) (map_of xs k) else map_of xs k)"
  by (induction xs) auto

lemma put_lane_inv:
  "lanes_inv ls \<Longrightarrow> lane_inv (wl_max_concurrent ls) (wl_max_queue ls) s \<Longrightarrow> lanes_inv (put_lane wid s ls)"
  by (auto simp: lanes_inv_def put_lane_def map_of_put split: if_splits)

lemma state_for_inv:
  assumes "lanes_inv ls" "state_for wid ls = (s, ls')"
  shows "lanes_inv ls' \<and> lane_inv (wl_max_concurrent ls') (wl_max_queue ls') s"
  using assms lane_inv_new [of "wl_max_concurrent ls" "wl_max_queue ls"]
  by (auto simp: state_for_def lanes_inv_def Let_def map_add_Some_iff split: option.splits if_splits)

lemma lanes_step_inv: "lanes_step ls ls' \<Longrightarrow> lanes_inv ls \<Longrightarrow> lanes_inv ls'"
proof (induction rule: lanes_step.induct)
  case (enter wid ls s ls' p s')
  with state_for_inv [OF enter.prems enter(1)] acquire_enter_inv [OF _ enter(2)] put_lane_inv show ?case by blast
next
  case (wake ls wid s f)
  with wake_inv put_lane_inv show ?case unfolding lanes_inv_def by blast
next
  case (timeout ls wid s f x)
  with timeout_inv put_lane_inv show ?case unfolding lanes_inv_def by blast
next
  case (cancelled ls wid s f x)
  with cancelled_inv put_lane_inv show ?case unfolding lanes_inv_def by blast
next
  case (exit ls wid s f)
  with exit_inv put_lane_inv show ?case unfolding lanes_inv_def by blast
next
  case (shutdown ls wid s)
  with cancel_all_inv put_lane_inv show ?case unfolding lanes_inv_def by blast
qed (simp add: lanes_inv_def)

lemma lanes_reachable_inv: "lanes_reachable ls \<Longrightarrow> lanes_inv ls"
  unfolding lanes_reachable_def
proof (elim exE conjE)
  fix c q ls0 assume new: "new_worker_lanes c q = Inr ls0" and steps: "lanes_step\<^sup>*\<^sup>* ls0 ls"
  have "lanes_inv ls0" using new by (auto simp: new_worker_lanes_def lanes_inv_def split: if_splits)
  with steps show "lanes_inv ls" by (induction rule: rtranclp_induct) (auto dest: lanes_step_inv)
qed

section \<open>Slots are granted in order of arrival\<close>

lemma phase_of_set: "phase_of (set_phase f p s) g = (if g = f \<and> f < length (ln_calls s) then p else phase_of s g)"
  by (auto simp: phase_of_def set_phase_def nth_list_update)

lemma phase_of_upd [simp]: "phase_of (s\<lparr>ln_waiters := a\<rparr>) f = phase_of s f" "phase_of (s\<lparr>ln_in_use := b\<rparr>) f = phase_of s f"
  "phase_of (s\<lparr>ln_available := b\<rparr>) f = phase_of s f" "phase_of (s\<lparr>ln_timeouts := b\<rparr>) f = phase_of s f"
  "phase_of (s\<lparr>ln_acquires := b\<rparr>) f = phase_of s f"
  by (simp_all add: phase_of_def)

lemma first_waiter:
  assumes "lane_inv c q s" "ln_waiters s = f # fs" "g < f"
  shows "phase_of s g \<noteq> Queued Waiting"
proof
  assume "phase_of s g = Queued Waiting"
  then have g: "g \<in> set (waiting_calls (ln_calls s))"
    using phase_of_len [of s g] by (auto simp: set_waiting_calls)
  have wc: "waiting_calls (ln_calls s) = f # fs" using assms(1,2) by (simp add: lane_inv_def)
  show False
    using g sorted_waiting_calls [of "ln_calls s"] assms(3) unfolding wc by auto
qed

lemma release_grants:
  assumes "owns_slot (phase_of (release_locked s) f)" "\<not> owns_slot (phase_of s f)" "lane_inv c q s"
  obtains fs where "ln_waiters s = f # fs"
proof (cases "ln_waiters s")
  case Nil
  with assms show ?thesis by (simp add: release_locked_def)
next
  case (Cons h fs)
  have "waiting_calls (ln_calls s) = h # fs" using assms(3) Cons by (simp add: lane_inv_def)
  then have "h \<in> set (waiting_calls (ln_calls s))" by simp
  then have h: "h < length (ln_calls s) \<and> ln_calls s ! h = Queued Waiting" by (simp add: set_waiting_calls)
  then have "release_locked s = set_phase h (Queued Granted) (s\<lparr>ln_waiters := fs\<rparr>)"
    using Cons by (simp add: release_locked_def fut_done_def phase_of_def)
  with assms(1,2) have "f = h" by (auto simp: phase_of_set split: if_splits)
  with Cons show ?thesis by (intro that) simp
qed

lemma release_first:
  assumes "owns_slot (phase_of (release_locked s) f)" "\<not> owns_slot (phase_of s f)" "lane_inv c q s" "g < f"
  shows "phase_of s g \<noteq> Queued Waiting"
  by (rule release_grants [OF assms(1-3)]) (rule first_waiter [OF assms(3) _ assms(4)])

lemma abandon_first:
  assumes "owns_slot (phase_of (snd (abandon_waiter h s)) f)" "\<not> owns_slot (phase_of s f)" "lane_inv c q s" "g < f"
  shows "phase_of s g \<noteq> Queued Waiting"
  using assms release_first [OF _ assms(2-4)]
  by (auto simp: abandon_waiter_def phase_of_set owns_slot_def split: if_splits)

lemma cancel_all_owns: "owns_slot (phase_of (cancel_all fs s) f) \<Longrightarrow> owns_slot (phase_of s f)"
proof (induction fs arbitrary: s)
  case (Cons h fs)
  from Cons.IH [of "if fut_done s h then s else set_phase h (Queued Cancelled) s"] Cons.prems show ?case
    by (auto simp: phase_of_set owns_slot_def split: if_splits)
qed simp

definition first_come :: "lane \<Rightarrow> lane \<Rightarrow> bool" where
  "first_come s s' = (\<forall>f g. owns_slot (phase_of s' f) \<longrightarrow> \<not> owns_slot (phase_of s f) \<longrightarrow> g < f \<longrightarrow>
     phase_of s g \<noteq> Queued Waiting)"

lemma enter_first:
  assumes "acquire_enter s = (p, s')" "lane_inv c q s"
  shows "first_come s s'"
  unfolding first_come_def
proof (intro allI impI)
  fix f g assume f: "owns_slot (phase_of s' f)" "\<not> owns_slot (phase_of s f)"
  have "ln_waiters s = []"
    using assms(1) f by (auto simp: acquire_enter_def phase_of_def nth_append owns_slot_def split: if_splits)
  then have "g \<notin> set (waiting_calls (ln_calls s))" using assms(2) by (simp add: lane_inv_def)
  then show "phase_of s g \<noteq> Queued Waiting"
    using phase_of_len [of s g] by (auto simp: set_waiting_calls)
qed

lemma step_first:
  assumes "lane_inv c q s"
  shows "phase_of s f = Queued Granted \<Longrightarrow> first_come s (acquire_wake f s)"
    "first_come s (acquire_timeout f s)" "first_come s (acquire_cancelled f s)" "first_come s (acquire_exit f s)"
    "first_come s (shutdown_lane s)"
  unfolding first_come_def acquire_wake_def acquire_timeout_def acquire_cancelled_def acquire_exit_def shutdown_lane_def Let_def
  using release_first [OF _ _ assms] abandon_first [OF _ _ assms] cancel_all_owns
  by (auto simp: phase_of_set split: if_splits) (auto simp: owns_slot_def)

lemma lanes_step_first:
  assumes "lanes_step ls ls'" "lanes_inv ls" "map_of (wl_states ls) wid = Some s" "map_of (wl_states ls') wid = Some s'"
  shows "first_come s s'"
proof -
  have i: "lane_inv (wl_max_concurrent ls) (wl_max_queue ls) s" using assms(2,3) by (simp add: lanes_inv_def)
  have self: "first_come s s" by (simp add: first_come_def)
  have put: "s' = (if wid = w then t else s)" if "ls' = put_lane w t ls" for w t
    using assms(3,4) that by (auto simp: put_lane_def map_of_put)
  from assms(1) show ?thesis
  proof cases
    case (enter w t ls1 p t')
    then have "wid = w \<Longrightarrow> t = s \<and> ls1 = ls" "wid \<noteq> w \<Longrightarrow> map_of (wl_states ls1) wid = Some s"
      using assms(3) by (auto simp: state_for_def Let_def map_add_Some_iff split: option.splits)
    with enter assms(4) enter_first [OF enter(3)] i self show ?thesis
      by (cases "wid = w") (auto simp: put_lane_def map_of_put)
  qed (use assms(3,4) put self step_first [OF i] in \<open>auto split: if_splits\<close>)
qed

section \<open>Properties\<close>

text \<open>
  Demo lanes: one slot, two places in the queue; two calls enter, then the first one leaves.
\<close>

definition lanes0 :: worker_lanes where
  "lanes0 = \<lparr>wl_max_concurrent = 1, wl_max_queue = 2, wl_states = []\<rparr>"

definition lanes_enter :: "string \<Rightarrow> worker_lanes \<Rightarrow> worker_lanes" where
  "lanes_enter wid ls = (case state_for wid ls of (s, ls') \<Rightarrow> put_lane wid (snd (acquire_enter s)) ls')"

definition lanes2 :: worker_lanes where
  "lanes2 = lanes_enter ''w'' (lanes_enter ''w'' lanes0)"

definition lane2 :: lane where
  "lane2 = fst (state_for ''w'' lanes2)"

lemma lanes_enter_step: "lanes_step ls (lanes_enter wid ls)"
  by (cases "state_for wid ls", cases "acquire_enter (fst (state_for wid ls))")
    (simp add: lanes_enter_def lanes_step.enter)

lemma lanes2_reachable: "lanes_reachable lanes2"
proof -
  have "new_worker_lanes 1 2 = Inr lanes0" by (simp add: new_worker_lanes_def lanes0_def)
  moreover have "lanes_step\<^sup>*\<^sup>* lanes0 lanes2"
    unfolding lanes2_def by (meson lanes_enter_step r_into_rtranclp rtranclp.rtrancl_into_rtrancl)
  ultimately show ?thesis unfolding lanes_reachable_def by blast
qed

lemma lane2_at: "map_of (wl_states lanes2) ''w'' = Some lane2" "ln_calls lane2 = [Holding, Queued Waiting]"
  by code_simp+

text \<open>
  C11.  The lane bound: in every reachable state of the lanes, whatever calls enter, wake, time
  out, are cancelled or leave in whatever order, the slots in use of a worker are exactly the
  calls that hold one or have been handed one, they never exceed \<open>max_concurrent\<close>, the queue
  never exceeds \<open>max_queue\<close>, nobody queues while a slot is free, and once every call has ended
  every slot is free again.
\<close>

theorem lanes_bounded:
  assumes "lanes_reachable ls" and "map_of (wl_states ls) wid = Some s"
  shows "ln_in_use s = owners (ln_calls s) \<and> ln_in_use s \<le> wl_max_concurrent ls \<and>
    ln_available s = wl_max_concurrent ls - ln_in_use s \<and> int (length (ln_waiters s)) \<le> wl_max_queue ls \<and>
    (ln_waiters s \<noteq> [] \<longrightarrow> ln_available s = 0) \<and>
    ((\<forall>p \<in> set (ln_calls s). p = Finished) \<longrightarrow> ln_available s = wl_max_concurrent ls)"
proof -
  have "lane_inv (wl_max_concurrent ls) (wl_max_queue ls) s"
    using lanes_reachable_inv [OF assms(1)] assms(2) by (simp add: lanes_inv_def)
  moreover have "\<forall>p \<in> set (ln_calls s). p = Finished \<Longrightarrow> owners (ln_calls s) = 0"
    by (rule owners_0) (auto simp: owns_slot_def)
  moreover have "int (length (ln_waiters s)) \<le> wl_max_queue ls"
    using calculation(1) by (simp add: lane_inv_def)
  ultimately show ?thesis unfolding lane_inv_def by linarith
qed

theorem lanes_bounded_witness:
  "ln_waiters lane2 = [1] \<and> ln_in_use lane2 = 1 \<and> ln_in_use lane2 \<le> wl_max_concurrent lanes2 \<and> ln_available lane2 = 0"
proof -
  have "ln_waiters lane2 = [1]" "ln_in_use lane2 = 1" by code_simp+
  with lanes_bounded [OF lanes2_reachable lane2_at(1)] show ?thesis by simp
qed

text \<open>
  C12.  First come, first served: whenever a step gives a slot to a call, queued or new, no call
  that arrived before it is still waiting.
\<close>

theorem lanes_first_come_first_served:
  assumes "lanes_reachable ls" and "lanes_step ls ls'"
    and "map_of (wl_states ls) wid = Some s" and "map_of (wl_states ls') wid = Some s'"
    and "owns_slot (phase_of s' f)" and "\<not> owns_slot (phase_of s f)" and "g < f"
  shows "phase_of s g \<noteq> Queued Waiting"
  using lanes_step_first [OF assms(2) lanes_reachable_inv [OF assms(1)] assms(3,4)] assms(5-7)
  unfolding first_come_def by blast

theorem lanes_first_come_first_served_witness:
  "phase_of (acquire_exit 0 lane2) 1 = Queued Granted \<and> phase_of lane2 0 \<noteq> Queued Waiting"
proof -
  have st: "lanes_step lanes2 (put_lane ''w'' (acquire_exit 0 lane2) lanes2)"
    by (rule lanes_step.exit [OF lane2_at(1)]) (simp add: phase_of_def lane2_at(2))
  have at: "map_of (wl_states (put_lane ''w'' (acquire_exit 0 lane2) lanes2)) ''w'' = Some (acquire_exit 0 lane2)"
    using lane2_at(1) by (simp add: put_lane_def map_of_put)
  have g: "phase_of (acquire_exit 0 lane2) 1 = Queued Granted" by code_simp
  have n: "\<not> owns_slot (phase_of lane2 1)" by (simp add: phase_of_def lane2_at(2) owns_slot_def)
  show ?thesis
    using lanes_first_come_first_served [OF lanes2_reachable st lane2_at(1) at _ n, of 0] g by (simp add: owns_slot_def)
qed

end
