(* ===== verification/Metrics.thy ===== *)
theory Metrics
  imports Complex_Main Prelude
begin

text \<open>
  The counters, gauges and histograms of \<open>metrics.py\<close> and its snapshot.  Floats are rationals; the
  rounding of the snapshot to one digit is left out.
\<close>

section \<open>Histograms\<close>

text \<open>\<open>deque(maxlen=max_samples)\<close>: an append drops samples on the left.\<close>

record histogram =
  hs_max :: nat
  hs_samples :: "rat list"

definition new_histogram :: "nat \<Rightarrow> histogram" where
  "new_histogram n = \<lparr>hs_max = n, hs_samples = []\<rparr>"

definition observe :: "rat \<Rightarrow> histogram \<Rightarrow> histogram" where
  "observe v h = (let xs = hs_samples h @ [v] in h\<lparr>hs_samples := drop (length xs - hs_max h) xs\<rparr>)"

text \<open>\<open>int(r)\<close> truncates towards zero.\<close>

definition py_trunc :: "rat \<Rightarrow> int" where
  "py_trunc r = (if r \<ge> 0 then \<lfloor>r\<rfloor> else \<lceil>r\<rceil>)"

definition percentile :: "rat \<Rightarrow> histogram \<Rightarrow> rat" where
  "percentile p h =
     (if hs_samples h = [] then 0
      else (let s = sort (hs_samples h); n = int (length s)
            in s ! nat (max 0 (min (n - 1) (py_trunc (p * of_int n))))))"

definition sample_count :: "histogram \<Rightarrow> int" where
  "sample_count h = int (length (hs_samples h))"

section \<open>The container\<close>

record metrics =
  mt_cache_hits :: int
  mt_cache_misses :: int
  mt_cache_evictions :: int
  mt_cache_size :: int
  mt_lane_acquires :: int
  mt_lane_timeouts :: int
  mt_lane_wait :: histogram
  mt_ssh :: "(string \<times> histogram) list"
  mt_rate_limited :: int
  mt_in_flight :: int
  mt_requests :: int
  mt_reaped_tunnels :: int
  mt_reaped_ssh :: int
  mt_reaper_last :: rat
  mt_started :: rat

definition new_metrics :: "rat \<Rightarrow> metrics" where
  "new_metrics t = \<lparr>mt_cache_hits = 0, mt_cache_misses = 0, mt_cache_evictions = 0, mt_cache_size = 0,
     mt_lane_acquires = 0, mt_lane_timeouts = 0, mt_lane_wait = new_histogram 1000, mt_ssh = [],
     mt_rate_limited = 0, mt_in_flight = 0, mt_requests = 0, mt_reaped_tunnels = 0, mt_reaped_ssh = 0,
     mt_reaper_last = 0, mt_started = t\<rparr>"

definition observe_ssh :: "string \<Rightarrow> rat \<Rightarrow> metrics \<Rightarrow> metrics" where
  "observe_ssh op ms m =
     (let m = (if map_of (mt_ssh m) op = None then m\<lparr>mt_ssh := mt_ssh m @ [(op, new_histogram 1000)]\<rparr> else m)
      in m\<lparr>mt_ssh := map (\<lambda>(k, h). if k = op then (k, observe ms h) else (k, h)) (mt_ssh m)\<rparr>)"

record snapshot =
  sn_cache :: "int \<times> int \<times> int \<times> int"
  sn_lanes :: "int \<times> int \<times> rat \<times> rat"
  sn_rate_limited :: int
  sn_ssh :: "(string \<times> int \<times> rat \<times> rat \<times> rat) list"
  sn_http :: "int \<times> int"
  sn_reaper :: "int \<times> int \<times> int"
  sn_uptime :: int

definition metrics_snapshot :: "rat \<Rightarrow> metrics \<Rightarrow> snapshot" where
  "metrics_snapshot t m =
     \<lparr>sn_cache = (mt_cache_hits m, mt_cache_misses m, mt_cache_evictions m, mt_cache_size m),
      sn_lanes = (mt_lane_acquires m, mt_lane_timeouts m, percentile (50 / 100) (mt_lane_wait m),
        percentile (95 / 100) (mt_lane_wait m)),
      sn_rate_limited = mt_rate_limited m,
      sn_ssh = map (\<lambda>(op, h). (op, sample_count h, percentile (50 / 100) h, percentile (95 / 100) h, percentile (99 / 100) h)) (mt_ssh m),
      sn_http = (mt_in_flight m, mt_requests m),
      sn_reaper = (mt_reaped_tunnels m, mt_reaped_ssh m, py_trunc (mt_reaper_last m)),
      sn_uptime = py_trunc (t - mt_started m)\<rparr>"

text \<open>The metrics middleware of \<open>heartbeat.py\<close> around one request: before and after.\<close>

definition request_started :: "metrics \<Rightarrow> metrics" where
  "request_started m = m\<lparr>mt_requests := mt_requests m + 1, mt_in_flight := mt_in_flight m + 1\<rparr>"

definition request_finished :: "metrics \<Rightarrow> metrics" where
  "request_finished m = m\<lparr>mt_in_flight := mt_in_flight m - 1\<rparr>"

section \<open>Properties\<close>

lemma observe_window:
  "hs_samples (fold observe vs (new_histogram n)) = drop (length vs - n) vs \<and> hs_max (fold observe vs (new_histogram n)) = n"
proof (induction vs rule: rev_induct)
  case (snoc v vs)
  have o: "hs_samples (observe v h) = drop (Suc (length (hs_samples h)) - hs_max h) (hs_samples h @ [v])"
    "hs_max (observe v h) = hs_max h" for h by (simp_all add: observe_def Let_def)
  have "drop (Suc (length (drop (length vs - n) vs)) - n) (drop (length vs - n) vs @ [v]) = drop (Suc (length vs) - n) (vs @ [v])"
    by (cases "length vs < n") (auto simp: Suc_diff_le)
  with snoc show ?case by (simp add: o del: drop_append)
qed (simp add: new_histogram_def)

lemma length_filter_sort: "length (filter q (sort xs)) = length (filter q xs)"
  by (simp add: filter_sort_key)

lemma sorted_rank:
  assumes "sorted s" "i < length s"
  shows "Suc i \<le> length (filter (\<lambda>x. x \<le> s ! i) s)" and "length s - i \<le> length (filter (\<lambda>x. s ! i \<le> x) s)"
proof -
  have "filter (\<lambda>x. x \<le> s ! i) (take (Suc i) s) = take (Suc i) s"
    using assms by (auto simp: filter_id_conv in_set_conv_nth sorted_nth_mono)
  then have "length (filter (\<lambda>x. x \<le> s ! i) (take (Suc i) s)) = Suc i" using assms(2) by simp
  moreover have "filter (\<lambda>x. x \<le> s ! i) s = filter (\<lambda>x. x \<le> s ! i) (take (Suc i) s) @ filter (\<lambda>x. x \<le> s ! i) (drop (Suc i) s)"
    by (metis append_take_drop_id filter_append)
  ultimately show "Suc i \<le> length (filter (\<lambda>x. x \<le> s ! i) s)" by simp
  have "filter (\<lambda>x. s ! i \<le> x) (drop i s) = drop i s"
    using assms by (auto simp: filter_id_conv in_set_conv_nth sorted_nth_mono)
  then have "length (filter (\<lambda>x. s ! i \<le> x) (drop i s)) = length s - i" by simp
  moreover have "filter (\<lambda>x. s ! i \<le> x) s = filter (\<lambda>x. s ! i \<le> x) (take i s) @ filter (\<lambda>x. s ! i \<le> x) (drop i s)"
    by (metis append_take_drop_id filter_append)
  ultimately show "length s - i \<le> length (filter (\<lambda>x. s ! i \<le> x) s)" by simp
qed

text \<open>
  Percentiles of the sliding window: after any observations, \<open>percentile p\<close> with
  \<open>0 \<le> p < 1\<close> is one of the last \<open>max_samples\<close> observations, more than a fraction \<open>p\<close> of them are
  at most as large and at least a fraction \<open>1 - p\<close> are at least as large.
\<close>

theorem percentile_is_quantile:
  assumes "0 \<le> p" "p < 1" and "vs \<noteq> []" "0 < n" and "w = drop (length vs - n) vs"
    and "v = percentile p (fold observe vs (new_histogram n))"
  shows "v \<in> set w \<and> p * of_nat (length w) < of_nat (length (filter (\<lambda>x. x \<le> v) w)) \<and>
    (1 - p) * of_nat (length w) \<le> of_nat (length (filter (\<lambda>x. v \<le> x) w))"
proof -
  let ?s = "sort w" and ?n = "length w"
  define i where "i = nat \<lfloor>p * of_nat ?n\<rfloor>"
  have w: "hs_samples (fold observe vs (new_histogram n)) = w" using observe_window assms(5) by blast
  have n: "0 < ?n" using assms(3,4,5) by simp
  have fl: "0 \<le> \<lfloor>p * of_nat ?n\<rfloor>" using assms(1) by simp
  have "p * of_nat ?n < of_nat ?n" using assms(2) n by simp
  then have "\<lfloor>p * of_nat ?n\<rfloor> < int ?n" by (simp add: floor_less_iff)
  then have i: "i < ?n" "of_nat i \<le> p * of_nat ?n" "p * of_nat ?n < of_nat (Suc i)"
    using fl unfolding i_def by (simp_all add: nat_less_iff of_nat_nat, linarith+)
  have v: "v = ?s ! i"
  proof -
    have "min (int ?n - 1) \<lfloor>p * of_nat ?n\<rfloor> = \<lfloor>p * of_nat ?n\<rfloor>" using \<open>\<lfloor>p * of_nat ?n\<rfloor> < int ?n\<close> by simp
    then show ?thesis using n fl assms(1) by (simp add: assms(6) percentile_def w Let_def py_trunc_def i_def)
  qed
  note R = sorted_rank [of ?s i]
  have le: "Suc i \<le> length (filter (\<lambda>x. x \<le> v) w)" and ge: "?n - i \<le> length (filter (\<lambda>x. v \<le> x) w)"
    using R i(1) by (simp_all add: v length_filter_sort)
  have "v \<in> set ?s" unfolding v by (rule nth_mem) (simp add: i(1))
  then have "v \<in> set w" by simp
  moreover have "p * of_nat ?n < of_nat (length (filter (\<lambda>x. x \<le> v) w))"
    using i(3) of_nat_mono [OF le, where ?'a = rat] by linarith
  moreover have "(1 - p) * of_nat ?n \<le> of_nat (length (filter (\<lambda>x. v \<le> x) w))"
  proof -
    have "(1 - p) * of_nat ?n \<le> of_nat ?n - of_nat i" using i(2) by (simp add: algebra_simps)
    also have "\<dots> = of_nat (?n - i)" using i(1) by (simp add: of_nat_diff)
    also have "\<dots> \<le> of_nat (length (filter (\<lambda>x. v \<le> x) w))" using of_nat_mono [OF ge] by simp
    finally show ?thesis .
  qed
  ultimately show ?thesis by blast
qed

theorem percentile_is_quantile_witness:
  "percentile (1 / 2) (fold observe [9, 3, 1, 2] (new_histogram 3)) = 2 \<and>
   (2 :: rat) \<in> set [3, 1, 2] \<and> (1 / 2 :: rat) * 3 < of_nat (length (filter (\<lambda>x. x \<le> 2) [3, 1, 2 :: rat]))"
proof -
  have v: "percentile (1 / 2) (fold observe [9, 3, 1, 2] (new_histogram 3)) = 2" by code_simp
  show ?thesis
    using percentile_is_quantile [of "1 / 2" "[9, 3, 1, 2]" 3 "[3, 1, 2]" 2] v by simp
qed

end
