(* ===== verification/Ratelimit.thy ===== *)
theory Ratelimit
  imports Metrics Py_Lib
begin

text \<open>
  The token buckets of \<open>ratelimit.py\<close> and the rate-limit middleware of \<open>heartbeat.py\<close>.  Floats are
  rationals.  Each bucket and the registry hold their lock over a whole operation, so operations
  are functions of the state and of the readings of the monotonic clock.
\<close>

section \<open>One bucket\<close>

record token_bucket =
  tb_capacity :: rat
  tb_rate :: rat
  tb_tokens :: rat
  tb_last :: rat

definition new_bucket :: "rat \<Rightarrow> rat \<Rightarrow> rat \<Rightarrow> token_bucket" where
  "new_bucket capacity rate t = \<lparr>tb_capacity = capacity, tb_rate = rate, tb_tokens = capacity, tb_last = t\<rparr>"

definition try_consume :: "rat \<Rightarrow> rat \<Rightarrow> token_bucket \<Rightarrow> (bool \<times> rat) \<times> token_bucket" where
  "try_consume n t b =
     (let b = b\<lparr>tb_tokens := min (tb_capacity b) (tb_tokens b + (t - tb_last b) * tb_rate b), tb_last := t\<rparr>
      in if tb_tokens b \<ge> n then ((True, 0), b\<lparr>tb_tokens := tb_tokens b - n\<rparr>)
         else ((False, (n - tb_tokens b) / tb_rate b), b))"

section \<open>The registry\<close>

record rate_limiter =
  rl_capacity :: rat
  rl_rate :: rat
  rl_buckets :: "(string \<times> token_bucket) list"

definition new_limiter :: "rat \<Rightarrow> rat \<Rightarrow> rate_limiter" where
  "new_limiter capacity rate = \<lparr>rl_capacity = capacity, rl_rate = rate, rl_buckets = []\<rparr>"

definition get_or_create :: "string \<Rightarrow> rat \<Rightarrow> rate_limiter \<Rightarrow> token_bucket \<times> rate_limiter" where
  "get_or_create agent t l = (case map_of (rl_buckets l) agent of
     Some b \<Rightarrow> (b, l)
   | None \<Rightarrow> (let b = new_bucket (rl_capacity l) (rl_rate l) t in (b, l\<lparr>rl_buckets := rl_buckets l @ [(agent, b)]\<rparr>)))"

definition put_bucket :: "string \<Rightarrow> token_bucket \<Rightarrow> rate_limiter \<Rightarrow> rate_limiter" where
  "put_bucket agent b l = l\<lparr>rl_buckets := map (\<lambda>(k, v). if k = agent then (k, b) else (k, v)) (rl_buckets l)\<rparr>"

text \<open>\<open>check\<close>: None when the request is admitted, \<open>Some r\<close> when \<open>RateLimited\<close> is raised with
  \<open>retry_after_seconds = r\<close>.  A new bucket reads the clock before \<open>try_consume\<close> does.\<close>

definition rate_check :: "string \<Rightarrow> rat \<Rightarrow> rat \<Rightarrow> rate_limiter \<Rightarrow> rat option \<times> rate_limiter" where
  "rate_check agent t1 t2 l =
     (case get_or_create agent t1 l of (b, l) \<Rightarrow>
      case try_consume 1 t2 b of ((admitted, retry), b) \<Rightarrow> ((if admitted then None else Some retry), put_bucket agent b l))"

definition known_agents :: "rate_limiter \<Rightarrow> string list" where
  "known_agents l = map fst (rl_buckets l)"

section \<open>The middleware\<close>

text \<open>\<open>resolve_agent_name\<close>; header names are looked up in both spellings.\<close>

definition resolve_agent_name :: "(string \<times> string) list \<Rightarrow> string \<Rightarrow> string" where
  "resolve_agent_name headers peer_ip =
     (let get = (\<lambda>k. case map_of headers k of None \<Rightarrow> '''' | Some v \<Rightarrow> v);
          name = (if get ''x-agent-name'' \<noteq> '''' then get ''x-agent-name'' else get ''X-Agent-Name'')
      in if name \<noteq> '''' then take 128 (strip name) else ''ip:'' @ peer_ip)"

definition is_rate_limited_path :: "string \<Rightarrow> bool" where
  "is_rate_limited_path path = (startswith ''/api/v1/'' path \<and> \<not> startswith ''/api/v1/pi/bridge/'' path)"

text \<open>\<open>str(max(1, int(e.retry_after_seconds + 0.999)))\<close>\<close>

definition retry_after_header :: "rat \<Rightarrow> int" where
  "retry_after_header r = max 1 (py_trunc (r + 999 / 1000))"

text \<open>The answer: None lets the request through, \<open>Some n\<close> is a 429 with \<open>Retry-After: n\<close>.\<close>

definition rate_limit_middleware ::
  "string \<Rightarrow> (string \<times> string) list \<Rightarrow> string option \<Rightarrow> rat \<Rightarrow> rat \<Rightarrow> rate_limiter \<Rightarrow> int option \<times> rate_limiter" where
  "rate_limit_middleware path headers client t1 t2 l =
     (if is_rate_limited_path path then
        (case rate_check (resolve_agent_name headers (case client of None \<Rightarrow> ''unknown'' | Some h \<Rightarrow> h)) t1 t2 l of
           (r, l') \<Rightarrow> (map_option retry_after_header r, l'))
      else (None, l))"

text \<open>A run of requests, each with its agent and its two clock readings.\<close>

fun run_checks :: "(string \<times> rat \<times> rat) list \<Rightarrow> rate_limiter \<Rightarrow> (string \<times> rat option) list \<times> rate_limiter" where
  "run_checks [] l = ([], l)"
| "run_checks ((a, t1, t2) # reqs) l =
     (case rate_check a t1 t2 l of (r, l1) \<Rightarrow> case run_checks reqs l1 of (rs, l2) \<Rightarrow> ((a, r) # rs, l2))"

definition granted :: "string \<Rightarrow> (string \<times> rat option) list \<Rightarrow> nat" where
  "granted a rs = length (filter (\<lambda>(k, r). k = a \<and> r = None) rs)"

text \<open>The clock readings of a run, which the monotonic clock makes non-decreasing.\<close>

fun readings :: "(string \<times> rat \<times> rat) list \<Rightarrow> rat list" where
  "readings [] = []"
| "readings ((a, t1, t2) # reqs) = t1 # t2 # readings reqs"

section \<open>Lemmas\<close>

definition limiter_inv :: "rat \<Rightarrow> rate_limiter \<Rightarrow> bool" where
  "limiter_inv t l = (0 \<le> rl_capacity l \<and> 0 < rl_rate l \<and>
     (\<forall>a b. map_of (rl_buckets l) a = Some b \<longrightarrow> tb_capacity b = rl_capacity l \<and> tb_rate b = rl_rate l \<and>
        0 \<le> tb_tokens b \<and> tb_tokens b \<le> tb_capacity b \<and> tb_last b \<le> t))"

text \<open>The tokens an agent has at a moment after its last refill.\<close>

definition tokens_at :: "rate_limiter \<Rightarrow> string \<Rightarrow> rat \<Rightarrow> rat" where
  "tokens_at l a t = (case map_of (rl_buckets l) a of
     None \<Rightarrow> rl_capacity l | Some b \<Rightarrow> min (tb_capacity b) (tb_tokens b + (t - tb_last b) * tb_rate b))"

lemma limiter_invD:
  "limiter_inv t l \<Longrightarrow> map_of (rl_buckets l) a = Some b \<Longrightarrow> tb_capacity b = rl_capacity l \<and> tb_rate b = rl_rate l \<and>
     0 \<le> tb_tokens b \<and> tb_tokens b \<le> tb_capacity b \<and> tb_last b \<le> t"
  unfolding limiter_inv_def by blast

lemma map_of_put_bucket: "map_of (rl_buckets (put_bucket a b l)) k =
    (if k = a then map_option (\<lambda>_. b) (map_of (rl_buckets l) a) else map_of (rl_buckets l) k)"
proof -
  have "map_of (map (\<lambda>(k, v). if k = a then (k, b) else (k, v)) xs) k =
      (if k = a then map_option (\<lambda>_. b) (map_of xs a) else map_of xs k)" for xs
    by (induction xs) auto
  then show ?thesis by (simp add: put_bucket_def)
qed

lemma put_bucket_fields [simp]: "rl_capacity (put_bucket a b l) = rl_capacity l" "rl_rate (put_bucket a b l) = rl_rate l"
  by (simp_all add: put_bucket_def)

text \<open>One check, described by what it does to the tokens of every agent.\<close>

lemma rate_check_effect:
  assumes inv: "limiter_inv t l" "t \<le> t1" "t1 \<le> t2" and c: "rate_check a t1 t2 l = (r, l')"
  shows "limiter_inv t2 l'" and "rl_capacity l' = rl_capacity l" "rl_rate l' = rl_rate l"
    and "r = None \<longleftrightarrow> 1 \<le> tokens_at l a t2"
    and "\<And>x. r = Some x \<Longrightarrow> x = (1 - tokens_at l a t2) / rl_rate l"
    and "tokens_at l' a t2 = tokens_at l a t2 - (if r = None then 1 else 0)"
    and "\<And>b u. b \<noteq> a \<Longrightarrow> tokens_at l' b u = tokens_at l b u"
proof -
  obtain b l1 where g: "get_or_create a t1 l = (b, l1)" by fastforce
  have l1: "rl_capacity l1 = rl_capacity l" "rl_rate l1 = rl_rate l" "map_of (rl_buckets l1) a = Some b"
    "\<And>k. k \<noteq> a \<Longrightarrow> map_of (rl_buckets l1) k = map_of (rl_buckets l) k"
    using g by (auto simp: get_or_create_def Let_def map_add_def split: option.splits)
  have b: "tb_capacity b = rl_capacity l" "tb_rate b = rl_rate l" "0 \<le> tb_tokens b" "tb_tokens b \<le> rl_capacity l" "tb_last b \<le> t1"
  proof -
    have "tb_capacity b = rl_capacity l \<and> tb_rate b = rl_rate l \<and> 0 \<le> tb_tokens b \<and> tb_tokens b \<le> rl_capacity l \<and> tb_last b \<le> t1"
    proof (cases "map_of (rl_buckets l) a")
      case None
      then have "b = new_bucket (rl_capacity l) (rl_rate l) t1" using g by (simp add: get_or_create_def Let_def)
      with inv(1) show ?thesis by (simp add: new_bucket_def limiter_inv_def)
    next
      case (Some b2)
      with g have "map_of (rl_buckets l) a = Some b" by (simp add: get_or_create_def)
      with limiter_invD [OF inv(1)] inv(2) show ?thesis by fastforce
    qed
    then show "tb_capacity b = rl_capacity l" "tb_rate b = rl_rate l" "0 \<le> tb_tokens b" "tb_tokens b \<le> rl_capacity l"
      "tb_last b \<le> t1" by blast+
  qed
  have pos: "0 \<le> rl_capacity l" "0 < rl_rate l" using inv(1) by (auto simp: limiter_inv_def)
  have "rl_capacity l \<le> rl_capacity l + (t2 - t1) * rl_rate l"
    using inv(3) pos(2) by simp
  then have tok: "min (tb_capacity b) (tb_tokens b + (t2 - tb_last b) * tb_rate b) = tokens_at l a t2" (is "?tok = _")
    using g by (auto simp: get_or_create_def tokens_at_def new_bucket_def Let_def split: option.splits)
  define b' where "b' = snd (try_consume 1 t2 b)"
  have r: "r = (if 1 \<le> ?tok then None else Some ((1 - ?tok) / tb_rate b))" and l': "l' = put_bucket a b' l1"
    using c g by (auto simp: rate_check_def try_consume_def Let_def b'_def split: if_splits)
  have b': "tb_capacity b' = rl_capacity l" "tb_rate b' = rl_rate l" "tb_last b' = t2"
    "tb_tokens b' = ?tok - (if 1 \<le> ?tok then 1 else 0)"
    using b by (simp_all add: b'_def try_consume_def Let_def)
  show "rl_capacity l' = rl_capacity l" "rl_rate l' = rl_rate l" using l1 by (simp_all add: l')
  show "r = None \<longleftrightarrow> 1 \<le> tokens_at l a t2" "\<And>x. r = Some x \<Longrightarrow> x = (1 - tokens_at l a t2) / rl_rate l"
    using r tok b by (auto split: if_splits)
  have "0 \<le> (t2 - tb_last b) * tb_rate b" using b(2,5) pos(2) inv(3) by simp
  then have nn: "0 \<le> ?tok" using b(1,3) pos(1) by simp
  have le: "0 \<le> tb_tokens b'" "tb_tokens b' \<le> rl_capacity l" using b' b(1) nn by auto
  have at: "map_of (rl_buckets l') a = Some b'" "\<And>k. k \<noteq> a \<Longrightarrow> map_of (rl_buckets l') k = map_of (rl_buckets l) k"
    using l1 by (simp_all add: l' map_of_put_bucket)
  have "tb_capacity c = rl_capacity l \<and> tb_rate c = rl_rate l \<and> 0 \<le> tb_tokens c \<and> tb_tokens c \<le> tb_capacity c \<and> tb_last c \<le> t2"
    if "map_of (rl_buckets l') k = Some c" for k c
  proof (cases "k = a")
    case True
    with that at(1) b' le show ?thesis by auto
  next
    case False
    with that at(2) have "map_of (rl_buckets l) k = Some c" by simp
    with inv(1) have "tb_capacity c = rl_capacity l \<and> tb_rate c = rl_rate l \<and> 0 \<le> tb_tokens c \<and> tb_tokens c \<le> tb_capacity c \<and> tb_last c \<le> t"
      unfolding limiter_inv_def by blast
    with inv(2,3) show ?thesis by auto
  qed
  moreover have "rl_capacity l' = rl_capacity l" "rl_rate l' = rl_rate l" using l1 by (simp_all add: l')
  ultimately show "limiter_inv t2 l'" using pos unfolding limiter_inv_def by metis
  show "tokens_at l' a t2 = tokens_at l a t2 - (if r = None then 1 else 0)"
  proof -
    have "tokens_at l' a t2 = tb_tokens b'"
      using at(1) b'(1-3) le(2) by (simp add: tokens_at_def split: option.split)
    with b'(4) tok r show ?thesis by simp
  qed
  show "\<And>b u. b \<noteq> a \<Longrightarrow> tokens_at l' b u = tokens_at l b u"
    using at(2) \<open>rl_capacity l' = rl_capacity l\<close> by (simp add: tokens_at_def split: option.split)
qed

lemma limiter_inv_mono: "limiter_inv t l \<Longrightarrow> t \<le> u \<Longrightarrow> limiter_inv u l"
  unfolding limiter_inv_def by (meson order_trans)

lemma tokens_at_le: "limiter_inv t l \<Longrightarrow> tokens_at l a u \<le> rl_capacity l"
  by (auto simp: tokens_at_def limiter_inv_def split: option.split)

lemma tokens_at_nonneg:
  assumes "limiter_inv t l" "t \<le> u"
  shows "0 \<le> tokens_at l a u"
proof (cases "map_of (rl_buckets l) a")
  case None
  then show ?thesis using assms(1) by (simp add: tokens_at_def limiter_inv_def)
next
  case (Some b)
  with assms(1) have b: "tb_capacity b = rl_capacity l" "tb_rate b = rl_rate l" "0 \<le> tb_tokens b" "tb_last b \<le> t"
    "0 \<le> rl_capacity l" "0 < rl_rate l"
    unfolding limiter_inv_def by blast+
  have "0 \<le> (u - tb_last b) * tb_rate b" using b assms(2) by simp
  with Some b show ?thesis by (simp add: tokens_at_def split: option.split)
qed

lemma tokens_at_mono:
  assumes "limiter_inv t l" "u \<le> v"
  shows "tokens_at l a v \<le> tokens_at l a u + (v - u) * rl_rate l"
proof (cases "map_of (rl_buckets l) a")
  case None
  have "0 \<le> (v - u) * rl_rate l" using assms by (simp add: limiter_inv_def)
  with None show ?thesis by (simp add: tokens_at_def split: option.split)
next
  case (Some b)
  have nn: "0 \<le> (v - u) * rl_rate l" using assms by (simp add: limiter_inv_def)
  have "tb_rate b = rl_rate l" using Some assms(1) by (simp add: limiter_inv_def)
  then have "tb_tokens b + (v - tb_last b) * tb_rate b = tb_tokens b + (u - tb_last b) * tb_rate b + (v - u) * rl_rate l"
    by (simp add: algebra_simps)
  with Some nn show ?thesis by (auto simp: tokens_at_def min_def)
qed

lemma tokens_at_grows:
  assumes "limiter_inv t l" "u \<le> v"
  shows "min (rl_capacity l) (tokens_at l a u + (v - u) * rl_rate l) \<le> tokens_at l a v"
proof (cases "map_of (rl_buckets l) a")
  case None
  then show ?thesis by (simp add: tokens_at_def split: option.split)
next
  case (Some b)
  have e: "tb_rate b = rl_rate l" "tb_capacity b = rl_capacity l" using Some assms(1) by (simp_all add: limiter_inv_def)
  then have "tb_tokens b + (v - tb_last b) * tb_rate b = tb_tokens b + (u - tb_last b) * tb_rate b + (v - u) * rl_rate l"
    by (simp add: algebra_simps)
  with Some e show ?thesis by (auto simp: tokens_at_def min_def)
qed

lemma readings_append: "readings (xs @ ys) = readings xs @ readings ys"
  by (induction xs rule: readings.induct) simp_all

lemma granted_Cons: "granted a ((k, r) # rs) = (if k = a \<and> r = None then 1 else 0) + granted a rs"
  by (simp add: granted_def)

lemma run_checks_bound:
  assumes "limiter_inv t l" "sorted (readings reqs)" "\<forall>x \<in> set (readings reqs). t \<le> x \<and> x \<le> hi" "t \<le> hi"
  shows "of_nat (granted a (fst (run_checks reqs l))) \<le> tokens_at l a t + (hi - t) * rl_rate l \<or>
    granted a (fst (run_checks reqs l)) = 0"
  using assms
proof (induction reqs arbitrary: l t rule: readings.induct)
  case (2 k t1 t2 reqs)
  obtain r l1 where c: "rate_check k t1 t2 l = (r, l1)" by fastforce
  have t: "t \<le> t1" "t1 \<le> t2" "t2 \<le> hi" using 2(3,4) by simp_all
  note E = rate_check_effect [OF 2(2) t(1,2) c]
  have nxt: "sorted (readings reqs)" "\<forall>x \<in> set (readings reqs). t2 \<le> x \<and> x \<le> hi" using "2.prems" by auto
  let ?n = "granted a (fst (run_checks reqs l1))"
  have IH: "of_nat ?n \<le> tokens_at l1 a t2 + (hi - t2) * rl_rate l \<or> ?n = 0"
    using "2.IH" [OF E(1) nxt t(3)] E(3) by simp
  have run: "granted a (fst (run_checks ((k, t1, t2) # reqs) l)) = (if k = a \<and> r = None then 1 else 0) + ?n"
    by (simp add: c granted_Cons split: prod.split)
  have mono: "tokens_at l a t2 + (hi - t2) * rl_rate l \<le> tokens_at l a t + (hi - t) * rl_rate l"
    using tokens_at_mono [OF 2(2), of t t2 a] t by (simp add: algebra_simps)
  have nn: "0 \<le> (hi - t2) * rl_rate l" using t(3) 2(2) by (simp add: limiter_inv_def)
  show ?case
  proof (cases "k = a")
    case True
    have tk: "tokens_at l1 a t2 = tokens_at l a t2 - (if r = None then 1 else 0)" using E(6) True by simp
    show ?thesis
    proof (cases "r = None")
      case r: True
      with E(4) True have "1 \<le> tokens_at l a t2" by simp
      then show ?thesis using run True r IH mono nn tk by auto
    qed (use run IH mono tk in auto)
  next
    case False
    then have "tokens_at l1 a t2 = tokens_at l a t2" using E(7) by simp
    with run IH mono False show ?thesis by auto
  qed
qed (simp add: granted_def)

lemma run_checks_inv:
  assumes "limiter_inv t l" "sorted (readings reqs)" "\<forall>x \<in> set (readings reqs). t \<le> x \<and> x \<le> hi" "t \<le> hi"
  shows "limiter_inv hi (snd (run_checks reqs l)) \<and> rl_capacity (snd (run_checks reqs l)) = rl_capacity l \<and>
    rl_rate (snd (run_checks reqs l)) = rl_rate l"
  using assms
proof (induction reqs arbitrary: l t rule: readings.induct)
  case 1
  then show ?case using limiter_inv_mono by auto
next
  case (2 k t1 t2 reqs)
  obtain r l1 where c: "rate_check k t1 t2 l = (r, l1)" by fastforce
  have t: "t \<le> t1" "t1 \<le> t2" "t2 \<le> hi" using 2(3,4) by simp_all
  note E = rate_check_effect [OF 2(2) t(1,2) c]
  show ?case
    using "2.IH" [OF E(1) _ _ t(3)] E(2,3) "2.prems" by (auto simp: c split: prod.split)
qed

lemma run_checks_others:
  assumes "limiter_inv t l" "sorted (t # readings reqs)" "\<forall>(k, _) \<in> set reqs. k \<noteq> a"
  shows "tokens_at (snd (run_checks reqs l)) a u = tokens_at l a u"
  using assms
proof (induction reqs arbitrary: l t rule: readings.induct)
  case (2 k t1 t2 reqs)
  obtain r l1 where c: "rate_check k t1 t2 l = (r, l1)" by fastforce
  have t: "t \<le> t1" "t1 \<le> t2" using 2(3) by auto
  note E = rate_check_effect [OF 2(2) t c]
  have "a \<noteq> k" using 2(4) by auto
  with "2.IH" [OF E(1)] E(7) [of a u] 2(3,4) show ?case by (auto simp: c split: prod.split)
qed simp

lemma new_limiter_inv: "0 \<le> cap \<Longrightarrow> 0 < rate \<Longrightarrow> limiter_inv t (new_limiter cap rate)"
  by (simp add: limiter_inv_def new_limiter_def)

section \<open>Properties\<close>

text \<open>
  C13.  The rate bound: in every window of time, whatever came before it and however the
  requests of all agents are interleaved, an agent is admitted at most
  \<open>capacity + rate * length of the window\<close> times.
\<close>

theorem rate_bound:
  assumes "0 \<le> cap" "0 < rate" and "run_checks before (new_limiter cap rate) = (rs0, l)"
    and "run_checks window l = (rs, l')" and "sorted (readings (before @ window))"
    and "\<forall>x \<in> set (readings before). x \<le> lo" and "\<forall>x \<in> set (readings window). lo \<le> x \<and> x \<le> hi" and "lo \<le> hi"
  shows "of_nat (granted a rs) \<le> cap + rate * (hi - lo)"
proof -
  define t0 where "t0 = (case readings before of [] \<Rightarrow> lo | x # _ \<Rightarrow> x)"
  have s: "sorted (readings before)" "sorted (readings window)"
    using assms(5) by (simp_all add: readings_append sorted_append)
  have "\<forall>x \<in> set (readings before). t0 \<le> x" using s(1) by (auto simp: t0_def split: list.split)
  moreover have "t0 \<le> lo" using assms(6) by (auto simp: t0_def split: list.split)
  ultimately have I: "limiter_inv lo l" "rl_capacity l = cap" "rl_rate l = rate"
    using run_checks_inv [OF new_limiter_inv [OF assms(1,2)] s(1), of t0 lo] assms(3,6)
    by (auto simp: new_limiter_def)
  have nn: "0 \<le> rate * (hi - lo)" using assms(2,8) by simp
  have "of_nat (granted a rs) \<le> tokens_at l a lo + (hi - lo) * rate \<or> granted a rs = 0"
    using run_checks_bound [OF I(1) s(2) assms(7,8), of a] I(3) assms(4) by simp
  moreover have "tokens_at l a lo \<le> cap" using tokens_at_le [OF I(1)] I(2) by simp
  ultimately show ?thesis using nn assms(1) by (auto simp: mult.commute)
qed

theorem rate_bound_witness:
  "fst (run_checks [(''a'', 1, 1), (''b'', 1, 1), (''a'', 1, 1), (''a'', 2, 2)] (new_limiter 1 1)) =
     [(''a'', None), (''b'', None), (''a'', Some 1), (''a'', None)] \<and>
   of_nat (granted ''a'' [(''a'', None), (''b'', None), (''a'', Some 1), (''a'', None)]) \<le> (1 + 1 * (2 - 1) :: rat)"
proof -
  let ?w = "[(''a'', 1, 1), (''b'', 1, 1), (''a'', 1, 1), (''a'', 2, 2)]"
  have run: "fst (run_checks ?w (new_limiter 1 1)) = [(''a'', None), (''b'', None), (''a'', Some 1), (''a'', None)]"
    by (simp add: rate_check_def get_or_create_def new_limiter_def new_bucket_def try_consume_def put_bucket_def Let_def)
  obtain l' where r: "run_checks ?w (new_limiter 1 1) = ([(''a'', None), (''b'', None), (''a'', Some 1), (''a'', None)], l')"
    using run by (metis prod.collapse)
  have "of_nat (granted ''a'' [(''a'', None), (''b'', None), (''a'', Some 1), (''a'', None)]) \<le> (1 + 1 * (2 - 1) :: rat)"
    by (rule rate_bound [where before = "[]", OF _ _ _ r]) auto
  with run show ?thesis by simp
qed

text \<open>
  \<open>Retry-After\<close> is honest: a client that was refused and comes back after the number of
  seconds in the header is admitted, whatever the other agents did in between (with a capacity of
  at least one token and a refill of at least one per second, as the service is configured).
\<close>

theorem retry_after_suffices:
  assumes "limiter_inv t l" "1 \<le> rl_capacity l" "1 \<le> rl_rate l" and "t \<le> t1" "t1 \<le> t2"
    and "rate_check a t1 t2 l = (Some r, l1)"
    and "run_checks others l1 = (rs, l2)" and "\<forall>(k, _) \<in> set others. k \<noteq> a"
    and "sorted (t2 # readings others @ [u1, u2])" and "t2 + of_int (retry_after_header r) \<le> u2"
  shows "fst (rate_check a u1 u2 l2) = None"
proof -
  note E = rate_check_effect [OF assms(1,4,5,6)]
  have s: "sorted (t2 # readings others)" "sorted (readings others)" "\<forall>x \<in> set (readings others). t2 \<le> x \<and> x \<le> u1"
    "t2 \<le> u1" "u1 \<le> u2"
    using assms(9) by (auto simp: sorted_append)
  have I: "limiter_inv u1 l2" "rl_rate l2 = rl_rate l" "rl_capacity l2 = rl_capacity l"
    using run_checks_inv [OF E(1) s(2,3,4)] E(2,3) assms(7) by simp_all
  have tok: "tokens_at l2 a t2 = tokens_at l a t2"
    using run_checks_others [OF E(1) s(1) assms(8), of t2] E(6) assms(7) by simp
  have rate: "0 < rl_rate l" using assms(3) by simp
  have "1 \<le> retry_after_header r" by (simp add: retry_after_header_def)
  then have u: "1 \<le> u2 - t2" using assms(10) of_int_le_iff [of 1 "retry_after_header r", where ?'a = rat] by simp
  have "0 \<le> tokens_at l a t2" by (rule tokens_at_nonneg [OF assms(1)]) (use assms(4,5) in simp)
  moreover have "1 \<le> (u2 - t2) * rl_rate l"
    using mult_mono [OF u assms(3)] u by simp
  ultimately have "1 \<le> min (rl_capacity l2) (tokens_at l2 a t2 + (u2 - t2) * rl_rate l2)"
    using assms(2) I(2,3) tok by simp
  also have "\<dots> \<le> tokens_at l2 a u2" by (rule tokens_at_grows [OF I(1)]) (use u in simp)
  finally have "1 \<le> tokens_at l2 a u2" .
  moreover obtain r' l3 where c: "rate_check a u1 u2 l2 = (r', l3)" by fastforce
  ultimately show ?thesis using rate_check_effect(4) [OF I(1) _ s(5) c] c by simp
qed

theorem retry_after_suffices_witness:
  "fst (rate_check ''a'' 0 0 (snd (rate_check ''a'' 0 0 (new_limiter 1 1)))) = Some 1 \<and> retry_after_header 1 = 1 \<and>
   fst (rate_check ''a'' 1 1 (snd (rate_check ''a'' 0 0 (snd (rate_check ''a'' 0 0 (new_limiter 1 1)))))) = None"
proof -
  define l0 where "l0 = snd (rate_check ''a'' 0 0 (new_limiter 1 1))"
  have l0: "l0 = \<lparr>rl_capacity = 1, rl_rate = 1, rl_buckets = [(''a'', \<lparr>tb_capacity = 1, tb_rate = 1, tb_tokens = 0, tb_last = 0\<rparr>)]\<rparr>"
    by (simp add: l0_def rate_check_def get_or_create_def new_limiter_def new_bucket_def try_consume_def put_bucket_def Let_def)
  have c: "rate_check ''a'' 0 0 l0 = (Some 1, l0)"
    by (simp add: l0 rate_check_def get_or_create_def try_consume_def put_bucket_def Let_def)
  have h: "retry_after_header 1 = 1" by (simp add: retry_after_header_def py_trunc_def floor_eq_iff)
  have "limiter_inv 0 l0" by (simp add: l0 limiter_inv_def)
  from retry_after_suffices [OF this _ _ _ _ c, of "[]" "[]" l0 1 1] h
  have "fst (rate_check ''a'' 1 1 l0) = None" by (simp add: l0)
  with c h show ?thesis by (simp add: l0_def)
qed

end
