(* ===== verification/Paths.thy ===== *)
theory Paths
  imports Data Url
begin

text \<open>
  Normalized absolute paths: written from their components they parse back to them, so that paths can
  be told apart by their components.
\<close>

definition component :: "string \<Rightarrow> bool" where
  "component n = (n \<noteq> '''' \<and> n \<noteq> ''.'' \<and> n \<noteq> ''..'' \<and> CHR ''/'' \<notin> set n)"

lemma posix_path_of_str:
  assumes "list_all component names" "names \<noteq> []" "pre = ''/'' \<or> pre = ''//''"
  shows "posix_path (pre @ join ''/'' names) = \<lparr>pp_root = pre, pp_names = names\<rparr>"
proof -
  have sp: "split_on (CHR ''/'') (join ''/'' names) = names"
    using assms(1,2) by (intro split_on_join) (auto simp: list_all_iff component_def)
  have fl: "filter (\<lambda>p. p \<noteq> '''' \<and> p \<noteq> ''.'') names = names" using assms(1) by (auto simp: list_all_iff component_def intro!: filter_True)
  obtain a r where j: "join ''/'' names = a # r" "a \<noteq> CHR ''/''"
    using join_first [of names "CHR ''/''" "''/''"] assms(1,2) by (auto simp: list_all_iff component_def)
  from assms(3) show ?thesis
    using sp fl unfolding j(1) by (auto simp: posix_path_def startswith_def j(2))
qed

definition abs_path :: "string list \<Rightarrow> string" where
  "abs_path names = ''/'' @ join ''/'' names"

lemma posix_abs_path: "list_all component names \<Longrightarrow> names \<noteq> [] \<Longrightarrow> posix_path (abs_path names) = \<lparr>pp_root = ''/'', pp_names = names\<rparr>"
  unfolding abs_path_def by (rule posix_path_of_str) simp_all

lemma abs_path_inject:
  assumes "list_all component xs" "xs \<noteq> []" "list_all component ys" "ys \<noteq> []"
  shows "abs_path xs = abs_path ys \<longleftrightarrow> xs = ys"
proof
  assume "abs_path xs = abs_path ys"
  then have "pp_names (posix_path (abs_path xs)) = pp_names (posix_path (abs_path ys))" by simp
  then show "xs = ys" by (simp add: posix_abs_path [OF assms(1,2)] posix_abs_path [OF assms(3,4)])
qed simp

lemma path_str_abs_path: "path_str \<lparr>pp_root = ''/'', pp_names = names\<rparr> = abs_path names"
  by (simp add: path_str_def abs_path_def)

lemma startswith_abs_path: "startswith ''/'' (abs_path names)"
  unfolding abs_path_def by (rule startswith_append)

end
