(* ===== verification/Host_Runtime.thy ===== *)
theory Host_Runtime
  imports Fleet Paths
begin

text \<open>
  The manifest of the host runtime in \<open>host_runtime.py\<close>: capturing the executables and the search path,
  writing the manifest atomically, loading it with its checks, and the version probes.  The file
  system maps whole paths to nodes; symbolic links are followed at the end of a path.  A file holds the
  JSON value its text denotes.  \<open>HostRuntimeError\<close> is a \<open>RuntimeErr\<close>.
\<close>

section \<open>Paths of \<open>os.path\<close>\<close>

definition isabs :: "string \<Rightarrow> bool" where
  "isabs p = startswith ''/'' p"

definition path_join :: "string \<Rightarrow> string \<Rightarrow> string" where
  "path_join a b = (if startswith ''/'' b then b else if a = '''' \<or> last a = CHR ''/'' then a @ b else a @ ''/'' @ b)"

text \<open>\<open>os.path.dirname\<close>: up to the last slash, without the slashes at its end unless it is all slashes.\<close>

definition dirname :: "string \<Rightarrow> string" where
  "dirname p = (let head = rev (dropWhile (\<lambda>c. c \<noteq> CHR ''/'') (rev p))
     in if head \<noteq> '''' \<and> list_ex (\<lambda>c. c \<noteq> CHR ''/'') head then rstrip_char (CHR ''/'') head else head)"

fun norm_parts :: "bool \<Rightarrow> string list \<Rightarrow> string list \<Rightarrow> string list" where
  "norm_parts absolute acc [] = rev acc"
| "norm_parts absolute acc (c # cs) =
     (if c = '''' \<or> c = ''.'' then norm_parts absolute acc cs
      else if c \<noteq> ''..'' \<or> (\<not> absolute \<and> acc = []) \<or> (acc \<noteq> [] \<and> hd acc = ''..'') then norm_parts absolute (c # acc) cs
      else norm_parts absolute (tl acc) cs)"

definition normpath :: "string \<Rightarrow> string" where
  "normpath p =
     (let pre = pp_root (posix_path p); body = pre @ join ''/'' (norm_parts (pre \<noteq> '''') [] (split_on (CHR ''/'') p))
      in if body = '''' then ''.'' else body)"

definition abspath :: "string \<Rightarrow> string \<Rightarrow> string" where
  "abspath cwd p = normpath (if isabs p then p else path_join cwd p)"

fun common_prefix :: "string list \<Rightarrow> string list \<Rightarrow> string list" where
  "common_prefix (x # xs) (y # ys) = (if x = y then x # common_prefix xs ys else [])"
| "common_prefix _ _ = []"

text \<open>\<open>os.path.commonpath([value, root]) == root\<close>; absolute and relative paths do not mix.\<close>

definition is_under :: "string \<Rightarrow> string \<Rightarrow> bool" where
  "is_under value root_dir =
     (let parts = (\<lambda>p. filter (\<lambda>c. c \<noteq> '''' \<and> c \<noteq> ''.'') (split_on (CHR ''/'') p))
      in value \<noteq> '''' \<and> root_dir \<noteq> '''' \<and> isabs value = isabs root_dir \<and>
         (if isabs value then ''/'' else '''') @ join ''/'' (common_prefix (parts value) (parts root_dir)) = root_dir)"

section \<open>The file system\<close>

datatype kind = Regular | Directory | Symlink string | Special

datatype content = Doc json | NotJson | NotText | Unreadable

record node =
  nd_kind :: kind
  nd_uid :: int
  nd_mode :: nat
  nd_content :: content

type_synonym fs = "string \<Rightarrow> node option"

text \<open>The path at the end of the links and the node there, as \<open>stat\<close> sees it; the system follows at most
  40 links.\<close>

fun resolve :: "nat \<Rightarrow> fs \<Rightarrow> string \<Rightarrow> string option" where
  "resolve 0 fs p = None"
| "resolve (Suc n) fs p = (case fs p of
     None \<Rightarrow> None
   | Some nd \<Rightarrow> (case nd_kind nd of Symlink q \<Rightarrow> resolve n fs (path_join (dirname p) q) | _ \<Rightarrow> Some p))"

definition stat :: "fs \<Rightarrow> string \<Rightarrow> node option" where
  "stat fs p = (case resolve 41 fs p of None \<Rightarrow> None | Some q \<Rightarrow> fs q)"

definition is_dir :: "fs \<Rightarrow> string \<Rightarrow> bool" where
  "is_dir fs p = (case stat fs p of Some nd \<Rightarrow> nd_kind nd = Directory | None \<Rightarrow> False)"

text \<open>\<open>mode & 0o111\<close>, \<open>S_IMODE(mode)\<close> being the mode itself.\<close>

definition any_exec :: "nat \<Rightarrow> bool" where
  "any_exec m = (odd m \<or> odd (m div 8) \<or> odd (m div 64))"

definition is_program :: "fs \<Rightarrow> string \<Rightarrow> bool" where
  "is_program fs p = (case stat fs p of Some nd \<Rightarrow> nd_kind nd = Regular \<and> any_exec (nd_mode nd) | None \<Rightarrow> False)"

record host =
  hs_uid :: int
  hs_env :: "string \<Rightarrow> string option"
  hs_home :: string
  hs_cwd :: string
  hs_temp :: string
  hs_access :: "string \<Rightarrow> bool"

section \<open>The runtime\<close>

record host_runtime =
  rt_path :: "string list"
  rt_executables :: "(string \<times> string option) list"
  rt_schema :: int
  rt_generated :: string

definition SCHEMA_VERSION :: int where
  "SCHEMA_VERSION = 1"

definition REQUIRED_EXECUTABLES :: "string list" where
  "REQUIRED_EXECUTABLES = [''wh'', ''pi'', ''bun'', ''node'', ''tmux'', ''tailscale'']"

definition OPTIONAL_EXECUTABLES :: "string list" where
  "OPTIONAL_EXECUTABLES = [''zellij'', ''omp'']"

definition STANDARD_PATH_FALLBACK :: "string list" where
  "STANDARD_PATH_FALLBACK = [''/usr/local/bin'', ''/usr/bin'', ''/bin'']"

definition executable :: "host_runtime \<Rightarrow> string \<Rightarrow> string option" where
  "executable rt name = (case map_of (rt_executables rt) name of None \<Rightarrow> None | Some v \<Rightarrow> v)"

definition environment :: "host_runtime \<Rightarrow> (string \<Rightarrow> string option) \<Rightarrow> string \<Rightarrow> string option" where
  "environment rt source = source(''PATH'' := Some (join '':'' (rt_path rt)))"

definition default_manifest_path :: "host \<Rightarrow> string" where
  "default_manifest_path hs =
     (let override = strip (case hs_env hs ''WH_HOST_RUNTIME_CONFIG'' of None \<Rightarrow> '''' | Some s \<Rightarrow> s);
          xdg = strip (case hs_env hs ''XDG_CONFIG_HOME'' of None \<Rightarrow> '''' | Some s \<Rightarrow> s);
          base = posix_path (if xdg \<noteq> '''' then expand_user (hs_home hs) xdg else path_join (hs_home hs) ''.config'')
      in if override \<noteq> '''' then path_str (posix_path (expand_user (hs_home hs) override))
         else path_str (base\<lparr>pp_names := pp_names base @ [''worker-harness'', ''host-runtime.json'']\<rparr>))"

section \<open>Capture\<close>

text \<open>\<open>shutil.which\<close> for a plain name.\<close>

definition which :: "host \<Rightarrow> fs \<Rightarrow> string \<Rightarrow> string option" where
  "which hs fs name =
     (let path = (case hs_env hs ''PATH'' of None \<Rightarrow> ''/bin:/usr/bin'' | Some s \<Rightarrow> s)
      in if path = '''' then None
         else find (\<lambda>p. stat fs p \<noteq> None \<and> hs_access hs p \<and> \<not> is_dir fs p)
           (map (\<lambda>dir. path_join dir name) (split_on (CHR '':'') path)))"

text \<open>Directories in order of first appearance.\<close>

fun add_dirs :: "string list \<Rightarrow> string list \<Rightarrow> string list" where
  "add_dirs primary [] = primary"
| "add_dirs primary (p # ps) =
     (if p \<noteq> '''' \<and> dirname p \<noteq> '''' \<and> dirname p \<notin> set primary then add_dirs (primary @ [dirname p]) ps else add_dirs primary ps)"

fun add_entries :: "(string \<Rightarrow> bool) \<Rightarrow> string list \<Rightarrow> string list \<Rightarrow> string list" where
  "add_entries keep seen [] = seen"
| "add_entries keep seen (e # es) = (if keep e \<and> e \<notin> set seen then add_entries keep (seen @ [e]) es else add_entries keep seen es)"

definition capture_path :: "host \<Rightarrow> fs \<Rightarrow> string list \<Rightarrow> string option list \<Rightarrow> string list \<Rightarrow> string list" where
  "capture_path hs fs required optional existing =
     (let primary = add_dirs (add_dirs [] required) (List.map_filter (\<lambda>p. p) optional);
          filtered = add_entries (\<lambda>e. e \<noteq> '''' \<and> isabs e \<and> is_dir fs e \<and> \<not> is_under e (hs_temp hs)) primary existing
      in add_entries (\<lambda>e. e \<noteq> '''' \<and> is_dir fs e) filtered STANDARD_PATH_FALLBACK)"

definition capture_host_runtime :: "host \<Rightarrow> fs \<Rightarrow> string \<Rightarrow> host_runtime res" where
  "capture_host_runtime hs fs generated =
     (let found = (\<lambda>name. map_option (abspath (hs_cwd hs)) (which hs fs name));
          missing = filter (\<lambda>name. found name = None) REQUIRED_EXECUTABLES;
          optional = map found OPTIONAL_EXECUTABLES;
          entries = filter (\<lambda>e. e \<noteq> '''') (split_on (CHR '':'') (case hs_env hs ''PATH'' of None \<Rightarrow> '''' | Some s \<Rightarrow> s));
          required = List.map_filter found REQUIRED_EXECUTABLES
      in if missing \<noteq> [] then Inl (RuntimeErr (''required host executables missing from PATH: '' @ join '', '' missing))
         else Inr \<lparr>rt_path = capture_path hs fs required optional entries,
                  rt_executables = map (\<lambda>name. (name, found name)) (REQUIRED_EXECUTABLES @ OPTIONAL_EXECUTABLES),
                  rt_schema = SCHEMA_VERSION, rt_generated = generated\<rparr>)"

section \<open>Loading\<close>

definition dedupe_preserving_order :: "string list \<Rightarrow> string list" where
  "dedupe_preserving_order entries = add_entries (\<lambda>e. True) [] entries"

fun path_entries :: "json list \<Rightarrow> string list res" where
  "path_entries [] = Inr []"
| "path_entries (v # vs) = (case v of
     JStr e \<Rightarrow> if \<not> isabs e then Inl (RuntimeErr ''manifest 'path' entries must be absolute and non-empty'')
       else (case path_entries vs of Inl err \<Rightarrow> Inl err | Inr es \<Rightarrow> Inr (e # es))
   | _ \<Rightarrow> Inl (RuntimeErr ''manifest 'path' entries must be strings''))"

fun required_entries :: "(string \<times> json) list \<Rightarrow> string list \<Rightarrow> (string \<times> string option) list res" where
  "required_entries kvs [] = Inr []"
| "required_entries kvs (name # names) = (case map_of kvs name of
     Some (JStr p) \<Rightarrow> if \<not> isabs p then Inl (RuntimeErr (''required executable '' @ name @ '' missing or not an absolute path''))
       else (case required_entries kvs names of Inl err \<Rightarrow> Inl err | Inr es \<Rightarrow> Inr ((name, Some p) # es))
   | _ \<Rightarrow> Inl (RuntimeErr (''required executable '' @ name @ '' missing or not an absolute path'')))"

fun optional_entries :: "(string \<times> json) list \<Rightarrow> string list \<Rightarrow> (string \<times> string option) list res" where
  "optional_entries kvs [] = Inr []"
| "optional_entries kvs (name # names) =
     (case (case map_of kvs name of
              None \<Rightarrow> Inr None | Some JNull \<Rightarrow> Inr None
            | Some (JStr p) \<Rightarrow> if isabs p then Inr (Some p) else Inl (RuntimeErr (''optional executable '' @ name @ '' must be null or an absolute path''))
            | Some _ \<Rightarrow> Inl (RuntimeErr (''optional executable '' @ name @ '' must be null or an absolute path''))) of
        Inl err \<Rightarrow> Inl err
      | Inr v \<Rightarrow> (case optional_entries kvs names of Inl err \<Rightarrow> Inl err | Inr es \<Rightarrow> Inr ((name, v) # es)))"

text \<open>The schema version is compared with \<open>!=\<close>, so \<open>true\<close> passes for 1.\<close>

definition validate_loaded_payload :: "json \<Rightarrow> (string list \<times> (string \<times> string option) list \<times> int \<times> string) res" where
  "validate_loaded_payload payload = (case payload of
     JObj kvs \<Rightarrow>
       if json_get kvs ''schema_version'' JNull \<notin> {JInt SCHEMA_VERSION, JBool True} then Inl (RuntimeErr ''unsupported manifest schema_version'')
       else (case json_get kvs ''generated_at'' JNull of
         JStr generated \<Rightarrow>
           if generated = '''' then Inl (RuntimeErr ''manifest missing or invalid generated_at'')
           else (case json_get kvs ''path'' JNull of
             JArr vs \<Rightarrow> (case path_entries vs of
               Inl err \<Rightarrow> Inl err
             | Inr entries \<Rightarrow> (case json_get kvs ''executables'' JNull of
                 JObj exes \<Rightarrow> (case required_entries exes REQUIRED_EXECUTABLES of
                   Inl err \<Rightarrow> Inl err
                 | Inr req \<Rightarrow> (case optional_entries exes OPTIONAL_EXECUTABLES of
                     Inl err \<Rightarrow> Inl err
                   | Inr opt \<Rightarrow> Inr (entries, req @ opt, SCHEMA_VERSION, generated)))
               | _ \<Rightarrow> Inl (RuntimeErr ''manifest 'executables' must be a JSON object'')))
           | _ \<Rightarrow> Inl (RuntimeErr ''manifest 'path' must be a list of strings''))
       | _ \<Rightarrow> Inl (RuntimeErr ''manifest missing or invalid generated_at''))
   | _ \<Rightarrow> Inl (RuntimeErr ''manifest must decode to a JSON object''))"

fun validate_executables_on_disk :: "fs \<Rightarrow> (string \<times> string option) list \<Rightarrow> unit res" where
  "validate_executables_on_disk fs [] = Inr ()"
| "validate_executables_on_disk fs ((name, v) # es) = (case v of
     None \<Rightarrow> validate_executables_on_disk fs es
   | Some p \<Rightarrow> (case stat fs p of
       None \<Rightarrow> Inl (RuntimeErr (''executable '' @ name @ '' not a regular file''))
     | Some nd \<Rightarrow> if nd_kind nd \<noteq> Regular then Inl (RuntimeErr (''executable '' @ name @ '' not a regular file''))
         else if nd_mode nd = 0 \<or> \<not> any_exec (nd_mode nd) then Inl (RuntimeErr (''executable '' @ name @ '' lacks execute permission''))
         else validate_executables_on_disk fs es))"

definition parent_dir :: "string \<Rightarrow> string" where
  "parent_dir p = path_str (path_parent (posix_path p))"

definition load_host_runtime :: "host \<Rightarrow> fs \<Rightarrow> bool \<Rightarrow> string \<Rightarrow> host_runtime option res" where
  "load_host_runtime hs fs required manifest =
     (case stat fs manifest of
        None \<Rightarrow> if required then Inl (RuntimeErr (''host runtime manifest not found: '' @ manifest)) else Inr None
      | Some _ \<Rightarrow> (case (fs manifest, stat fs (parent_dir manifest)) of
          (Some meta, Some parent) \<Rightarrow>
            if nd_kind meta \<noteq> Regular then Inl (RuntimeErr ''manifest is not a regular file'')
            else if nd_uid meta \<noteq> hs_uid hs \<or> nd_mode meta \<noteq> 384 then Inl (RuntimeErr ''manifest must be owned by the current user with mode 0600'')
            else if nd_kind parent \<noteq> Directory \<or> nd_uid parent \<noteq> hs_uid hs \<or> nd_mode parent \<noteq> 448
            then Inl (RuntimeErr ''manifest directory must be owned by the current user with mode 0700'')
            else (case nd_content meta of
              NotJson \<Rightarrow> Inl (RuntimeErr ''manifest is not valid JSON'')
            | Unreadable \<Rightarrow> Inl (RuntimeErr ''cannot read manifest'')
            | NotText \<Rightarrow> Inl (ValueErr ''UnicodeDecodeError'')
            | Doc payload \<Rightarrow> (case validate_loaded_payload payload of
                Inl err \<Rightarrow> Inl err
              | Inr (entries, exes, schema, generated) \<Rightarrow> (case validate_executables_on_disk fs exes of
                  Inl err \<Rightarrow> Inl err
                | Inr _ \<Rightarrow> Inr (Some \<lparr>rt_path = dedupe_preserving_order entries, rt_executables = exes,
                    rt_schema = schema, rt_generated = generated\<rparr>))))
        | _ \<Rightarrow> Inl (RuntimeErr ''cannot inspect manifest permissions'')))"

section \<open>Writing\<close>

text \<open>The calls of \<open>write_host_runtime\<close> that can fail, in order; \<open>fault\<close> is the one that does, with the
  exception it raises (\<open>CancelledErr\<close> for one that is no \<open>Exception\<close>), and \<open>stuck\<close> says that removing the
  temporary file fails too.  \<open>tmp\<close> is the name \<open>mkstemp\<close> has found free.\<close>

datatype write_step = MkParent | ChmodParent | MkTemp | WriteTemp | ChmodTemp | ReplaceFile | ChmodFinal

definition raised :: "(write_step \<times> error) option \<Rightarrow> write_step \<Rightarrow> error option" where
  "raised fault s = (case fault of None \<Rightarrow> None | Some (s', err) \<Rightarrow> if s' = s then Some err else None)"

definition new_dir :: "host \<Rightarrow> node" where
  "new_dir hs = \<lparr>nd_kind = Directory, nd_uid = hs_uid hs, nd_mode = 448, nd_content = Unreadable\<rparr>"

text \<open>\<open>mkdir(parents=True, exist_ok=True)\<close> creates the missing ancestors; anything else in the way is an
  error.  The modes of new ancestors other than the last are immaterial.\<close>

definition ancestors :: "string \<Rightarrow> string list" where
  "ancestors dir = (let p = posix_path dir in map (\<lambda>n. path_str (p\<lparr>pp_names := take n (pp_names p)\<rparr>)) [1..<Suc (length (pp_names p))])"

definition mkdir_parents :: "host \<Rightarrow> fs \<Rightarrow> string \<Rightarrow> error + fs" where
  "mkdir_parents hs fs dir =
     (if list_ex (\<lambda>a. fs a \<noteq> None \<and> \<not> is_dir fs a) (ancestors dir) then Inl (OSErr ''FileExistsError'')
      else Inr (\<lambda>p. if p \<in> set (ancestors dir) \<and> fs p = None then Some (new_dir hs) else fs p))"

text \<open>\<open>os.chmod\<close> follows links.\<close>

definition set_mode :: "nat \<Rightarrow> string \<Rightarrow> fs \<Rightarrow> fs" where
  "set_mode m p fs = (case resolve 41 fs p of
     None \<Rightarrow> fs | Some q \<Rightarrow> fs(q := map_option (\<lambda>nd. nd\<lparr>nd_mode := m\<rparr>) (fs q)))"

definition manifest_doc :: "host_runtime \<Rightarrow> json" where
  "manifest_doc rt = JObj
     [(''executables'', JObj (map (\<lambda>e. (fst e, case snd e of None \<Rightarrow> JNull | Some p \<Rightarrow> JStr p)) (sort_key fst (rt_executables rt)))),
      (''generated_at'', JStr (rt_generated rt)), (''path'', JArr (map JStr (rt_path rt))), (''schema_version'', JInt SCHEMA_VERSION)]"

definition temp_node :: "host \<Rightarrow> content \<Rightarrow> node" where
  "temp_node hs c = \<lparr>nd_kind = Regular, nd_uid = hs_uid hs, nd_mode = 384, nd_content = c\<rparr>"

definition wrapped :: "error \<Rightarrow> error" where
  "wrapped err = (if err = CancelledErr then err else RuntimeErr (''cannot write host runtime manifest''))"

definition rollback :: "bool \<Rightarrow> string \<Rightarrow> error \<Rightarrow> fs \<Rightarrow> unit res \<times> fs" where
  "rollback stuck tmp err fs = (Inl (wrapped err), if stuck then fs else fs(tmp := None))"

definition write_host_runtime :: "host \<Rightarrow> host_runtime \<Rightarrow> string \<Rightarrow> string \<Rightarrow> (write_step \<times> error) option \<Rightarrow> bool \<Rightarrow> fs \<Rightarrow> unit res \<times> fs" where
  "write_host_runtime hs rt manifest tmp fault stuck fs =
     (case raised fault MkParent of Some err \<Rightarrow> (Inl err, fs) | None \<Rightarrow>
      case mkdir_parents hs fs (parent_dir manifest) of Inl err \<Rightarrow> (Inl err, fs) | Inr fs1 \<Rightarrow>
      case raised fault ChmodParent of Some err \<Rightarrow> (Inl err, fs1) | None \<Rightarrow>
      let fs2 = set_mode 448 (parent_dir manifest) fs1 in
      case raised fault MkTemp of Some err \<Rightarrow> (Inl (wrapped err), fs2) | None \<Rightarrow>
      case raised fault WriteTemp of Some err \<Rightarrow> rollback stuck tmp err (fs2(tmp \<mapsto> temp_node hs NotJson)) | None \<Rightarrow>
      let fs3 = fs2(tmp \<mapsto> temp_node hs (Doc (manifest_doc rt))) in
      case raised fault ChmodTemp of Some err \<Rightarrow> rollback stuck tmp err fs3 | None \<Rightarrow>
      case raised fault ReplaceFile of Some err \<Rightarrow> rollback stuck tmp err fs3 | None \<Rightarrow>
      if (case fs3 manifest of Some nd \<Rightarrow> nd_kind nd = Directory | None \<Rightarrow> False)
      then rollback stuck tmp (OSErr ''IsADirectoryError'') fs3
      else let fs4 = (fs3(tmp := None))(manifest := fs3 tmp) in
      case raised fault ChmodFinal of Some err \<Rightarrow> (Inl err, fs4) | None \<Rightarrow> (Inr (), set_mode 384 manifest fs4))"

section \<open>Probes\<close>

definition CLEAN_ENV_KEYS :: "string list" where
  "CLEAN_ENV_KEYS = [''HOME'', ''USER'', ''LOGNAME'', ''LANG'', ''LC_ALL'', ''TERM'']"

definition clean_environment :: "host_runtime \<Rightarrow> (string \<Rightarrow> string option) \<Rightarrow> string \<Rightarrow> string option" where
  "clean_environment rt env k =
     (if k = ''PATH'' then Some (join '':'' (rt_path rt))
      else if k \<in> set CLEAN_ENV_KEYS \<and> env k \<notin> {None, Some ''''} then env k else None)"

definition VERSION_ARGUMENTS :: "(string \<times> string list) list" where
  "VERSION_ARGUMENTS = [(''wh'', [''--help'']), (''pi'', [''--version'']), (''bun'', [''--version'']), (''node'', [''--version'']),
     (''tmux'', [''-V'']), (''tailscale'', [''version'']), (''zellij'', [''--version'']), (''omp'', [''--version''])]"

record tool_check =
  tc_name :: string
  tc_required :: bool
  tc_available :: bool
  tc_exit :: "int option"
  tc_timed_out :: bool
  tc_output :: string
  tc_error :: "string option"

definition tc_ok :: "tool_check \<Rightarrow> bool" where
  "tc_ok c = (tc_available c \<and> \<not> tc_timed_out c \<and> tc_exit c = Some 0)"

text \<open>The end of a probe: not found, the timeout, an exit, with what was printed; other exceptions of
  \<open>subprocess.run\<close> are not caught.\<close>

datatype probe_end = ProbeMissing string | ProbeTimeout string string | ProbeExit int string string | ProbeRaises error

definition probe_tool :: "(string list \<Rightarrow> (string \<Rightarrow> string option) \<Rightarrow> probe_end) \<Rightarrow> (string \<Rightarrow> string option) \<Rightarrow> host_runtime \<Rightarrow> string \<Rightarrow> bool \<Rightarrow>
    tool_check res" where
  "probe_tool run env rt name required =
     (let check = \<lparr>tc_name = name, tc_required = required, tc_available = False, tc_exit = None, tc_timed_out = False, tc_output = '''', tc_error = None\<rparr>
      in case executable rt name of
           None \<Rightarrow> Inr check
         | Some p \<Rightarrow> if p = '''' then Inr check
             else (case run (p # (case map_of VERSION_ARGUMENTS name of None \<Rightarrow> [''--version''] | Some a \<Rightarrow> a)) (clean_environment rt env) of
               ProbeMissing e \<Rightarrow> Inr (check\<lparr>tc_error := Some e\<rparr>)
             | ProbeTimeout out err \<Rightarrow> Inr (check\<lparr>tc_available := True, tc_timed_out := True,
                 tc_output := (if out \<noteq> '''' then out else err), tc_error := Some ''timeout after 5s''\<rparr>)
             | ProbeExit rc out err \<Rightarrow> Inr (check\<lparr>tc_available := True, tc_exit := Some rc,
                 tc_output := strip (if out \<noteq> '''' then out else err)\<rparr>)
             | ProbeRaises err \<Rightarrow> Inl err))"

fun probe_all :: "(string list \<Rightarrow> (string \<Rightarrow> string option) \<Rightarrow> probe_end) \<Rightarrow> (string \<Rightarrow> string option) \<Rightarrow> host_runtime \<Rightarrow> (string \<times> bool) list \<Rightarrow>
    tool_check list res" where
  "probe_all run env rt [] = Inr []"
| "probe_all run env rt ((name, required) # tools) = (case probe_tool run env rt name required of
     Inl err \<Rightarrow> Inl err
   | Inr c \<Rightarrow> (case probe_all run env rt tools of Inl err \<Rightarrow> Inl err | Inr cs \<Rightarrow> Inr (c # cs)))"

definition validate_host_runtime :: "(string list \<Rightarrow> (string \<Rightarrow> string option) \<Rightarrow> probe_end) \<Rightarrow> (string \<Rightarrow> string option) \<Rightarrow> host_runtime \<Rightarrow>
    tool_check list res" where
  "validate_host_runtime run env rt = probe_all run env rt
     (map (\<lambda>n. (n, True)) REQUIRED_EXECUTABLES @
      map (\<lambda>n. (n, False)) (filter (\<lambda>n. executable rt n \<notin> {None, Some ''''}) OPTIONAL_EXECUTABLES))"

definition validation_failures :: "tool_check list \<Rightarrow> tool_check list" where
  "validation_failures results = filter (\<lambda>c. tc_required c \<and> \<not> tc_ok c) results"

definition validation_warnings :: "tool_check list \<Rightarrow> tool_check list" where
  "validation_warnings results = filter (\<lambda>c. \<not> tc_required c \<and> \<not> tc_ok c) results"

section \<open>Following links\<close>

text \<open>\<open>fs'\<close> has everything \<open>fs\<close> has, with the same kinds.\<close>

definition extends :: "fs \<Rightarrow> fs \<Rightarrow> bool" where
  "extends fs fs' = (\<forall>p nd. fs p = Some nd \<longrightarrow> (\<exists>nd'. fs' p = Some nd' \<and> nd_kind nd' = nd_kind nd))"

lemma resolve_extends: "extends fs fs' \<Longrightarrow> resolve n fs p = Some q \<Longrightarrow> resolve n fs' p = Some q"
proof (induction n arbitrary: p)
  case (Suc n)
  then obtain nd where nd: "fs p = Some nd" by (auto split: option.splits)
  then obtain nd' where "fs' p = Some nd'" "nd_kind nd' = nd_kind nd" using Suc.prems(1) by (auto simp: extends_def)
  then show ?case using Suc nd by (auto split: kind.splits)
qed simp

lemma resolve_node: "resolve n fs p = Some q \<Longrightarrow> \<exists>nd. fs q = Some nd \<and> (\<forall>l. nd_kind nd \<noteq> Symlink l)"
proof (induction n arbitrary: p)
  case (Suc n)
  then show ?case by (cases "fs p") (auto split: kind.splits)
qed simp

lemma resolve_plain: "fs p = Some nd \<Longrightarrow> nd_kind nd \<in> {Regular, Directory, Special} \<Longrightarrow> resolve (Suc n) fs p = Some p"
  by (auto split: kind.splits)

lemma stat_extends:
  assumes "extends fs fs'" "stat fs p = Some nd"
  shows "\<exists>q nd'. resolve 41 fs p = Some q \<and> fs q = Some nd \<and> stat fs' p = Some nd' \<and> fs' q = Some nd' \<and> nd_kind nd' = nd_kind nd"
proof -
  obtain q where q: "resolve 41 fs p = Some q" "fs q = Some nd" using assms(2) by (auto simp: stat_def split: option.splits)
  obtain nd' where "fs' q = Some nd'" "nd_kind nd' = nd_kind nd" using assms(1) q(2) by (auto simp: extends_def)
  then show ?thesis using q resolve_extends [OF assms(1) q(1)] by (simp add: stat_def)
qed

section \<open>The manifest is replaced as a whole\<close>

lemma parent_dir_abs: "list_all component (dirs @ [f]) \<Longrightarrow> parent_dir (abs_path (dirs @ [f])) = abs_path dirs"
  by (simp add: parent_dir_def posix_abs_path path_parent_def path_str_abs_path)

lemma ancestors_abs:
  "list_all component dirs \<Longrightarrow> dirs \<noteq> [] \<Longrightarrow> set (ancestors (abs_path dirs)) = (\<lambda>n. abs_path (take n dirs)) ` {1..length dirs}"
  by (simp add: ancestors_def Let_def posix_abs_path path_str_abs_path atLeastLessThanSuc_atLeastAtMost del: upt_Suc)

lemma not_ancestor:
  assumes "list_all component (dirs @ [f])" "dirs \<noteq> []"
  shows "abs_path (dirs @ [f]) \<notin> set (ancestors (abs_path dirs))"
proof
  assume "abs_path (dirs @ [f]) \<in> set (ancestors (abs_path dirs))"
  then obtain n where n: "1 \<le> n" "abs_path (dirs @ [f]) = abs_path (take n dirs)" using assms by (auto simp: ancestors_abs)
  have "list_all component (take n dirs)" using assms(1) by (auto simp: list_all_iff dest: in_set_takeD)
  then have "dirs @ [f] = take n dirs" using n assms by (subst (asm) abs_path_inject) auto
  then have "length (dirs @ [f]) \<le> length dirs" by (metis length_take min.cobounded1)
  then show False by simp
qed

text \<open>Everything outside the two files that is no directory stays as it is.\<close>

definition same_files :: "string \<Rightarrow> string \<Rightarrow> fs \<Rightarrow> fs \<Rightarrow> bool" where
  "same_files m t fs fs' = (\<forall>p nd. p \<noteq> m \<longrightarrow> p \<noteq> t \<longrightarrow> fs p = Some nd \<longrightarrow> nd_kind nd \<noteq> Directory \<longrightarrow> fs' p = Some nd)"

lemma mkdir_result:
  assumes mk: "mkdir_parents hs fs dir = Inr fs1" and self: "dir \<in> set (ancestors dir)"
  shows "extends fs fs1" "\<exists>q nd. resolve 41 fs1 dir = Some q \<and> fs1 q = Some nd \<and> nd_kind nd = Directory \<and>
      (case stat fs dir of None \<Rightarrow> nd_uid nd = hs_uid hs | Some nd0 \<Rightarrow> nd_uid nd = nd_uid nd0)"
    "\<And>p. p \<notin> set (ancestors dir) \<Longrightarrow> fs1 p = fs p" "\<And>p nd. fs p = Some nd \<Longrightarrow> fs1 p = Some nd"
proof -
  have f: "fs1 = (\<lambda>p. if p \<in> set (ancestors dir) \<and> fs p = None then Some (new_dir hs) else fs p)"
    and d: "fs a \<noteq> None \<Longrightarrow> a \<in> set (ancestors dir) \<Longrightarrow> is_dir fs a" for a
    using mk by (auto simp: mkdir_parents_def list_ex_iff split: if_splits)
  show p: "p \<notin> set (ancestors dir) \<Longrightarrow> fs1 p = fs p" "fs p = Some nd \<Longrightarrow> fs1 p = Some nd" for p nd by (auto simp: f)
  show e: "extends fs fs1" by (auto simp: extends_def f)
  show "\<exists>q nd. resolve 41 fs1 dir = Some q \<and> fs1 q = Some nd \<and> nd_kind nd = Directory \<and>
      (case stat fs dir of None \<Rightarrow> nd_uid nd = hs_uid hs | Some nd0 \<Rightarrow> nd_uid nd = nd_uid nd0)"
  proof (cases "fs dir")
    case None
    then have new: "fs1 dir = Some (new_dir hs)" using self by (simp add: f)
    have "resolve 41 fs1 dir = Some dir" using new by (simp add: numeral_eq_Suc new_dir_def)
    moreover have "stat fs dir = None" using None by (simp add: stat_def numeral_eq_Suc)
    ultimately show ?thesis using new by (simp add: new_dir_def)
  next
    case (Some nd0)
    then obtain nd where nd: "stat fs dir = Some nd" "nd_kind nd = Directory"
      using d [of dir] self by (auto simp: is_dir_def split: option.splits)
    then obtain q where q: "resolve 41 fs dir = Some q" "fs q = Some nd" by (auto simp: stat_def split: option.splits)
    then show ?thesis using resolve_extends [OF e q(1)] p(2) [OF q(2)] nd by auto
  qed
qed

lemma path_in_own_ancestors: "list_all component dirs \<Longrightarrow> dirs \<noteq> [] \<Longrightarrow> abs_path dirs \<in> set (ancestors (abs_path dirs))"
  by (auto simp: ancestors_abs intro!: image_eqI [where x = "length dirs"] simp: Suc_le_eq)

text \<open>The state in which the temporary file is created: the two files are untouched, and the directory
  above them is there with mode 0700.\<close>

lemma prepared:
  assumes c: "list_all component (dirs @ [f])" "list_all component (dirs @ [t])" "dirs \<noteq> []"
    and m: "m = abs_path (dirs @ [f])" "tmp = abs_path (dirs @ [t])"
    and fresh: "fs tmp = None" and nodir: "case fs m of Some nd \<Rightarrow> nd_kind nd \<noteq> Directory | None \<Rightarrow> True"
    and mk: "mkdir_parents hs fs (abs_path dirs) = Inr fs1" and fs2: "fs2 = set_mode 448 (abs_path dirs) fs1"
  shows "fs1 m = fs m \<and> fs1 tmp = None \<and> same_files m tmp fs fs1" "fs2 m = fs m \<and> fs2 tmp = None \<and> same_files m tmp fs fs2"
    "\<exists>q nd. q \<noteq> m \<and> q \<noteq> tmp \<and> resolve 41 fs2 (abs_path dirs) = Some q \<and> fs2 q = Some nd \<and> nd_kind nd = Directory \<and> nd_mode nd = 448 \<and>
      (case stat fs (abs_path dirs) of None \<Rightarrow> nd_uid nd = hs_uid hs | Some nd0 \<Rightarrow> nd_uid nd = nd_uid nd0)"
    "extends fs fs2"
proof -
  have d: "list_all component dirs" using c by simp
  note r = mkdir_result [OF mk path_in_own_ancestors [OF d c(3)]]
  obtain q nd where q: "resolve 41 fs1 (abs_path dirs) = Some q" "fs1 q = Some nd" "nd_kind nd = Directory"
    "case stat fs (abs_path dirs) of None \<Rightarrow> nd_uid nd = hs_uid hs | Some nd0 \<Rightarrow> nd_uid nd = nd_uid nd0" using r(2) by blast
  have m1: "fs1 m = fs m" and t1: "fs1 tmp = None"
    using r(3) not_ancestor [OF c(1,3)] not_ancestor [OF c(2,3)] fresh by (auto simp: m)
  show one: "fs1 m = fs m \<and> fs1 tmp = None \<and> same_files m tmp fs fs1" using m1 t1 r(4) by (auto simp: same_files_def)
  have f2: "fs2 = fs1(q := Some (nd\<lparr>nd_mode := 448\<rparr>))" using q by (simp add: fs2 set_mode_def)
  have qm: "q \<noteq> m" "q \<noteq> tmp" using q(2,3) m1 t1 nodir by auto
  show two: "fs2 m = fs m \<and> fs2 tmp = None \<and> same_files m tmp fs fs2"
    using one qm q(2,3) unfolding f2 same_files_def by (metis fun_upd_apply option.inject)
  have e: "extends fs1 fs2" using q(2) by (auto simp: extends_def f2)
  show "extends fs fs2" using r(1) e unfolding extends_def by metis
  show "\<exists>q nd. q \<noteq> m \<and> q \<noteq> tmp \<and> resolve 41 fs2 (abs_path dirs) = Some q \<and> fs2 q = Some nd \<and> nd_kind nd = Directory \<and> nd_mode nd = 448 \<and>
      (case stat fs (abs_path dirs) of None \<Rightarrow> nd_uid nd = hs_uid hs | Some nd0 \<Rightarrow> nd_uid nd = nd_uid nd0)"
    using qm q(3,4) resolve_extends [OF e q(1)]
    by (intro exI [of _ q] exI [of _ "nd\<lparr>nd_mode := 448\<rparr>"]) (simp add: f2 split: option.splits)
qed

text \<open>C32. The manifest is replaced as a whole.  Whichever call of the write fails, and with whatever
  exception, the manifest is afterwards either exactly what it was, and then the call has failed, or the
  complete new document with mode 0600; a reader never meets a part of it.  When the call returns it is the
  new one.  The temporary file is gone unless removing it fails as well, and no file but these two is
  touched.\<close>

theorem write_is_atomic:
  assumes "list_all component (dirs @ [f])" "list_all component (dirs @ [t])" "dirs \<noteq> []" "f \<noteq> t"
    and "fs (abs_path (dirs @ [t])) = None" "case fs (abs_path (dirs @ [f])) of Some nd \<Rightarrow> nd_kind nd \<noteq> Directory | None \<Rightarrow> True"
  shows "case write_host_runtime hs rt (abs_path (dirs @ [f])) (abs_path (dirs @ [t])) fault stuck fs of (r, fs') \<Rightarrow>
    (case r of Inr _ \<Rightarrow> fs' (abs_path (dirs @ [f])) = Some (temp_node hs (Doc (manifest_doc rt)))
     | Inl _ \<Rightarrow> fs' (abs_path (dirs @ [f])) = fs (abs_path (dirs @ [f])) \<or>
         raised fault ChmodFinal \<noteq> None \<and> fs' (abs_path (dirs @ [f])) = Some (temp_node hs (Doc (manifest_doc rt)))) \<and>
    (fs' (abs_path (dirs @ [t])) = None \<or> isl r \<and> stuck) \<and>
    same_files (abs_path (dirs @ [f])) (abs_path (dirs @ [t])) fs fs'"
proof -
  define m tmp where mt: "m = abs_path (dirs @ [f])" "tmp = abs_path (dirs @ [t])"
  have ne: "m \<noteq> tmp" using assms(1,2,4) by (simp add: mt abs_path_inject)
  have pd: "parent_dir m = abs_path dirs" using parent_dir_abs [OF assms(1)] by (simp add: mt)
  show ?thesis
  proof (cases "mkdir_parents hs fs (abs_path dirs)")
    case (Inl err)
    then show ?thesis using assms(5)
      by (cases "raised fault MkParent") (simp_all add: write_host_runtime_def pd same_files_def flip: mt)
  next
    case (Inr fs1)
    note p = prepared [OF assms(1-3) mt assms(5,6) [folded mt] Inr refl]
    have same: "same_files m tmp fs (fs'(tmp := x))" "same_files m tmp fs (fs'(m := x))" "same_files m tmp fs fs" if "same_files m tmp fs fs'" for fs' x
      using that by (auto simp: same_files_def)
    define fs2 where "fs2 = set_mode 448 (abs_path dirs) fs1"
    note p = p [folded fs2_def]
    have set: "set_mode 384 m (fs'(m \<mapsto> temp_node hs c)) = fs'(m \<mapsto> temp_node hs c)" for fs' c
      by (simp add: set_mode_def temp_node_def numeral_eq_Suc fun_upd_twist)
    have facts: "fs1 m = fs m" "fs1 tmp = None" "same_files m tmp fs fs1" "fs2 m = fs m" "fs2 tmp = None" "same_files m tmp fs fs2" using p by blast+
    note w = write_host_runtime_def pd Inr same(1) [OF facts(6)] same(2) [OF same(1) [OF facts(6)]] same(3) [OF facts(3)]
      rollback_def fs2_def [symmetric] set facts ne ne [symmetric] assms(5,6) [folded mt]
    show ?thesis
      by (cases "raised fault MkParent"; cases "raised fault ChmodParent"; cases "raised fault MkTemp"; cases "raised fault WriteTemp";
        cases "raised fault ChmodTemp"; cases "raised fault ReplaceFile"; cases "raised fault ChmodFinal"; cases "fs m")
        (use assms(6) [folded mt] in \<open>simp_all add: w Let_def flip: mt\<close>)
  qed
qed

theorem write_is_atomic_witness:
  "case write_host_runtime \<lparr>hs_uid = 1000, hs_env = Map.empty, hs_home = ''/h'', hs_cwd = ''/h'', hs_temp = ''/tmp'', hs_access = (\<lambda>p. True)\<rparr>
      \<lparr>rt_path = [''/bin''], rt_executables = [], rt_schema = 1, rt_generated = ''now''\<rparr> (abs_path [''d'', ''m'']) (abs_path [''d'', ''t''])
      (Some (ReplaceFile, OSErr ''EIO'')) False Map.empty of (r, fs') \<Rightarrow>
    (case r of Inr _ \<Rightarrow> fs' (abs_path [''d'', ''m'']) \<noteq> None | Inl _ \<Rightarrow> fs' (abs_path [''d'', ''m'']) = None) \<and> fs' (abs_path [''d'', ''t'']) = None"
  using write_is_atomic [where dirs = "[''d'']" and f = "''m''" and t = "''t''" and fs = Map.empty
      and hs = "\<lparr>hs_uid = 1000, hs_env = Map.empty, hs_home = ''/h'', hs_cwd = ''/h'', hs_temp = ''/tmp'', hs_access = (\<lambda>p. True)\<rparr>"
      and rt = "\<lparr>rt_path = [''/bin''], rt_executables = [], rt_schema = 1, rt_generated = ''now''\<rparr>"
      and fault = "Some (ReplaceFile, OSErr ''EIO'')" and stuck = False]
  by (simp add: component_def raised_def split: prod.splits sum.splits)

section \<open>What a load accepts\<close>

lemma add_entries_distinct: "distinct seen \<Longrightarrow> distinct (add_entries keep seen es)"
  by (induction keep seen es rule: add_entries.induct) auto

lemma add_entries_set: "set (add_entries keep seen es) = set seen \<union> {e \<in> set es. keep e}"
  by (induction keep seen es rule: add_entries.induct) auto

lemma dedupe_distinct: "distinct (seen @ es) \<Longrightarrow> add_entries (\<lambda>e. True) seen es = seen @ es"
  by (induction es arbitrary: seen) auto

lemma path_entries_isabs: "path_entries vs = Inr es \<Longrightarrow> list_all isabs es"
  by (induction vs arbitrary: es) (auto split: json.splits if_splits sum.splits)

lemma path_entries_strings: "list_all isabs es \<Longrightarrow> path_entries (map JStr es) = Inr es"
  by (induction es) auto

definition entry_ok :: "string option \<Rightarrow> bool" where
  "entry_ok v = (case v of None \<Rightarrow> True | Some p \<Rightarrow> isabs p)"

lemma required_entries_result:
  "required_entries kvs names = Inr es \<Longrightarrow> map fst es = names \<and> list_all (\<lambda>e. snd e \<noteq> None \<and> entry_ok (snd e)) es"
  by (induction names arbitrary: es) (auto simp: entry_ok_def split: option.splits json.splits if_splits sum.splits)

lemma optional_entries_result:
  "optional_entries kvs names = Inr es \<Longrightarrow> map fst es = names \<and> list_all (\<lambda>e. entry_ok (snd e)) es"
proof (induction names arbitrary: es)
  case (Cons name names)
  from Cons.prems have "\<exists>v es'. optional_entries kvs names = Inr es' \<and> es = (name, v) # es' \<and> entry_ok v"
    by (auto simp: entry_ok_def split: option.splits json.splits if_splits sum.splits)
  then show ?case using Cons.IH by auto
qed simp

lemma on_disk_iff:
  "validate_executables_on_disk fs es = Inr () \<longleftrightarrow> list_all (\<lambda>e. case snd e of None \<Rightarrow> True | Some p \<Rightarrow> is_program fs p) es"
proof (induction fs es rule: validate_executables_on_disk.induct)
  case (2 fs name v es)
  have "any_exec m \<Longrightarrow> m \<noteq> 0" for m by (cases "m = 0") (simp_all add: any_exec_def)
  then show ?case using 2 by (auto simp: is_program_def split: option.splits)
qed simp

lemma executable_of_entries:
  assumes "map fst es = names" "distinct names" "n \<in> set names" "list_all (\<lambda>e. P (snd e)) es"
  shows "case map_of es n of None \<Rightarrow> False | Some v \<Rightarrow> P v"
proof -
  obtain v where v: "map_of es n = Some v" using assms(1,3) by (metis list.set_map map_of_eq_None_iff not_Some_eq)
  then have "(n, v) \<in> set es" by (rule map_of_SomeD)
  then show ?thesis using assms(4) v by (auto simp: list_all_iff)
qed

definition runtime_ok :: "fs \<Rightarrow> host_runtime \<Rightarrow> bool" where
  "runtime_ok fs rt = (distinct (rt_path rt) \<and> list_all isabs (rt_path rt) \<and>
     map fst (rt_executables rt) = REQUIRED_EXECUTABLES @ OPTIONAL_EXECUTABLES \<and>
     list_all (\<lambda>name. case executable rt name of Some p \<Rightarrow> isabs p \<and> is_program fs p | None \<Rightarrow> False) REQUIRED_EXECUTABLES \<and>
     list_all (\<lambda>name. case executable rt name of Some p \<Rightarrow> isabs p \<and> is_program fs p | None \<Rightarrow> True) OPTIONAL_EXECUTABLES)"

lemma loaded_payload:
  assumes "validate_loaded_payload payload = Inr (entries, exes, schema, generated)" "validate_executables_on_disk fs exes = Inr ()"
  shows "schema = SCHEMA_VERSION \<and> generated \<noteq> '''' \<and>
    runtime_ok fs \<lparr>rt_path = dedupe_preserving_order entries, rt_executables = exes, rt_schema = schema, rt_generated = generated\<rparr>"
proof -
  obtain kvs vs kvs2 req opt where p: "path_entries vs = Inr entries" "required_entries kvs2 REQUIRED_EXECUTABLES = Inr req"
      "optional_entries kvs2 OPTIONAL_EXECUTABLES = Inr opt" "exes = req @ opt" "schema = SCHEMA_VERSION" "generated \<noteq> ''''"
    using assms(1) by (auto simp: validate_loaded_payload_def split: json.splits if_splits sum.splits)
  note req = required_entries_result [OF p(2)] and opt = optional_entries_result [OF p(3)]
  define good where "good v = (entry_ok v \<and> (case v of None \<Rightarrow> True | Some p \<Rightarrow> is_program fs p))" for v
  have disk: "list_all (\<lambda>e. case snd e of None \<Rightarrow> True | Some p \<Rightarrow> is_program fs p) (req @ opt)"
    using assms(2) unfolding on_disk_iff p(4) .
  have g: "list_all (\<lambda>e. snd e \<noteq> None \<and> good (snd e)) req" "list_all (\<lambda>e. good (snd e)) opt"
    using req opt disk unfolding good_def by (auto simp: list_all_iff)
  have d: "distinct (REQUIRED_EXECUTABLES @ OPTIONAL_EXECUTABLES)" by (simp add: REQUIRED_EXECUTABLES_def OPTIONAL_EXECUTABLES_def)
  have r: "case map_of req n of None \<Rightarrow> False | Some v \<Rightarrow> v \<noteq> None \<and> good v" if "n \<in> set REQUIRED_EXECUTABLES" for n
    by (rule executable_of_entries [OF _ _ that]) (use req g d in auto)
  have o: "case map_of opt n of None \<Rightarrow> False | Some v \<Rightarrow> good v" if "n \<in> set OPTIONAL_EXECUTABLES" for n
    by (rule executable_of_entries [OF _ _ that]) (use opt g d in auto)
  have no: "map_of req n = None" if "n \<in> set OPTIONAL_EXECUTABLES" for n
    using req that d by (auto simp: map_of_eq_None_iff simp flip: set_map)
  have "list_all isabs (dedupe_preserving_order entries)" "distinct (dedupe_preserving_order entries)"
    using path_entries_isabs [OF p(1)] by (auto simp: dedupe_preserving_order_def list_all_iff add_entries_set add_entries_distinct)
  moreover have "case executable \<lparr>rt_path = dedupe_preserving_order entries, rt_executables = exes, rt_schema = schema, rt_generated = generated\<rparr> n of
      Some p \<Rightarrow> isabs p \<and> is_program fs p | None \<Rightarrow> False" if "n \<in> set REQUIRED_EXECUTABLES" for n
    using r [OF that] by (auto simp: executable_def p(4) map_add_def good_def entry_ok_def split: option.splits)
  moreover have "case executable \<lparr>rt_path = dedupe_preserving_order entries, rt_executables = exes, rt_schema = schema, rt_generated = generated\<rparr> n of
      Some p \<Rightarrow> isabs p \<and> is_program fs p | None \<Rightarrow> True" if "n \<in> set OPTIONAL_EXECUTABLES" for n
    using o [OF that] no [OF that] by (auto simp: executable_def p(4) map_add_def good_def entry_ok_def split: option.splits)
  ultimately show ?thesis using p req opt by (simp add: runtime_ok_def list_all_iff)
qed

definition private_manifest :: "host \<Rightarrow> fs \<Rightarrow> string \<Rightarrow> bool" where
  "private_manifest hs fs manifest = (case (fs manifest, stat fs (parent_dir manifest)) of
     (Some m, Some d) \<Rightarrow> nd_kind m = Regular \<and> nd_uid m = hs_uid hs \<and> nd_mode m = 384 \<and>
       nd_kind d = Directory \<and> nd_uid d = hs_uid hs \<and> nd_mode d = 448
   | _ \<Rightarrow> False)"

definition is_runtime_err :: "error \<Rightarrow> bool" where
  "is_runtime_err err = (case err of RuntimeErr _ \<Rightarrow> True | _ \<Rightarrow> False)"

lemma path_entries_err: "path_entries vs = Inl err \<Longrightarrow> is_runtime_err err"
  by (induction vs) (auto simp: is_runtime_err_def split: json.splits if_splits sum.splits)

lemma required_entries_err: "required_entries kvs names = Inl err \<Longrightarrow> is_runtime_err err"
  by (induction names) (auto simp: is_runtime_err_def split: option.splits json.splits if_splits sum.splits)

lemma optional_entries_err: "optional_entries kvs names = Inl err \<Longrightarrow> is_runtime_err err"
  by (induction names) (auto simp: is_runtime_err_def split: option.splits json.splits if_splits sum.splits)

lemma on_disk_err: "validate_executables_on_disk fs es = Inl err \<Longrightarrow> is_runtime_err err"
  by (induction fs es rule: validate_executables_on_disk.induct) (auto simp: is_runtime_err_def split: option.splits if_splits)

lemma payload_err: "validate_loaded_payload payload = Inl err \<Longrightarrow> is_runtime_err err"
  by (auto simp: validate_loaded_payload_def is_runtime_err_def [of "RuntimeErr _"]
      dest: path_entries_err required_entries_err optional_entries_err split: json.splits if_splits sum.splits)

text \<open>C33. What a load lets through.  A loaded runtime has distinct absolute search directories, every
  required executable and exactly the optional ones as absolute paths of regular executable files, and was
  read from a regular file of mode 0600 in a directory of mode 0700, both of the user.  No runtime without
  an error means there is no manifest and none was required.  Everything else is a \<open>HostRuntimeError\<close>,
  save for a manifest whose bytes are not UTF-8.\<close>

theorem loaded_runtime_valid:
  "case load_host_runtime hs fs required manifest of
     Inr (Some rt) \<Rightarrow> runtime_ok fs rt \<and> rt_generated rt \<noteq> '''' \<and> private_manifest hs fs manifest
   | Inr None \<Rightarrow> \<not> required \<and> stat fs manifest = None
   | Inl err \<Rightarrow> is_runtime_err err \<or> (case fs manifest of Some nd \<Rightarrow> nd_content nd = NotText | None \<Rightarrow> False)"
proof (cases "load_host_runtime hs fs required manifest")
  case (Inl err)
  then show ?thesis
    by (auto simp: load_host_runtime_def is_runtime_err_def [of "RuntimeErr _"] dest: payload_err on_disk_err
        split: option.splits if_splits content.splits sum.splits)
next
  case (Inr r)
  show ?thesis
  proof (cases r)
    case None
    then show ?thesis using Inr by (auto simp: load_host_runtime_def split: option.splits if_splits content.splits sum.splits)
  next
    case (Some rt)
    then obtain payload entries exes schema generated where
      p: "validate_loaded_payload payload = Inr (entries, exes, schema, generated)" "validate_executables_on_disk fs exes = Inr ()"
      and rt: "rt = \<lparr>rt_path = dedupe_preserving_order entries, rt_executables = exes, rt_schema = schema, rt_generated = generated\<rparr>"
      and priv: "private_manifest hs fs manifest"
      using Inr by (auto simp: load_host_runtime_def private_manifest_def split: option.splits if_splits content.splits sum.splits)
    have "runtime_ok fs rt \<and> rt_generated rt \<noteq> ''''" using loaded_payload [OF p] by (simp only: rt host_runtime.simps) blast
    then show ?thesis using priv Inr Some by simp
  qed
qed

section \<open>From the capture back to the runtime\<close>

lemma isabs_Cons: "isabs p \<longleftrightarrow> (\<exists>r. p = CHR ''/'' # r)"
  by (cases p) (auto simp: isabs_def)

lemma isabs_normpath: "isabs p \<Longrightarrow> isabs (normpath p)"
  by (auto simp: isabs_Cons normpath_def posix_path_def Let_def)

lemma isabs_abspath: "isabs cwd \<Longrightarrow> isabs (abspath cwd p)"
  by (auto simp: abspath_def path_join_def isabs_Cons isabs_Cons [unfolded isabs_def] intro!: isabs_normpath [unfolded isabs_Cons])

lemma isabs_dirname:
  assumes "isabs p"
  shows "isabs (dirname p)"
proof -
  define head where "head = rev (dropWhile (\<lambda>c. c \<noteq> CHR ''/'') (rev p))"
  obtain t where t: "p = head @ t" unfolding head_def by (metis rev_append rev_rev_ident takeWhile_dropWhile_id)
  have ne: "head \<noteq> ''''" using assms by (auto simp: head_def isabs_Cons)
  then have h: "isabs head" using assms t by (cases head) (auto simp: isabs_Cons)
  obtain u where u: "head = rstrip_char (CHR ''/'') head @ u"
    unfolding rstrip_char_def by (metis rev_append rev_rev_ident takeWhile_dropWhile_id)
  have "rstrip_char (CHR ''/'') head \<noteq> ''''" if "list_ex (\<lambda>c. c \<noteq> CHR ''/'') head"
    using that by (auto simp: rstrip_char_def list_ex_iff)
  then have "isabs (rstrip_char (CHR ''/'') head)" if "list_ex (\<lambda>c. c \<noteq> CHR ''/'') head"
    using that u h by (cases "rstrip_char (CHR ''/'') head") (auto simp: isabs_Cons)
  then show ?thesis using h ne by (simp add: dirname_def Let_def flip: head_def)
qed

lemma add_dirs_props:
  "list_all isabs primary \<and> distinct primary \<Longrightarrow> list_all isabs ps \<Longrightarrow> list_all isabs (add_dirs primary ps) \<and> distinct (add_dirs primary ps)"
  by (induction primary ps rule: add_dirs.induct) (auto simp: isabs_dirname)

lemma capture_path_props:
  assumes "list_all isabs required" "list_all isabs (List.map_filter (\<lambda>p. p) optional)"
  shows "list_all isabs (capture_path hs fs required optional existing) \<and> distinct (capture_path hs fs required optional existing)"
proof -
  have fb: "list_all isabs STANDARD_PATH_FALLBACK" by (simp add: STANDARD_PATH_FALLBACK_def isabs_def)
  have "list_all isabs (add_dirs (add_dirs [] required) (List.map_filter (\<lambda>p. p) optional)) \<and>
      distinct (add_dirs (add_dirs [] required) (List.map_filter (\<lambda>p. p) optional))"
    by (intro add_dirs_props assms) simp_all
  then show ?thesis using fb
    by (auto simp: capture_path_def Let_def list_all_iff add_entries_set intro!: add_entries_distinct)
qed

lemma map_of_map_snd: "map_of (map (\<lambda>e. (fst e, f (snd e))) xs) n = map_option f (map_of xs n)"
  by (induction xs) auto

lemma map_of_sorted:
  assumes "distinct (map fst xs)"
  shows "map_of (sort_key f xs) = map_of xs"
proof -
  have "distinct (map fst (sort_key f xs))" using assms by (simp add: distinct_map)
  then show ?thesis using assms map_of_inject_set [of "sort_key f xs" xs] by simp
qed

lemma required_entries_read:
  "list_all (\<lambda>e. case snd e of Some p \<Rightarrow> isabs p \<and> map_of kvs (fst e) = Some (JStr p) | None \<Rightarrow> False) es \<Longrightarrow>
    required_entries kvs (map fst es) = Inr es"
  by (induction es) (auto split: option.splits)

lemma optional_entries_read:
  "list_all (\<lambda>e. case snd e of Some p \<Rightarrow> isabs p \<and> map_of kvs (fst e) = Some (JStr p) | None \<Rightarrow> map_of kvs (fst e) = Some JNull) es \<Longrightarrow>
    optional_entries kvs (map fst es) = Inr es"
  by (induction es) (auto split: option.splits)

lemma captured:
  assumes "capture_host_runtime hs fs generated = Inr rt" "isabs (hs_cwd hs)"
  shows "list_all isabs (rt_path rt) \<and> distinct (rt_path rt) \<and> rt_schema rt = SCHEMA_VERSION \<and> rt_generated rt = generated \<and>
    (\<exists>req opt. rt_executables rt = req @ opt \<and> map fst req = REQUIRED_EXECUTABLES \<and> map fst opt = OPTIONAL_EXECUTABLES \<and>
      list_all (\<lambda>e. snd e \<noteq> None) req \<and> list_all (\<lambda>e. entry_ok (snd e)) (req @ opt))"
proof -
  define found where "found = (\<lambda>name. map_option (abspath (hs_cwd hs)) (which hs fs name))"
  have all: "found n \<noteq> None" if "n \<in> set REQUIRED_EXECUTABLES" for n
    using assms(1) that by (auto simp: capture_host_runtime_def Let_def filter_empty_conv found_def split: if_splits)
  have abs: "entry_ok (found n)" for n using isabs_abspath [OF assms(2)] by (auto simp: entry_ok_def found_def split: option.splits)
  have rt: "rt = \<lparr>rt_path = capture_path hs fs (List.map_filter found REQUIRED_EXECUTABLES) (map found OPTIONAL_EXECUTABLES)
        (filter (\<lambda>e. e \<noteq> '''') (split_on (CHR '':'') (case hs_env hs ''PATH'' of None \<Rightarrow> '''' | Some s \<Rightarrow> s))),
      rt_executables = map (\<lambda>name. (name, found name)) (REQUIRED_EXECUTABLES @ OPTIONAL_EXECUTABLES),
      rt_schema = SCHEMA_VERSION, rt_generated = generated\<rparr>"
    using assms(1) by (auto simp: capture_host_runtime_def Let_def found_def split: if_splits)
  have "list_all isabs (List.map_filter found REQUIRED_EXECUTABLES)" "list_all isabs (List.map_filter (\<lambda>p. p) (map found OPTIONAL_EXECUTABLES))"
    using abs by (force simp: list_all_iff map_filter_elem entry_ok_def split: option.splits)+
  note p = capture_path_props [OF this]
  have names: "map (fst \<circ> (\<lambda>name. (name, found name))) ns = ns" for ns by (simp add: o_def)
  have "\<exists>req opt. rt_executables rt = req @ opt \<and> map fst req = REQUIRED_EXECUTABLES \<and> map fst opt = OPTIONAL_EXECUTABLES \<and>
      list_all (\<lambda>e. snd e \<noteq> None) req \<and> list_all (\<lambda>e. entry_ok (snd e)) (req @ opt)"
    by (rule exI [of _ "map (\<lambda>name. (name, found name)) REQUIRED_EXECUTABLES"],
      rule exI [of _ "map (\<lambda>name. (name, found name)) OPTIONAL_EXECUTABLES"]) (use all abs in \<open>auto simp: rt names list_all_iff\<close>)
  then show ?thesis using p by (simp add: rt)
qed

lemma read_back:
  assumes cap: "capture_host_runtime hs fs generated = Inr rt" "isabs (hs_cwd hs)" and gen: "generated \<noteq> ''''"
  shows "validate_loaded_payload (manifest_doc rt) = Inr (rt_path rt, rt_executables rt, rt_schema rt, rt_generated rt)"
proof -
  obtain req opt where c: "list_all isabs (rt_path rt)" "rt_schema rt = SCHEMA_VERSION" "rt_generated rt = generated"
      "rt_executables rt = req @ opt" "map fst req = REQUIRED_EXECUTABLES" "map fst opt = OPTIONAL_EXECUTABLES"
      "list_all (\<lambda>e. snd e \<noteq> None) req" "list_all (\<lambda>e. entry_ok (snd e)) (req @ opt)"
    using captured [OF cap] by blast
  define kvs where "kvs = map (\<lambda>e. (fst e, case snd e of None \<Rightarrow> JNull | Some p \<Rightarrow> JStr p)) (sort_key fst (rt_executables rt))"
  have d: "distinct (map fst (rt_executables rt))" unfolding c(4) map_append c(5,6) by (simp add: REQUIRED_EXECUTABLES_def OPTIONAL_EXECUTABLES_def)
  have kvs: "map_of kvs n = map_option (\<lambda>v. case v of None \<Rightarrow> JNull | Some p \<Rightarrow> JStr p) (map_of (rt_executables rt) n)" for n
    unfolding kvs_def map_of_sorted [OF d, of fst, symmetric] by (simp add: map_of_map_snd)
  have look: "map_of kvs (fst e) = Some (case snd e of None \<Rightarrow> JNull | Some p \<Rightarrow> JStr p)" if "e \<in> set (req @ opt)" for e
    using map_of_is_SomeI [OF d, of "fst e" "snd e"] that c(4) by (simp add: kvs)
  have "required_entries kvs REQUIRED_EXECUTABLES = Inr req" unfolding c(5) [symmetric]
    using look c(7,8) by (intro required_entries_read) (auto simp: list_all_iff entry_ok_def split: option.splits)
  moreover have "optional_entries kvs OPTIONAL_EXECUTABLES = Inr opt" unfolding c(6) [symmetric]
    using look c(8) by (intro optional_entries_read) (auto simp: list_all_iff entry_ok_def split: option.splits)
  ultimately show ?thesis using path_entries_strings [OF c(1)] c(2-4) gen
    by (simp add: validate_loaded_payload_def manifest_doc_def json_get_def flip: kvs_def [unfolded c(4)])
qed

lemma resolve_avoid:
  assumes "q \<noteq> m" "case fs m of Some nd \<Rightarrow> nd_kind nd = Regular | None \<Rightarrow> True"
  shows "resolve n fs p = Some q \<Longrightarrow> resolve n (fs(m := x)) p = Some q"
proof (induction n arbitrary: p)
  case (Suc n)
  have "p \<noteq> m"
  proof
    assume "p = m"
    then show False using Suc.prems assms by (cases "fs m") auto
  qed
  then show ?case using Suc by (cases "fs p") (auto split: kind.splits)
qed simp

text \<open>The file system a successful write leaves behind.\<close>

lemma written:
  assumes "parent_dir m = dir" "write_host_runtime hs rt m tmp None stuck fs = (Inr u, fs')" "m \<noteq> tmp"
  shows "\<exists>fs1. mkdir_parents hs fs dir = Inr fs1 \<and>
    fs' = (set_mode 448 dir fs1)(tmp := None, m \<mapsto> temp_node hs (Doc (manifest_doc rt)))"
proof -
  have set: "set_mode 384 m (g(m \<mapsto> temp_node hs c)) = g(m \<mapsto> temp_node hs c)" for g c
    by (simp add: set_mode_def temp_node_def numeral_eq_Suc fun_upd_twist)
  show ?thesis using assms(2,3)
    by (auto simp: write_host_runtime_def assms(1) raised_def rollback_def Let_def set split: sum.splits if_splits)
qed

lemma program_kept:
  assumes prog: "is_program (fs(m := None)) p" and ext: "extends fs fs2" and same: "same_files m tmp fs fs2"
    and fresh: "fs tmp = None" "fs2 tmp = None"
  shows "is_program (fs2(m := x)) p"
proof -
  obtain q nd where q: "resolve 41 (fs(m := None)) p = Some q" "(fs(m := None)) q = Some nd" "nd_kind nd = Regular" "any_exec (nd_mode nd)"
    using prog by (auto simp: is_program_def stat_def split: option.splits)
  have ext': "extends (fs(m := None)) (fs2(m := x))" using ext by (auto simp: extends_def)
  have q2: "q \<noteq> m" "fs q = Some nd" "q \<noteq> tmp" using q(2) fresh by (auto split: if_splits)
  then have "fs2 q = Some nd" using same q(3) by (auto simp: same_files_def)
  then show ?thesis using resolve_extends [OF ext' q(1)] q q2 by (simp add: is_program_def stat_def)
qed

text \<open>What is captured and written is what is loaded.  Once the capture has found the required
  executables and the write has gone through, a load by the same user gives the very runtime back: the
  permissions the write sets are those the load asks for, and the document it writes passes every check.
  The programs the search found must still be programs at their normalized paths, not reached through
  the manifest itself, and a directory that was there already must be the user's.\<close>

theorem captured_manifest_loads:
  assumes "capture_host_runtime hs fs generated = Inr rt" "isabs (hs_cwd hs)" "generated \<noteq> ''''"
    and "list_all component (dirs @ [f])" "list_all component (dirs @ [t])" "dirs \<noteq> []" "f \<noteq> t"
    and "fs (abs_path (dirs @ [t])) = None" "case fs (abs_path (dirs @ [f])) of Some nd \<Rightarrow> nd_kind nd = Regular | None \<Rightarrow> True"
    and "case stat fs (abs_path dirs) of Some nd \<Rightarrow> nd_uid nd = hs_uid hs | None \<Rightarrow> True"
    and "list_all (\<lambda>e. case snd e of None \<Rightarrow> True | Some p \<Rightarrow> is_program (fs(abs_path (dirs @ [f]) := None)) p) (rt_executables rt)"
    and "write_host_runtime hs rt (abs_path (dirs @ [f])) (abs_path (dirs @ [t])) None stuck fs = (Inr u, fs')"
  shows "load_host_runtime hs fs' required (abs_path (dirs @ [f])) = Inr (Some rt)"
proof -
  define m tmp where mt: "m = abs_path (dirs @ [f])" "tmp = abs_path (dirs @ [t])"
  have ne: "m \<noteq> tmp" using assms(4,5,7) by (simp add: mt abs_path_inject)
  have pd: "parent_dir m = abs_path dirs" using parent_dir_abs [OF assms(4)] by (simp add: mt)
  define new where "new = temp_node hs (Doc (manifest_doc rt))"
  obtain fs1 where mk: "mkdir_parents hs fs (abs_path dirs) = Inr fs1"
      and fs': "fs' = (set_mode 448 (abs_path dirs) fs1)(tmp := None, m \<mapsto> new)"
    using written [OF pd assms(12) [folded mt] ne] by (auto simp: new_def)
  define fs2 where "fs2 = set_mode 448 (abs_path dirs) fs1"
  have reg: "case fs m of Some nd \<Rightarrow> nd_kind nd \<noteq> Directory | None \<Rightarrow> True" using assms(9) by (auto simp: mt split: option.splits)
  note p = prepared [OF assms(4-6) mt assms(8) [folded mt] reg mk fs2_def]
  obtain q nd where q: "q \<noteq> m" "resolve 41 fs2 (abs_path dirs) = Some q" "fs2 q = Some nd" "nd_kind nd = Directory" "nd_mode nd = 448"
      "case stat fs (abs_path dirs) of None \<Rightarrow> nd_uid nd = hs_uid hs | Some nd0 \<Rightarrow> nd_uid nd = nd_uid nd0" using p(3) by blast
  have two: "fs2 m = fs m" "fs2 tmp = None" "same_files m tmp fs fs2" using p(2) by blast+
  have f: "fs' = fs2(m \<mapsto> new)" using two(2) by (simp add: fs' fs2_def [symmetric] fun_upd_idem)
  have "resolve 41 fs' (abs_path dirs) = Some q"
    unfolding f by (rule resolve_avoid [OF q(1) _ q(2)]) (use assms(9) two(1) in \<open>simp add: mt\<close>)
  then have parent: "stat fs' (abs_path dirs) = Some nd" using q(1,3) by (simp add: stat_def f)
  have uid: "nd_uid nd = hs_uid hs" using q(6) assms(10) by (simp split: option.splits)
  have here: "fs' m = Some new" "stat fs' m = Some new" by (simp_all add: f stat_def numeral_eq_Suc new_def temp_node_def)
  have "validate_executables_on_disk fs' (rt_executables rt) = Inr ()"
    unfolding on_disk_iff f using assms(11) [folded mt] program_kept [OF _ p(4) two(3) assms(8) [folded mt] two(2)]
    by (auto simp: list_all_iff split: option.splits)
  moreover have "dedupe_preserving_order (rt_path rt) = rt_path rt"
    using captured [OF assms(1,2)] by (simp add: dedupe_preserving_order_def dedupe_distinct)
  ultimately have "load_host_runtime hs fs' required m = Inr (Some rt)"
    using here parent uid q(4,5) read_back [OF assms(1-3)]
    by (simp add: load_host_runtime_def pd new_def temp_node_def)
  then show ?thesis by (simp add: mt)
qed

text \<open>A machine with the six required programs in \<open>/b\<close>.\<close>

definition sample_host :: host where
  "sample_host = \<lparr>hs_uid = 7, hs_env = (\<lambda>k. if k = ''PATH'' then Some ''/b'' else None), hs_home = ''/h'', hs_cwd = ''/h'',
     hs_temp = ''/t'', hs_access = (\<lambda>p. True)\<rparr>"

definition sample_fs :: fs where
  "sample_fs p = (if p = ''/b'' then Some \<lparr>nd_kind = Directory, nd_uid = 0, nd_mode = 493, nd_content = Unreadable\<rparr>
     else if p \<in> set (map (path_join ''/b'') REQUIRED_EXECUTABLES)
     then Some \<lparr>nd_kind = Regular, nd_uid = 0, nd_mode = 493, nd_content = NotJson\<rparr> else None)"

definition sample_runtime :: host_runtime where
  "sample_runtime = \<lparr>rt_path = [''/b''], rt_executables = map (\<lambda>n. (n, Some (''/b/'' @ n))) REQUIRED_EXECUTABLES @ map (\<lambda>n. (n, None)) OPTIONAL_EXECUTABLES,
     rt_schema = 1, rt_generated = ''now''\<rparr>"

lemma sample_capture: "capture_host_runtime sample_host sample_fs ''now'' = Inr sample_runtime"
  by code_simp

lemma sample_write:
  "\<exists>fs'. write_host_runtime sample_host sample_runtime (abs_path ([''c''] @ [''m''])) (abs_path ([''c''] @ [''t''])) None False sample_fs = (Inr (), fs')"
proof -
  have "case write_host_runtime sample_host sample_runtime (abs_path ([''c''] @ [''m''])) (abs_path ([''c''] @ [''t''])) None False sample_fs of
      (Inr _, _) \<Rightarrow> True | _ \<Rightarrow> False" by code_simp
  then show ?thesis by (auto split: prod.splits sum.splits)
qed

theorem captured_manifest_loads_witness:
  "case write_host_runtime sample_host sample_runtime (abs_path ([''c''] @ [''m''])) (abs_path ([''c''] @ [''t''])) None False sample_fs of
     (Inr _, fs') \<Rightarrow> load_host_runtime sample_host fs' True (abs_path ([''c''] @ [''m''])) = Inr (Some sample_runtime)
   | (Inl _, _) \<Rightarrow> False"
proof -
  obtain fs' where w: "write_host_runtime sample_host sample_runtime (abs_path ([''c''] @ [''m''])) (abs_path ([''c''] @ [''t''])) None False sample_fs = (Inr (), fs')"
    using sample_write by blast
  have "load_host_runtime sample_host fs' True (abs_path ([''c''] @ [''m''])) = Inr (Some sample_runtime)"
  proof (rule captured_manifest_loads [OF sample_capture _ _ _ _ _ _ _ _ _ _ w])
    show "list_all (\<lambda>e. case snd e of None \<Rightarrow> True | Some p \<Rightarrow> is_program (sample_fs(abs_path ([''c''] @ [''m'']) := None)) p) (rt_executables sample_runtime)"
      by code_simp
    show "case stat sample_fs (abs_path [''c'']) of Some nd \<Rightarrow> nd_uid nd = hs_uid sample_host | None \<Rightarrow> True" by code_simp
    show "case sample_fs (abs_path ([''c''] @ [''m''])) of Some nd \<Rightarrow> nd_kind nd = Regular | None \<Rightarrow> True" by code_simp
    show "isabs (hs_cwd sample_host)" by code_simp
    show "list_all component ([''c''] @ [''m''])" "list_all component ([''c''] @ [''t''])" by (simp_all add: component_def)
    have "sample_fs (abs_path ([''c''] @ [''t''])) = None" by code_simp
    then show "sample_fs (abs_path ([''c''] @ [''t''])) = None" .
  qed simp_all
  then show ?thesis using w by simp
qed

end
