(* ===== verification/Host_Cli.thy ===== *)
theory Host_Cli
  imports Host_Runtime
begin

text \<open>
  The commands \<open>wh host setup\<close> and \<open>wh host doctor\<close> of \<open>cli/host.py\<close> over the host runtime: what they print,
  in text and in JSON, their exit code, and the exceptions they let through.
\<close>

section \<open>What a command does\<close>

text \<open>A call of \<open>console.print\<close>: a line with its markup, a JSON document, or the rows of a table.\<close>

datatype shown = Line string | Json json | Table "string list list"

text \<open>\<open>Exit n\<close> is \<open>typer.Exit(n)\<close>, a return being \<open>Exit 0\<close>; any other exception is a traceback.\<close>

datatype ending = Exit nat | Uncaught error

type_synonym outcome = "shown list \<times> ending"

definition output_mode :: "string option \<Rightarrow> string \<Rightarrow> string" where
  "output_mode override root_mode = (case override of None \<Rightarrow> root_mode | Some m \<Rightarrow> m)"

definition failed :: "bool \<Rightarrow> string \<Rightarrow> (string \<times> json) list \<Rightarrow> outcome" where
  "failed text_mode message extra =
     ([if text_mode then Line (''[red]'' @ message @ ''[/]'') else Json (JObj ([(''ok'', JBool False), (''error'', JStr message)] @ extra))], Exit 1)"

text \<open>\<open>f"{s:<n}"\<close>\<close>

definition ljust :: "nat \<Rightarrow> string \<Rightarrow> string" where
  "ljust n s = s @ replicate (n - length s) (CHR '' '')"

section \<open>Permissions\<close>

definition format_mode :: "nat \<Rightarrow> string" where
  "format_mode m = ''0'' @ nat_to_string (m div 64 mod 8) @ nat_to_string (m div 8 mod 8) @ nat_to_string (m mod 8)"

definition check_parent_mode :: "fs \<Rightarrow> string \<Rightarrow> bool \<times> string" where
  "check_parent_mode fs path = (let dir = parent_dir path in case stat fs dir of
     None \<Rightarrow> (False, ''parent directory missing: '' @ dir)
   | Some nd \<Rightarrow>
     if nd_kind nd \<noteq> Directory then (False, ''parent is not a directory: '' @ dir)
     else if nd_mode nd mod 512 \<noteq> 448
     then (False, ''parent directory mode is '' @ format_mode (nd_mode nd) @ ''; expected 0700: '' @ dir)
     else (True, ''ok''))"

definition check_file_mode :: "fs \<Rightarrow> string \<Rightarrow> bool \<times> string" where
  "check_file_mode fs path = (case stat fs path of
     None \<Rightarrow> (False, ''manifest missing: '' @ path)
   | Some nd \<Rightarrow>
     if nd_kind nd \<noteq> Regular then (False, ''manifest is not a regular file: '' @ path)
     else if nd_mode nd mod 512 \<noteq> 384
     then (False, ''manifest file mode is '' @ format_mode (nd_mode nd) @ ''; expected 0600: '' @ path)
     else (True, ''ok''))"

definition path_errors :: "fs \<Rightarrow> host_runtime \<Rightarrow> string list" where
  "path_errors fs rt = filter (\<lambda>e. \<not> is_dir fs e) (rt_path rt)"

section \<open>Payloads\<close>

definition opt_json :: "('a \<Rightarrow> json) \<Rightarrow> 'a option \<Rightarrow> json" where
  "opt_json f v = (case v of None \<Rightarrow> JNull | Some x \<Rightarrow> f x)"

definition tool_check_doc :: "tool_check \<Rightarrow> json" where
  "tool_check_doc c = JObj [(''name'', JStr (tc_name c)), (''required'', JBool (tc_required c)), (''available'', JBool (tc_available c)),
     (''ok'', JBool (tc_ok c)), (''exit_code'', opt_json JInt (tc_exit c)), (''timed_out'', JBool (tc_timed_out c)),
     (''output'', JStr (tc_output c)), (''error'', opt_json JStr (tc_error c))]"

definition runtime_doc :: "string \<Rightarrow> host_runtime \<Rightarrow> (string \<times> json) list" where
  "runtime_doc manifest rt = [(''manifest'', JStr manifest), (''schema_version'', JInt (rt_schema rt)), (''generated_at'', JStr (rt_generated rt)),
     (''path'', JArr (map JStr (rt_path rt))), (''executables'', JObj (map (\<lambda>(n, v). (n, opt_json JStr v)) (rt_executables rt)))]"

definition probes_doc :: "tool_check list \<Rightarrow> json" where
  "probes_doc probes = JObj (map (\<lambda>c. (tc_name c, tool_check_doc c)) probes)"

definition healthy :: "bool \<Rightarrow> bool \<Rightarrow> tool_check list \<Rightarrow> string list \<Rightarrow> bool" where
  "healthy parent_ok file_ok probes missing = (parent_ok \<and> file_ok \<and> validation_failures probes = [] \<and> missing = [])"

definition required_status_payload :: "fs \<Rightarrow> host_runtime \<Rightarrow> string \<Rightarrow> bool \<times> string \<Rightarrow> bool \<times> string \<Rightarrow> tool_check list \<Rightarrow> json" where
  "required_status_payload fs rt manifest parent file probes = JObj (runtime_doc manifest rt @
     [(''parent_ok'', JBool (fst parent)), (''parent_detail'', JStr (snd parent)), (''file_ok'', JBool (fst file)), (''file_detail'', JStr (snd file)),
      (''probes'', probes_doc probes), (''failures'', JArr (map tool_check_doc (validation_failures probes))),
      (''warnings'', JArr (map tool_check_doc (validation_warnings probes))), (''missing_path_directories'', JArr (map JStr (path_errors fs rt))),
      (''ok'', JBool (healthy (fst parent) (fst file) probes (path_errors fs rt)))])"

section \<open>Setup\<close>

text \<open>The world of a command: the machine, the probes and the calls of the write that fail.\<close>

record setting =
  st_host :: host
  st_probe :: "string list \<Rightarrow> (string \<Rightarrow> string option) \<Rightarrow> probe_end"
  st_generated :: string
  st_temp :: string
  st_fault :: "(write_step \<times> error) option"
  st_stuck :: bool
  st_mode :: string

definition or_else :: "string option \<Rightarrow> string \<Rightarrow> string" where
  "or_else v other = (case v of None \<Rightarrow> other | Some s \<Rightarrow> if s = '''' then other else s)"

definition exit_text :: "int option \<Rightarrow> string" where
  "exit_text v = (case v of None \<Rightarrow> ''None'' | Some n \<Rightarrow> int_to_string n)"

definition failure_summary :: "tool_check list \<Rightarrow> string" where
  "failure_summary cs = join '', '' (map (\<lambda>c. tc_name c @ '' ('' @ or_else (tc_error c) ''exit'' @ '' '' @ exit_text (tc_exit c) @ '')'') cs)"

definition setup_report :: "string \<Rightarrow> host_runtime \<Rightarrow> tool_check list \<Rightarrow> shown list" where
  "setup_report manifest rt warnings =
     [Line (''[green]Wrote host runtime manifest[/] [dim]'' @ manifest @ ''[/]''), Line (''  schema_version: '' @ int_to_string (rt_schema rt)),
      Line (''  generated_at:   '' @ rt_generated rt), Line ''  executables:''] @
     map (\<lambda>n. Line (''    '' @ ljust 10 n @ '' '' @ (case executable rt n of None \<Rightarrow> ''None'' | Some p \<Rightarrow> p))) REQUIRED_EXECUTABLES @
     map (\<lambda>n. Line (''    '' @ ljust 10 n @ '' '' @ or_else (executable rt n) ''<absent>'')) OPTIONAL_EXECUTABLES @
     [Line ''  PATH:''] @ map (\<lambda>e. Line (''    '' @ e)) (rt_path rt) @
     (if warnings = [] then []
      else Line ''[yellow]Warnings:[/]'' # map (\<lambda>c. Line (''  '' @ tc_name c @ '': '' @ or_else (tc_error c) ''nonzero exit'')) warnings)"

definition host_error :: "error \<Rightarrow> string option" where
  "host_error err = (case err of RuntimeErr s \<Rightarrow> Some s | _ \<Rightarrow> None)"

text \<open>\<open>except HostRuntimeError\<close> around one step.\<close>

definition guarded :: "bool \<Rightarrow> string \<Rightarrow> 'a res \<Rightarrow> ('a \<Rightarrow> outcome \<times> fs) \<Rightarrow> fs \<Rightarrow> outcome \<times> fs" where
  "guarded text_mode what r k fs = (case r of
     Inr x \<Rightarrow> k x
   | Inl err \<Rightarrow> (case host_error err of Some s \<Rightarrow> (failed text_mode (what @ s) [], fs) | None \<Rightarrow> (([], Uncaught err), fs)))"

definition setup_cmd :: "setting \<Rightarrow> string option \<Rightarrow> fs \<Rightarrow> outcome \<times> fs" where
  "setup_cmd st override fs =
     (let manifest = default_manifest_path (st_host st); text_mode = (output_mode override (st_mode st) \<noteq> ''json'') in
      guarded text_mode ''host runtime capture failed: '' (capture_host_runtime (st_host st) fs (st_generated st)) (\<lambda>rt.
      guarded text_mode ''host runtime validation failed before write: '' (validate_host_runtime (st_probe st) (hs_env (st_host st)) rt) (\<lambda>probes.
        let failures = validation_failures probes in
        if failures \<noteq> [] then (failed text_mode (''host runtime validation failed: '' @ failure_summary failures)
            [(''failures'', JArr (map tool_check_doc failures))], fs)
        else (case write_host_runtime (st_host st) rt manifest (st_temp st) (st_fault st) (st_stuck st) fs of (r, fs') \<Rightarrow>
          guarded text_mode ''host runtime write failed: '' r (\<lambda>_.
            ((if text_mode then setup_report manifest rt (validation_warnings probes)
              else [Json (JObj ((''ok'', JBool True) # runtime_doc manifest rt @
                     [(''probes'', probes_doc probes), (''warnings'', JArr (map tool_check_doc (validation_warnings probes)))]))], Exit 0), fs')) fs')) fs) fs)"

section \<open>Doctor\<close>

definition probe_row :: "tool_check list \<Rightarrow> string \<Rightarrow> string list" where
  "probe_row probes name = (case find (\<lambda>c. tc_name c = name) probes of
     None \<Rightarrow> [name, ''-'', ''skipped'', ''-'', ''absent'']
   | Some c \<Rightarrow> [name, if tc_required c then ''yes'' else ''no'',
       if tc_ok c then ''ok'' else if tc_timed_out c then ''timeout'' else ''fail'',
       case tc_exit c of None \<Rightarrow> ''-'' | Some n \<Rightarrow> int_to_string n,
       take 60 (or_else (tc_error c) (if tc_output c \<noteq> '''' then last (splitlines (tc_output c)) else ''''))])"

definition probe_lines :: "string \<Rightarrow> tool_check list \<Rightarrow> shown list" where
  "probe_lines heading cs = (if cs = [] then []
     else Line heading # map (\<lambda>c. Line (''  '' @ tc_name c @ '': '' @ or_else (tc_error c) (''exit '' @ exit_text (tc_exit c)))) cs)"

definition doctor_report :: "fs \<Rightarrow> string \<Rightarrow> host_runtime \<Rightarrow> bool \<times> string \<Rightarrow> bool \<times> string \<Rightarrow> tool_check list \<Rightarrow> shown list" where
  "doctor_report fs manifest rt parent file probes =
     [Line (''manifest: '' @ manifest), Line (''  schema_version: '' @ int_to_string (rt_schema rt)), Line (''  generated_at:   '' @ rt_generated rt),
      Line (''  parent:         '' @ snd parent), Line (''  file mode:      '' @ snd file), Line ''  probes:'',
      Table (map (probe_row probes) (REQUIRED_EXECUTABLES @
        filter (\<lambda>n. list_ex (\<lambda>c. tc_name c = n) probes) OPTIONAL_EXECUTABLES))] @
     probe_lines ''[red]Failures:[/]'' (validation_failures probes) @ probe_lines ''[yellow]Warnings:[/]'' (validation_warnings probes) @
     (if path_errors fs rt = [] then [] else Line ''[red]Missing PATH directories:[/]'' # map (\<lambda>e. Line (''  '' @ e)) (path_errors fs rt)) @
     [Line (if healthy (fst parent) (fst file) probes (path_errors fs rt) then ''[green]host runtime doctor OK[/] ('' @ manifest @ '')''
            else ''[red]host runtime doctor FAILED[/] ('' @ manifest @ '')'')]"

definition missing_manifest :: "bool \<Rightarrow> string \<Rightarrow> outcome" where
  "missing_manifest text_mode manifest = failed text_mode (''host runtime manifest missing: '' @ manifest @ ''; run `wh host setup`'') []"

definition doctor_cmd :: "setting \<Rightarrow> string option \<Rightarrow> fs \<Rightarrow> outcome" where
  "doctor_cmd st override fs =
     (let manifest = default_manifest_path (st_host st); text_mode = (output_mode override (st_mode st) \<noteq> ''json'') in
      if stat fs manifest = None then missing_manifest text_mode manifest
      else (case load_host_runtime (st_host st) fs True manifest of
        Inl err \<Rightarrow> (case host_error err of
          Some s \<Rightarrow> failed text_mode (''host runtime manifest invalid: '' @ s) [] | None \<Rightarrow> ([], Uncaught err))
      | Inr None \<Rightarrow> missing_manifest text_mode manifest
      | Inr (Some rt) \<Rightarrow>
        let parent = check_parent_mode fs manifest; file = check_file_mode fs manifest in
        (case validate_host_runtime (st_probe st) (hs_env (st_host st)) rt of
           Inl err \<Rightarrow> ([], Uncaught err)
         | Inr probes \<Rightarrow>
           (if text_mode then doctor_report fs manifest rt parent file probes
            else [Json (required_status_payload fs rt manifest parent file probes)],
            Exit (if healthy (fst parent) (fst file) probes (path_errors fs rt) then 0 else 1)))))"

section \<open>The two commands agree\<close>

lemma guarded_exit:
  "guarded tm what r k fs = ((out, Exit 0), fs') \<longleftrightarrow> (\<exists>x. r = Inr x \<and> k x = ((out, Exit 0), fs'))"
  by (auto simp: guarded_def failed_def split: sum.splits option.splits)

lemma setup_done:
  assumes "setup_cmd st override fs = ((out, Exit 0), fs')"
  obtains rt probes where "capture_host_runtime (st_host st) fs (st_generated st) = Inr rt"
    and "validate_host_runtime (st_probe st) (hs_env (st_host st)) rt = Inr probes" "validation_failures probes = []"
    and "write_host_runtime (st_host st) rt (default_manifest_path (st_host st)) (st_temp st) (st_fault st) (st_stuck st) fs = (Inr (), fs')"
  using assms by (auto simp: setup_cmd_def Let_def guarded_exit failed_def split: if_splits prod.splits)

text \<open>A manifest that loads has the modes the two checks of the doctor ask for: they never fail.\<close>

lemma loaded_modes:
  assumes "load_host_runtime hs fs required manifest = Inr (Some rt)"
  shows "check_parent_mode fs manifest = (True, ''ok'')" "check_file_mode fs manifest = (True, ''ok'')" "stat fs manifest \<noteq> None"
proof -
  obtain m d where n: "fs manifest = Some m" "stat fs (parent_dir manifest) = Some d" "nd_kind m = Regular" "nd_mode m = 384"
      "nd_kind d = Directory" "nd_mode d = 448" "stat fs manifest \<noteq> None"
    using assms by (auto simp: load_host_runtime_def split: option.splits if_splits)
  have "stat fs manifest = Some m" using n(1,3) by (simp add: stat_def numeral_eq_Suc)
  with n show "check_parent_mode fs manifest = (True, ''ok'')" "check_file_mode fs manifest = (True, ''ok'')" "stat fs manifest \<noteq> None"
    by (simp_all add: check_parent_mode_def check_file_mode_def Let_def)
qed

lemma doctor_loaded:
  assumes "load_host_runtime (st_host st) fs True (default_manifest_path (st_host st)) = Inr (Some rt)"
    and "validate_host_runtime (st_probe st) (hs_env (st_host st)) rt = Inr probes"
  shows "snd (doctor_cmd st override fs) = Exit (if validation_failures probes = [] \<and> path_errors fs rt = [] then 0 else 1)"
proof -
  obtain nd where "stat fs (default_manifest_path (st_host st)) = Some nd" using loaded_modes(3) [OF assms(1)] by blast
  with loaded_modes(1,2) [OF assms(1)] assms show ?thesis by (simp add: doctor_cmd_def Let_def healthy_def)
qed

text \<open>What was there before the manifest is written is still there, with its kind.\<close>

lemma write_extends:
  assumes "list_all component (dirs @ [f])" "list_all component (dirs @ [t])" "dirs \<noteq> []" "f \<noteq> t"
    and "m = abs_path (dirs @ [f])" "tmp = abs_path (dirs @ [t])"
    and "fs tmp = None" "case fs m of Some nd \<Rightarrow> nd_kind nd = Regular | None \<Rightarrow> True"
    and "write_host_runtime hs rt m tmp None stuck fs = (Inr u, fs')"
  shows "extends (fs(m := None)) fs'"
proof -
  have ne: "m \<noteq> tmp" using assms(1,2,4) by (simp add: assms(5,6) abs_path_inject)
  have pd: "parent_dir m = abs_path dirs" using parent_dir_abs [OF assms(1)] by (simp add: assms(5))
  obtain fs1 where mk: "mkdir_parents hs fs (abs_path dirs) = Inr fs1"
      and fs': "fs' = (set_mode 448 (abs_path dirs) fs1)(tmp := None, m \<mapsto> temp_node hs (Doc (manifest_doc rt)))"
    using written [OF pd assms(9) ne] by auto
  have nodir: "case fs m of Some nd \<Rightarrow> nd_kind nd \<noteq> Directory | None \<Rightarrow> True" using assms(8) by (auto split: option.splits)
  note p = prepared [OF assms(1-3,5-7) nodir mk refl]
  have none: "set_mode 448 (abs_path dirs) fs1 tmp = None" using p(2) by blast
  have "fs' = (set_mode 448 (abs_path dirs) fs1)(m \<mapsto> temp_node hs (Doc (manifest_doc rt)))"
    using none by (simp add: fs' fun_upd_idem)
  with p(4) show ?thesis by (auto simp: extends_def)
qed

lemma directory_kept: "extends fs fs' \<Longrightarrow> is_dir fs p \<Longrightarrow> is_dir fs' p"
  using stat_extends [of fs fs' p] by (auto simp: is_dir_def split: option.splits)


definition cli_setting :: setting where
  "cli_setting = \<lparr>st_host = sample_host\<lparr>hs_env := (\<lambda>k. if k = ''PATH'' then Some ''/b'' else if k = ''WH_HOST_RUNTIME_CONFIG'' then Some ''/c/m'' else None)\<rparr>,
     st_probe = (\<lambda>_ _. ProbeExit 0 ''v1'' ''''), st_generated = ''now'', st_temp = ''/c/t'', st_fault = None, st_stuck = False, st_mode = ''text''\<rparr>"

lemma cli_capture: "capture_host_runtime (st_host cli_setting) sample_fs ''now'' = Inr sample_runtime"
  by code_simp

lemma cli_setup: "\<exists>out fs'. setup_cmd cli_setting None sample_fs = ((out, Exit 0), fs')"
proof -
  have "case setup_cmd cli_setting None sample_fs of ((_, Exit 0), _) \<Rightarrow> True | _ \<Rightarrow> False" by code_simp
  then show ?thesis by (auto split: prod.splits ending.splits nat.splits)
qed


section \<open>Findings\<close>

text \<open>
  The steps of a setup raise more than the exception it catches: a probe that may not be run and a directory that cannot be
  created or made private end in a traceback without output, also when JSON was asked for.
\<close>

lemma setup_lets_os_errors_through:
  assumes "capture_host_runtime (st_host st) fs (st_generated st) = Inr rt"
  shows "validate_host_runtime (st_probe st) (hs_env (st_host st)) rt = Inl (OSErr s) \<Longrightarrow> fst (setup_cmd st override fs) = ([], Uncaught (OSErr s))"
    and "validate_host_runtime (st_probe st) (hs_env (st_host st)) rt = Inr probes \<Longrightarrow> validation_failures probes = [] \<Longrightarrow>
      st_fault st = Some (MkParent, OSErr s) \<Longrightarrow> fst (setup_cmd st override fs) = ([], Uncaught (OSErr s))"
  using assms by (simp_all add: setup_cmd_def Let_def guarded_def host_error_def write_host_runtime_def raised_def)

end
