(* ===== verification/Cli.thy ===== *)
theory Cli
  imports Tunnels Host_Cli
begin

text \<open>
  The commands of \<open>cli/jobs.py\<close>, \<open>cli/workers.py\<close>, \<open>cli/agent.py\<close> and \<open>cli/tunnels.py\<close>, which open the database
  themselves instead of asking the control service.  A command returns what it prints and its exit code; an exception
  other than \<open>typer.Exit\<close> leaves the action.  Arrows and bullets outside ASCII are written \<open>->\<close> and as flags.
\<close>

section \<open>What a command prints\<close>

text \<open>A line with its markup, the value a JSON document is dumped from, or the rows of a table.\<close>

datatype 'a printed = Say string | Dump 'a | Show "string list list"

type_synonym 'a command = "('a printed list \<times> nat) act"

definition cli_worker :: "string \<Rightarrow> database \<Rightarrow> worker option" where
  "cli_worker name d = (case get_worker name d of Some v \<Rightarrow> Some v | None \<Rightarrow> find (\<lambda>v. w_name v = name) (list_workers d))"

definition red :: "string \<Rightarrow> 'a command" where
  "red message = ret ([Say (''[red]'' @ message @ ''[/]'')], 1)"

definition shortened :: "nat \<Rightarrow> string \<Rightarrow> string" where
  "shortened n s = take n s @ (if n < length s then ''...'' else '''')"

section \<open>Times and figures\<close>

definition pad2 :: "int \<Rightarrow> string" where
  "pad2 n = (if n < 10 then ''0'' else '''') @ int_to_string n"

text \<open>Month and day of a count of days since 1 January 1970 in the Gregorian calendar; the year of the count starts in March.\<close>

definition month_day :: "int \<Rightarrow> int \<times> int" where
  "month_day days =
     (let z = (days + 719468) mod 146097;
          year = (z - z div 1460 + z div 36524 - z div 146096) div 365;
          day = z - (365 * year + year div 4 - year div 100);
          m = (5 * day + 2) div 153
      in (if m < 10 then m + 3 else m - 9, day - (153 * m + 2) div 5 + 1))"

definition clock_text :: "int \<Rightarrow> string" where
  "clock_text ts = (let s = ts mod 86400 in pad2 (s div 3600) @ '':'' @ pad2 (s div 60 mod 60))"

definition format_timestamp :: "int \<Rightarrow> string" where
  "format_timestamp ts = (if ts = 0 then ''-''
     else (case month_day (ts div 86400) of (m, d) \<Rightarrow> pad2 m @ ''-'' @ pad2 d @ '' '' @ clock_text ts))"

definition last_seen :: "int \<Rightarrow> string" where
  "last_seen ts = (if ts = 0 then ''never'' else clock_text ts @ '':'' @ pad2 (ts mod 60))"

text \<open>\<open>f"{x:.0f}"\<close> and \<open>f"{x:.1f}"\<close>: the nearest figure, the even one of two.\<close>

definition rounded :: "rat \<Rightarrow> int" where
  "rounded x = (let n = \<lfloor>x\<rfloor>; frac = x - of_int n in if frac < 1 / 2 \<or> (frac = 1 / 2 \<and> even n) then n else n + 1)"

definition fixed0 :: "rat \<Rightarrow> string" where
  "fixed0 x = (if x < 0 then ''-'' else '''') @ int_to_string (rounded (abs x))"

definition fixed1 :: "rat \<Rightarrow> string" where
  "fixed1 x = (let n = rounded (abs x * 10) in (if x < 0 then ''-'' else '''') @ int_to_string (n div 10) @ ''.'' @ int_to_string (n mod 10))"

section \<open>Jobs\<close>

definition job_start :: "string \<Rightarrow> string \<Rightarrow> string \<Rightarrow> string option \<Rightarrow> bool \<Rightarrow> (string \<times> string \<times> string) command" where
  "job_start mode worker_id command name no_pty =
     bnd (ask (cli_worker worker_id)) (\<lambda>found. case found of
       None \<Rightarrow> red (''Worker not found: '' @ worker_id)
     | Some v \<Rightarrow> bnd (start_job v command name (\<not> no_pty)) (\<lambda>job.
         if mode = ''json'' then ret ([Dump (j_id job, j_tmux job, job_status_value (j_status job))], 0)
         else if j_status job = FAILED then red (''Failed to start job on '' @ w_name v)
         else ret ([Say (''[green]Job started[/]: '' @ j_id job), Say (''  Worker:  '' @ w_name v @ '' ('' @ ssh_host v @ '')''),
           Say (''  Session: '' @ j_tmux job), Say (''  Command: '' @ shortened 80 command)], 0)))"

definition worker_at :: "worker list \<Rightarrow> string option \<Rightarrow> worker option" where
  "worker_at ws i = (case i of None \<Rightarrow> None | Some k \<Rightarrow> worker_by_id ws k)"

fun refreshed :: "worker list \<Rightarrow> job list \<Rightarrow> job list act" where
  "refreshed ws [] = ret []"
| "refreshed ws (j # js) =
     bnd (if j_status j \<in> {STARTING, RUNNING, PENDING}
          then (case worker_at ws (j_worker j) of None \<Rightarrow> ret j | Some v \<Rightarrow> refresh_job_status v j) else ret j) (\<lambda>j'.
     bnd (refreshed ws js) (\<lambda>js'. ret (j' # js')))"

fun status_color :: "job_status \<Rightarrow> string" where
  "status_color STARTING = ''yellow''" | "status_color RUNNING = ''yellow''" | "status_color DONE = ''green''"
| "status_color FAILED = ''red''" | "status_color PENDING = ''dim''"

definition job_row :: "worker list \<Rightarrow> job \<Rightarrow> string list" where
  "job_row ws j =
     [take 12 (j_id j), ''['' @ status_color (j_status j) @ '']'' @ job_status_value (j_status j) @ ''[/]'',
      take 15 (case worker_at ws (j_worker j) of Some v \<Rightarrow> w_name v
        | None \<Rightarrow> (case j_worker j of None \<Rightarrow> ''-'' | Some s \<Rightarrow> if s = '''' then ''-'' else s)),
      shortened 40 (j_command j), (case j_exit_code j of None \<Rightarrow> ''-'' | Some n \<Rightarrow> int_to_string n), format_timestamp (j_started j)]"

definition job_list :: "string \<Rightarrow> string option \<Rightarrow> string option \<Rightarrow> (job \<times> string option) list command" where
  "job_list mode worker_id status_val =
     (case (case status_val of None \<Rightarrow> Some None | Some s \<Rightarrow> (case status_of_text s of None \<Rightarrow> None | Some st \<Rightarrow> Some (Some st))) of
        None \<Rightarrow> red (''Invalid status: '' @ (case status_val of None \<Rightarrow> '''' | Some s \<Rightarrow> s))
      | Some status \<Rightarrow> bnd (ask (list_jobs worker_id status None)) (\<lambda>jobs. bnd (ask list_workers) (\<lambda>ws.
          bnd (refreshed ws jobs) (\<lambda>js. ret
            ([if mode = ''json'' then Dump (map (\<lambda>j. (j, map_option w_name (worker_at ws (j_worker j)))) js)
              else Show (map (job_row ws) js)], 0)))))"

definition job_of_worker :: "string \<Rightarrow> (worker \<Rightarrow> 'a command) \<Rightarrow> 'a command" where
  "job_of_worker job_id k = bnd (ask (get_job job_id)) (\<lambda>found. case found of
     None \<Rightarrow> red (''Job not found: '' @ job_id)
   | Some j \<Rightarrow> if job_worker_key j = '''' then red (''Job not found: '' @ job_id)
     else bnd (ask (get_worker (job_worker_key j))) (\<lambda>w. case w of
       None \<Rightarrow> red (''Worker not found for job: '' @ job_worker_key j) | Some v \<Rightarrow> k v))"

definition job_logs :: "string \<Rightarrow> int option \<Rightarrow> int option \<Rightarrow> unit command" where
  "job_logs job_id tail head = job_of_worker job_id (\<lambda>v.
     bnd (ssh_read_log v job_id (if tail \<noteq> None then tail else if head \<noteq> None then None else Some 10) head) (\<lambda>logs.
       ret ([Say (if logs \<noteq> '''' then logs else ''[dim]No log output yet.[/]'')], 0)))"

text \<open>What \<open>--follow\<close> prints while the log has these lines at its successive polls, one second apart.\<close>

fun follow :: "nat \<Rightarrow> string list list \<Rightarrow> string list" where
  "follow last_len [] = []"
| "follow last_len (entry # logs) = (let lines = drop (length entry - 50) entry in drop last_len lines @ follow (length lines) logs)"

definition job_stop :: "string \<Rightarrow> string \<Rightarrow> (string \<times> bool) command" where
  "job_stop mode job_id = job_of_worker job_id (\<lambda>v. bnd (stop_job v job_id) (\<lambda>success.
     if mode = ''json'' then ret ([Dump (job_id, success)], 0)
     else if success then ret ([Say (''[green]Job stopped: '' @ job_id @ ''[/]'')], 0)
     else red (''Failed to stop job: '' @ job_id)))"

section \<open>Workers\<close>

text \<open>The row of the table; the first cell says whether the bullet is the green one.\<close>

definition worker_row :: "worker \<Rightarrow> bool \<times> string list" where
  "worker_row v = (w_status v = ONLINE,
     [w_name v, w_ssh_user v @ ''@'' @ ssh_host v, if w_gpu_count v > 0 then int_to_string (w_gpu_count v) else ''-'',
      int_to_string (w_cpu_cores v), fixed0 (w_used_ram v) @ ''/'' @ fixed0 (w_total_ram v) @ '' GB'', last_seen (w_heartbeat v)])"

datatype workers_output = All_Workers "worker list" | Worker_Table "(bool \<times> string list) list" | One_Worker worker | Detail "string list"

definition workers_list_cmd :: "string \<Rightarrow> workers_output command" where
  "workers_list_cmd mode = bnd (ask list_workers) (\<lambda>ws.
     ret ([Dump (if mode = ''json'' then All_Workers ws else Worker_Table (map worker_row ws))], 0))"

text \<open>A bar, with its full blocks written \<open>#\<close> and its empty ones \<open>.\<close>; \<open>int\<close> cuts towards zero and a negative number of
  blocks prints none.\<close>

definition truncated :: "rat \<Rightarrow> int" where
  "truncated x = (if x < 0 then - \<lfloor>- x\<rfloor> else \<lfloor>x\<rfloor>)"

definition progress_bar :: "rat \<Rightarrow> rat \<Rightarrow> nat \<Rightarrow> string" where
  "progress_bar used capacity width =
     (if capacity \<le> 0 then ''[.'' @ replicate width (CHR ''.'') @ '']''
      else let filled = truncated (of_nat width * used / capacity); empty = int width - filled
           in ''[blue]'' @ replicate (nat filled) (CHR ''#'') @ ''[/][.'' @ replicate (nat empty) (CHR ''.'') @ '']'')"

definition at_or :: "'a \<Rightarrow> 'a list \<Rightarrow> nat \<Rightarrow> 'a" where
  "at_or dflt xs i = (if i < length xs then xs ! i else dflt)"

definition amount :: "rat \<Rightarrow> rat \<Rightarrow> nat \<Rightarrow> string" where
  "amount used capacity width = progress_bar used capacity width @ '' '' @ fixed1 used @ ''/'' @ fixed1 capacity @ '' GB''"

definition worker_detail :: "worker \<Rightarrow> string list" where
  "worker_detail v =
     [''[bold]ID:[/bold]          '' @ w_id v, ''[bold]Status:[/bold]     '' @ worker_status_value (w_status v),
      ''[bold]SSH Target:[/bold]  '' @ w_ssh_user v @ ''@'' @ ssh_host v, ''[bold]Harness:[/bold]     '' @ w_harness_dir v,
      ''[bold]CPUs:[/bold]        '' @ int_to_string (w_cpu_cores v), ''[bold]RAM:[/bold]         '' @ amount (w_used_ram v) (w_total_ram v) 20,
      ''[bold]Disk:[/bold]        '' @ amount (w_used_disk v) (w_total_disk v) 20] @
     (if w_gpu_count v > 0 then ''[bold]GPUs:[/bold]'' #
        map (\<lambda>i. ''  [[bold]'' @ at_or (''GPU '' @ nat_to_string i) (w_gpu_names v) i @ ''[/bold]] '' @
            amount (at_or 0 (w_gpu_used v) i) (at_or 0 (w_gpu_vram v) i) 16) [0..<nat (w_gpu_count v)]
      else [])"

definition workers_show :: "string \<Rightarrow> string \<Rightarrow> workers_output command" where
  "workers_show mode worker_id = bnd (ask (cli_worker worker_id)) (\<lambda>found. case found of
     None \<Rightarrow> red (''Worker not found: '' @ worker_id)
   | Some v \<Rightarrow> ret ([Dump (if mode = ''json'' then One_Worker v else Detail (worker_detail v))], 0))"

definition worker_status_of_text :: "string \<Rightarrow> worker_status option" where
  "worker_status_of_text s = find (\<lambda>st. worker_status_value st = s) [ONLINE, OFFLINE, DRAINING]"

definition workers_status :: "string \<Rightarrow> string \<Rightarrow> unit command" where
  "workers_status worker_id status = (case worker_status_of_text status of
     None \<Rightarrow> red (''Invalid status: '' @ status @ ''.'')
   | Some st \<Rightarrow> seq (modify (set_worker_status worker_id st))
       (ret ([Say (''[green]Worker '' @ worker_id @ '' status -> '' @ worker_status_value st @ ''[/]'')], 0)))"

definition workers_prune_cmd :: "int \<Rightarrow> unit command" where
  "workers_prune_cmd minutes = bnd now (\<lambda>t. bnd (db_call (prune_workers (t - minutes * 60))) (\<lambda>n.
     ret ([Say (''[green]Removed '' @ nat_to_string n @ '' stale worker(s).[/]'')], 0)))"

section \<open>The summary for agents\<close>

record workers_response =
  wr_workers :: "(worker \<times> nat) list"
  wr_online :: nat
  wr_offline :: nat

definition agent_workers :: "database \<Rightarrow> workers_response" where
  "agent_workers d = (let ws = list_workers d in
     \<lparr>wr_workers = map (\<lambda>v. (v, running_job_count (w_id v) d)) ws, wr_online = length (filter (\<lambda>v. w_status v = ONLINE) ws),
      wr_offline = length (filter (\<lambda>v. w_status v = OFFLINE) ws)\<rparr>)"

record gpu_entry =
  ge_worker :: string
  ge_name :: string
  ge_index :: nat
  ge_gpu :: string
  ge_total :: rat
  ge_used :: rat

definition free_gpus :: "worker list \<Rightarrow> gpu_entry list \<times> rat" where
  "free_gpus ws =
     (let gpus = concat (map (\<lambda>v. map (\<lambda>i. \<lparr>ge_worker = w_id v, ge_name = w_name v, ge_index = i, ge_gpu = at_or ''Unknown'' (w_gpu_names v) i,
          ge_total = at_or 0 (w_gpu_vram v) i, ge_used = 0\<rparr>) [0..<nat (w_gpu_count v)]) ws)
      in (gpus, sum_list (map ge_total gpus)))"

section \<open>Tunnels\<close>

text \<open>
  The state is that of the control service with one difference: \<open>tn_entries\<close> are the processes this very invocation of the
  command has started, none at its start.  \<open>confirmed\<close> is the answer to the question, \<open>setup\<close> the exception of the forward.
\<close>

definition fresh_process :: "tunnels \<Rightarrow> tunnels" where
  "fresh_process st = st\<lparr>tn_entries := []\<rparr>"

type_synonym tunnel_answer = "(port_forward \<times> string) printed list \<times> nat"

definition tunnel_add :: "string \<Rightarrow> tunnel_request \<Rightarrow> bool \<Rightarrow> string \<Rightarrow> int \<Rightarrow> error option \<Rightarrow> tunnels \<Rightarrow> tunnel_answer res \<times> tunnels" where
  "tunnel_add mode req confirmed i t setup st = (case cli_worker (tr_worker req) (tn_db st) of
     None \<Rightarrow> (Inr ([Say (''[red]Worker not found: '' @ tr_worker req @ ''[/]'')], 1), st)
   | Some v \<Rightarrow>
     let conflict = list_ex (\<lambda>p. pf_local p = tr_local req) (list_port_forwards None (tn_db st));
         warning = (if conflict then [Say (''[yellow]Local port '' @ int_to_string (tr_local req) @ '' already forwarded.[/]'')] else [])
     in if conflict \<and> \<not> confirmed then (Inr (warning, 0), st)
        else (case setup of Some err \<Rightarrow> (Inl err, st) | None \<Rightarrow>
          let pid = tn_next st; pf = (new_forward i v req t)\<lparr>pf_pid := int pid\<rparr>;
              st1 = st\<lparr>tn_groups := pid # tn_groups st, tn_next := Suc pid\<rparr>
          in (case insert_port_forward pf (tn_db st1) of
                Inl err \<Rightarrow> (Inl err, st1)
              | Inr d \<Rightarrow> (Inr (warning @ (if mode = ''json'' then [Dump (pf, w_name v)]
                    else [Say (''[green]Tunnel started[/]: orchestrator:'' @ int_to_string (tr_local req) @ '' -> '' @ w_name v @ '':'' @ int_to_string (tr_remote req)),
                      Say (''  Service:  '' @ pf_service pf), Say (''  PID:      '' @ nat_to_string pid)]), 0),
                  registry_add \<lparr>tp_id = i, tp_worker = w_id v, tp_local = tr_local req, tp_remote = tr_remote req, tp_pid = pid, tp_created = t\<rparr>
                    (st1\<lparr>tn_db := d\<rparr>)))))"

definition tunnel_row :: "worker list \<Rightarrow> port_forward \<Rightarrow> string list" where
  "tunnel_row ws pf = [take 12 (pf_id pf), pf_service pf,
     ''orchestrator:'' @ int_to_string (pf_local pf) @ '' -> '' @
       (case worker_by_id ws (pf_worker pf) of Some v \<Rightarrow> w_name v | None \<Rightarrow> take 12 (pf_worker pf)) @ '':'' @ int_to_string (pf_remote pf),
     int_to_string (pf_pid pf)]"

definition tunnel_list :: "string \<Rightarrow> database \<Rightarrow> (port_forward \<times> string option) list printed list" where
  "tunnel_list mode d = (let ws = list_workers d; forwards = list_port_forwards None d in
     [if mode = ''json'' then Dump (map (\<lambda>p. (p, map_option w_name (worker_by_id ws (pf_worker p)))) forwards)
      else Show (map (tunnel_row ws) forwards)])"

text \<open>\<open>terminate\<close>, \<open>wait\<close> and \<open>kill\<close> reach the leader only.\<close>

definition tunnel_remove :: "string \<Rightarrow> string \<Rightarrow> tunnels \<Rightarrow> (string printed list \<times> nat) \<times> tunnels" where
  "tunnel_remove mode tunnel_id st =
     (case find (\<lambda>p. pf_id p = tunnel_id \<or> startswith tunnel_id (pf_id p)) (list_port_forwards None (tn_db st)) of
        None \<Rightarrow> (([Say (''[red]Tunnel not found: '' @ tunnel_id @ ''[/]'')], 1), st)
      | Some pf \<Rightarrow> (case registry_remove (pf_id pf) st of (entry, st1) \<Rightarrow>
          let st2 = (case entry of None \<Rightarrow> st1 | Some p \<Rightarrow> st1\<lparr>tn_exited := List.insert (tp_pid p) (tn_exited st1)\<rparr>)
          in (([if mode = ''json'' then Dump (pf_id pf) else Say (''[green]Tunnel removed: '' @ pf_id pf @ ''[/]'')], 0),
              st2\<lparr>tn_db := delete_port_forward (pf_id pf) (tn_db st2)\<rparr>)))"

section \<open>Findings\<close>

text \<open>
  A tunnel is only stopped by the invocation that started it: in every later one its row is deleted and its processes stay,
  so that nothing refers to them any more.
\<close>

lemma removed_tunnel_keeps_running:
  "tn_groups (snd (tunnel_remove mode i (fresh_process st))) = tn_groups st \<and>
   tn_exited (snd (tunnel_remove mode i (fresh_process st))) = tn_exited st"
  by (simp add: tunnel_remove_def fresh_process_def registry_remove_def split: option.split)

text \<open>A tunnel that the user agrees to overwrite is not removed: its row and its process stay.\<close>

lemma overwritten_tunnel_stays:
  assumes "tunnel_add mode req True i t setup st = (Inr r, st')" "p \<in> set (t_forwards (tn_db st))"
  shows "p \<in> set (t_forwards (tn_db st')) \<and> set (tn_groups st) \<subseteq> set (tn_groups st') \<and> tn_exited st' = tn_exited st"
  using assms
  by (auto simp: tunnel_add_def Let_def registry_add_def insert_port_forward_def tbl_ins_def split: option.splits sum.splits if_splits)

text \<open>The prefix may be empty: the first tunnel of the list is removed then.\<close>

lemma empty_prefix_removes_first:
  assumes "list_port_forwards None (tn_db st) = p # ps"
  shows "t_forwards (tn_db (snd (tunnel_remove mode '''' st))) = t_forwards (delete_port_forward (pf_id p) (tn_db st))"
  using assms by (simp add: tunnel_remove_def registry_remove_def startswith_def delete_port_forward_def split: option.split)

text \<open>The free GPUs are all GPUs: neither what the worker reports as busy nor whether it is online makes a difference.\<close>

lemma free_gpus_ignores_load:
  "free_gpus (map (\<lambda>v. v\<lparr>w_gpu_busy := busy v, w_gpu_used := used v, w_status := st v\<rparr>) ws) = free_gpus ws"
  by (simp add: free_gpus_def comp_def)

text \<open>A status is set with success for a worker there is none of.\<close>

lemma status_of_unknown_worker:
  assumes "list_all (\<lambda>v. w_id v \<noteq> i) (t_workers (wd_db w))"
  shows "\<exists>out. workers_status i ''online'' e w = Some (Inr ([Say out], 0), w)"
proof -
  have "tbl_upd (\<lambda>v. w_id v = i) f (t_workers (wd_db w)) = t_workers (wd_db w)" for f
    using assms unfolding tbl_upd_def list_all_iff by (intro map_idI) simp
  then show ?thesis
    by (simp add: workers_status_def worker_status_of_text_def act_defs seq_def bnd_def set_worker_status_def)
qed

text \<open>In JSON mode a job that could not be started is reported with exit code 0.\<close>

lemma failed_start_exits_zero:
  assumes "job_start ''json'' i command name no_pty e w = Some (Inr (out, code), w')" "cli_worker i (wd_db w) \<noteq> None"
  shows "code = 0"
  using assms by (auto simp: job_start_def bnd_Inr act_defs split: option.splits)

text \<open>\<open>--follow\<close> prints nothing more once the log has fifty lines.\<close>

lemma follow_goes_silent:
  assumes "list_all (\<lambda>entry. 50 \<le> length entry) logs"
  shows "follow 50 logs = []"
  using assms by (induction logs) (auto simp: Let_def)

end
