(* ===== verification/Tui.thy ===== *)
theory Tui
  imports Cli
begin

text \<open>
  The text user interface \<open>tui/app.py\<close> as a state: the two tables with their selections, the detail panel, the stack of
  screens and the notifications.  Textual delivers the events; work in the background opens the database and calls the job
  manager.  The bullet of a worker is a flag, and a line break of the panel is \<open>nl\<close>.
\<close>

section \<open>Texts\<close>

definition pct :: "rat \<Rightarrow> rat \<Rightarrow> string" where
  "pct a b = (if b \<noteq> 0 then int_to_string (truncated (100 * a / b)) @ ''%'' else ''0%'')"

definition gpu_summary :: "worker \<Rightarrow> string" where
  "gpu_summary v =
     (if w_gpu_count v = 0 then ''none''
      else join '', '' (map (\<lambda>i. at_or (''GPU'' @ nat_to_string i) (w_gpu_names v) i @ '' '' @
             pct (at_or 0 (w_gpu_used v) i) (at_or 0 (w_gpu_vram v) i)) [0..<nat (min (w_gpu_count v) 4)]) @
           (if w_gpu_count v > 4 then '' +'' @ int_to_string (w_gpu_count v - 4) @ '' more'' else ''''))"

definition worker_text :: "worker \<Rightarrow> string" where
  "worker_text v = ''[bold]'' @ w_name v @ ''[/bold]  '' @ worker_status_value (w_status v) @ nl @
     ''SSH: '' @ w_ssh_user v @ ''@'' @ ssh_host v @ ''  |  CPUs: '' @ int_to_string (w_cpu_cores v) @
     ''  |  RAM: '' @ pct (w_used_ram v) (w_total_ram v) @ ''  |  GPUs: '' @ gpu_summary v"

definition start_text :: "job \<Rightarrow> string" where
  "start_text j = (if j_started j = 0 then ''?'' else clock_text (j_started j))"

definition exit_or_dash :: "job \<Rightarrow> string" where
  "exit_or_dash j = (case j_exit_code j of None \<Rightarrow> ''-'' | Some n \<Rightarrow> int_to_string n)"

definition job_text :: "job \<Rightarrow> string" where
  "job_text j = ''[bold]Job:[/bold] '' @ take 50 (j_command j) @ nl @
     ''Status: '' @ job_status_value (j_status j) @ ''  |  Started: '' @ start_text j @ ''  |  Exit: '' @ exit_or_dash j @ nl @
     ''[dim]Press l for full log / s to stop / Enter to confirm[/dim]''"

section \<open>The state\<close>

datatype layer = Main_Screen | Help_Screen | Start_Screen string

datatype table_id = Worker_Table_Id | Jobs_Table_Id

record tui =
  ui_workers :: "worker list"
  ui_jobs :: "job list"
  ui_worker :: "string option"
  ui_job :: "string option"
  ui_focus :: nat
  ui_mode :: string
  ui_panel :: string
  ui_worker_rows :: "(bool \<times> string list) list"
  ui_job_rows :: "string list list"
  ui_layers :: "layer list"
  ui_notes :: "string list"

definition new_tui :: tui where
  "new_tui = \<lparr>ui_workers = [], ui_jobs = [], ui_worker = None, ui_job = None, ui_focus = 0, ui_mode = ''worker'',
     ui_panel = ''[dim]Select a worker[/dim]'', ui_worker_rows = [], ui_job_rows = [], ui_layers = [Main_Screen], ui_notes = []\<rparr>"

definition notify :: "string \<Rightarrow> tui \<Rightarrow> tui" where
  "notify text ui = ui\<lparr>ui_notes := ui_notes ui @ [text]\<rparr>"

definition truthy_id :: "string option \<Rightarrow> bool" where
  "truthy_id i = (i \<noteq> None \<and> i \<noteq> Some '''')"

section \<open>Moving and selecting\<close>

text \<open>The cursor of a table moves: the tracked attribute and then the panel follow.\<close>

definition cursor_moved :: "table_id \<Rightarrow> nat \<Rightarrow> tui \<Rightarrow> tui" where
  "cursor_moved table i ui = (case table of
     Worker_Table_Id \<Rightarrow>
       if i < length (ui_workers ui)
       then ui\<lparr>ui_worker := Some (w_id (ui_workers ui ! i)), ui_mode := ''worker'', ui_panel := worker_text (ui_workers ui ! i)\<rparr> else ui
   | Jobs_Table_Id \<Rightarrow>
       if i < length (ui_jobs ui)
       then ui\<lparr>ui_job := Some (j_id (ui_jobs ui ! i)), ui_mode := ''job_preview'', ui_panel := job_text (ui_jobs ui ! i)\<rparr> else ui)"

definition load_jobs :: "string \<Rightarrow> database \<Rightarrow> tui \<Rightarrow> tui" where
  "load_jobs i d ui = (let jobs = list_jobs (Some i) None None d in
     ui\<lparr>ui_jobs := jobs, ui_job_rows := map (\<lambda>j. [job_status_value (j_status j), take 36 (j_command j), start_text j, exit_or_dash j]) jobs\<rparr>)"

definition refresh_workers :: "database \<Rightarrow> tui \<Rightarrow> tui" where
  "refresh_workers d ui = (let ws = list_workers d in
     ui\<lparr>ui_workers := ws, ui_worker_rows := map (\<lambda>v. (w_status v = ONLINE,
         [take 13 (w_name v), ssh_host v, if w_gpu_count v \<noteq> 0 then int_to_string (w_gpu_count v) else ''-'', pct (w_used_ram v) (w_total_ram v)])) ws\<rparr>)"

text \<open>Enter on a worker: its jobs are loaded and the focus goes to them.\<close>

definition worker_selected :: "nat \<Rightarrow> database \<Rightarrow> tui \<Rightarrow> tui" where
  "worker_selected i d ui =
     (if i < length (ui_workers ui) then
        (let v = ui_workers ui ! i
         in (load_jobs (w_id v) d (ui\<lparr>ui_worker := Some (w_id v), ui_job := None, ui_mode := ''worker'', ui_panel := worker_text v\<rparr>))
              \<lparr>ui_focus := 1\<rparr>)
      else ui)"

definition job_selected :: "nat \<Rightarrow> tui \<Rightarrow> tui" where
  "job_selected i ui =
     (if i < length (ui_jobs ui)
      then notify (''Job selected: '' @ take 30 (j_command (ui_jobs ui ! i)))
        (ui\<lparr>ui_job := Some (j_id (ui_jobs ui ! i)), ui_mode := ''job_preview''\<rparr>)
      else ui)"

definition cycle_focus :: "tui \<Rightarrow> tui" where
  "cycle_focus ui = ui\<lparr>ui_focus := (ui_focus ui + 1) mod 2\<rparr>"

text \<open>\<open>(i - 1) % 2\<close>\<close>

definition cycle_focus_rev :: "tui \<Rightarrow> tui" where
  "cycle_focus_rev ui = ui\<lparr>ui_focus := nat ((int (ui_focus ui) - 1) mod 2)\<rparr>"

definition clear_detail :: "tui \<Rightarrow> tui" where
  "clear_detail ui = ui\<lparr>ui_worker := None, ui_job := None, ui_mode := ''worker'', ui_panel := ''[dim]Select a worker[/dim]'', ui_job_rows := []\<rparr>"

definition toggle_help :: "tui \<Rightarrow> tui" where
  "toggle_help ui = ui\<lparr>ui_layers := (if 1 < length (ui_layers ui) then butlast (ui_layers ui) else ui_layers ui @ [Help_Screen])\<rparr>"

section \<open>Jobs\<close>

text \<open>Work handed to an executor: nobody looks at its outcome, an exception leaves the screen as it is.\<close>

definition in_background :: "tui \<Rightarrow> tui act \<Rightarrow> tui act" where
  "in_background ui m = catch m (\<lambda>_. ret ui)"

definition new_job_screen :: "tui \<Rightarrow> tui" where
  "new_job_screen ui = (if \<not> truthy_id (ui_worker ui) then notify ''Select a worker first'' ui
     else ui\<lparr>ui_layers := ui_layers ui @ [Start_Screen (the (ui_worker ui))]\<rparr>)"

definition job_done :: "job \<Rightarrow> database \<Rightarrow> tui \<Rightarrow> tui" where
  "job_done job d ui = (if truthy_id (ui_worker ui)
     then notify (''Job started: '' @ take 8 (j_id job)) (load_jobs (the (ui_worker ui)) d ui) else ui)"

text \<open>The form: its command is started without a terminal on the worker it was opened for.\<close>

definition do_start :: "string \<Rightarrow> string \<Rightarrow> tui \<Rightarrow> tui act" where
  "do_start worker_id text ui =
     (if strip text = '''' then ret ui
      else let ui = ui\<lparr>ui_layers := butlast (ui_layers ui)\<rparr>
        in in_background ui (bnd (ask (get_worker worker_id)) (\<lambda>found. case found of
             None \<Rightarrow> ret ui
           | Some v \<Rightarrow> bnd (start_job v (strip text) None False) (\<lambda>job. bnd (ask (\<lambda>d. job_done job d ui)) ret))))"

definition tui_stop :: "tui \<Rightarrow> tui act" where
  "tui_stop ui =
     (if \<not> truthy_id (ui_job ui) then ret (notify ''Select a job first'' ui)
      else let i = the (ui_job ui)
        in in_background ui (bnd (ask (get_job i)) (\<lambda>found. case found of
             None \<Rightarrow> ret ui
           | Some job \<Rightarrow> bnd (ask (\<lambda>d. case j_worker job of None \<Rightarrow> None | Some k \<Rightarrow> get_worker k d)) (\<lambda>owner. case owner of
               None \<Rightarrow> ret ui
             | Some v \<Rightarrow> seq (stop_job v i) (bnd (ask (get_job i)) (\<lambda>again.
                 bnd (refresh_job_status v (case again of None \<Rightarrow> job | Some j \<Rightarrow> j)) (\<lambda>updated.
                   let noted = notify (''Job stopped'' @ (case j_exit_code updated of None \<Rightarrow> '''' | Some n \<Rightarrow> '' (exit '' @ int_to_string n @ '')'')) ui
                   in bnd (ask (\<lambda>d. if truthy_id (ui_worker ui) then load_jobs (the (ui_worker ui)) d noted else noted)) ret)))))))"

definition pad3 :: "nat \<Rightarrow> string" where
  "pad3 n = (let s = nat_to_string n in replicate (3 - length s) (CHR '' '') @ s)"

definition log_lines :: "string \<Rightarrow> string list" where
  "log_lines text = map (\<lambda>(i, line). ''  '' @ pad3 (i + 1) @ '': '' @ line)
     (let lines = take 30 (split_on (CHR 10) text) in zip [0..<length lines] lines)"

definition show_log :: "string \<Rightarrow> string \<Rightarrow> tui \<Rightarrow> tui" where
  "show_log short text ui = ui\<lparr>ui_mode := ''log'', ui_panel := ''[bold]Log:[/bold] '' @ short @ nl @ join nl (log_lines text)\<rparr>"

definition tui_log :: "tui \<Rightarrow> tui act" where
  "tui_log ui =
     (if \<not> truthy_id (ui_job ui) then ret (notify ''Select a job first'' ui)
      else let i = the (ui_job ui)
        in in_background ui (bnd (ask (get_job i)) (\<lambda>found. case found of
             None \<Rightarrow> ret ui
           | Some job \<Rightarrow> bnd (ask (\<lambda>d. case j_worker job of None \<Rightarrow> None | Some k \<Rightarrow> get_worker k d)) (\<lambda>owner. case owner of
               None \<Rightarrow> ret ui
             | Some v \<Rightarrow> bnd (ssh_read_log v i (Some 40) None) (\<lambda>content.
                 ret (show_log (take 8 i) (if content \<noteq> '''' then content else ''[dim]No log yet[/dim]'') ui))))))"

section \<open>Events\<close>

datatype ui_event =
    Moved table_id nat
  | Enter_Worker nat
  | Enter_Job nat
  | Tab_Key
  | Back_Tab
  | Clear_Key
  | Refresh
  | Help_Key
  | New_Key
  | Submit string string
  | Stop_Key
  | Log_Key

fun ui_step :: "ui_event \<Rightarrow> tui \<Rightarrow> tui act" where
  "ui_step (Moved table i) ui = ret (cursor_moved table i ui)"
| "ui_step (Enter_Worker i) ui = bnd (ask (\<lambda>d. worker_selected i d ui)) ret"
| "ui_step (Enter_Job i) ui = ret (job_selected i ui)"
| "ui_step Tab_Key ui = ret (cycle_focus ui)"
| "ui_step Back_Tab ui = ret (cycle_focus_rev ui)"
| "ui_step Clear_Key ui = ret (clear_detail ui)"
| "ui_step Refresh ui = bnd (ask (\<lambda>d. refresh_workers d ui)) ret"
| "ui_step Help_Key ui = ret (toggle_help ui)"
| "ui_step New_Key ui = ret (new_job_screen ui)"
| "ui_step (Submit i text) ui = do_start i text ui"
| "ui_step Stop_Key ui = tui_stop ui"
| "ui_step Log_Key ui = tui_log ui"

section \<open>The screen keeps its shape\<close>

text \<open>\<open>always_returns P m\<close>: whatever \<open>m\<close> returns satisfies \<open>P\<close>.\<close>

definition always_returns :: "('a \<Rightarrow> bool) \<Rightarrow> 'a act \<Rightarrow> bool" where
  "always_returns P m \<longleftrightarrow> (\<forall>e w y w'. m e w = Some (Inr y, w') \<longrightarrow> P y)"

lemma always_ret: "P x \<Longrightarrow> always_returns P (ret x)"
  by (simp add: always_returns_def ret_def)

lemma always_bnd: "(\<And>x. always_returns P (f x)) \<Longrightarrow> always_returns P (bnd m f)"
  unfolding always_returns_def bnd_def by (auto split: option.splits sum.splits prod.splits)

lemma always_seq: "always_returns P n \<Longrightarrow> always_returns P (seq m n)"
  unfolding always_returns_def seq_def bnd_def by (auto split: option.splits sum.splits prod.splits)

lemma always_ask: "(\<And>d. P (g d)) \<Longrightarrow> always_returns P (bnd (ask g) ret)"
  by (auto simp: always_returns_def bnd_def ask_def ret_def)

lemma always_background: "P ui \<Longrightarrow> always_returns P m \<Longrightarrow> always_returns P (in_background ui m)"
  unfolding always_returns_def in_background_def catch_def ret_def by (auto split: option.splits sum.splits prod.splits)

lemma always_option: "always_returns P a \<Longrightarrow> (\<And>x. always_returns P (b x)) \<Longrightarrow> always_returns P (case z of None \<Rightarrow> a | Some x \<Rightarrow> b x)"
  by (cases z) auto

lemma always_if: "always_returns P a \<Longrightarrow> always_returns P b \<Longrightarrow> always_returns P (if c then a else b)"
  by simp

lemmas always_rules = always_if always_ret always_background always_option always_seq

text \<open>The main screen is at the bottom of the stack, the focus on one of the two tables.\<close>

definition ui_ok :: "tui \<Rightarrow> bool" where
  "ui_ok ui \<longleftrightarrow> ui_layers ui \<noteq> [] \<and> hd (ui_layers ui) = Main_Screen \<and> ui_focus ui < 2 \<and>
     ui_mode ui \<in> {''worker'', ''job_preview'', ''log''}"

definition offered :: "ui_event \<Rightarrow> tui \<Rightarrow> bool" where
  "offered ev ui = (case ev of Submit i _ \<Rightarrow> 1 < length (ui_layers ui) \<and> last (ui_layers ui) = Start_Screen i | _ \<Rightarrow> True)"

lemma ui_ok_changes:
  assumes "ui_ok ui"
  shows "ui_ok (cursor_moved table i ui)" "ui_ok (load_jobs v d ui)" "ui_ok (worker_selected i d ui)" "ui_ok (job_selected i ui)"
    "ui_ok (cycle_focus ui)" "ui_ok (cycle_focus_rev ui)" "ui_ok (clear_detail ui)" "ui_ok (refresh_workers d ui)"
    "ui_ok (new_job_screen ui)" "ui_ok (job_done job d ui)" "ui_ok (show_log short str ui)" "ui_ok (notify str ui)"
  using assms by (auto simp: ui_ok_def cursor_moved_def load_jobs_def worker_selected_def job_selected_def cycle_focus_def
      cycle_focus_rev_def clear_detail_def refresh_workers_def new_job_screen_def job_done_def show_log_def notify_def Let_def
      nat_less_iff split: table_id.split)

lemma ui_ok_if: "ui_ok a \<Longrightarrow> ui_ok b \<Longrightarrow> ui_ok (if c then a else b)"
  by simp

lemma ui_ok_pop: "ui_ok ui \<Longrightarrow> 1 < length (ui_layers ui) \<Longrightarrow> ui_ok (ui\<lparr>ui_layers := butlast (ui_layers ui)\<rparr>)"
  by (cases "ui_layers ui") (auto simp: ui_ok_def)

lemma ui_ok_toggle: "ui_ok ui \<Longrightarrow> ui_ok (toggle_help ui)"
  using ui_ok_pop [of ui] by (cases "1 < length (ui_layers ui)") (auto simp: toggle_help_def ui_ok_def)

lemma screen_keeps_shape:
  assumes "ui_ok ui" "offered ev ui"
  shows "always_returns ui_ok (ui_step ev ui)"
proof -
  note ok = ui_ok_changes [OF assms(1)]
  have stop: "always_returns ui_ok (tui_stop ui)"
    unfolding tui_stop_def Let_def
    by (rule always_rules always_ask ui_ok_changes ui_ok_if assms(1) | rule always_bnd)+
  have logs: "always_returns ui_ok (tui_log ui)"
    unfolding tui_log_def Let_def
    by (rule always_rules always_ask ui_ok_changes ui_ok_if assms(1) | rule always_bnd)+
  have start: "always_returns ui_ok (do_start i str ui)" if "1 < length (ui_layers ui)" for i str
    unfolding do_start_def Let_def
    by (rule always_rules always_ask ui_ok_changes assms(1) ui_ok_pop that | rule always_bnd)+
  show ?thesis
  proof (cases ev)
    case (Submit i str)
    then show ?thesis using assms(2) start by (simp add: offered_def)
  qed (simp_all add: stop logs, (intro always_rules always_ask ok ui_ok_toggle assms)+)
qed

section \<open>Findings\<close>

text \<open>The log view asks for the last forty lines and shows the first thirty of them: of a long log the newest are never shown.\<close>

lemma newest_lines_hidden:
  assumes "list_all (\<lambda>l. CHR 10 \<notin> set l) lines" "length lines = 40"
  shows "log_lines (join nl lines) = map (\<lambda>(i, line). ''  '' @ pad3 (i + 1) @ '': '' @ line) (zip [0..<30] (take 30 lines))"
proof -
  have "lines \<noteq> []" using assms(2) by auto
  then have "split_on (CHR 10) (join nl lines) = lines"
    using assms split_on_join [of lines "CHR 10"] by (auto simp: nl_def list_all_iff)
  then show ?thesis using assms(2) by (simp add: log_lines_def)
qed

text \<open>The selected job outlives the move to another worker: \<open>s\<close> stops a job the panel does not show.\<close>

lemma move_keeps_selected_job: "ui_job (cursor_moved Worker_Table_Id i ui) = ui_job ui"
  by (simp add: cursor_moved_def)

end
