(* ===== verification/Control.thy ===== *)
theory Control
  imports Relay Notebooks Cache Lanes Ratelimit Tui
begin

text \<open>
  What holds the control service of \<open>heartbeat.py\<close> together: the request bodies and their validation, the
  cached listings, the diagnostics, the periodic reconciliation and the life of the application from
  \<open>create_app\<close> to the end of \<open>lifespan\<close>.
\<close>

section \<open>Request bodies\<close>

text \<open>A body is a record of decoded values; its validator returns it or a 422.\<close>

definition unprocessable :: "string \<Rightarrow> 'a res" where
  "unprocessable text = Inl (HTTPErr 422 text)"

record enqueue_body =
  qb_worker :: string
  qb_command :: string
  qb_name :: string
  qb_expected :: int
  qb_gpus :: int
  qb_no_pty :: bool

definition blank :: "string \<Rightarrow> bool" where
  "blank s = (strip s = '''')"

definition valid_enqueue :: "enqueue_body \<Rightarrow> enqueue_body res" where
  "valid_enqueue b =
     (if qb_name b = '''' then unprocessable ''String should have at least 1 character''
      else if blank (qb_name b) then unprocessable ''name must not be blank''
      else if qb_expected b < 1 \<or> qb_gpus b < 1 then unprocessable ''Input should be greater than or equal to 1''
      else Inr b)"

definition at_least_one :: "int option \<Rightarrow> bool" where
  "at_least_one v = (case v of None \<Rightarrow> True | Some n \<Rightarrow> 1 \<le> n)"

definition valid_update :: "queue_update \<Rightarrow> queue_update res" where
  "valid_update b =
     (if \<not> at_least_one (qu_position b) \<or> \<not> at_least_one (qu_expected b) \<or> \<not> at_least_one (qu_gpus b)
        then unprocessable ''Input should be greater than or equal to 1''
      else if (case qu_name b of None \<Rightarrow> False | Some n \<Rightarrow> blank n) then unprocessable ''name must not be blank''
      else if qu_worker b = None \<and> qu_position b = None \<and> qu_name b = None \<and> qu_expected b = None \<and> qu_gpus b = None
        then unprocessable ''at least one queue field must be supplied''
      else Inr b)"

definition valid_text :: "string \<Rightarrow> string res" where
  "valid_text s = (if s = '''' then unprocessable ''String should have at least 1 character'' else Inr s)"

definition valid_question :: "string \<Rightarrow> string res" where
  "valid_question s = (if length s > 4000 then unprocessable ''String should have at most 4000 characters'' else valid_text s)"

definition valid_task :: "string \<times> string \<Rightarrow> (string \<times> string) res" where
  "valid_task b = (case valid_text (fst b) of Inl err \<Rightarrow> Inl err | Inr branch \<Rightarrow>
     (case valid_text (snd b) of Inl err \<Rightarrow> Inl err | Inr briefing \<Rightarrow> Inr (branch, briefing)))"

definition valid_thinking_level :: "string option \<Rightarrow> string option res" where
  "valid_thinking_level v = (case v of
     None \<Rightarrow> Inr None
   | Some s \<Rightarrow> if s \<in> set [''off'', ''minimal'', ''low'', ''medium'', ''high'', ''xhigh'', ''max''] then Inr (Some s)
       else unprocessable ''Input should be off, minimal, low, medium, high, xhigh or max'')"

text \<open>The two queue endpoints behind their validators.\<close>

definition post_queue :: "enqueue_body \<Rightarrow> job act" where
  "post_queue body = bnd (lift_res (valid_enqueue body)) (\<lambda>b.
     jobs_queue_create (qb_worker b) (qb_command b) (qb_name b) (qb_expected b) (qb_gpus b) (qb_no_pty b))"

definition patch_queue :: "string \<Rightarrow> queue_update \<Rightarrow> queue_item act" where
  "patch_queue job_id body = bnd (lift_res (valid_update body)) (jobs_queue_update job_id)"

section \<open>Cached listings\<close>

text \<open>The values under the cache's keys.  \<open>t1\<close> and \<open>t2\<close> are the clock at the lookup and when the loaded value is stored.\<close>

datatype listing =
    Workers "worker list"
  | Summary worker_summary
  | Data_Paths "(string \<times> (string \<times> string) list) list"
  | Tunnel_Rows "(port_forward \<times> string option) list"

type_synonym listings = "listing cache"

definition workers_list :: "rat \<Rightarrow> rat \<Rightarrow> database \<Rightarrow> listings \<Rightarrow> listing res \<times> listings" where
  "workers_list t1 t2 d c = cached_load ''workers:list'' 5 t1 t2 (Inr (Workers (list_workers d))) c"

definition workers_summary_cached :: "rat \<Rightarrow> rat \<Rightarrow> database \<Rightarrow> listings \<Rightarrow> listing res \<times> listings" where
  "workers_summary_cached t1 t2 d c = cached_load ''workers:summary'' 2 t1 t2 (Inr (Summary (workers_summary d))) c"

definition data_key :: "bool \<Rightarrow> string" where
  "data_key include_offline = ''data:paths:'' @ (if include_offline then ''True'' else ''False'')"

definition data_list :: "bool \<Rightarrow> rat \<Rightarrow> rat \<Rightarrow> database \<Rightarrow> listings \<Rightarrow> listing res \<times> listings" where
  "data_list include_offline t1 t2 d c =
     cached_load (data_key include_offline) 2 t1 t2 (Inr (Data_Paths (reverse_data_paths (list_workers d) include_offline))) c"

definition tunnels_list_cached :: "rat \<Rightarrow> rat \<Rightarrow> database \<Rightarrow> listings \<Rightarrow> listing res \<times> listings" where
  "tunnels_list_cached t1 t2 d c = cached_load ''tunnels:list'' 10 t1 t2 (Inr (Tunnel_Rows (tunnels_list d))) c"

definition delete_stale_workers :: "int \<Rightarrow> int \<Rightarrow> database \<Rightarrow> listings \<Rightarrow> nat \<times> database \<times> listings" where
  "delete_stale_workers minutes t d c =
     (case prune_workers (t - minutes * 60) d of (n, d') \<Rightarrow> (n, d', invalidate_workers_cache c))"

definition workers_get :: "string \<Rightarrow> worker act" where
  "workers_get name = need_worker name"

definition events_list :: "int \<Rightarrow> failure list act" where
  "events_list limit =
     (if limit < 1 \<or> limit > 1000 then raise_err (HTTPErr 422 ''limit'') else ask (list_failures limit))"

section \<open>The application\<close>

record service =
  sv_cache :: listings
  sv_lanes :: worker_lanes
  sv_limiter :: rate_limiter
  sv_metrics :: metrics
  sv_tunnels :: tunnels
  sv_relay :: relay

definition new_service :: "rat \<Rightarrow> database \<Rightarrow> int \<Rightarrow> service res" where
  "new_service t d max_attachments = (case new_worker_lanes 4 32 of
     Inl err \<Rightarrow> Inl err
   | Inr lanes \<Rightarrow> Inr \<lparr>sv_cache = new_cache, sv_lanes = lanes, sv_limiter = new_limiter 50 1, sv_metrics = new_metrics t,
       sv_tunnels = \<lparr>tn_db = d, tn_entries = [], tn_groups = [], tn_exited = [], tn_next = 1\<rparr>,
       sv_relay = \<lparr>rl_gateway = new_gateway (nat max_attachments), rl_reasons = [], rl_sent = []\<rparr>\<rparr>)"

record health =
  hl_count :: nat
  hl_by_session :: "(string \<times> nat) list"
  hl_max :: nat
  hl_refused :: nat
  hl_evictions :: nat
  hl_reasons :: "(string \<times> nat) list"

text \<open>The liveness endpoint over the sessions that ever had an attachment; the number of refused attachments is never counted.\<close>

definition health :: "string list \<Rightarrow> relay \<Rightarrow> health" where
  "health sids rl = (let active = filter (\<lambda>(sid, n). 0 < n) (map (\<lambda>sid. (sid, length (gw_active (rl_gateway rl) sid))) sids)
     in \<lparr>hl_count = sum_list (map snd active), hl_by_session = active, hl_max = gw_max (rl_gateway rl), hl_refused = 0,
         hl_evictions = gw_evictions (rl_gateway rl), hl_reasons = rl_reasons rl\<rparr>)"

text \<open>\<open>round(x, 2)\<close>: the nearest hundredth, the even one of two.\<close>

definition round2 :: "rat \<Rightarrow> rat" where
  "round2 x = (let y = x * 100; n = \<lfloor>y\<rfloor>; frac = y - of_int n
     in of_int (if frac < 1 / 2 \<or> (frac = 1 / 2 \<and> even n) then n else n + 1) / 100)"

definition limiter_stats :: "rate_limiter \<Rightarrow> (string \<times> rat \<times> rat \<times> rat) list" where
  "limiter_stats l = map (\<lambda>(agent, b). (agent, round2 (tb_tokens b), rl_capacity l, rl_rate l)) (rl_buckets l)"

record diagnostics =
  dg_snapshot :: snapshot
  dg_cache :: "int \<times> int \<times> int \<times> int"
  dg_lanes :: "(string \<times> int \<times> int \<times> int \<times> int) list"
  dg_agents :: "(string \<times> rat \<times> rat \<times> rat) list"
  dg_tunnels :: tunnel_stats

definition reliability_stats :: "rat \<Rightarrow> service \<Rightarrow> diagnostics" where
  "reliability_stats t s = \<lparr>dg_snapshot = metrics_snapshot t (sv_metrics s), dg_cache = cache_stats (sv_cache s),
     dg_lanes = lane_stats (sv_lanes s), dg_agents = limiter_stats (sv_limiter s), dg_tunnels = registry_stats (sv_tunnels s)\<rparr>"

text \<open>The answer to a call that did not get a lane in time.\<close>

definition lane_timeout_handler :: "error \<Rightarrow> (nat \<times> string) option" where
  "lane_timeout_handler err = (case err of LaneTimeoutErr worker \<Rightarrow> Some (503, ''2'') | _ \<Rightarrow> None)"

text \<open>One iteration of \<open>_job_reconciler\<close>: only a cancellation leaves it.\<close>

definition job_reconciler_round :: "unit act" where
  "job_reconciler_round = catch (seq reconcile_active_ssh_jobs reconcile_queued_jobs)
     (\<lambda>err. if err = CancelledErr then raise_err err else ret ())"

text \<open>The end of \<open>lifespan\<close>, once the background tasks are cancelled.\<close>

definition lanes_shutdown :: "worker_lanes \<Rightarrow> worker_lanes" where
  "lanes_shutdown ls = ls\<lparr>wl_states := map (\<lambda>(k, s). (k, shutdown_lane s)) (wl_states ls)\<rparr>"

definition shut_down :: "service \<Rightarrow> service" where
  "shut_down s = (case registry_shutdown (sv_tunnels s) of (reaped, st) \<Rightarrow>
     s\<lparr>sv_tunnels := st, sv_metrics := (sv_metrics s)\<lparr>mt_reaped_tunnels := mt_reaped_tunnels (sv_metrics s) + int reaped\<rparr>,
       sv_lanes := lanes_shutdown (sv_lanes s)\<rparr>)"

section \<open>Requests in any order\<close>

text \<open>
  The requests of clients and workers that reach the job table, the commands of the local command line and the events of the
  text interface, which change the same database from processes of their own, and the periodic reconciliation.  The rounds in which a
  synchronous call or the end of a copy watches its job between two pauses are requests of their own, \<open>Watch\<close>.
\<close>

datatype request =
    Post_Queue enqueue_body
  | Patch_Queue string queue_update
  | Post_Job string string "string option" bool
  | Delete_Job string
  | Get_Logs string "int option" "int option"
  | Upload string string string
  | Download string string int
  | Copy copy_request
  | Watch worker job
  | Register registration
  | Reports string "job_report list"
  | Prune int
  | Cli_Start string string string "string option" bool
  | Cli_List string "string option" "string option"
  | Cli_Stop string string
  | Cli_Logs string "int option" "int option"
  | Cli_Status string string
  | Cli_Prune int
  | Tui_Event ui_event tui
  | Reconcile

fun serve :: "request \<Rightarrow> unit act" where
  "serve (Post_Queue body) = seq (post_queue body) (ret ())"
| "serve (Patch_Queue i body) = seq (patch_queue i body) (ret ())"
| "serve (Post_Job v command name no_pty) = seq (jobs_create v command name no_pty False 0) (ret ())"
| "serve (Delete_Job i) = seq (jobs_delete i) (ret ())"
| "serve (Get_Logs i tail head) = seq (jobs_logs i tail head) (ret ())"
| "serve (Upload v path content) = seq (worker_file_upload v path content) (ret ())"
| "serve (Download v path limit) = seq (worker_file_download v path limit) (ret ())"
| "serve (Copy body) = seq (data_copy body) (ret ())"
| "serve (Watch v job) = seq (refresh_job_status v job) (ret ())"
| "serve (Register reg) = seq (register reg) (ret ())"
| "serve (Reports i reports) = seq (worker_pi_jobs i reports) (ret ())"
| "serve (Prune minutes) = seq (workers_prune minutes) (ret ())"
| "serve (Cli_Start mode v command name no_pty) = seq (job_start mode v command name no_pty) (ret ())"
| "serve (Cli_List mode wid status) = seq (job_list mode wid status) (ret ())"
| "serve (Cli_Stop mode i) = seq (job_stop mode i) (ret ())"
| "serve (Cli_Logs i tail head) = seq (job_logs i tail head) (ret ())"
| "serve (Cli_Status i status) = seq (workers_status i status) (ret ())"
| "serve (Cli_Prune minutes) = seq (workers_prune_cmd minutes) (ret ())"
| "serve (Tui_Event ev ui) = seq (ui_step ev ui) (ret ())"
| "serve Reconcile = job_reconciler_round"

fun serve_all :: "request list \<Rightarrow> env \<Rightarrow> world \<Rightarrow> world option" where
  "serve_all [] e w = Some w"
| "serve_all (q # qs) e w = (case serve q e w of None \<Rightarrow> None | Some (_, w') \<Rightarrow> serve_all qs e w')"

text \<open>\<open>stays m\<close>: from reachable tables the action ends in reachable tables.\<close>

abbreviation stays :: "'a act \<Rightarrow> bool" where
  "stays m \<equiv> takes reachable m reachable"

lemma stays_quiet: "db_unchanged m \<Longrightarrow> stays m"
  unfolding db_unchanged_def takes_def by metis

lemma stays_ask: "stays (ask q)" "stays (modify (\<lambda>d. d))"
  by (auto simp: takes_def act_defs)

lemma stays_attempt: "stays m \<Longrightarrow> stays (attempt m)"
  unfolding takes_def attempt_def by (fastforce split: option.splits prod.splits)

lemma stays_ctrl:
  "(\<And>x. stays (f x)) \<Longrightarrow> stays (\<lambda>e. f (g e) e)"
  "(\<And>a b. stays (k a b)) \<Longrightarrow> stays (case pr of (a, b) \<Rightarrow> k a b)"
  "(\<And>x. stays (p x)) \<Longrightarrow> (\<And>y. stays (q y)) \<Longrightarrow> stays (case s of Inl x \<Rightarrow> p x | Inr y \<Rightarrow> q y)"
  by (auto simp: takes_def split: prod.split sum.split)

lemmas stays_rules = takes_then takes_catch takes_seq takes_if takes_opt takes_prim takes_lift takes_each stays_ask stays_ctrl(2,3)
  stays_attempt ssh_db_unchanged [THEN stays_quiet] db_unchanged_clock [THEN stays_quiet] start_keeps dispatch_keeps refresh_keeps stop_keeps
  reconcilers_keep

lemma enqueue_valid:
  assumes "valid_enqueue body = Inr b"
  shows "b = body" "1 \<le> qb_expected b" "1 \<le> qb_gpus b" "\<not> blank (qb_name b)"
  using assms by (auto simp: valid_enqueue_def unprocessable_def split: if_splits)

lemma update_valid:
  assumes "valid_update body = Inr b"
  shows "b = body" "qu_gpus b = Some n \<Longrightarrow> 1 \<le> n" "qu_expected b = Some n \<Longrightarrow> 1 \<le> n" "qu_name b = Some t \<Longrightarrow> \<not> blank t"
  using assms by (auto simp: valid_update_def unprocessable_def at_least_one_def split: if_splits)

lemma need_worker_stays: "stays (need_worker name)"
  unfolding need_worker_def by (intro stays_rules; assumption?)

lemma lift_then: "(\<And>x. r = Inr x \<Longrightarrow> stays (f x)) \<Longrightarrow> stays (bnd (lift_res r) f)"
  by (cases r) (auto simp: takes_def bnd_def lift_res_def)

lemma post_queue_stays: "stays (post_queue body)"
  unfolding post_queue_def
proof (rule lift_then)
  fix b assume "valid_enqueue body = Inr b"
  from enqueue_valid(3) [OF this] show "stays (jobs_queue_create (qb_worker b) (qb_command b) (qb_name b) (qb_expected b) (qb_gpus b) (qb_no_pty b))"
    unfolding jobs_queue_create_def by (intro takes_then need_worker_stays takes_if takes_prim enqueue_keeps; simp)
qed

lemma move_stays:
  assumes "\<And>n. gpus = Some n \<Longrightarrow> 0 \<le> n"
  shows "stays (db_try (update_pending_job i wid position name expected gpus))"
proof (rule takes_try)
  fix d x d' assume "reachable d" "update_pending_job i wid position name expected gpus d = Inr (x, d')"
  then show "reachable d'" by (rule reachable_step [OF _ db_step.move]) (rule assms)
qed

lemma patch_queue_stays: "stays (patch_queue i body)"
  unfolding patch_queue_def
proof (rule lift_then)
  fix b assume v: "valid_update body = Inr b"
  have "stays (db_try (update_pending_job i wid (qu_position b) (qu_name b) (qu_expected b) (qu_gpus b)))" for wid
    using update_valid(2) [OF v] by (intro move_stays) force
  then show "stays (jobs_queue_update i b)"
    unfolding jobs_queue_update_def updated_item_def Let_def
    by (intro stays_rules need_worker_stays) (auto split: error.split intro!: stays_rules)
qed

lemma download_quiet: "stays (worker_file_download v path limit)" "stays (worker_file_upload v path content)" "stays (jobs_logs i t h)"
  unfolding worker_file_download_def ssh_download_bytes_def worker_file_upload_def ssh_upload_bytes_def jobs_logs_def job_and_worker_def
    Let_def case_prod_unfold
  by (intro stays_rules need_worker_stays; assumption?)+

lemma delete_stays: "stays (jobs_delete i)"
  unfolding jobs_delete_def by (intro stays_rules; assumption?)

lemma create_stays: "stays (jobs_create v command name no_pty False 0)"
  unfolding jobs_create_def by (simp, intro stays_rules need_worker_stays; assumption?)

lemma copy_stays: "stays (data_copy body)"
proof -
  have run: "stays (async_ssh_run v c)" "stays (ssh_upload_bytes v b p)" for v b c p
    unfolding async_ssh_run_def ssh_upload_bytes_def Let_def by (intro stays_rules)+
  have fin: "stays (end_export v t)" for v t
    unfolding end_export_def by (intro stays_rules run; assumption?)
  have point: "stays (read_endpoint out)" for out
    unfolding read_endpoint_def Let_def by (intro stays_rules; auto simp: takes_def)
  show ?thesis
    unfolding data_copy_def Let_def case_prod_unfold by (intro stays_rules run fin point; assumption?)
qed

lemma reports_stay: "stays (worker_pi_jobs i reports)"
proof -
  have one: "stays (db_try (\<lambda>d. case upsert_reported_worker_job i r d of
      Inl err \<Rightarrow> Inl err | Inr (j, changed, d') \<Rightarrow> Inr (changed, d')))" for r
    by (rule takes_try) (auto split: sum.splits intro: reachable_step db_step.report)
  have all: "stays (apply_reports i rs n)" for rs n
    by (induction rs arbitrary: n) (auto intro!: stays_rules one)
  show ?thesis
    unfolding worker_pi_jobs_def by (intro stays_rules all) (auto split: error.split intro!: stays_rules)
qed

lemma workers_stay: "stays (register reg)" "stays (workers_prune minutes)"
proof -
  have up: "stays (db_try (upsert_worker t reg))" for t
  proof (rule takes_try)
    fix d x d' assume "reachable d" "upsert_worker t reg d = Inr (x, d')"
    moreover obtain w0 d0 where "upsert_worker t reg d = Inr (w0, d0)" "t_jobs d0 = t_jobs d" by (rule upsert_worker_spec)
    ultimately show "reachable d'" by (auto intro: reachable_quiet)
  qed
  show "stays (register reg)" unfolding register_def by (intro stays_rules up; assumption?)
  have "stays (db_call (prune_workers t))" for t
    unfolding takes_def db_call_def by (auto simp: prune_workers_def intro: reachable_quiet)
  then show "stays (workers_prune minutes)" unfolding workers_prune_def by (intro stays_rules)
qed

lemma cli_stays:
  "stays (job_start mode i command name no_pty)" "stays (job_list mode wid status)" "stays (job_stop mode i)" "stays (job_logs i t h)"
  "stays (workers_status i value)" "stays (workers_prune_cmd minutes)"
proof -
  have err: "stays (red m)" for m :: string unfolding red_def by (intro stays_rules)
  have all: "stays (refreshed ws js)" for ws js
    by (induction js) (auto intro!: stays_rules)
  show "stays (job_start mode i command name no_pty)" unfolding job_start_def red_def by (intro stays_rules; assumption?)
  show "stays (job_list mode wid status)" unfolding job_list_def red_def by (intro stays_rules all; assumption?)
  show "stays (job_stop mode i)" unfolding job_stop_def job_of_worker_def red_def by (intro stays_rules; assumption?)
  show "stays (job_logs i t h)" unfolding job_logs_def job_of_worker_def red_def by (intro stays_rules; assumption?)
  show "stays (workers_status i value)"
    unfolding workers_status_def red_def by (intro stays_rules) (auto simp: set_worker_status_def intro: reachable_quiet)
  have "stays (db_call (prune_workers t))" for t
    unfolding takes_def db_call_def by (auto simp: prune_workers_def intro: reachable_quiet)
  then show "stays (workers_prune_cmd minutes)" unfolding workers_prune_cmd_def by (intro stays_rules)
qed

lemma tui_stays: "stays (ui_step ev ui)"
proof -
  have st: "stays (do_start i str ui)" for i str ui
    unfolding do_start_def in_background_def Let_def by (intro stays_rules; assumption?)
  have sp: "stays (tui_stop ui)" for ui
    unfolding tui_stop_def in_background_def Let_def by (intro stays_rules; assumption?)
  have lg: "stays (tui_log ui)" for ui
    unfolding tui_log_def in_background_def Let_def by (intro stays_rules; assumption?)
  show ?thesis
  proof (cases ev)
    case (Submit i str) then show ?thesis using st by simp
  qed (simp_all add: sp lg, (intro stays_rules; assumption?)+)
qed

lemma serve_stays: "stays (serve q)"
proof (cases q)
  case Reconcile
  then show ?thesis by (simp add: job_reconciler_round_def) (intro stays_rules; assumption?)
qed (simp_all, (intro takes_seq takes_prim post_queue_stays patch_queue_stays create_stays delete_stays download_quiet copy_stays
      refresh_keeps workers_stay reports_stay cli_stays tui_stays; assumption?)+)

lemma serve_all_stays: "reachable (wd_db w) \<Longrightarrow> \<exists>w'. serve_all qs e w = Some w' \<and> reachable (wd_db w')"
proof (induction qs arbitrary: w)
  case (Cons q qs)
  then obtain r w1 where "serve q e w = Some (r, w1)" "reachable (wd_db w1)" using takesE [OF serve_stays] by metis
  with Cons.IH show ?case by simp
qed simp



section \<open>The end of the service\<close>

lemma shutdown_lane_waiters: "ln_waiters (shutdown_lane s) = []"
proof -
  have "ln_waiters (cancel_all fs s) = []" for fs s by (induction fs arbitrary: s) auto
  then show ?thesis by (simp add: shutdown_lane_def)
qed

text \<open>
  The end of \<open>lifespan\<close> leaves nothing behind: no tunnel process, no registered tunnel, no call waiting for a worker;
  the calls that hold a slot keep it until they end, and every process stopped is counted.
\<close>

theorem shutdown_leaves_nothing:
  assumes "tun_reach (sv_tunnels s)" "lanes_reachable (sv_lanes s)" "map_of (wl_states (sv_lanes s)) wid = Some l"
  shows "tn_groups (sv_tunnels (shut_down s)) = [] \<and> tn_entries (sv_tunnels (shut_down s)) = [] \<and>
    mt_reaped_tunnels (sv_metrics (shut_down s)) = mt_reaped_tunnels (sv_metrics s) + int (fst (registry_shutdown (sv_tunnels s))) \<and>
    (\<exists>l'. map_of (wl_states (sv_lanes (shut_down s))) wid = Some l' \<and> waiting_calls (ln_calls l') = [] \<and> ln_waiters l' = [] \<and>
       owners (ln_calls l') = ln_in_use l' \<and> ln_available l' + ln_in_use l' = wl_max_concurrent (sv_lanes s))"
proof -
  have gone: "tn_groups (snd (registry_shutdown (sv_tunnels s))) = []" "tn_entries (snd (registry_shutdown (sv_tunnels s))) = []"
    by (rule tun_inv_shutdown(2,3) [OF tun_reach_inv [OF assms(1)]])+
  have "lane_inv (wl_max_concurrent (sv_lanes s)) (wl_max_queue (sv_lanes s)) l"
    using lanes_reachable_inv [OF assms(2)] assms(3) unfolding lanes_inv_def by blast
  from cancel_all_inv [OF this] have inv: "lane_inv (wl_max_concurrent (sv_lanes s)) (wl_max_queue (sv_lanes s)) (shutdown_lane l)" .
  moreover have "map_of (wl_states (sv_lanes (shut_down s))) wid = Some (shutdown_lane l)"
    using assms(3) by (simp add: shut_down_def lanes_shutdown_def case_prod_unfold map_of_map [unfolded case_prod_unfold])
  ultimately show ?thesis
    using gone by (auto simp: shut_down_def lane_inv_def shutdown_lane_waiters case_prod_unfold)
qed

definition demo_service :: service where
  "demo_service = \<lparr>sv_cache = new_cache, sv_lanes = lanes2, sv_limiter = new_limiter 50 1, sv_metrics = new_metrics 0,
     sv_tunnels = snd (tunnels_create demo_request ''t1'' 5 (struck_by None) demo_tunnels),
     sv_relay = \<lparr>rl_gateway = new_gateway 8, rl_reasons = [], rl_sent = []\<rparr>\<rparr>"

theorem shutdown_leaves_nothing_witness:
  "tn_groups (sv_tunnels demo_service) = [7] \<and> waiting_calls (ln_calls lane2) = [1] \<and>
   tn_groups (sv_tunnels (shut_down demo_service)) = [] \<and>
   (\<exists>l'. map_of (wl_states (sv_lanes (shut_down demo_service))) ''w'' = Some l' \<and> waiting_calls (ln_calls l') = [])"
proof -
  have "tun_reach demo_tunnels" unfolding demo_tunnels_def by (rule tun_reach.boot)
  then have t: "tun_reach (sv_tunnels demo_service)"
    unfolding demo_service_def service.simps by (rule tun_reach.create) (simp add: demo_tunnels_def)
  have l: "lanes_reachable (sv_lanes demo_service)" "map_of (wl_states (sv_lanes demo_service)) ''w'' = Some lane2"
    using lanes2_reachable lane2_at(1) by (simp_all add: demo_service_def)
  have g: "tn_groups (sv_tunnels demo_service) = [7]" by code_simp
  have q: "waiting_calls (ln_calls lane2) = [1]" by code_simp
  from shutdown_leaves_nothing [OF t l] g q show ?thesis by blast
qed

end
