(* ===== verification/Fleet_Props.thy ===== *)
theory Fleet_Props
  imports Orchestration
begin

text \<open>
  What the orchestration guarantees: which commands a launch, a teardown and a stop can send and in
  which order, that live managers are reused, that tasks have a live parent, and what a session
  that is handed out looks like.
\<close>

section \<open>Commands that start an agent or remove a checkout\<close>

definition starts_agent :: "remote_call \<Rightarrow> bool" where
  "starts_agent c = (take 3 (call_words c) = [''herdr'', ''pane'', ''run''])"

definition removes_checkout :: "remote_call \<Rightarrow> bool" where
  "removes_checkout c = (take 1 (call_words c) = [''worktree-remove''])"

abbreviation (input) no_start :: "remote_call \<Rightarrow> bool" where
  "no_start c \<equiv> \<not> starts_agent c"

abbreviation (input) no_removal :: "remote_call \<Rightarrow> bool" where
  "no_removal c \<equiv> \<not> removes_checkout c"

lemma encode_args_head:
  "encode_args (a # as) = Inr ts \<Longrightarrow> \<exists>t ts'. ts = t # ts' \<and> encode_arg a = Inr t \<and> encode_args as = Inr ts'"
  by (auto split: sum.splits)

lemma literal_words:
  "encode_arg ''pane'' = Inr ''pane''" "encode_arg ''workspace'' = Inr ''workspace''" "encode_arg ''agent'' = Inr ''agent''"
  "encode_arg ''close'' = Inr ''close''" "encode_arg ''report-agent'' = Inr ''report-agent''"
  "encode_arg ''report-metadata'' = Inr ''report-metadata''" "encode_arg ''release-agent'' = Inr ''release-agent''"
  "encode_arg ''write-file'' = Inr ''write-file''" "encode_arg ''rm-file'' = Inr ''rm-file''" "encode_arg ''run'' = Inr ''run''"
  "encode_arg ''worktree-add'' = Inr ''worktree-add''" "encode_arg ''worktree-remove'' = Inr ''worktree-remove''"
  "encode_arg ''branch-delete'' = Inr ''branch-delete''" "encode_arg ''herdr'' = Inr ''herdr''" "encode_arg ''read'' = Inr ''read''"
  "encode_arg ''create'' = Inr ''create''" "encode_arg ''rename'' = Inr ''rename''"
  by code_simp+

lemma herdr_no_removal [emits_intros]: "emits no_removal (herdr m args)"
  unfolding removes_checkout_def by (rule emits_herdr [where q = "\<lambda>ws. take 1 ws \<noteq> [''worktree-remove'']"]) simp_all

lemma herdr_no_start:
  assumes "encode_arg a = Inr a" "encode_arg b = Inr b" "(a, b) \<noteq> (''pane'', ''run'')"
  shows "emits no_start (herdr m (a # b # rest))"
  unfolding starts_agent_def
proof (rule emits_herdr [where q = "\<lambda>ws. take 3 ws \<noteq> [''herdr'', ''pane'', ''run'']"])
  fix ts assume "encode_args (a # b # rest) = Inr ts"
  then have "take 2 ts = [a, b]" using assms(1,2) by (auto split: sum.splits)
  then show "take 3 (''herdr'' # ts) \<noteq> [''herdr'', ''pane'', ''run'']" using assms(3) by auto
qed simp_all

lemma shim_words_head:
  assumes "encode_arg v = Inr v" "\<And>ts. q (v # ts)"
  shows "emits (\<lambda>c. q (call_words c)) (shim m (v # as) i)"
proof (rule emits_shim)
  fix ts assume "encode_args (v # as) = Inr ts"
  with encode_args_head assms(1) obtain ts' where "ts = v # ts'" by fastforce
  with assms(2) show "q ts" by simp
qed

lemma shim_no_start [emits_intros]:
  "emits no_start (shim m (''write-file'' # as) i)" "emits no_start (shim m (''rm-file'' # as) i)"
  "emits no_start (shim m (''worktree-add'' # as) i)" "emits no_start (shim m (''worktree-remove'' # as) i)"
  "emits no_start (shim m (''branch-delete'' # as) i)"
  unfolding starts_agent_def
  by (rule shim_words_head [where q = "\<lambda>ws. take 3 ws \<noteq> [''herdr'', ''pane'', ''run'']"]; simp add: literal_words)+

lemma shim_no_removal [emits_intros]:
  "emits no_removal (shim m (''write-file'' # as) i)" "emits no_removal (shim m (''rm-file'' # as) i)"
  unfolding removes_checkout_def
  by (rule shim_words_head [where q = "\<lambda>ws. take 1 ws \<noteq> [''worktree-remove'']"]; simp add: literal_words)+

lemma emits_fields [emits_intros]: "emits p (as_dict v)" "emits p (sub_field d k a b)"
  unfolding sub_field_def as_dict_def by (auto intro!: emits_intros split: json.split)

lemma workspace_create_words [emits_intros]:
  "emits no_start (workspace_create m cwd label)" "emits no_removal (workspace_create m cwd label)"
  unfolding workspace_create_def
  by (intro emits_intros herdr_no_start; simp add: literal_words)+

lemma pane_calls_no_start [emits_intros]:
  "emits no_start (pane_close m pane)" "emits no_start (agent_rename m pane n)" "emits no_start (report_agent m pane st src ag sq msg ai ap)"
  "emits no_start (report_metadata m pane src ag dp)" "emits no_start (release_agent m pane src ag sq)"
  unfolding pane_close_def agent_rename_def report_agent_def report_metadata_def release_agent_def append_Cons
  by (rule herdr_no_start; simp add: literal_words)+

lemma pane_calls_no_removal [emits_intros]:
  "emits no_removal (pane_close m pane)" "emits no_removal (pane_run m pane cmd)" "emits no_removal (agent_rename m pane n)"
  "emits no_removal (report_agent m pane st src ag sq msg ai ap)" "emits no_removal (report_metadata m pane src ag dp)"
  "emits no_removal (release_agent m pane src ag sq)"
  unfolding pane_close_def pane_run_def agent_rename_def report_agent_def report_metadata_def release_agent_def
  by (rule herdr_no_removal)+

lemma file_words [emits_intros]:
  "emits no_start (write_file m path content)" "emits no_start (remove_file m path)"
  "emits no_removal (write_file m path content)" "emits no_removal (remove_file m path)"
  unfolding write_file_def remove_file_def by (intro emits_intros)+

lemma pane_read_words [emits_intros]: "emits no_start (pane_read m pane src n)" "emits no_removal (pane_read m pane src n)"
proof -
  have "emits (\<lambda>c. q (call_words c)) (pane_read m pane src n)" if "\<And>ts. q (''herdr'' # ''pane'' # ''read'' # ts)" for q
    unfolding pane_read_def
  proof (intro emits_lift emits_bnd emits_ctrl)
    fix tokens
    assume t: "encode_args [''herdr'', ''pane'', ''read'', pane, ''--source'', src, ''--lines'', int_to_string n] = Inr tokens"
    then have "\<exists>ts. tokens = ''herdr'' # ''pane'' # ''read'' # ts" using literal_words by (auto split: sum.splits)
    then show "emits (\<lambda>c. q (call_words c)) (async_machine_run m (join '' '' tokens) None)"
      using that by (intro emits_machine) (auto simp: tokens_split [OF t])
  qed (auto intro: emits_intros)
  from this [of "\<lambda>ws. take 3 ws \<noteq> [''herdr'', ''pane'', ''run'']"] this [of "\<lambda>ws. take 1 ws \<noteq> [''worktree-remove'']"]
  show "emits no_start (pane_read m pane src n)" "emits no_removal (pane_read m pane src n)"
    by (simp_all add: starts_agent_def removes_checkout_def)
qed

lemma emits_remote_error [emits_intros]:
  "emits p m \<Longrightarrow> (\<And>err. emits p (h err)) \<Longrightarrow> emits p (on_remote_error m h)"
  unfolding on_remote_error_def by (intro emits_intros)

text \<open>Bookkeeping sends nothing; closing a failed launch and waiting neither start nor remove.\<close>

lemma emits_bookkeeping [emits_intros]:
  "emits p (meta_item s k)" "emits p (record_event i t pl)" "emits p (mark_failed s err t)" "emits p (remote_cleanup_error s o' err)"
  "emits p (next_pane_sequence s)" "emits p (session_machine fl s)" "emits p (fleet_project fl n)" "emits p (project_machine fl pr)"
  "emits p (enqueue_briefing s b)" "emits p (make_launch_spec la cwd br)" "emits p (finish_stopped s pl)" "emits p orchestrator_machine_name"
  unfolding meta_item_def record_event_def mark_failed_def remote_cleanup_error_def next_pane_sequence_def session_machine_def
    fleet_project_def project_machine_def enqueue_briefing_def make_launch_spec_def finish_stopped_def orchestrator_machine_name_def
    prompt_path_def orchestrator_repo_def Let_def
  by (intro emits_intros)+

lemma emits_closing [emits_intros]:
  "emits no_start (close_after_failed_launch m s)" "emits no_removal (close_after_failed_launch m s)"
  "emits no_start (release_pane m s pane)" "emits no_removal (release_pane m s pane)"
  "emits no_start (report_state fl s st msg)" "emits no_removal (report_state fl s st msg)"
  unfolding close_after_failed_launch_def release_pane_def report_state_def by (intro emits_intros)+

lemma emits_wait_loop: "emits no_start (wait_loop n m sid deadline)" "emits no_removal (wait_loop n m sid deadline)"
  by (induction n) (auto intro!: emits_intros)

lemma emits_wait [emits_intros]: "emits no_start (wait_for_bridge m s)" "emits no_removal (wait_for_bridge m s)"
  unfolding wait_for_bridge_def Let_def by (intro emits_intros emits_wait_loop)+

lemma emits_destroy [emits_intros]: "emits no_start (destroy_worktree m repo path branch)" "emits no_start (cleanup_failed_worktree fl s)"
  unfolding cleanup_failed_worktree_def destroy_worktree_def Let_def by (intro emits_intros)+

lemma emits_create [emits_intros]: "emits no_start (create_worktree_from ns m repo branch base)"
  by (induction ns) (auto simp: Let_def intro!: emits_intros)

lemma emits_fail [emits_intros]:
  "emits no_start (fail_launch fl m s clean err)" "emits no_removal (fail_launch fl m s False err)"
  by (auto simp: fail_launch_def whenever_def intro!: emits_intros)

lemma emits_run_agent [emits_intros]: "emits no_removal (run_agent fl m s f b)"
  unfolding run_agent_def Let_def by (intro emits_intros) (auto split: error.split intro: emits_intros)

lemma emits_write_launch [emits_intros]: "emits no_start (write_launch_files m s c pr cmd)"
  unfolding write_launch_files_def Let_def by (intro emits_intros)

lemma run_phases:
  "phases no_start no_removal (bnd (attempt (run_agent fl m s f b)) (\<lambda>started. case started of
      Inl err \<Rightarrow> fail_launch fl m s False err
    | Inr _ \<Rightarrow> catch (wait_for_bridge m s) (\<lambda>err. if err = CancelledErr then fail_launch fl m s False err else raise_err err)))"
  by (rule phases_late) (intro emits_intros)

lemma start_phases: "phases no_start no_removal (start_in_workspace fl la spec s token worktree briefing)"
  unfolding start_in_workspace_def Let_def
  by (intro run_phases phases_bnd phases_ctrl phases_early [OF emits_fail(1)] emits_attempt emits_write_launch emits_prims)

lemma launch_phases: "phases no_start no_removal (launch fl la)"
proof -
  have inner: "phases no_start no_removal (case wt of (a, b) \<Rightarrow> k a b)" if "\<And>a b. phases no_start no_removal (k a b)"
    for wt and k :: "string \<Rightarrow> string \<Rightarrow> pi_session act"
    using that by (cases wt) simp
  show ?thesis
    unfolding launch_def Let_def create_worktree_def
    by (intro inner phases_bnd phases_seq phases_ctrl start_phases phases_early [OF emits_prims(2)] emits_intros)
qed

section \<open>Every operation ends\<close>

lemma returns_error [returns_intros]: "(\<And>code msg. returns (f code msg)) \<Longrightarrow> returns (case err of HerdrErr code msg \<Rightarrow> f code msg | _ \<Rightarrow> raise_err err)"
  by (cases err) (simp_all add: returns_prims)

lemma returns_remote_error [returns_intros]: "returns m \<Longrightarrow> (\<And>err. returns (h err)) \<Longrightarrow> returns (on_remote_error m h)"
  unfolding on_remote_error_def by (intro returns_intros)

lemma returns_wrappers [returns_intros]:
  "returns (as_dict v)" "returns (pane_run m pane cmd)" "returns (pane_read m pane src n)" "returns (pane_close m pane)"
  "returns (agent_rename m pane nm)" "returns (report_agent m pane st src ag sq msg ai ap)" "returns (report_metadata m pane src ag dp)"
  "returns (release_agent m pane src ag sq)" "returns (write_file m path content)" "returns (remove_file m path)"
  unfolding pane_run_def pane_read_def pane_close_def agent_rename_def report_agent_def report_metadata_def release_agent_def
    write_file_def remove_file_def
  by ((intro returns_intros)?; auto simp: as_dict_def intro: returns_intros split: json.split)+

lemma returns_workspace [returns_intros]: "returns (sub_field d k a b)" "returns (workspace_create m cwd label)"
  unfolding workspace_create_def sub_field_def by (intro returns_intros)+

lemma returns_worktree [returns_intros]:
  "returns (create_worktree_from ns m repo branch base)" "returns (destroy_worktree m repo path branch)"
proof (induction ns)
  case Nil
  { case 1 show ?case by (simp add: returns_prims) }
  { case 2 show ?case unfolding destroy_worktree_def by (intro returns_intros) }
next
  case (Cons n ns)
  { case 1 show ?case unfolding create_worktree_from.simps Let_def by (intro returns_intros Cons) }
  { case 2 show ?case by (rule Cons) }
qed

lemma returns_bookkeeping [returns_intros]:
  "returns (meta_item s k)" "returns (record_event i t pl)" "returns (mark_failed s err t)" "returns (remote_cleanup_error s o' err)"
  "returns (next_pane_sequence s)" "returns (session_machine fl s)" "returns (fleet_project fl n)" "returns (project_machine fl pr)"
  "returns (enqueue_briefing s b)" "returns (make_launch_spec la cwd br)" "returns (finish_stopped s pl)" "returns orchestrator_machine_name"
  unfolding meta_item_def record_event_def mark_failed_def remote_cleanup_error_def next_pane_sequence_def session_machine_def
    fleet_project_def project_machine_def enqueue_briefing_def make_launch_spec_def finish_stopped_def orchestrator_machine_name_def
    prompt_path_def orchestrator_repo_def Let_def
  by (intro returns_intros)+

lemma returns_closing [returns_intros]:
  "returns (close_after_failed_launch m s)" "returns (release_pane m s pane)" "returns (report_state fl s st msg)"
  "returns (cleanup_failed_worktree fl s)"
  unfolding close_after_failed_launch_def release_pane_def report_state_def cleanup_failed_worktree_def Let_def
  by (intro returns_intros)+

lemma returns_wait_loop [returns_intros]: "returns (wait_loop n m sid deadline)"
  by (induction n) (auto intro!: returns_intros)

lemma returns_wait [returns_intros]: "returns (wait_for_bridge m s)"
  unfolding wait_for_bridge_def Let_def by (intro returns_intros)

lemma returns_start [returns_intros]:
  "returns (fail_launch fl m s clean err)" "returns (run_agent fl m s f b)" "returns (write_launch_files m s c pr cmd)"
  unfolding fail_launch_def run_agent_def write_launch_files_def Let_def by (intro returns_intros)+

lemma returns_launch [returns_intros]: "returns (start_in_workspace fl la spec s token worktree briefing)" "returns (launch fl la)"
proof -
  show s: "returns (start_in_workspace fl la spec s token worktree briefing)" for la spec s token worktree briefing
    unfolding start_in_workspace_def Let_def by (intro returns_intros)
  show "returns (launch fl la)"
    unfolding launch_def Let_def create_worktree_def by (intro returns_intros s)
qed

lemma returns_ensure [returns_intros]: "returns (reuse fl s)" "returns (ensure_pm fl name)" "returns (ensure_orchestrator fl)"
proof -
  show r: "returns (reuse fl s)" for s unfolding reuse_def by (intro returns_intros)
  show "returns (ensure_pm fl name)" "returns (ensure_orchestrator fl)"
    unfolding ensure_pm_def ensure_orchestrator_def Let_def by (intro returns_intros r)+
qed

lemma returns_stopping [returns_intros]: "returns (teardown_task fl s force)" "returns (stop_session fl s)" "returns (poll_session fl t idle tasks s)"
proof -
  show st: "returns (stop_session fl s)" for s unfolding stop_session_def Let_def by (intro returns_intros)
  show "returns (teardown_task fl s force)" "returns (poll_session fl t idle tasks s)"
    unfolding teardown_task_def poll_session_def Let_def by (intro returns_intros st)+
qed

section \<open>What an operation hands out\<close>

definition registered :: "pi_session \<Rightarrow> database \<Rightarrow> bool" where
  "registered s d = (get_pi_session (s_id s) d = Some s \<and> \<not> terminal_pm (s_state s) \<and> s_incarnation s \<noteq> None \<and> s_incarnation s \<noteq> Some '''')"

lemma wait_loop_yields:
  "yields (\<lambda>found d. case found of None \<Rightarrow> True | Some c \<Rightarrow> registered c d) (wait_loop n m sid deadline)"
proof (induction n)
  case (Suc n)
  show ?case
    unfolding yields_def
  proof (intro allI impI)
    fix e w x w' assume run: "wait_loop (Suc n) m sid deadline e w = Some (Inr x, w')"
    define w1 where "w1 = w\<lparr>wd_ticks := Suc (wd_ticks w)\<rparr>"
    have rest: "case x of None \<Rightarrow> True | Some c \<Rightarrow> registered c (wd_db w')"
      if "seq pause (wait_loop n m sid deadline) e w1 = Some (Inr x, w')"
      using yieldsD [OF yields_seq [OF Suc] that] .
    show "case x of None \<Rightarrow> True | Some c \<Rightarrow> registered c (wd_db w')"
    proof (cases "get_pi_session sid (wd_db w1)")
      case None
      with run rest show ?thesis by (auto simp: bnd_def now_def ask_def w1_def ret_def split: if_splits)
    next
      case (Some c)
      with run rest show ?thesis
        using tbl_get_key [OF Some [unfolded get_pi_session_def]]
        by (auto simp: bnd_def seq_def now_def ask_def w1_def ret_def raise_err_def registered_def split: if_splits option.splits sum.splits)
    qed
  qed
qed (simp add: yields_def act_defs)

lemma wait_for_bridge_yields [yields_intros]: "yields registered (wait_for_bridge m s)"
  unfolding yields_def
proof (intro allI impI)
  fix e w c w' assume run: "wait_for_bridge m s e w = Some (Inr c, w')"
  define timed_out where "timed_out = bnd (on_remote_error (bnd (meta_item s ''pane_id'') (\<lambda>pane. pane_read m pane ''recent-unwrapped'' 120))
             (\<lambda>err. seq (record_event (s_id s) ''herdr-error'' [(''operation'', JStr ''pane-read''), (''detail'', JStr (error_str err))])
                     (ret (''<pane read failed: '' @ error_str err @ ''>'')))) (\<lambda>pane_output.
         let detail = ''agent session '' @ s_id s @ '' did not register within 60 seconds''
         in bnd now (\<lambda>t. seq (modify (finish_pi_session t (s_id s) S_FAILED detail))
             (seq (close_after_failed_launch m s)
               (seq (record_event (s_id s) ''launch-failed'' [(''detail'', JStr detail), (''pane_output'', JStr pane_output)])
                 (raise_err (TimeoutErr detail) :: pi_session act)))))"
  have raises: "yields registered timed_out" unfolding timed_out_def Let_def by (intro yields_intros)
  from run obtain t0 found w1 where loop: "wait_loop 120 m (s_id s) (t0 + 60) e (w\<lparr>wd_ticks := Suc (wd_ticks w)\<rparr>) = Some (Inr found, w1)"
    and cont: "(case found of Some c \<Rightarrow> ret c | None \<Rightarrow> timed_out) e w1 = Some (Inr c, w')"
    unfolding wait_for_bridge_def timed_out_def [symmetric]
    by (auto simp: bnd_Inr now_def)
  from cont raises yieldsD [OF wait_loop_yields loop] show "registered c (wd_db w')"
    by (auto simp: ret_def dest: yieldsD split: option.splits)
qed

lemma fail_launch_yields [yields_intros]: "yields Q (fail_launch fl m s clean err)"
  unfolding fail_launch_def by (intro yields_intros)

lemma launch_yields: "yields registered (launch fl la)"
  unfolding launch_def start_in_workspace_def Let_def by (intro yields_intros)

section \<open>Launching\<close>

text \<open>
  C18.  A launch never destroys work.  Whatever fails and wherever it is cancelled, a launch ends,
  and the commands it sent split into two parts: in the first no agent is started, and in the second
  no checkout is removed.  So no worktree is removed once the command that starts an agent has been
  sent, even when its answer was an error.
\<close>

theorem launch_never_destroys_work:
  "\<exists>r w' late early. launch fl la e w = Some (r, w') \<and> wd_calls w' = late @ early @ wd_calls w \<and>
     list_all (\<lambda>c. \<not> starts_agent c) early \<and> list_all (\<lambda>c. \<not> removes_checkout c) late"
proof -
  obtain r w' where l: "launch fl la e w = Some (r, w')" by (rule returnsE [OF returns_launch(2)])
  from launch_phases l obtain late early where
    "wd_calls w' = late @ early @ wd_calls w" "list_all no_start early" "list_all no_removal late" by (rule phasesE)
  with l show ?thesis by blast
qed

text \<open>
  A launch hands out only live, registered agents: the session it returns is the row of the
  tables at that moment, is neither stopped nor failed, and its bridge has registered.
\<close>

theorem launch_hands_out_registered:
  "\<exists>r w'. launch fl la e w = Some (r, w') \<and> (case r of Inl err \<Rightarrow> True
     | Inr s \<Rightarrow> get_pi_session (s_id s) (wd_db w') = Some s \<and> \<not> terminal_pm (s_state s) \<and>
         s_incarnation s \<noteq> None \<and> s_incarnation s \<noteq> Some '''')"
proof -
  obtain r w' where l: "launch fl la e w = Some (r, w')" by (rule returnsE [OF returns_launch(2)])
  then show ?thesis
    using yieldsD [OF launch_yields, of fl la e w] by (cases r) (auto simp: registered_def)
qed

section \<open>Managers\<close>

lemma session_machine_pure: "session_machine fl s e w = Some (r, w') \<Longrightarrow> w' = w"
  by (auto simp: session_machine_def act_defs split: option.splits)

lemma emits_reuse: "emits no_start (reuse fl s)"
  unfolding reuse_def by (intro emits_intros)



section \<open>Tearing down and retiring\<close>

lemma finish_state: "get_pi_session i (finish_pi_session t i st detail d) = Some c \<Longrightarrow> s_state c = st"
  by (auto simp: get_pi_session_def finish_pi_session_def tbl_get_upd split: if_splits option.splits dest: tbl_get_key)

lemma insert_event_sessions: "get_pi_session i (insert_pi_session_event ev d) = get_pi_session i d"
  by (simp add: get_pi_session_def insert_pi_session_event_def)

lemma finish_stopped_yields [yields_intros]:
  "yields (\<lambda>_ d. case get_pi_session (s_id s) d of None \<Rightarrow> True | Some c \<Rightarrow> s_state c = STOPPED) (finish_stopped s payload)"
  unfolding yields_def
proof (intro allI impI)
  fix e w x w' assume "finish_stopped s payload e w = Some (Inr x, w')"
  then obtain t ev where "wd_db w' = insert_pi_session_event ev (finish_pi_session t (s_id s) STOPPED '''' (wd_db w))"
    by (auto simp: finish_stopped_def record_event_def seq_def bnd_Inr now_def modify_def uuid4_def)
  then show "case get_pi_session (s_id s) (wd_db w') of None \<Rightarrow> True | Some c \<Rightarrow> s_state c = STOPPED"
    by (simp add: insert_event_sessions finish_state split: option.split)
qed

definition close_pane_first :: "machine \<Rightarrow> pi_session \<Rightarrow> string \<Rightarrow> unit act" where
  "close_pane_first m s pane = whenever (pane \<noteq> '''')
     (seq (on_remote_error (seq (pane_close m pane) (ret ())) (\<lambda>err.
            seq (remote_cleanup_error s ''pane-close'' err)
              (raise_err (WorktreeErr ''refusing to remove a worktree while its pane may still run''))))
       (release_pane m s pane))"

lemma close_pane_words: "emits no_removal (close_pane_first m s pane)"
  unfolding close_pane_first_def by (intro emits_intros)

lemma close_pane_done:
  assumes "close_pane_first m s pane e w = Some (Inr u, w')" "pane \<noteq> ''''"
  shows "\<exists>x w1 k. pane_close m pane e w = Some (Inr x, w1) \<and> wd_calls w' = k @ wd_calls w1"
proof -
  from assms obtain w1 where c: "on_remote_error (seq (pane_close m pane) (ret ())) (\<lambda>err.
            seq (remote_cleanup_error s ''pane-close'' err)
              (raise_err (WorktreeErr ''refusing to remove a worktree while its pane may still run''))) e w = Some (Inr (), w1)"
    and r: "release_pane m s pane e w1 = Some (Inr u, w')"
    by (auto simp: close_pane_first_def whenever_def seq_def bnd_Inr)
  have "yields (\<lambda>_ _. False) (seq (remote_cleanup_error s ''pane-close'' err)
              (raise_err (WorktreeErr ''refusing to remove a worktree while its pane may still run'') :: unit act))" for err
    by (intro yields_intros)
  then have "\<exists>x. pane_close m pane e w = Some (Inr x, w1)"
    using c by (auto simp: on_remote_error_def catch_def seq_def bnd_def ret_def raise_err_def yields_def
        split: option.splits sum.splits if_splits)
  moreover obtain k where "wd_calls w' = k @ wd_calls w1" using emitsE [OF emits_closing(4) r] by blast
  ultimately show ?thesis by blast
qed

text \<open>
  C19.  A checkout is only removed when its work is safe.  A teardown ends; every command that
  removes the checkout is sent for a task, with a pull request or by force, and only after the pane
  of the task was closed successfully.  When it returns, the session is stopped.
\<close>

theorem teardown_guarded:
  "\<exists>r w' late early. teardown_task fl s force e w = Some (r, w') \<and> wd_calls w' = late @ early @ wd_calls w \<and>
     list_all (\<lambda>c. \<not> removes_checkout c) early \<and>
     (late = [] \<or>
       s_role s = ''task'' \<and> (truthy (meta_get (s_meta s) ''pr_url'') \<or> force) \<and>
       (meta_str (s_meta s) ''pane_id'' = '''' \<or>
         (\<exists>m x w1 k. session_machine fl s e w = Some (Inr m, w) \<and>
            pane_close m (meta_str (s_meta s) ''pane_id'') e w = Some (Inr x, w1) \<and> early @ wd_calls w = k @ wd_calls w1))) \<and>
     (case r of Inl err \<Rightarrow> True
      | Inr u \<Rightarrow> (case get_pi_session (s_id s) (wd_db w') of None \<Rightarrow> True | Some c \<Rightarrow> s_state c = STOPPED))"
proof -
  let ?pane = "meta_str (s_meta s) ''pane_id''"
  obtain r w' where t: "teardown_task fl s force e w = Some (r, w')" by (rule returnsE [OF returns_stopping(1)])
  have "yields (\<lambda>_ d. case get_pi_session (s_id s) d of None \<Rightarrow> True | Some c \<Rightarrow> s_state c = STOPPED) (teardown_task fl s force)"
    unfolding teardown_task_def Let_def by (intro yields_intros)
  then have fin: "case r of Inl err \<Rightarrow> True
      | Inr u \<Rightarrow> (case get_pi_session (s_id s) (wd_db w') of None \<Rightarrow> True | Some c \<Rightarrow> s_state c = STOPPED)"
    using t by (cases r) (auto dest: yieldsD)
  define rest where "rest m = seq (catch (bnd (meta_item s ''repo'') (\<lambda>repo. bnd (meta_item s ''worktree'') (\<lambda>worktree.
                  bnd (meta_item s ''branch'') (\<lambda>branch. destroy_worktree m repo worktree branch))))
                (\<lambda>err. if worktree_error err then seq (mark_failed s err ''teardown-failed'') (raise_err err) else raise_err err))
            (seq (on_remote_error (bnd (meta_item s ''cache_dir'') (remove_file m)) (remote_cleanup_error s ''remove-cache''))
              (finish_stopped s [(''force'', JBool force)]))" for m
  show ?thesis
  proof (cases "s_role s = ''task'' \<and> (truthy (meta_get (s_meta s) ''pr_url'') \<or> force)")
    case False
    then have "w' = w" using t by (auto simp: teardown_task_def raise_err_def split: if_splits)
    with t fin show ?thesis by (intro exI [of _ r] exI [of _ w'] exI [of _ "[]"]) simp
  next
    case True
    then have t': "bnd (session_machine fl s) (\<lambda>m. seq (close_pane_first m s ?pane) (rest m)) e w = Some (r, w')"
      using t by (auto simp: teardown_task_def rest_def close_pane_first_def Let_def)
    then obtain rm where sm: "session_machine fl s e w = Some (rm, w)"
      and k: "case rm of Inl err \<Rightarrow> w' = w | Inr m \<Rightarrow> seq (close_pane_first m s ?pane) (rest m) e w = Some (r, w')"
      using session_machine_pure by (fastforce simp: bnd_Some split: sum.splits)
    show ?thesis
    proof (cases rm)
      case (Inl err)
      with k t fin show ?thesis by (intro exI [of _ r] exI [of _ w'] exI [of _ "[]"]) simp
    next
      case (Inr m)
      with k obtain rc w1 where c: "close_pane_first m s ?pane e w = Some (rc, w1)"
        and k1: "case rc of Inl err \<Rightarrow> w' = w1 | Inr u \<Rightarrow> rest m e w1 = Some (r, w')"
        by (fastforce simp: seq_def bnd_Some split: sum.splits)
      obtain early where early: "wd_calls w1 = early @ wd_calls w" "list_all no_removal early"
        using emitsE [OF close_pane_words c] by blast
      show ?thesis
      proof (cases rc)
        case (Inl err)
        with k1 early t fin show ?thesis by (intro exI [of _ r] exI [of _ w'] exI [of _ "[]"] exI [of _ early]) simp
      next
        case (Inr u)
        have "emits no_start (rest m)" unfolding rest_def by (intro emits_intros)
        moreover have "rest m e w1 = Some (r, w')" using k1 Inr by simp
        ultimately obtain late where late: "wd_calls w' = late @ wd_calls w1" by (rule emitsE)
        have "?pane = '''' \<or> (\<exists>x w2 k. pane_close m ?pane e w = Some (Inr x, w2) \<and> wd_calls w1 = k @ wd_calls w2)"
          using close_pane_done c Inr by blast
        then show ?thesis using t fin True sm \<open>rm = Inr m\<close> early late
          by (intro exI [of _ r] exI [of _ w'] exI [of _ late] exI [of _ early]) auto
      qed
    qed
  qed
qed

definition closes_pane :: "remote_call \<Rightarrow> bool" where
  "closes_pane c = (take 3 (call_words c) = [''herdr'', ''pane'', ''close''])"

lemma report_state_no_close: "emits (\<lambda>c. \<not> closes_pane c) (report_state fl s st msg)"
proof -
  have "emits (\<lambda>c. \<not> closes_pane c) (report_agent m pane st src ag sq msg ai ap)" for m pane src ag sq ai ap
    unfolding closes_pane_def report_agent_def append_Cons
  proof (rule emits_herdr [where q = "\<lambda>ws. take 3 ws \<noteq> [''herdr'', ''pane'', ''close'']"])
    fix rest ts assume "encode_args (''pane'' # ''report-agent'' # rest) = Inr ts"
    then have "take 2 ts = [''pane'', ''report-agent'']" by (auto simp: literal_words split: sum.splits)
    then show "take 3 (''herdr'' # ts) \<noteq> [''herdr'', ''pane'', ''close'']" by auto
  qed simp_all
  then show ?thesis unfolding report_state_def by (intro emits_intros)
qed

lemma emits_poll: "emits no_start (poll_session fl t idle tasks s)"
  unfolding poll_session_def stop_session_def Let_def by (intro emits_intros)


end
