(* ===== verification/Api_Access.thy ===== *)
theory Api_Access
  imports Api_Sessions Fleet_Props
begin

text \<open>
  What the session endpoints guarantee together: the access matrix of the roles, questions of tasks
  that reach their manager, and pull requests that are recorded only when they were opened.
\<close>

section \<open>Every handler ends\<close>

lemma returns_errors [returns_intros]: "returns m \<Longrightarrow> returns (bridge_errors m)" "returns m \<Longrightarrow> returns (unavailable text m)"
  unfolding bridge_errors_def unavailable_def by (intro returns_intros; simp add: returns_prims split: error.split)+

lemma returns_queue [returns_intros]: "returns (queue_command sid mk typ pl)" "returns (enqueue_prompt t msg d cl)"
  "returns (lookup sid)" "returns (own_task c t)" "returns (own_manager c)" "returns (may_message cl t)"
  unfolding queue_command_def enqueue_prompt_def lookup_def own_task_def own_manager_def may_message_def Let_def
  by (intro returns_intros)+

lemma returns_open_pr [returns_intros]: "returns (open_pr m p b wt sm sid)"
  unfolding open_pr_def Let_def by (intro returns_intros)

lemma returns_reading [returns_intros]: "returns (readable_session sid cl)" "returns (pi_sessions_list wid inc cl)"
  unfolding readable_session_def pi_sessions_list_def by (intro returns_intros)+

lemma returns_scalar [returns_intros]:
  "returns a \<Longrightarrow> (\<And>s. returns (f s)) \<Longrightarrow> (\<And>v. returns (g v)) \<Longrightarrow>
    returns (case v of None \<Rightarrow> a | Some (SStr s) \<Rightarrow> f s | Some v \<Rightarrow> g v)"
  by (auto split: option.split scalar.split)

lemma returns_value_error [returns_intros]: "(\<And>s. returns (f s)) \<Longrightarrow> returns (case err of ValueErr s \<Rightarrow> f s | _ \<Rightarrow> raise_err err)"
  "(\<And>s. returns (f s)) \<Longrightarrow> returns (case err of WorktreeErr s \<Rightarrow> f s | _ \<Rightarrow> raise_err err)"
  "(\<And>ss. returns (g ss)) \<Longrightarrow> returns (case err of PrRejectedErr ss \<Rightarrow> g ss | _ \<Rightarrow> raise_err err)"
  by (cases err; simp add: returns_prims)+

lemma returns_handlers [returns_intros]:
  "returns (pi_session_events sid after limit cl)" "returns (pi_session_send app sid msg cl)" "returns (pi_session_interrupt sid cl)"
  "returns (pi_session_teardown app sid force c)" "returns (pi_session_submit_pr app sid summary c)"
  "returns (pi_session_ask_pm sid question c)" "returns (pi_session_notify_pm sid note c)"
  unfolding pi_session_events_def pi_session_send_def pi_session_interrupt_def pi_session_teardown_def pi_session_submit_pr_def
    pi_session_ask_pm_def pi_session_notify_pm_def Let_def
  by (intro returns_intros; auto split: option.split scalar.split intro!: returns_intros)+

section \<open>The access matrix\<close>

datatype session_call =
    ReadSession
  | ReadEvents int int
  | SendMessage string
  | Interrupt
  | Teardown bool
  | SubmitPr string
  | AskPm string
  | NotifyPm string

text \<open>The roles in the \<open>require_role\<close> of the endpoint.\<close>

fun allowed_roles :: "session_call \<Rightarrow> string list" where
  "allowed_roles ReadSession = [''operator'', ''orchestrator'', ''pm'', ''task'']"
| "allowed_roles (ReadEvents after limit) = [''operator'', ''orchestrator'', ''pm'', ''task'']"
| "allowed_roles (SendMessage message) = [''operator'', ''orchestrator'', ''pm'']"
| "allowed_roles Interrupt = [''operator'', ''orchestrator'', ''pm'']"
| "allowed_roles (Teardown force) = [''pm'']"
| "allowed_roles (SubmitPr summary) = [''pm'']"
| "allowed_roles (AskPm question) = [''task'']"
| "allowed_roles (NotifyPm note) = [''task'']"

definition for_session :: "caller \<Rightarrow> (pi_session \<Rightarrow> 'a act) \<Rightarrow> 'a act" where
  "for_session c f = (case c of None \<Rightarrow> raise_err (RuntimeErr ''AttributeError'') | Some s \<Rightarrow> f s)"

definition done_with :: "'a act \<Rightarrow> unit act" where
  "done_with m = seq m (ret ())"

fun handle :: "app \<Rightarrow> string \<Rightarrow> session_call \<Rightarrow> caller \<Rightarrow> unit act" where
  "handle app sid ReadSession c = done_with (readable_session sid c)"
| "handle app sid (ReadEvents after limit) c = done_with (pi_session_events sid after limit c)"
| "handle app sid (SendMessage message) c = done_with (pi_session_send app sid message c)"
| "handle app sid Interrupt c = done_with (pi_session_interrupt sid c)"
| "handle app sid (Teardown force) c = done_with (for_session c (pi_session_teardown app sid force))"
| "handle app sid (SubmitPr summary) c = done_with (for_session c (pi_session_submit_pr app sid summary))"
| "handle app sid (AskPm question) c = done_with (for_session c (pi_session_ask_pm sid question))"
| "handle app sid (NotifyPm note) c = done_with (for_session c (pi_session_notify_pm sid note))"

definition session_endpoint :: "app \<Rightarrow> string \<Rightarrow> session_call \<Rightarrow> string option \<Rightarrow> unit act" where
  "session_endpoint app sid call authorization =
     endpoint app (''/api/v1/pi/sessions/'' @ sid) (allowed_roles call) authorization (handle app sid call)"

text \<open>What an agent may do with which session: the orchestrator reads everything and talks to
  managers, a manager sees itself, the orchestrator and its own tasks of its own project and controls
  only those tasks, a task deals only with itself.  (A session with the role \<open>operator\<close>, which
  no launch creates, would count as the operator.)\<close>

definition task_of :: "pi_session \<Rightarrow> pi_session \<Rightarrow> bool" where
  "task_of c t = (s_role t = ''task'' \<and> s_parent t = Some (s_id c) \<and> same_project c t)"

definition may_read :: "pi_session \<Rightarrow> pi_session \<Rightarrow> bool" where
  "may_read c t =
     (if s_role c = ''task'' then s_id t = s_id c
      else if s_role c = ''pm'' then s_id t = s_id c \<or> s_role t = ''orchestrator'' \<or> task_of c t
      else s_role c \<in> {''orchestrator'', ''operator''})"

fun permitted :: "session_call \<Rightarrow> pi_session \<Rightarrow> pi_session \<Rightarrow> bool" where
  "permitted ReadSession c t = may_read c t"
| "permitted (ReadEvents after limit) c t = may_read c t"
| "permitted (SendMessage message) c t =
     (if s_role c = ''pm'' then s_role t = ''orchestrator'' \<or> task_of c t
      else if s_role c = ''orchestrator'' then s_role t = ''pm'' else s_role c = ''operator'')"
| "permitted Interrupt c t =
     (if s_role c = ''pm'' then task_of c t
      else if s_role c = ''orchestrator'' then s_role t = ''pm'' else s_role c = ''operator'')"
| "permitted (Teardown force) c t = (s_role c = ''pm'' \<and> task_of c t)"
| "permitted (SubmitPr summary) c t = (s_role c = ''pm'' \<and> task_of c t)"
| "permitted (AskPm question) c t = (s_role c = ''task'' \<and> s_id t = s_id c)"
| "permitted (NotifyPm note) c t = (s_role c = ''task'' \<and> s_id t = s_id c)"

named_theorems access_simps \<open>guards of the handlers on one state\<close>

lemma bnd_lookup [access_simps]:
  "bnd (lookup sid) f e w = (case get_pi_session sid (wd_db w) of
     None \<Rightarrow> Some (Inl (HTTPErr 404 ''Pi session not found''), w) | Some s \<Rightarrow> f s e w)"
  by (auto simp: lookup_def bnd_def ask_def raise_err_def ret_def split: option.split)

lemma seq_own_task [access_simps]:
  "seq (own_task c t) k e w = (if task_of c t then k e w
     else Some (Inl (if s_role t = ''task'' \<and> s_parent t = Some (s_id c) then HTTPErr 403 ''cross-project task''
        else HTTPErr 403 ''project manager does not own task''), w))"
  by (auto simp: own_task_def task_of_def seq_def bnd_def raise_err_def ret_def)

lemma seq_guards [access_simps]:
  "seq (ret ()) k = k" "seq (raise_err err) k e w = Some (Inl err, w)"
  "seq (if b then m else m') k e w = (if b then seq m k e w else seq m' k e w)"
  by (simp_all add: seq_def bnd_def raise_err_def ret_def fun_eq_iff)

definition turned_down :: "('a res \<times> world) option \<Rightarrow> world \<Rightarrow> bool" where
  "turned_down run w = (\<exists>err. run = Some (Inl err, w))"

lemma turned_down_simps [simp]: "turned_down (Some (Inl err, w)) w" "turned_down (raise_err err e w) w"
  by (simp_all add: turned_down_def raise_err_def)

lemma turned_down_done: "turned_down (m e w) w \<Longrightarrow> turned_down (done_with m e w) w"
  by (auto simp: turned_down_def done_with_def seq_def bnd_def)

lemma turned_down_bnd: "turned_down (m e w) w \<Longrightarrow> turned_down (bnd m f e w) w"
  by (auto simp: turned_down_def bnd_def)

lemma read_guard:
  assumes "s_role c \<in> {''orchestrator'', ''pm'', ''task'', ''operator''}"
  shows "turned_down (readable_session sid (Some c) e w) w \<or> (\<exists>t. get_pi_session sid (wd_db w) = Some t \<and> may_read c t)"
  using assms
  by (cases "get_pi_session sid (wd_db w)") (auto simp: readable_session_def access_simps may_read_def)

lemma send_guard:
  assumes "s_role c \<in> {''orchestrator'', ''pm'', ''operator''}"
  shows "turned_down (pi_session_send app sid message (Some c) e w) w \<or>
    (\<exists>t. get_pi_session sid (wd_db w) = Some t \<and> permitted (SendMessage message) c t)"
  using assms
  by (cases "get_pi_session sid (wd_db w)")
    (auto simp: pi_session_send_def access_simps may_message_def task_of_def Let_def)

lemma interrupt_guard:
  assumes "s_role c \<in> {''orchestrator'', ''pm'', ''operator''}"
  shows "turned_down (pi_session_interrupt sid (Some c) e w) w \<or>
    (\<exists>t. get_pi_session sid (wd_db w) = Some t \<and> permitted Interrupt c t)"
  using assms
  by (cases "get_pi_session sid (wd_db w)")
    (auto simp: pi_session_interrupt_def access_simps task_of_def)

lemma own_row:
  assumes "c \<in> set (t_sessions d)"
  shows "\<exists>t. get_pi_session (s_id c) d = Some t \<and> s_id t = s_id c"
proof (cases "get_pi_session (s_id c) d")
  case None
  then show ?thesis using assms by (auto simp: get_pi_session_def tbl_get_None_iff)
next
  case (Some t)
  then show ?thesis using tbl_get_key [of s_id "s_id c"] by (auto simp: get_pi_session_def)
qed

lemma handler_guards:
  assumes "s_role c \<in> set (allowed_roles call)" "c \<in> set (t_sessions (wd_db w))"
  shows "turned_down (handle app sid call (Some c) e w) w \<or> (\<exists>t. get_pi_session sid (wd_db w) = Some t \<and> permitted call c t)"
proof (cases call)
  case ReadSession
  then show ?thesis using read_guard [of c sid e w] assms by (auto intro: turned_down_done)
next
  case (ReadEvents after limit)
  then show ?thesis using read_guard [of c sid e w] assms
    by (auto simp: pi_session_events_def intro!: turned_down_done turned_down_bnd)
next
  case (SendMessage message)
  then show ?thesis using send_guard [of c app sid message e w] assms by (auto intro: turned_down_done)
next
  case Interrupt
  then show ?thesis using interrupt_guard [of c sid e w] assms by (auto intro: turned_down_done)
next
  case (Teardown force)
  then show ?thesis using assms
    by (cases "get_pi_session sid (wd_db w)")
      (auto simp: for_session_def pi_session_teardown_def access_simps intro!: turned_down_done)
next
  case (SubmitPr summary)
  then show ?thesis using assms
    by (cases "get_pi_session sid (wd_db w)")
      (auto simp: for_session_def pi_session_submit_pr_def access_simps intro!: turned_down_done)
next
  case (AskPm question)
  then show ?thesis using assms own_row [OF assms(2)]
    by (auto simp: for_session_def pi_session_ask_pm_def intro!: turned_down_done)
next
  case (NotifyPm msg)
  then show ?thesis using assms own_row [OF assms(2)]
    by (auto simp: for_session_def pi_session_notify_pm_def intro!: turned_down_done)
qed

lemma returns_handle: "returns (handle app sid call c)"
  by (cases call) (auto simp: done_with_def for_session_def intro!: returns_intros split: option.split)


section \<open>Questions and pull requests\<close>

lemma strip_noop: "s \<noteq> [] \<Longrightarrow> \<not> is_ws (hd s) \<Longrightarrow> \<not> is_ws (last s) \<Longrightarrow> strip s = s"
proof -
  assume "s \<noteq> []" "\<not> is_ws (hd s)" "\<not> is_ws (last s)"
  then have "dropWhile is_ws s = s" "dropWhile is_ws (rev s) = rev s" by (simp_all add: dropWhile_eq_self_iff hd_rev)
  then show ?thesis by (simp add: strip_def lstrip_def rstrip_def)
qed

lemma strip_question: "strip q \<noteq> [] \<Longrightarrow> strip (''Task '' @ x @ '' asks: '' @ strip q) = ''Task '' @ x @ '' asks: '' @ strip q"
  using Py_Lib.strip_ends [of q] by (intro strip_noop) (simp_all, simp add: is_ws_def)

lemma queue_command_ok:
  assumes "queue_command sid mk typ payload e w = Some (Inr i, w')"
  shows "\<exists>t. t_commands (wd_db w') = t_commands (wd_db w) @ [(mk i)\<lparr>c_created := t\<rparr>] \<and>
    map s_state (t_sessions (wd_db w')) = map s_state (t_sessions (wd_db w)) \<and>
    map s_question (t_sessions (wd_db w')) = map s_question (t_sessions (wd_db w)) \<and>
    map s_id (t_sessions (wd_db w')) = map s_id (t_sessions (wd_db w))"
  using assms
  by (auto simp: queue_command_def seq_def bnd_Inr now_def uuid4_def db_put_def modify_def ret_def enqueue_pi_session_command_def
      insert_pi_session_event_def tbl_ins_def tbl_upd_def split: sum.splits if_splits)

lemma set_blocked_row:
  assumes "set_pi_session_blocked t u i question d = Inr d'"
  shows "\<exists>s \<in> set (t_sessions d'). s_id s = i \<and> s_state s = BLOCKED \<and> s_question s = question"
proof -
  let ?active = "\<lambda>s. s_id s = i \<and> s_state s \<notin> {STOPPED, S_FAILED, TERMINATION_UNKNOWN}"
  let ?f = "\<lambda>s. s\<lparr>s_state := BLOCKED, s_question := question, s_updated := t\<rparr>"
  have d: "t_sessions d' = tbl_upd ?active ?f (t_sessions d)" "rowcount ?active (t_sessions d) \<noteq> 0"
    using assms by (auto simp: set_pi_session_blocked_def Let_def split: if_splits sum.splits)
  then obtain x where "x \<in> set (t_sessions d)" "?active x" by (auto simp: rowcount_0_iff)
  then have "?f x \<in> set (t_sessions d')" unfolding d(1) tbl_upd_def by force
  moreover have "s_id (?f x) = i" using \<open>?active x\<close> by simp
  ultimately show ?thesis by (intro bexI [of _ "?f x"]) simp_all
qed

lemma set_blocked_commands: "set_pi_session_blocked t u i question d = Inr d' \<Longrightarrow> t_commands d' = t_commands d"
  by (auto simp: set_pi_session_blocked_def Let_def split: if_splits sum.splits)

lemma rows_agree:
  assumes "\<exists>s \<in> set ys. s_id s = i \<and> s_state s = st \<and> s_question s = q"
    and "map s_state xs = map s_state ys" "map s_question xs = map s_question ys" "map s_id xs = map s_id ys"
  shows "\<exists>s. s \<in> set xs \<and> s_id s = i \<and> s_state s = st \<and> s_question s = q"
proof -
  obtain n where n: "n < length ys" "s_id (ys ! n) = i" "s_state (ys ! n) = st" "s_question (ys ! n) = q"
    using assms(1) by (metis in_set_conv_nth)
  moreover have "length xs = length ys" using assms(2) by (metis length_map)
  ultimately show ?thesis using assms(2-4) by (metis nth_map nth_mem)
qed

text \<open>
  Questions reach the manager.  Asking ends, and when it returns a command, the project manager
  that owns the task, of the same project, has exactly that command at the end of its mailbox,
  undelivered and with the question as its text, and the task is blocked on the question.
\<close>

theorem question_reaches_manager:
  "\<exists>r w'. pi_session_ask_pm sid q c e w = Some (r, w') \<and>
     (case r of Inl err \<Rightarrow> True
      | Inr i \<Rightarrow> \<exists>p cmd s. get_pi_session (case s_parent c of None \<Rightarrow> '''' | Some x \<Rightarrow> x) (wd_db w) = Some p \<and>
          s_role p = ''pm'' \<and> same_project c p \<and>
          t_commands (wd_db w') = t_commands (wd_db w) @ [cmd] \<and> c_id cmd = i \<and> c_session cmd = s_id p \<and>
          c_kind cmd = ''prompt'' \<and> c_delivered_at cmd = 0 \<and> c_message cmd = ''Task '' @ s_id c @ '' asks: '' @ strip q \<and>
          s \<in> set (t_sessions (wd_db w')) \<and> s_id s = s_id c \<and> s_state s = BLOCKED \<and> s_question s = strip q)"
proof -
  obtain r w' where a: "pi_session_ask_pm sid q c e w = Some (r, w')" by (rule returnsE [OF returns_handlers(6)])
  show ?thesis
  proof (cases r)
    case (Inr i)
    have pm: "w2 = w" if "own_manager c e w = Some (Inr p, w2)" for p w2
      using that by (auto simp: own_manager_def bnd_def ask_def raise_err_def ret_def split: option.splits if_splits)
    have body: "(if s_id c \<noteq> sid then raise_err (HTTPErr 403 ''task may only block its own session'')
      else bnd (own_manager c) (\<lambda>parent.
           if strip q = '''' then raise_err (HTTPErr 422 ''question must not be empty'')
           else bnd now (\<lambda>t. bnd uuid4 (\<lambda>u.
             seq (catch (db_put (set_pi_session_blocked t u (s_id c) (strip q))) (\<lambda>err. case err of
                    ValueErr s \<Rightarrow> raise_err (HTTPErr 409 s) | _ \<Rightarrow> raise_err err))
               (enqueue_prompt parent (''Task '' @ s_id c @ '' asks: '' @ strip q) ''followUp'' (Some c)))))) e w = Some (Inr i, w')"
      using a Inr unfolding pi_session_ask_pm_def Let_def by simp
    then obtain p t u w1 w2 where p: "own_manager c e w = Some (Inr p, w)" and q: "strip q \<noteq> ''''"
      and b: "catch (db_put (set_pi_session_blocked t u (s_id c) (strip q)))
          (\<lambda>err. case err of ValueErr s \<Rightarrow> raise_err (HTTPErr 409 s) | _ \<Rightarrow> raise_err err) e w1 = Some (Inr (), w2)"
      and m: "enqueue_prompt p (''Task '' @ s_id c @ '' asks: '' @ strip q) ''followUp'' (Some c) e w2 = Some (Inr i, w')"
      and w1: "wd_db w1 = wd_db w"
      using pm by (fastforce simp: raise_err_def bnd_Inr seq_def now_def uuid4_def split: if_splits)
    from b w1 have b2: "set_pi_session_blocked t u (s_id c) (strip q) (wd_db w) = Inr (wd_db w2)"
      by (auto simp: catch_def db_put_def raise_err_def split: sum.splits error.splits)
    have parent: "get_pi_session (case s_parent c of None \<Rightarrow> '''' | Some x \<Rightarrow> x) (wd_db w) = Some p" "s_role p = ''pm''" "same_project c p"
      using p by (auto simp: own_manager_def bnd_def ask_def raise_err_def ret_def split: option.splits if_splits)
    have cmds: "t_commands (wd_db w2) = t_commands (wd_db w)"
      by (rule set_blocked_commands [OF b2])
    have blocked: "\<exists>s \<in> set (t_sessions (wd_db w2)). s_id s = s_id c \<and> s_state s = BLOCKED \<and> s_question s = strip q"
      using set_blocked_row [OF b2] .
    from m q have qc: "queue_command (s_id p)
        (\<lambda>i. (new_pi_command i (s_id p))\<lparr>c_kind := ''prompt'', c_message := strip (''Task '' @ s_id c @ '' asks: '' @ strip q),
           c_deliver_as := ''followUp'', c_payload := [(''sender_session_id'', JStr (sender_id (Some c)))]\<rparr>) ''prompt-queued''
        (\<lambda>i. [(''command_id'', JStr i), (''deliver_as'', JStr ''followUp''), (''sender_session_id'', JStr (sender_id (Some c)))])
        e w2 = Some (Inr i, w')"
      unfolding enqueue_prompt_def Let_def strip_question [OF q] by simp
    obtain t2 where m2: "t_commands (wd_db w') = t_commands (wd_db w2) @ [((new_pi_command i (s_id p))\<lparr>c_kind := ''prompt'',
          c_message := ''Task '' @ s_id c @ '' asks: '' @ strip q, c_deliver_as := ''followUp'',
          c_payload := [(''sender_session_id'', JStr (sender_id (Some c)))]\<rparr>)\<lparr>c_created := t2\<rparr>]"
        "map s_state (t_sessions (wd_db w')) = map s_state (t_sessions (wd_db w2))"
        "map s_question (t_sessions (wd_db w')) = map s_question (t_sessions (wd_db w2))"
        "map s_id (t_sessions (wd_db w')) = map s_id (t_sessions (wd_db w2))"
      using queue_command_ok [OF qc] unfolding strip_question [OF q] by blast
    have "\<exists>s. s \<in> set (t_sessions (wd_db w')) \<and> s_id s = s_id c \<and> s_state s = BLOCKED \<and> s_question s = strip q"
      using blocked m2(2-4) by (rule rows_agree)
    then show ?thesis using a Inr parent cmds m2(1) by (auto simp: new_pi_command_def)
  qed (use a in simp)
qed

text \<open>
  C26.  A pull request is recorded only when it was opened.  Submitting ends; unless it returns a URL
  the tables stay as they were.  When it does, the task is the caller's own, the summary has every
  required section, the URL is one of the project's pull requests, the four commands push, title, body
  and creation have been sent in this order with exactly these arguments, and the task's row records
  the URL.
\<close>

theorem submit_pr_sound:
  "\<exists>r w'. pi_session_submit_pr app sid summary c e w = Some (r, w') \<and>
     (case r of Inl err \<Rightarrow> wd_db w' = wd_db w
      | Inr url \<Rightarrow> \<exists>task p m title c1 c2 c3 c4.
          get_pi_session sid (wd_db w) = Some task \<and> task_of c task \<and>
          map_of (fl_projects (ap_fleet app)) (meta_str (s_meta task) ''project'') = Some p \<and>
          missing_sections summary = [] \<and> is_pr_url (pj_remote p) url \<and> task_title summary = Inr title \<and>
          wd_calls w' = [c4, c3, c2, c1] @ wd_calls w \<and>
          sent [''push'', meta_str (s_meta task) ''worktree'', meta_str (s_meta task) ''branch''] None c1 \<and>
          sent [''write-file'', session_dir m (s_id task) @ ''/pr-title.txt''] (Some (title @ nl)) c2 \<and>
          sent [''write-file'', session_dir m (s_id task) @ ''/pr-body.md''] (Some summary) c3 \<and>
          sent [''pr-create'', pj_remote p, meta_str (s_meta task) ''branch'', pj_base p,
            session_dir m (s_id task) @ ''/pr-title.txt'', session_dir m (s_id task) @ ''/pr-body.md''] None c4 \<and>
          wd_db w' = update_pi_session_meta (s_id task) [(''pr_url'', SStr url)] (wd_db w))"
proof (cases "get_pi_session sid (wd_db w)")
  case None
  then show ?thesis by (simp add: pi_session_submit_pr_def access_simps)
next
  case (Some task)
  let ?p = "map_of (fl_projects (ap_fleet app)) (meta_str (s_meta task) ''project'')"
  let ?named = "meta_str (s_meta task) ''machine''"
  let ?name = "if ?named \<noteq> '''' then ?named else (case ?p of None \<Rightarrow> '''' | Some p \<Rightarrow> pj_machine p)"
  show ?thesis
  proof (cases "task_of c task \<and> ?p \<noteq> None \<and> map_of (fl_machines (ap_fleet app)) ?name \<noteq> None")
    case False
    then show ?thesis using Some
      by (auto simp: pi_session_submit_pr_def access_simps Let_def raise_err_def split: option.splits)
  next
    case True
    then obtain p m where p: "?p = Some p" and m: "map_of (fl_machines (ap_fleet app)) ?name = Some m" and t: "task_of c task"
      by blast
    let ?open = "open_pr m p (meta_str (s_meta task) ''branch'') (meta_str (s_meta task) ''worktree'') summary (s_id task)"
    obtain ro w1 where o: "?open e w = Some (ro, w1)" by (rule returnsE [OF returns_open_pr])
    have db: "wd_db w1 = wd_db w" by (rule db_unchangedD [OF open_pr_quiet o])
    have run: "pi_session_submit_pr app sid summary c e w =
        bnd (catch ?open (\<lambda>err. case err of PrRejectedErr missing \<Rightarrow> raise_err (HTTPErr 422 (error_str err)) | _ \<Rightarrow> raise_err err)) (\<lambda>url.
          seq (modify (update_pi_session_meta (s_id task) [(''pr_url'', SStr url)])) (ret url)) e w"
      using Some p m t by (simp add: pi_session_submit_pr_def access_simps Let_def)
    show ?thesis
    proof (cases ro)
      case (Inl err)
      have "pi_session_submit_pr app sid summary c e w =
          Some (Inl (case err of PrRejectedErr missing \<Rightarrow> HTTPErr 422 (error_str err) | _ \<Rightarrow> err), w1)"
        unfolding run using o Inl by (cases err) (simp_all add: bnd_def catch_def raise_err_def)
      then show ?thesis using db by simp
    next
      case (Inr url)
      have "pi_session_submit_pr app sid summary c e w =
          Some (Inr url, w1\<lparr>wd_db := update_pi_session_meta (s_id task) [(''pr_url'', SStr url)] (wd_db w1)\<rparr>)"
        unfolding run using o Inr by (simp add: bnd_def catch_def seq_def modify_def ret_def)
      then show ?thesis using open_pr_ok [OF o [unfolded Inr]] Some p t db by fastforce
    qed
  qed
qed

end
