(* ===== verification/Pi_Cli.thy ===== *)
theory Pi_Cli
  imports Terminal Host_Cli
begin

text \<open>
  The commands of \<open>cli/pi.py\<close> that inspect, message and attach to sessions through the control service, the settings of
  \<open>config.py\<close> and the choice of an agent in \<open>agents.py\<close>.  The service, the picker and the files are arguments; the service
  answers a listing with a list of objects.  Exceptions Python knows by other names are \<open>ValueErr\<close> with that name.
\<close>

section \<open>Settings\<close>

record config =
  cf_db_path :: string
  cf_key_path :: string
  cf_ssh_user :: string
  cf_connect_timeout :: int
  cf_hb_host :: string
  cf_hb_port :: int
  cf_cutoff :: int
  cf_control_host :: string
  cf_control_port :: int
  cf_url :: string
  cf_log_level :: string

type_synonym environ = "string \<Rightarrow> string option"

definition env_or :: "environ \<Rightarrow> string \<Rightarrow> string \<Rightarrow> string" where
  "env_or env k dflt = (case env k of None \<Rightarrow> dflt | Some s \<Rightarrow> s)"

definition env_int :: "environ \<Rightarrow> string \<Rightarrow> string \<Rightarrow> int res" where
  "env_int env k dflt = (case py_int (env_or env k dflt) of None \<Rightarrow> Inl (ValueErr ''invalid literal for int()'') | Some n \<Rightarrow> Inr n)"

definition load_config :: "string \<Rightarrow> environ \<Rightarrow> config res" where
  "load_config home env =
     (case env_int env ''WH_HB_PORT'' ''12888'' of Inl err \<Rightarrow> Inl err | Inr hb_port \<Rightarrow>
      case env_int env ''WH_OFFLINE_CUTOFF'' ''180'' of Inl err \<Rightarrow> Inl err | Inr cutoff \<Rightarrow>
      case env_int env ''WH_CONTROL_PORT'' ''12889'' of Inl err \<Rightarrow> Inl err | Inr control_port \<Rightarrow>
      let level = env_or env ''WH_LOG_LEVEL'' ''INFO'' in
      if level \<notin> {''DEBUG'', ''INFO'', ''WARNING'', ''ERROR''} then Inl (ValueErr ''ValidationError'')
      else Inr \<lparr>cf_db_path = path_str (posix_path (expand_user home (env_or env ''WH_DB_PATH'' ''~/.config/worker-harness/db.sqlite''))),
        cf_key_path = env_or env ''WH_SSH_KEY'' (home @ ''/.ssh/id_rsa''), cf_ssh_user = env_or env ''WH_SSH_USER'' ''root'', cf_connect_timeout = 10,
        cf_hb_host = env_or env ''WH_HB_HOST'' ''0.0.0.0'', cf_hb_port = hb_port, cf_cutoff = cutoff,
        cf_control_host = env_or env ''WH_CONTROL_HOST'' ''0.0.0.0'', cf_control_port = control_port,
        cf_url = rstrip_char (CHR ''/'') (env_or env ''WH_ORCHESTRATOR_URL'' ''http://127.0.0.1:12889''), cf_log_level = level\<rparr>)"

section \<open>The caller\<close>

text \<open>What reading a file gives: its text or an \<open>OSError\<close> (\<open>None\<close>).\<close>

record caller =
  ca_env :: environ
  ca_home :: string
  ca_read :: "string \<Rightarrow> string option"
  ca_parse :: "string \<Rightarrow> json option"
  ca_repr :: "json \<Rightarrow> string"
  ca_mode :: string

definition env_text :: "caller \<Rightarrow> string \<Rightarrow> string" where
  "env_text ca k = strip (env_or (ca_env ca) k '''')"

definition configured_url :: "caller \<Rightarrow> string res" where
  "configured_url ca = (case load_config (ca_home ca) (ca_env ca) of Inl err \<Rightarrow> Inl err | Inr cf \<Rightarrow> Inr (rstrip_char (CHR ''/'') (cf_url cf)))"

definition base_url :: "caller \<Rightarrow> string res" where
  "base_url ca =
     (if env_or (ca_env ca) ''WH_ORCHESTRATOR_URL'' '''' \<noteq> ''''
      then Inr (rstrip_char (CHR ''/'') (env_or (ca_env ca) ''WH_ORCHESTRATOR_URL'' ''''))
      else (case ca_read ca (path_join (ca_home ca) ''.pi/worker-harness/config.json'') of
        None \<Rightarrow> configured_url ca
      | Some text \<Rightarrow> (case ca_parse ca text of
          None \<Rightarrow> configured_url ca
        | Some (JObj kvs) \<Rightarrow>
            let url = py_str (ca_repr ca) (json_or (json_get kvs ''orchestratorUrl'' JNull) (JStr ''''))
            in if startswith ''http://'' url \<or> startswith ''https://'' url then Inr (rstrip_char (CHR ''/'') url) else configured_url ca
        | Some _ \<Rightarrow> Inl (ValueErr ''AttributeError''))))"

text \<open>\<open>_headers\<close>: the bearer token, if any.\<close>

definition headers :: "caller \<Rightarrow> string option res" where
  "headers ca =
     (let token = env_text ca ''WH_SESSION_TOKEN'';
          bearer = (\<lambda>t. Inr (if t = '''' then None else Some t))
      in if token = '''' \<and> env_text ca ''WH_SESSION_ROLE'' = '''' then
           (let token = env_text ca ''WH_OPERATOR_TOKEN''; file = env_text ca ''WH_OPERATOR_TOKEN_FILE''
            in if token = '''' \<and> file \<noteq> '''' then
                 (case ca_read ca (path_str (posix_path (expand_user (ca_home ca) file))) of
                    None \<Rightarrow> Inl (OSErr file) | Some text \<Rightarrow> bearer (strip text))
               else bearer token)
         else bearer token)"

section \<open>Requests\<close>

text \<open>The answer: status, text, and the decoded body if it is JSON; or the transport failed.\<close>

datatype reply = Answer nat string "json option" | Unreachable string

record call =
  cl_base :: string
  cl_method :: string
  cl_path :: string
  cl_payload :: "json option"
  cl_token :: "string option"

definition request :: "caller \<Rightarrow> (call \<Rightarrow> reply) \<Rightarrow> string \<Rightarrow> string \<Rightarrow> json option \<Rightarrow> bool \<Rightarrow> json option res" where
  "request ca api verb path payload allow_not_found =
     (case base_url ca of Inl err \<Rightarrow> Inl err | Inr base \<Rightarrow> case headers ca of Inl err \<Rightarrow> Inl err | Inr token \<Rightarrow>
      (case api \<lparr>cl_base = base, cl_method = verb, cl_path = path, cl_payload = payload, cl_token = token\<rparr> of
         Unreachable s \<Rightarrow> Inl (RuntimeErr (''control API unavailable: '' @ s))
       | Answer status text body \<Rightarrow>
         if allow_not_found \<and> status = 404 then Inr None
         else if \<not> (200 \<le> status \<and> status \<le> 299) then Inl (RuntimeErr (''control API returned '' @ nat_to_string status @ '': '' @ text))
         else (case body of None \<Rightarrow> Inl (ValueErr ''JSONDecodeError'') | Some v \<Rightarrow> Inr (Some v))))"

text \<open>The two handlers around every command: a \<open>RuntimeError\<close> is printed, anything else is a traceback.\<close>

definition reported :: "shown list res \<Rightarrow> outcome" where
  "reported r = (case r of
     Inr out \<Rightarrow> (out, Exit 0)
   | Inl (RuntimeErr s) \<Rightarrow> ([Line (''[red]'' @ s @ ''[/]'')], Exit 1)
   | Inl err \<Rightarrow> ([], Uncaught err))"

type_synonym session_row = "(string \<times> json) list"

fun objects :: "json list \<Rightarrow> session_row list res" where
  "objects [] = Inr []"
| "objects (v # vs) = (case v of
     JObj kvs \<Rightarrow> (case objects vs of Inl err \<Rightarrow> Inl err | Inr rs \<Rightarrow> Inr (kvs # rs)) | _ \<Rightarrow> Inl (ValueErr ''AttributeError''))"

definition list_request :: "caller \<Rightarrow> (call \<Rightarrow> reply) \<Rightarrow> string \<Rightarrow> session_row list res" where
  "list_request ca api path = (case request ca api ''GET'' path None False of
     Inl err \<Rightarrow> Inl err | Inr (Some (JArr vs)) \<Rightarrow> objects vs | Inr _ \<Rightarrow> Inl (ValueErr ''AttributeError''))"

definition field :: "session_row \<Rightarrow> string \<Rightarrow> json" where
  "field row key = json_get row key JNull"

definition field_text :: "caller \<Rightarrow> session_row \<Rightarrow> string list \<Rightarrow> string \<Rightarrow> string" where
  "field_text ca row ks dflt = py_str (ca_repr ca) (foldr (\<lambda>k v. json_or (field row k) v) ks (JStr dflt))"

definition session_id :: "caller \<Rightarrow> session_row \<Rightarrow> string" where
  "session_id ca row = py_str (ca_repr ca) (json_get row ''id'' (JStr ''''))"

section \<open>Agents\<close>

definition AGENTS :: "string list" where
  "AGENTS = [''pi'', ''omp'']"

definition validate_agent :: "string \<Rightarrow> string res" where
  "validate_agent agent = (if agent \<notin> set AGENTS
     then Inl (RuntimeErr (''unsupported agent '' @ agent @ ''; expected one of '' @ join '', '' AGENTS)) else Inr agent)"

definition row_agent :: "caller \<Rightarrow> session_row \<Rightarrow> string" where
  "row_agent ca row = field_text ca row [''agent''] ''pi''"

definition filter_agent :: "caller \<Rightarrow> session_row list \<Rightarrow> string option \<Rightarrow> session_row list res" where
  "filter_agent ca rows agent = (case agent of None \<Rightarrow> Inr rows | Some a \<Rightarrow> if a = '''' then Inr rows else
     (case validate_agent a of Inl err \<Rightarrow> Inl err | Inr _ \<Rightarrow> Inr (filter (\<lambda>row. row_agent ca row = a) rows)))"

text \<open>\<open>pick_agent\<close>: \<open>fzf\<close> is None without a terminal or without the program; otherwise its exit code and output.\<close>

definition nul_text :: string where
  "nul_text = [char_of (0 :: nat)]"

definition agent_choices :: string where
  "agent_choices = join nul_text (map (\<lambda>(name, label). name @ [CHR 9] @ ''  '' @ label)
     [(''pi'', ''pi    upstream Pi coding agent''), (''omp'', ''omp   Oh My Pi'')]) @ nul_text"

definition first_column :: "string \<Rightarrow> string" where
  "first_column s = takeWhile (\<lambda>c. c \<noteq> CHR 9) s"

datatype 'a choice = Chosen 'a | Aborted | Failed error

definition picked_agent :: "int \<Rightarrow> string \<Rightarrow> string choice" where
  "picked_agent code out =
     (let selected = rstrip_char (char_of (0 :: nat)) out
      in if code = 130 \<or> selected = '''' then Aborted
         else if code \<noteq> 0 then Failed (RuntimeErr (''fzf agent picker failed with exit code '' @ int_to_string code))
         else (case validate_agent (first_column selected) of Inl err \<Rightarrow> Failed err | Inr a \<Rightarrow> Chosen a))"

definition pick_agent :: "string option \<Rightarrow> (string \<Rightarrow> int \<times> string) option \<Rightarrow> string choice" where
  "pick_agent explicit fzf =
     (if explicit \<noteq> None \<and> explicit \<noteq> Some '''' then
        (case validate_agent (the explicit) of Inl err \<Rightarrow> Failed err | Inr a \<Rightarrow> Chosen a)
      else (case fzf of None \<Rightarrow> Chosen ''pi'' | Some run \<Rightarrow> (case run agent_choices of (code, out) \<Rightarrow> picked_agent code out)))"

section \<open>Sessions\<close>

definition keep_if :: "string option \<Rightarrow> string \<Rightarrow> session_row list \<Rightarrow> session_row list" where
  "keep_if value key rows = (case value of None \<Rightarrow> rows | Some v \<Rightarrow> if v = '''' then rows else filter (\<lambda>row. field row key = JStr v) rows)"

definition session_table_row :: "caller \<Rightarrow> session_row \<Rightarrow> string list" where
  "session_table_row ca row =
     [take 12 (session_id ca row), field_text ca row [''role'', ''session_type''] ''-'', field_text ca row [''state''] '''',
      take 40 (field_text ca row [''name'', ''task''] ''-''), take 24 (field_text ca row [''host''] ''-''), take 40 (field_text ca row [''cwd''] ''-'')]"

definition sessions :: "caller \<Rightarrow> (call \<Rightarrow> reply) \<Rightarrow> string option \<Rightarrow> string option \<Rightarrow> string option \<Rightarrow> outcome" where
  "sessions ca api session_type state agent = reported
     (case list_request ca api ''/api/v1/pi/sessions'' of Inl err \<Rightarrow> Inl err | Inr rows \<Rightarrow>
      case filter_agent ca (keep_if state ''state'' (keep_if session_type ''session_type'' rows)) agent of Inl err \<Rightarrow> Inl err | Inr rows \<Rightarrow>
      Inr [if ca_mode ca = ''json'' then Json (JArr (map JObj rows)) else Table (map (session_table_row ca) rows)])"

definition exact_matches :: "session_row list \<Rightarrow> string \<Rightarrow> session_row list" where
  "exact_matches rows target = filter (\<lambda>row. field row ''id'' = JStr target \<or> field row ''name'' = JStr target) rows"

definition prefix_matches :: "caller \<Rightarrow> session_row list \<Rightarrow> string \<Rightarrow> session_row list" where
  "prefix_matches ca rows target = filter (\<lambda>row. startswith target (session_id ca row)) rows"

definition resolve_session :: "caller \<Rightarrow> session_row list \<Rightarrow> string \<Rightarrow> session_row res" where
  "resolve_session ca rows target =
     (case exact_matches rows target of
        [row] \<Rightarrow> Inr row
      | exact \<Rightarrow> (case prefix_matches ca rows target of
          [row] \<Rightarrow> Inr row
        | prefix \<Rightarrow> if exact = [] \<and> prefix = [] then Inl (RuntimeErr (''no active Pi session matches '' @ target))
            else Inl (RuntimeErr (''Pi session selector '' @ target @ '' is ambiguous''))))"

definition tab :: string where "tab = [CHR 9]"

definition choice_line :: "caller \<Rightarrow> string \<times> session_row \<Rightarrow> string" where
  "choice_line ca entry = (case entry of (i, row) \<Rightarrow> join tab [i, field_text ca row [''role'', ''session_type''] ''-'',
     field_text ca row [''state''] ''-'', field_text ca row [''name'', ''task''] ''-'', field_text ca row [''cwd''] ''-''])"

definition pick_session :: "caller \<Rightarrow> session_row list \<Rightarrow> (string \<Rightarrow> int \<times> string) option \<Rightarrow> session_row choice" where
  "pick_session ca rows fzf =
     (if rows = [] then Failed (RuntimeErr ''no active Pi sessions are registered'')
      else (case fzf of
        None \<Rightarrow> Failed (RuntimeErr ''fzf is required when no session ID is supplied'')
      | Some run \<Rightarrow>
        let by_id = py_dict (map (\<lambda>row. (field_text ca row [''id''] '''', row)) rows)
        in (case run (join nl (map (choice_line ca) by_id)) of (code, out) \<Rightarrow>
          if code = 130 \<or> strip out = '''' then Aborted
          else if code \<noteq> 0 then Failed (RuntimeErr (''fzf failed with exit code '' @ int_to_string code))
          else (case map_of by_id (first_column out) of
            None \<Rightarrow> Failed (RuntimeErr ''fzf returned an unknown Pi session'') | Some row \<Rightarrow> Chosen row))))"

section \<open>Attaching\<close>

definition ACTIVE_STATES :: "string list" where
  "ACTIVE_STATES = [''working'', ''idle'', ''blocked'']"

text \<open>The arguments of \<open>attach_terminal\<close>.\<close>

record attach_plan =
  ap_url :: string
  ap_fallback :: "string option"
  ap_token :: "string option"

definition py_int_of :: "json \<Rightarrow> int res" where
  "py_int_of v = (case v of
     JInt n \<Rightarrow> Inr n | JBool b \<Rightarrow> Inr (if b then 1 else 0)
   | JStr s \<Rightarrow> (case py_int s of None \<Rightarrow> Inl (ValueErr ''invalid literal for int()'') | Some n \<Rightarrow> Inr n)
   | _ \<Rightarrow> Inl (ValueErr ''TypeError''))"

definition plan_attach :: "caller \<Rightarrow> (call \<Rightarrow> reply) \<Rightarrow> session_row \<Rightarrow> attach_plan res" where
  "plan_attach ca api row =
     (case request ca api ''GET'' (''/api/v1/pi/sessions/'' @ url_quote (field_text ca row [''id''] '''') @ ''/attach-info'') None False of
        Inl err \<Rightarrow> Inl err
      | Inr (Some (JObj info)) \<Rightarrow>
        if \<not> json_truthy (field info ''attachable'')
        then Inl (RuntimeErr (field_text ca info [''reason''] ''Pi session is not attachable''))
        else (case py_int_of (json_or (field info ''protocol_version'') (JInt 0)) of Inl err \<Rightarrow> Inl err | Inr version \<Rightarrow>
          if version \<noteq> 2 then Inl (RuntimeErr (''unsupported Pi terminal protocol '' @ ca_repr ca (field info ''protocol_version'') @ ''; expected 2''))
          else (case headers ca of Inl err \<Rightarrow> Inl err | Inr token \<Rightarrow>
            let gateway = field_text ca info [''gateway_websocket_url''] ''''
            in Inr \<lparr>ap_url = field_text ca info [''direct_websocket_url'', ''websocket_url''] '''',
                  ap_fallback = (if gateway = '''' then None else Some gateway), ap_token = token\<rparr>))
      | Inr _ \<Rightarrow> Inl (ValueErr ''AttributeError''))"

definition choose_session :: "caller \<Rightarrow> (call \<Rightarrow> reply) \<Rightarrow> string option \<Rightarrow> string option \<Rightarrow> (string \<Rightarrow> int \<times> string) option \<Rightarrow> session_row choice" where
  "choose_session ca api target agent fzf =
     (case list_request ca api ''/api/v1/pi/sessions'' of Inl err \<Rightarrow> Failed err | Inr rows \<Rightarrow>
      case filter_agent ca rows agent of Inl err \<Rightarrow> Failed err | Inr rows \<Rightarrow>
      let active = filter (\<lambda>row. list_ex (\<lambda>s. field row ''state'' = JStr s) ACTIVE_STATES) rows
      in if target = None \<or> target = Some '''' then pick_session ca active fzf
         else (case resolve_session ca active (the target) of Inl err \<Rightarrow> Failed err | Inr row \<Rightarrow> Chosen row))"

text \<open>\<open>None\<close> is \<open>typer.Abort\<close>; a cut connection is a \<open>RuntimeError\<close> too.\<close>

definition attach :: "caller \<Rightarrow> (call \<Rightarrow> reply) \<Rightarrow> string option \<Rightarrow> string option \<Rightarrow> (string \<Rightarrow> int \<times> string) option \<Rightarrow>
    int \<times> int \<Rightarrow> (nat \<Rightarrow> attempt) \<Rightarrow> (string \<times> string option) list \<times> outcome option" where
  "attach ca api target agent fzf dims attempts = (case choose_session ca api target agent fzf of
     Aborted \<Rightarrow> ([], None)
   | Failed err \<Rightarrow> ([], Some (reported (Inl err)))
   | Chosen row \<Rightarrow> (case plan_attach ca api row of
       Inl err \<Rightarrow> ([], Some (reported (Inl err)))
     | Inr p \<Rightarrow> (case attach_terminal (ap_url p) (ap_fallback p) (ap_token p) dims attempts of (connections, r) \<Rightarrow>
         (connections, Some (case r of
            Inr _ \<Rightarrow> ([], Exit 0)
          | Inl (RelayUnavailable s) \<Rightarrow> reported (Inl (RuntimeErr s))
          | Inl (TransportErr s) \<Rightarrow> ([], Uncaught (OSErr s))
          | Inl (OtherErr s) \<Rightarrow> if s \<in> {''AttributeError'', ''ValueError''} then ([], Uncaught (ValueErr s)) else reported (Inl (RuntimeErr s)))))))"

section \<open>Messages\<close>

definition event_line :: "caller \<Rightarrow> (json \<Rightarrow> string) \<Rightarrow> session_row \<Rightarrow> string" where
  "event_line ca dumps row = py_str (ca_repr ca) (json_get row ''created_at'' (JInt 0)) @ ''  '' @
     py_str (ca_repr ca) (json_get row ''event_type'' (JStr '''')) @ ''  '' @ dumps (json_get row ''payload'' (JObj []))"

definition events_cmd :: "caller \<Rightarrow> (call \<Rightarrow> reply) \<Rightarrow> (json \<Rightarrow> string) \<Rightarrow> string \<Rightarrow> outcome" where
  "events_cmd ca api dumps i = reported (case list_request ca api (''/api/v1/pi/sessions/'' @ i @ ''/events'') of
     Inl err \<Rightarrow> Inl err
   | Inr rows \<Rightarrow> Inr (if ca_mode ca = ''json'' then [Json (JArr (map JObj rows))] else map (\<lambda>row. Line (event_line ca dumps row)) rows))"

definition accepted :: "caller \<Rightarrow> json option res \<Rightarrow> outcome" where
  "accepted ca r = reported (case r of
     Inl err \<Rightarrow> Inl err
   | Inr (Some v) \<Rightarrow> if ca_mode ca = ''json'' then Inr [Json v]
       else (case v of JObj kvs \<Rightarrow> (case map_of kvs ''command_id'' of
              None \<Rightarrow> Inl (KeyErr ''command_id'') | Some i \<Rightarrow> Inr [Line (''[green]Message accepted[/] ('' @ py_str (ca_repr ca) i @ '')'')])
            | _ \<Rightarrow> Inl (ValueErr ''TypeError''))
   | Inr None \<Rightarrow> Inl (ValueErr ''TypeError''))"

definition message_doc :: "string \<Rightarrow> json" where
  "message_doc message = JObj [(''message'', JStr message)]"

definition prompt_cmd :: "caller \<Rightarrow> (call \<Rightarrow> reply) \<Rightarrow> string \<Rightarrow> string \<Rightarrow> outcome" where
  "prompt_cmd ca api i message =
     accepted ca (request ca api ''POST'' (''/api/v1/pi/sessions/'' @ i @ '':send'') (Some (message_doc message)) False)"

definition orchestrator_send :: "caller \<Rightarrow> (call \<Rightarrow> reply) \<Rightarrow> string \<Rightarrow> outcome" where
  "orchestrator_send ca api message =
     accepted ca (request ca api ''POST'' ''/api/v1/pi/orchestrator:send'' (Some (message_doc message)) False)"

definition orchestrator_show :: "caller \<Rightarrow> (call \<Rightarrow> reply) \<Rightarrow> outcome" where
  "orchestrator_show ca api = reported (case request ca api ''GET'' ''/api/v1/pi/orchestrator'' None True of
     Inl err \<Rightarrow> Inl err
   | Inr answer \<Rightarrow> (case answer of
       None \<Rightarrow> Inr [if ca_mode ca = ''json'' then Json (JObj [(''session'', JNull)]) else Line ''[yellow]No orchestrator session[/]'']
     | Some JNull \<Rightarrow> Inr [if ca_mode ca = ''json'' then Json (JObj [(''session'', JNull)]) else Line ''[yellow]No orchestrator session[/]'']
     | Some v \<Rightarrow> if ca_mode ca = ''json'' then Inr [Json v]
         else (case v of JObj row \<Rightarrow> Inr [Table [[session_id ca row, field_text ca row [''state''] '''',
                field_text ca row [''host''] ''-'', field_text ca row [''cwd''] ''-'']]]
              | _ \<Rightarrow> Inl (ValueErr ''AttributeError''))))"

section \<open>Whom a command speaks to, and as whom\<close>

lemma resolve_session_cases:
  "resolve_session ca rows target =
     (let exact = exact_matches rows target; prefix = prefix_matches ca rows target
      in if length exact = 1 then Inr (hd exact) else if length prefix = 1 then Inr (hd prefix)
         else if exact = [] \<and> prefix = [] then Inl (RuntimeErr (''no active Pi session matches '' @ target))
         else Inl (RuntimeErr (''Pi session selector '' @ target @ '' is ambiguous'')))"
proof -
  have shape: "xs = [] \<or> (\<exists>x. xs = [x]) \<or> (\<exists>x y zs. xs = x # y # zs)" for xs :: "session_row list"
    by (cases xs rule: remdups_adj.cases) auto
  show ?thesis
    unfolding resolve_session_def Let_def
    using shape [of "exact_matches rows target"] shape [of "prefix_matches ca rows target"] by (elim disjE exE) simp_all
qed

lemma singleton_hd: "length xs = 1 \<Longrightarrow> xs = [hd xs]"
  by (cases xs) simp_all

lemma filter_key: "distinct (map f xs) \<Longrightarrow> x \<in> set xs \<Longrightarrow> filter (\<lambda>r. f r = f x) xs = [x]"
proof (induction xs)
  case (Cons a xs)
  show ?case
  proof (cases "x = a")
    case True
    with Cons.prems(1) have "filter (\<lambda>r. f r = f x) xs = []" by (force simp: filter_empty_conv image_iff)
    with True show ?thesis by simp
  next
    case False
    with Cons have "x \<in> set xs" "f a \<noteq> f x" by auto
    with Cons show ?thesis by simp
  qed
qed simp

text \<open>
  A session is never confused with another.  Whatever selector resolves names a listed row, which it matches, and no
  other row matches it in the same way; it fails only with a message.  When no ID starts with another, as with IDs of
  one length, the full ID of a listed session always resolves, and to that session, whatever the names of the others are.
\<close>

theorem selectors_are_unambiguous:
  "(case resolve_session ca rows target of
      Inr row \<Rightarrow> row \<in> set rows \<and> (exact_matches rows target = [row] \<or> prefix_matches ca rows target = [row])
    | Inl err \<Rightarrow> (\<exists>s. err = RuntimeErr s) \<and> length (exact_matches rows target) \<noteq> 1 \<and> length (prefix_matches ca rows target) \<noteq> 1) \<and>
   (\<forall>i. distinct (map (session_id ca) rows) \<longrightarrow>
      list_all (\<lambda>r. list_all (\<lambda>s. startswith (session_id ca r) (session_id ca s) \<longrightarrow> session_id ca r = session_id ca s) rows) rows \<longrightarrow>
      i < length rows \<longrightarrow> field (rows ! i) ''id'' = JStr target \<longrightarrow> resolve_session ca rows target = Inr (rows ! i))"
proof (intro conjI allI impI)
  have mem: "row \<in> set rows" if "row \<in> set (exact_matches rows target) \<or> row \<in> set (prefix_matches ca rows target)" for row
    using that by (auto simp: exact_matches_def prefix_matches_def)
  have hd1: "hd xs \<in> set xs \<and> xs = [hd xs]" if "length xs = 1" for xs :: "session_row list"
    using singleton_hd [OF that] by (metis list.set_intros(1))
  show "case resolve_session ca rows target of
      Inr row \<Rightarrow> row \<in> set rows \<and> (exact_matches rows target = [row] \<or> prefix_matches ca rows target = [row])
    | Inl err \<Rightarrow> (\<exists>s. err = RuntimeErr s) \<and> length (exact_matches rows target) \<noteq> 1 \<and> length (prefix_matches ca rows target) \<noteq> 1"
  proof (cases "length (exact_matches rows target) = 1 \<or> length (prefix_matches ca rows target) = 1")
    case True
    then show ?thesis
      using mem hd1 [of "exact_matches rows target"] hd1 [of "prefix_matches ca rows target"]
      by (cases "length (exact_matches rows target) = 1") (simp_all add: resolve_session_cases Let_def)
  qed (simp add: resolve_session_cases Let_def)
next
  fix i
  assume d: "distinct (map (session_id ca) rows)" and i: "i < length rows" "field (rows ! i) ''id'' = JStr target"
    and p: "list_all (\<lambda>r. list_all (\<lambda>s. startswith (session_id ca r) (session_id ca s) \<longrightarrow> session_id ca r = session_id ca s) rows) rows"
  have id: "session_id ca (rows ! i) = target"
    using i(2) by (auto simp: session_id_def field_def json_get_def split: option.splits)
  have one: "filter (\<lambda>row. session_id ca row = target) rows = [rows ! i]"
    using filter_key [OF d nth_mem [OF i(1)]] by (simp add: id)
  have "startswith target (session_id ca row) \<longleftrightarrow> session_id ca row = target" if "row \<in> set rows" for row
    using p that i(1) id by (force simp: list_all_iff startswith_def)
  then have pre: "prefix_matches ca rows target = [rows ! i]"
    unfolding prefix_matches_def using one by (simp cong: filter_cong)
  have ex: "rows ! i \<in> set (exact_matches rows target)" using i by (simp add: exact_matches_def)
  show "resolve_session ca rows target = Inr (rows ! i)"
  proof (cases "length (exact_matches rows target) = 1")
    case True
    with ex have "hd (exact_matches rows target) = rows ! i" by (metis singleton_hd list.set(1,2) singletonD)
    with True show ?thesis by (simp add: resolve_session_cases Let_def)
  qed (simp add: resolve_session_cases Let_def pre)
qed

definition demo_rows :: "session_row list" where
  "demo_rows = [[(''id'', JStr ''ab1''), (''name'', JStr ''cd2'')], [(''id'', JStr ''cd2''), (''name'', JStr ''x'')]]"

definition demo_caller :: caller where
  "demo_caller = \<lparr>ca_env = [''WH_SESSION_ROLE'' \<mapsto> ''task'', ''WH_SESSION_TOKEN'' \<mapsto> '' t1 '', ''WH_OPERATOR_TOKEN'' \<mapsto> ''secret'',
     ''WH_ORCHESTRATOR_URL'' \<mapsto> ''http://h/''], ca_home = ''/h'', ca_read = (\<lambda>_. None), ca_parse = (\<lambda>_. None), ca_repr = (\<lambda>_. ''''), ca_mode = ''text''\<rparr>"

theorem selectors_are_unambiguous_witness:
  "length (exact_matches demo_rows ''cd2'') = 2 \<and> resolve_session demo_caller demo_rows ''cd2'' = Inr (demo_rows ! 1)"
proof -
  have "distinct (map (session_id demo_caller) demo_rows)" by code_simp
  moreover have "list_all (\<lambda>r. list_all (\<lambda>s. startswith (session_id demo_caller r) (session_id demo_caller s) \<longrightarrow>
      session_id demo_caller r = session_id demo_caller s) demo_rows) demo_rows" by code_simp
  moreover have "1 < length demo_rows" "field (demo_rows ! 1) ''id'' = JStr ''cd2''" by code_simp+
  ultimately have "resolve_session demo_caller demo_rows ''cd2'' = Inr (demo_rows ! 1)"
    using selectors_are_unambiguous [where ca = demo_caller and rows = demo_rows and target = "''cd2''"] by blast
  moreover have "length (exact_matches demo_rows ''cd2'') = 2" by code_simp
  ultimately show ?thesis by blast
qed

text \<open>
  C39. Agents do not speak as the operator.  A process that runs in the role of an agent, or that holds a session's token,
  sends that token or none with every request; the operator's token and its file are of no consequence to it.
\<close>

theorem agents_send_no_operator_token:
  assumes "env_text ca ''WH_SESSION_ROLE'' \<noteq> '''' \<or> env_text ca ''WH_SESSION_TOKEN'' \<noteq> ''''"
    and "base_url ca = Inr base"
  shows "\<exists>token. token = (if env_text ca ''WH_SESSION_TOKEN'' = '''' then None else Some (env_text ca ''WH_SESSION_TOKEN'')) \<and>
    headers ca = Inr token \<and>
    request ca api verb path payload allow = request ca (\<lambda>c. api (c\<lparr>cl_token := token\<rparr>)) verb path payload allow \<and>
    (\<forall>p. plan_attach ca api row = Inr p \<longrightarrow> ap_token p = token)"
proof -
  let ?token = "if env_text ca ''WH_SESSION_TOKEN'' = '''' then None else Some (env_text ca ''WH_SESSION_TOKEN'')"
  have h: "headers ca = Inr ?token" using assms(1) by (auto simp: headers_def)
  moreover have "request ca api verb path payload allow = request ca (\<lambda>c. api (c\<lparr>cl_token := ?token\<rparr>)) verb path payload allow"
    by (simp add: request_def h assms(2))
  moreover have "ap_token p = ?token" if "plan_attach ca api row = Inr p" for p
    using that by (auto simp: plan_attach_def h Let_def split: sum.splits option.splits json.splits if_splits)
  ultimately show ?thesis by blast
qed

theorem agents_send_no_operator_token_witness:
  "headers demo_caller = Inr (Some ''t1'') \<and>
   request demo_caller (\<lambda>c. if cl_token c = Some ''t1'' then Answer 200 '''' (Some JNull) else Unreachable '''') ''GET'' ''/x'' None False = Inr (Some JNull)"
proof -
  have role: "env_text demo_caller ''WH_SESSION_ROLE'' \<noteq> '''' \<or> env_text demo_caller ''WH_SESSION_TOKEN'' \<noteq> ''''" by code_simp
  have base: "base_url demo_caller = Inr ''http://h''" by code_simp
  have token: "env_text demo_caller ''WH_SESSION_TOKEN'' = ''t1''" by code_simp
  from agents_send_no_operator_token [OF role base] token have h: "headers demo_caller = Inr (Some ''t1'')" by simp
  then show ?thesis by (simp add: request_def base)
qed

end
