(* ===== verification/Attachment.thy ===== *)
theory Attachment
  imports Url Models
begin

text \<open>
  The reporter of \<open>pi_herdr.py\<close>, which owns the display of one Herdr pane while a session is attached in
  it.  The state carries the commands it has run, each as its argument list; a command that fails or
  times out is only logged, so its outcome does not matter.  Names are exact on ASCII text; the wide
  blanks of Unicode are opaque bytes here.
\<close>

section \<open>Names\<close>

text \<open>\<open>re.sub("[...]+", " ", s)\<close>: every run of characters of the class becomes one blank.\<close>

function squeeze :: "(char \<Rightarrow> bool) \<Rightarrow> string \<Rightarrow> string" where
  "squeeze p [] = []"
| "squeeze p (c # cs) = (if p c then CHR '' '' # squeeze p (dropWhile p cs) else c # squeeze p cs)"
  by pat_completeness auto
termination by (relation "measure (\<lambda>(p, s). length s)") (auto simp: le_imp_less_Suc length_dropWhile_le)

definition DEFAULT_NAME :: string where
  "DEFAULT_NAME = ''Pi''"

definition line_or_tab :: "char \<Rightarrow> bool" where
  "line_or_tab c = (let n = (of_char c :: nat) in 9 \<le> n \<and> n \<le> 13)"

definition sanitize_name :: "string option \<Rightarrow> string" where
  "sanitize_name name = (case name of
     None \<Rightarrow> DEFAULT_NAME
   | Some s \<Rightarrow> let text = strip (squeeze (\<lambda>c. c = CHR '' '') (squeeze line_or_tab s))
               in if text \<noteq> '''' then text else DEFAULT_NAME)"

text \<open>\<open>row_agent\<close> of \<open>agents.py\<close>, and the idiom \<open>str(row.get(key) or default)\<close> behind it.\<close>

definition row_text :: "(json \<Rightarrow> string) \<Rightarrow> (string \<times> json) list \<Rightarrow> string \<Rightarrow> json \<Rightarrow> string" where
  "row_text repr row key dflt = py_str repr (json_or (json_get row key JNull) dflt)"

definition row_agent :: "(json \<Rightarrow> string) \<Rightarrow> (string \<times> json) list \<Rightarrow> string" where
  "row_agent repr row = row_text repr row ''agent'' (JStr ''pi'')"

section \<open>The reporter\<close>

record reporter =
  rp_binary :: "string option"
  rp_pane :: "string option"
  rp_session :: "string option"
  rp_agent :: "string option"
  rp_last :: "string option"
  rp_seq :: int
  rp_trace :: "string list list"

definition new_reporter :: "string option \<Rightarrow> string option \<Rightarrow> int \<Rightarrow> reporter" where
  "new_reporter binary pane seq0 = \<lparr>rp_binary = binary, rp_pane = pane, rp_session = None, rp_agent = None,
     rp_last = None, rp_seq = seq0, rp_trace = []\<rparr>"

definition from_environment :: "(string \<Rightarrow> string option) \<Rightarrow> int \<Rightarrow> reporter" where
  "from_environment env seq0 =
     (if env ''HERDR_ENV'' \<noteq> Some ''1'' \<or> env ''HERDR_SOCKET_PATH'' \<in> {None, Some ''''} then new_reporter None None seq0
      else new_reporter (env ''HERDR_BIN_PATH'') (env ''HERDR_PANE_ID'') seq0)"

definition given :: "string option \<Rightarrow> bool" where
  "given v = (v \<noteq> None \<and> v \<noteq> Some '''')"

definition text_of :: "string option \<Rightarrow> string" where
  "text_of v = (case v of None \<Rightarrow> '''' | Some s \<Rightarrow> s)"

definition enabled :: "reporter \<Rightarrow> bool" where
  "enabled r = (given (rp_binary r) \<and> given (rp_pane r))"

definition STATE_SOURCE :: string where
  "STATE_SOURCE = ''worker-harness:attachment''"

definition METADATA_SOURCE :: string where
  "METADATA_SOURCE = ''worker-harness:attachment-display''"

text \<open>\<open>_run_cli(*arguments, "--seq", str(self._next_sequence()))\<close>, the shape of every call.\<close>

definition run_cli :: "string list \<Rightarrow> reporter \<Rightarrow> reporter" where
  "run_cli arguments r =
     (let n = rp_seq r + 1; r' = r\<lparr>rp_seq := n\<rparr>
      in if \<not> given (rp_binary r) then r'
         else r'\<lparr>rp_trace := rp_trace r @ [arguments @ [''--seq'', int_to_string n]]\<rparr>)"

definition state_map :: "string \<Rightarrow> string" where
  "state_map state = (if state = ''working'' then ''working'' else if state = ''idle'' then ''idle'' else ''unknown'')"

definition update_state :: "string \<Rightarrow> reporter \<Rightarrow> reporter" where
  "update_state state r =
     (if \<not> enabled r \<or> \<not> given (rp_agent r) \<or> \<not> given (rp_session r) then r
      else let mapped = state_map state
           in if Some mapped = rp_last r then r
              else run_cli [''pane'', ''report-agent'', text_of (rp_pane r), ''--source'', STATE_SOURCE, ''--agent'', text_of (rp_agent r),
                     ''--state'', mapped] (r\<lparr>rp_last := Some mapped\<rparr>))"

definition clear_binding :: "reporter \<Rightarrow> reporter" where
  "clear_binding r = r\<lparr>rp_session := None, rp_agent := None, rp_last := None\<rparr>"

definition release :: "reporter \<Rightarrow> reporter" where
  "release r =
     (if \<not> enabled r \<or> \<not> given (rp_agent r) then clear_binding r
      else clear_binding
        (run_cli [''pane'', ''release-agent'', text_of (rp_pane r), ''--source'', STATE_SOURCE, ''--agent'', text_of (rp_agent r)]
          (run_cli [''pane'', ''report-metadata'', text_of (rp_pane r), ''--source'', METADATA_SOURCE, ''--agent'', text_of (rp_agent r),
             ''--applies-to-source'', STATE_SOURCE, ''--clear-display-agent'', ''--clear-token'', ''wh_session_id'',
             ''--clear-token'', ''wh_host''] r)))"

definition display_name :: "(json \<Rightarrow> string) \<Rightarrow> (string \<times> json) list \<Rightarrow> string \<Rightarrow> string" where
  "display_name repr session agent =
     sanitize_name (Some (py_str repr (json_or (json_get session ''name'' JNull) (json_or (json_get session ''task'' JNull) (JStr agent)))))"

definition report_metadata :: "(json \<Rightarrow> string) \<Rightarrow> (string \<times> json) list \<Rightarrow> reporter \<Rightarrow> reporter" where
  "report_metadata repr session r =
     (if \<not> given (rp_agent r) \<or> \<not> given (rp_session r) then r
      else let agent = text_of (rp_agent r);
               marker = (if agent = ''pi'' then [CHR 0xCF, CHR 0x80] else agent);
               host = sanitize_name (Some (row_text repr session ''host'' (JStr '''')))
           in run_cli ([''pane'', ''report-metadata'', text_of (rp_pane r), ''--source'', METADATA_SOURCE, ''--agent'', agent,
                ''--applies-to-source'', STATE_SOURCE, ''--display-agent'', marker @ '' '' @ display_name repr session agent,
                ''--token'', ''wh_session_id='' @ text_of (rp_session r)] @
                (if host \<noteq> '''' \<and> host \<noteq> ''Pi'' then [''--token'', ''wh_host='' @ host] else [])) r)"

definition bind_session :: "(json \<Rightarrow> string) \<Rightarrow> (string \<times> json) list \<Rightarrow> reporter \<Rightarrow> reporter" where
  "bind_session repr session r =
     (if \<not> enabled r then r
      else let session_id = row_text repr session ''id'' (JStr ''''); agent = row_agent repr session
           in if session_id = '''' then r
              else if rp_session r = Some session_id \<and> rp_agent r = Some agent then r
              else report_metadata repr session
                (update_state (row_text repr session ''state'' (JStr ''disconnected''))
                  ((release r)\<lparr>rp_session := Some session_id, rp_agent := Some agent, rp_last := None\<rparr>)))"

section \<open>Exclusive authority\<close>

datatype call = Bind "(string \<times> json) list" | Update string | Release

fun perform :: "(json \<Rightarrow> string) \<Rightarrow> call \<Rightarrow> reporter \<Rightarrow> reporter" where
  "perform repr (Bind session) r = bind_session repr session r"
| "perform repr (Update state) r = update_state state r"
| "perform repr Release r = release r"

text \<open>The pane as Herdr sees it: who owns it after a command, None for a command that speaks for an agent
  that does not own the pane.  Every command names its agent in the seventh place.\<close>

definition cmd_agent :: "string list \<Rightarrow> string" where
  "cmd_agent c = c ! 6"

fun authority :: "string option \<Rightarrow> string list list \<Rightarrow> string option option" where
  "authority owner [] = Some owner"
| "authority owner (c # cs) =
     (if c ! 1 = ''report-agent'' then
        (if owner = None \<or> owner = Some (cmd_agent c) then authority (Some (cmd_agent c)) cs else None)
      else if owner \<noteq> Some (cmd_agent c) then None
      else if c ! 1 = ''release-agent'' then authority None cs
      else authority owner cs)"

lemma authority_append:
  "authority owner (xs @ ys) = (case authority owner xs of None \<Rightarrow> None | Some owner' \<Rightarrow> authority owner' ys)"
  by (induction xs arbitrary: owner) auto

text \<open>The trace of a reporter that started at \<open>seq0\<close>: consecutive sequence numbers, and the owner of the
  pane is \<open>owner\<close>.\<close>

definition tracked :: "int \<Rightarrow> string option \<Rightarrow> reporter \<Rightarrow> bool" where
  "tracked seq0 owner r = (authority None (rp_trace r) = Some owner \<and> rp_seq r = seq0 + int (length (rp_trace r)) \<and>
     map (\<lambda>c. py_int (last c)) (rp_trace r) = map Some [seq0 + 1..rp_seq r])"

definition owner_of :: "reporter \<Rightarrow> string option" where
  "owner_of r = (if enabled r \<and> given (rp_agent r) then rp_agent r else None)"

definition rep_inv :: "int \<Rightarrow> reporter \<Rightarrow> bool" where
  "rep_inv seq0 r = (if enabled r then tracked seq0 (owner_of r) r else rp_trace r = [])"

lemma run_cli_fields [simp]:
  "rp_binary (run_cli args r) = rp_binary r" "rp_pane (run_cli args r) = rp_pane r" "rp_session (run_cli args r) = rp_session r"
  "rp_agent (run_cli args r) = rp_agent r" "rp_last (run_cli args r) = rp_last r" "enabled (run_cli args r) = enabled r"
  by (simp_all add: run_cli_def enabled_def Let_def)

lemma tracked_run:
  assumes "tracked seq0 owner r" "enabled r" "authority owner [args @ [''--seq'', int_to_string (rp_seq r + 1)]] = Some owner'"
  shows "tracked seq0 owner' (run_cli args r)"
proof -
  have "[seq0 + 1..rp_seq r + 1] = [seq0 + 1..rp_seq r] @ [rp_seq r + 1]"
    using assms(1) by (simp add: tracked_def upto_rec2)
  then show ?thesis
    using assms by (auto simp: tracked_def run_cli_def enabled_def Let_def authority_append py_int_int_to_string)
qed

lemma tracked_fields:
  "rp_trace r' = rp_trace r \<Longrightarrow> rp_seq r' = rp_seq r \<Longrightarrow> tracked seq0 owner r \<Longrightarrow> tracked seq0 owner r'"
  by (simp add: tracked_def)

lemma update_state_fields [simp]:
  "rp_agent (update_state s r) = rp_agent r" "rp_session (update_state s r) = rp_session r" "enabled (update_state s r) = enabled r"
  "rp_binary (update_state s r) = rp_binary r" "rp_pane (update_state s r) = rp_pane r"
  by (simp_all add: update_state_def Let_def) (simp add: enabled_def)

lemma update_state_inv: "rep_inv seq0 r \<Longrightarrow> rep_inv seq0 (update_state s r)"
proof (cases "enabled r \<and> given (rp_agent r) \<and> given (rp_session r) \<and> Some (state_map s) \<noteq> rp_last r")
  case True
  assume "rep_inv seq0 r"
  then have "tracked seq0 (rp_agent r) (r\<lparr>rp_last := Some (state_map s)\<rparr>)"
    using True by (simp add: rep_inv_def owner_of_def tracked_def)
  then have "tracked seq0 (rp_agent r) (update_state s r)"
    using True by (auto simp: update_state_def Let_def enabled_def cmd_agent_def text_of_def given_def intro!: tracked_run split: option.splits)
  then show ?thesis using True by (simp add: rep_inv_def owner_of_def)
next
  case False
  assume "rep_inv seq0 r"
  then show ?thesis using False by (auto simp: update_state_def Let_def)
qed

lemma release_result:
  assumes "rep_inv seq0 r"
  shows "rep_inv seq0 (release r)" "rp_agent (release r) = None" "rp_session (release r) = None" "rp_last (release r) = None"
    "enabled (release r) = enabled r" "rp_pane (release r) = rp_pane r" "rp_binary (release r) = rp_binary r"
proof -
  show e: "enabled (release r) = enabled r" "rp_agent (release r) = None" "rp_session (release r) = None" "rp_last (release r) = None"
    "rp_pane (release r) = rp_pane r" "rp_binary (release r) = rp_binary r"
    by (simp_all add: release_def clear_binding_def) (simp add: enabled_def)
  show "rep_inv seq0 (release r)"
  proof (cases "enabled r \<and> given (rp_agent r)")
    case True
    then obtain a where a: "rp_agent r = Some a" by (auto simp: given_def)
    have t: "tracked seq0 (Some a) r" using assms True by (simp add: rep_inv_def owner_of_def a)
    have "tracked seq0 None (release r)"
      using True a unfolding release_def clear_binding_def
      by (auto intro!: tracked_fields [OF _ _ tracked_run [OF tracked_run [OF t]]] simp: cmd_agent_def text_of_def)
    then show ?thesis using True e by (simp add: rep_inv_def owner_of_def)
  next
    case False
    then show ?thesis using assms e
      by (auto simp: rep_inv_def owner_of_def release_def clear_binding_def tracked_def)
  qed
qed

lemma bind_inv:
  assumes inv: "rep_inv seq0 r"
  shows "rep_inv seq0 (bind_session repr session r)" "enabled (bind_session repr session r) = enabled r"
proof -
  define sid where "sid = row_text repr session ''id'' (JStr '''')"
  define agent where "agent = row_agent repr session"
  define r0 where "r0 = (release r)\<lparr>rp_session := Some sid, rp_agent := Some agent, rp_last := None\<rparr>"
  define r1 where "r1 = update_state (row_text repr session ''state'' (JStr ''disconnected'')) r0"
  note rel = release_result [OF inv]
  have f: "enabled r0 = enabled r" "rp_agent r0 = Some agent" "rp_session r0 = Some sid" "rp_last r0 = None"
    using rel(5) by (simp_all add: r0_def enabled_def)
  have en: "enabled (report_metadata repr session r1) = enabled r"
    using f(1) by (simp add: report_metadata_def Let_def r1_def)
  consider "\<not> enabled r \<or> sid = '''' \<or> (rp_session r = Some sid \<and> rp_agent r = Some agent)"
    | "enabled r" "sid \<noteq> ''''" "\<not> (rp_session r = Some sid \<and> rp_agent r = Some agent)" by blast
  then have "rep_inv seq0 (bind_session repr session r) \<and> enabled (bind_session repr session r) = enabled r"
  proof cases
    case 1
    then show ?thesis using inv by (auto simp: bind_session_def Let_def sid_def agent_def)
  next
    case 2
    have b: "bind_session repr session r = report_metadata repr session r1"
      using 2 by (auto simp: bind_session_def Let_def sid_def agent_def r0_def r1_def)
    have t0: "tracked seq0 None r0"
      using rel(1,2,5) 2(1) by (simp add: rep_inv_def owner_of_def given_def r0_def tracked_def)
    show ?thesis
    proof (cases "agent = ''''")
      case True
      then have "r1 = r0" "report_metadata repr session r0 = r0"
        using f by (simp_all add: r1_def update_state_def report_metadata_def given_def)
      then show ?thesis using t0 f 2(1) True by (simp add: b rep_inv_def owner_of_def given_def)
    next
      case False
      have e0: "enabled r0" "given (rp_agent r0)" "given (rp_session r0)" using f 2 False by (simp_all add: given_def)
      define m where "m = state_map (row_text repr session ''state'' (JStr ''disconnected''))"
      have r1: "r1 = run_cli [''pane'', ''report-agent'', text_of (rp_pane r0), ''--source'', STATE_SOURCE, ''--agent'', agent,
          ''--state'', m] (r0\<lparr>rp_last := Some m\<rparr>)"
        unfolding r1_def update_state_def using e0 f by (simp add: Let_def m_def text_of_def)
      have "tracked seq0 None (r0\<lparr>rp_last := Some m\<rparr>)" by (rule tracked_fields [OF _ _ t0]) simp_all
      then have t1: "tracked seq0 (Some agent) r1"
        unfolding r1 using e0(1) by (auto intro!: tracked_run simp: enabled_def cmd_agent_def)
      have g1: "given (rp_agent r1)" "given (rp_session r1)" "rp_agent r1 = Some agent" "enabled r1"
        using e0 f by (simp_all add: r1_def)
      have "tracked seq0 (Some agent) (report_metadata repr session r1)"
        using g1 unfolding report_metadata_def Let_def
        by (auto simp: cmd_agent_def text_of_def intro!: tracked_run [OF t1])
      moreover have "rp_agent (report_metadata repr session r1) = Some agent"
        using f by (simp add: report_metadata_def Let_def r1_def)
      ultimately show ?thesis using en 2(1) False by (simp add: b rep_inv_def owner_of_def given_def)
    qed
  qed
  then show "rep_inv seq0 (bind_session repr session r)" "enabled (bind_session repr session r) = enabled r" by blast+
qed

lemma perform_inv: "rep_inv seq0 r \<Longrightarrow> rep_inv seq0 (perform repr c r) \<and> enabled (perform repr c r) = enabled r"
  by (cases c) (simp_all add: bind_inv update_state_inv release_result)

lemma fold_inv: "rep_inv seq0 r \<Longrightarrow> rep_inv seq0 (fold (perform repr) calls r) \<and> enabled (fold (perform repr) calls r) = enabled r"
  by (induction calls arbitrary: r) (simp_all add: perform_inv)


end
