(* ===== verification/Worker_Daemon.thy ===== *)
theory Worker_Daemon
  imports Jobs Fleet Paths
begin

text \<open>
  The daemon of a worker container, \<open>worker_daemon.py\<close>: what it measures, how it decides which GPUs are
  busy, which directories it offers, and the heartbeat that carries this to the registration service.
  The container is a record of what its commands print, its environment and its directories.
  Fractions of gigabytes are rationals.
\<close>

section \<open>The container\<close>

text \<open>The end of a command: its output; not found or a non-zero exit; the timeout; any other exception.\<close>

datatype run_result = Printed string | Absent | Late | Broken

record container =
  cn_env :: "string \<Rightarrow> string option"
  cn_run :: "string list \<Rightarrow> run_result"
  cn_parse :: "string \<Rightarrow> json option"
  cn_manifest :: "json option"
  cn_children :: "string \<Rightarrow> (string \<times> bool \<times> bool) list option"
  cn_login :: "string option"
  cn_home :: string
  cn_hostname :: string
  cn_physical_cores :: "int option"
  cn_logical_cores :: int
  cn_memory :: "int \<times> int"
  cn_disk :: "int \<times> int"

definition env_or :: "container \<Rightarrow> string \<Rightarrow> string \<Rightarrow> string" where
  "env_or cn name dflt = (case cn_env cn name of None \<Rightarrow> dflt | Some s \<Rightarrow> s)"

text \<open>\<open>s.split(sep, n)\<close> for a non-empty separator.\<close>

function split_max :: "string \<Rightarrow> nat \<Rightarrow> string \<Rightarrow> string \<Rightarrow> string list" where
  "split_max sep 0 acc s = [rev acc @ s]"
| "split_max sep (Suc n) acc [] = [rev acc]"
| "split_max sep (Suc n) acc (c # cs) =
     (if sep \<noteq> '''' \<and> startswith sep (c # cs) then rev acc # split_max sep n [] (drop (length sep) (c # cs))
      else split_max sep (Suc n) (c # acc) cs)"
  by pat_completeness auto
termination by (relation "measure (\<lambda>(sep, n, acc, s). length s)") auto

section \<open>The user of the SSH connection\<close>

fun first_user :: "container \<Rightarrow> string list \<Rightarrow> string option" where
  "first_user cn [] = None"
| "first_user cn (key # keys) =
     (let v = strip (env_or cn key '''') in if v \<noteq> '''' \<and> v \<noteq> ''root'' then Some v else first_user cn keys)"

definition detect_ssh_user :: "container \<Rightarrow> string" where
  "detect_ssh_user cn =
     (case first_user cn [''SSH_USER'', ''SINGULARITY_USER'', ''APPTAINER_USER'', ''SUDO_USER'', ''LOGNAME'', ''USER''] of
        Some v \<Rightarrow> v
      | None \<Rightarrow>
        let home = strip (env_or cn ''HOME'' '''');
            candidate = strip (last (split_max ''/'' 2 [] home));
            login = (case cn_login cn of None \<Rightarrow> ''root'' | Some u \<Rightarrow> if u \<noteq> '''' then u else ''root'')
        in if startswith ''/home/'' home \<and> candidate \<noteq> '''' \<and> candidate \<noteq> ''root'' then candidate else login)"

section \<open>GPUs\<close>

definition GPU_PROCESS_IGNORE_MB :: int where
  "GPU_PROCESS_IGNORE_MB = 512"

definition IGNORED_GPU_PROCESS_NAMES :: "string list" where
  "IGNORED_GPU_PROCESS_NAMES = [''xorg'', ''xwayland'', ''gnome-shell'', ''kwin_wayland'']"

text \<open>One line of the process query: GPU, process and megabytes; None when the line is skipped.\<close>

definition process_line :: "string \<Rightarrow> (string \<times> string \<times> int) option" where
  "process_line line = (case map strip (split_max '','' 2 [] line) of
     [gpu_uuid, process_name, used_mb] \<Rightarrow> (case py_int used_mb of None \<Rightarrow> None | Some mb \<Rightarrow> Some (gpu_uuid, process_name, mb))
   | _ \<Rightarrow> None)"

definition path_name :: "string \<Rightarrow> string" where
  "path_name s = (case rev (pp_names (posix_path s)) of [] \<Rightarrow> '''' | n # _ \<Rightarrow> n)"

definition ignored_process :: "string \<Rightarrow> int \<Rightarrow> bool" where
  "ignored_process process_name used_mb =
     (used_mb < GPU_PROCESS_IGNORE_MB \<or> lower (path_name process_name) \<in> set IGNORED_GPU_PROCESS_NAMES)"

definition count_process :: "string \<times> string \<times> int \<Rightarrow> string list \<times> (string \<times> int) list \<Rightarrow> string list \<times> (string \<times> int) list" where
  "count_process p acc = (case p of (gpu_uuid, process_name, mb) \<Rightarrow> case acc of (significant, ignored_memory) \<Rightarrow>
     if ignored_process process_name mb
     then (significant, AList.update gpu_uuid ((case map_of ignored_memory gpu_uuid of None \<Rightarrow> 0 | Some n \<Rightarrow> n) + mb) ignored_memory)
     else (List.insert gpu_uuid significant, ignored_memory))"

definition process_rows :: "string \<Rightarrow> (string \<times> string \<times> int) list" where
  "process_rows out = List.map_filter (\<lambda>line. if line = '''' then None else process_line line) (splitlines (strip out))"

text \<open>None when the exception is not one of those the function catches.\<close>

definition gpu_process_usage :: "container \<Rightarrow> string \<Rightarrow> (string list \<times> (string \<times> int) list) option" where
  "gpu_process_usage cn command =
     (case cn_run cn [command, ''--query-compute-apps=gpu_uuid,process_name,used_gpu_memory'', ''--format=csv,noheader,nounits''] of
        Printed out \<Rightarrow> Some (fold count_process (process_rows out) ([], []))
      | Absent \<Rightarrow> Some ([], []) | Late \<Rightarrow> Some ([], []) | Broken \<Rightarrow> None)"

text \<open>\<open>round(mb / 1024, 1)\<close>: to the nearest tenth, ties to the even one.\<close>

definition gigabytes :: "int \<Rightarrow> int \<Rightarrow> rat" where
  "gigabytes unit n =
     (let q = 10 * n div unit; r = 10 * n mod unit
      in of_int (if 2 * r < unit then q else if 2 * r > unit then q + 1 else if even q then q else q + 1) / 10)"

text \<open>\<open>round(total_mb * (1.0 - 0.90))\<close>: the double \<open>1.0 - 0.90\<close> is slightly below a tenth, so halves are
  rounded down.\<close>

definition mostly_free_limit :: "int \<Rightarrow> int" where
  "mostly_free_limit total_mb = max GPU_PROCESS_IGNORE_MB ((total_mb + 4) div 10)"

definition gpu_busy :: "string list \<times> (string \<times> int) list \<Rightarrow> string \<Rightarrow> int \<Rightarrow> int \<Rightarrow> bool" where
  "gpu_busy usage gpu_uuid total_mb used_mb = (case usage of (significant, ignored_memory) \<Rightarrow>
     let relevant = max 0 (used_mb - (case map_of ignored_memory gpu_uuid of None \<Rightarrow> 0 | Some n \<Rightarrow> n))
     in gpu_uuid \<in> set significant \<or> relevant > mostly_free_limit total_mb)"

text \<open>One line of the GPU query; None when unpacking or \<open>int\<close> raises.\<close>

definition gpu_line :: "string \<Rightarrow> (int \<times> string \<times> string \<times> int \<times> int) option" where
  "gpu_line line = (case split_max '', '' 4 [] line of
     [idx, gpu_uuid, name, total_text, used_text] \<Rightarrow>
       (case (py_int (strip total_text), py_int (strip used_text), py_int (strip idx)) of
          (Some t, Some u, Some i) \<Rightarrow> Some (i, strip gpu_uuid, strip name, t, u) | _ \<Rightarrow> None)
   | _ \<Rightarrow> None)"

definition gpu_entry :: "string list \<times> (string \<times> int) list \<Rightarrow> int \<times> string \<times> string \<times> int \<times> int \<Rightarrow> gpu_info" where
  "gpu_entry usage row = (case row of (i, gpu_uuid, name, t, u) \<Rightarrow>
     \<lparr>g_index = i, g_name = name, g_total = gigabytes 1024 t, g_used = gigabytes 1024 u,
      g_busy = Some (gpu_busy usage gpu_uuid t u)\<rparr>)"

fun gpu_rows :: "string list \<Rightarrow> (int \<times> string \<times> string \<times> int \<times> int) list option" where
  "gpu_rows [] = Some []"
| "gpu_rows (line # lines) =
     (if line = '''' then gpu_rows lines
      else (case gpu_line line of None \<Rightarrow> None | Some r \<Rightarrow> map_option ((#) r) (gpu_rows lines)))"

text \<open>The first location of \<open>nvidia-smi\<close> that answers, with its answer; None when the search raises.\<close>

fun find_smi :: "container \<Rightarrow> string list \<Rightarrow> (string \<times> string) option option" where
  "find_smi cn [] = Some None"
| "find_smi cn (command # commands) =
     (case cn_run cn [command, ''--query-gpu=index,uuid,name,memory.total,memory.used'', ''--format=csv,noheader,nounits''] of
        Printed out \<Rightarrow> Some (Some (command, out))
      | Absent \<Rightarrow> find_smi cn commands
      | _ \<Rightarrow> None)"

definition get_gpu_info :: "container \<Rightarrow> gpu_info list" where
  "get_gpu_info cn =
     (case find_smi cn [''nvidia-smi'', ''/usr/bin/nvidia-smi'', ''/usr/local/nvidia/bin/nvidia-smi''] of
        Some (Some (command, out)) \<Rightarrow> (case gpu_process_usage cn command of
          None \<Rightarrow> []
        | Some usage \<Rightarrow> (case gpu_rows (splitlines (strip out)) of None \<Rightarrow> [] | Some rows \<Rightarrow> map (gpu_entry usage) rows))
      | _ \<Rightarrow> [])"

section \<open>Identity, jobs and directories\<close>

text \<open>Iterating over a decoded value; None when it cannot be iterated.\<close>

definition json_items :: "json \<Rightarrow> json list option" where
  "json_items v = (case v of JArr xs \<Rightarrow> Some xs | JStr s \<Rightarrow> Some (map (\<lambda>c. JStr [c]) s)
     | JObj kvs \<Rightarrow> Some (map (\<lambda>kv. JStr (fst kv)) kvs) | _ \<Rightarrow> None)"

text \<open>\<open>next((ip.strip() for ip in ips if "." in str(ip)), (ips[0].strip() if ips else ""))\<close>: the default is
  computed first and fails on anything but a list whose first item is text.\<close>

fun dotted :: "(json \<Rightarrow> string) \<Rightarrow> string \<Rightarrow> json list \<Rightarrow> string option" where
  "dotted repr dflt [] = Some dflt"
| "dotted repr dflt (ip # ips) =
     (if CHR ''.'' \<in> set (py_str repr ip) then (case ip of JStr s \<Rightarrow> Some (strip s) | _ \<Rightarrow> None) else dotted repr dflt ips)"

definition first_ip :: "(json \<Rightarrow> string) \<Rightarrow> json \<Rightarrow> string option" where
  "first_ip repr ips = (if \<not> json_truthy ips then Some ''''
     else (case json_items ips of
       Some (JStr s # rest) \<Rightarrow> (case ips of JObj _ \<Rightarrow> None | _ \<Rightarrow> dotted repr (strip s) (JStr s # rest))
     | _ \<Rightarrow> None))"

definition identity_of :: "(json \<Rightarrow> string) \<Rightarrow> json \<Rightarrow> (string \<times> string) option" where
  "identity_of repr status = (case status of
     JObj doc \<Rightarrow> (case json_or (json_or (json_get doc ''Self'' JNull) (json_get doc ''self'' JNull)) (JObj []) of
       JObj self \<Rightarrow> (case first_ip repr (json_or (json_get self ''TailscaleIPs'' JNull) (JArr [])) of
         None \<Rightarrow> None
       | Some ip \<Rightarrow> (case json_or (json_or (json_get self ''DNSName'' JNull) (json_get self ''HostName'' JNull)) (JStr '''') of
           JStr dns \<Rightarrow> Some (ip, strip (rstrip_char (CHR ''.'') dns)) | _ \<Rightarrow> None))
     | _ \<Rightarrow> None)
   | _ \<Rightarrow> None)"

text \<open>An attempt that raises, prints nothing or names neither address nor host leaves it to the next command.\<close>

fun tailscale_from :: "container \<Rightarrow> (json \<Rightarrow> string) \<Rightarrow> string list list \<Rightarrow> string \<times> string" where
  "tailscale_from cn repr [] = ('''', '''')"
| "tailscale_from cn repr (command # commands) =
     (case cn_run cn command of
        Printed out \<Rightarrow> (case (if strip out = '''' then None else Option.bind (cn_parse cn (strip out)) (identity_of repr)) of
          Some (ip, dns) \<Rightarrow> if ip \<noteq> '''' \<or> dns \<noteq> '''' then (ip, dns) else tailscale_from cn repr commands
        | None \<Rightarrow> tailscale_from cn repr commands)
      | _ \<Rightarrow> tailscale_from cn repr commands)"

definition WH_DIR :: "container \<Rightarrow> string" where
  "WH_DIR cn = path_str (posix_path (expand_user (cn_home cn) (env_or cn ''WH_DIR'' (cn_home cn @ ''/.local/worker-harness''))))"

definition sub_path :: "string \<Rightarrow> string list \<Rightarrow> string" where
  "sub_path dir names = (let p = posix_path dir in path_str (p\<lparr>pp_names := pp_names p @ names\<rparr>))"

definition get_tailscale_identity :: "container \<Rightarrow> (json \<Rightarrow> string) \<Rightarrow> string \<times> string" where
  "get_tailscale_identity cn repr = tailscale_from cn repr
     [[''tailscale'', ''--socket='' @ sub_path (WH_DIR cn) [''tailscale'', ''run'', ''tailscaled.sock''], ''status'', ''--json''],
      [''tailscale'', ''status'', ''--json'']]"

definition split_ws :: "string \<Rightarrow> string list" where
  "split_ws s = filter (\<lambda>w. w \<noteq> '''') (split_on (CHR '' '') (map (\<lambda>c. if is_ws c then CHR '' '' else c) s))"

definition get_active_jobs :: "container \<Rightarrow> (string \<times> string) list" where
  "get_active_jobs cn = (case cn_run cn [''tmux'', ''list-sessions'', ''-F'', ''#{session_name} #{session_created}''] of
     Printed out \<Rightarrow> List.map_filter (\<lambda>line. case split_ws line of
         [] \<Rightarrow> None | name # _ \<Rightarrow> if startswith ''wh_'' name then Some (drop 3 name, name) else None) (splitlines (strip out))
   | _ \<Rightarrow> [])"

text \<open>Whether a root of the manifest is enumerated, and the path of a child as \<open>str(child)\<close> has it.\<close>

definition usable_root :: "json \<Rightarrow> string option" where
  "usable_root v = (case v of
     JStr s \<Rightarrow> if \<not> startswith ''/'' s \<or> s = ''/'' \<or> ''..'' \<in> set (split_on (CHR ''/'') s) then None else Some (rstrip_char (CHR ''/'') s)
   | _ \<Rightarrow> None)"

definition child_path :: "string \<Rightarrow> string \<Rightarrow> string" where
  "child_path dir name = sub_path dir [name]"

definition shareable_children :: "container \<Rightarrow> string \<Rightarrow> string list" where
  "shareable_children cn dir = (case cn_children cn (path_str (posix_path dir)) of
     None \<Rightarrow> []
   | Some children \<Rightarrow> List.map_filter (\<lambda>(name, is_symlink, is_dir). if is_symlink \<or> \<not> is_dir then None else Some (child_path dir name)) children)"

definition manifest_roots :: "json option \<Rightarrow> json list option" where
  "manifest_roots m = (case m of
     None \<Rightarrow> Some []
   | Some (JObj kvs) \<Rightarrow> json_items (json_get kvs ''paths'' (JArr []))
   | Some _ \<Rightarrow> Some [])"

text \<open>None when the value of \<open>paths\<close> cannot be iterated, which nothing catches.\<close>

definition get_data_paths :: "container \<Rightarrow> string list option" where
  "get_data_paths cn = map_option (\<lambda>roots. sort (remdups (concat (map (shareable_children cn) (List.map_filter usable_root roots)))))
     (manifest_roots (cn_manifest cn))"

section \<open>The heartbeat\<close>

definition build_payload :: "container \<Rightarrow> string \<Rightarrow> string \<Rightarrow> string \<Rightarrow> registration option" where
  "build_payload cn worker_id tailscale_ip dns_name =
     (case get_data_paths cn of
        None \<Rightarrow> None
      | Some paths \<Rightarrow>
        let gpus = get_gpu_info cn; gb = gigabytes (1024 ^ 3)
        in Some \<lparr>r_worker_id = worker_id, r_name = env_or cn ''WORKER_NAME'' (cn_hostname cn), r_worker_ip = tailscale_ip,
             r_dns_name = dns_name, r_ssh_user = detect_ssh_user cn, r_harness_dir = sub_path (WH_DIR cn) [''harness''],
             r_gpu_count = int (length gpus), r_gpus = gpus,
             r_cpu_cores = (case cn_physical_cores cn of None \<Rightarrow> cn_logical_cores cn | Some n \<Rightarrow> if n \<noteq> 0 then n else cn_logical_cores cn),
             r_total_ram = gb (fst (cn_memory cn)), r_used_ram = gb (snd (cn_memory cn)),
             r_total_disk = gb (fst (cn_disk cn)), r_used_disk = gb (snd (cn_disk cn)), r_data_paths = paths\<rparr>)"

text \<open>The worker's identity file: read when it exists, else created with a fresh uuid.\<close>

definition get_worker_id :: "string \<Rightarrow> string option \<Rightarrow> string \<times> string option" where
  "get_worker_id fresh_uuid file = (case file of Some text \<Rightarrow> (strip text, file) | None \<Rightarrow> (fresh_uuid, Some fresh_uuid))"

text \<open>\<open>send_heartbeat\<close> against the registration service: None when building the payload raises; otherwise
  whether the heartbeat was accepted, and the server's tables.  \<open>delivered\<close> says that the request reached the
  server.\<close>

definition send_heartbeat :: "container \<Rightarrow> string \<Rightarrow> string \<Rightarrow> string \<Rightarrow> bool \<Rightarrow> int \<Rightarrow> database \<Rightarrow> (bool \<times> database) option" where
  "send_heartbeat cn worker_id tailscale_ip dns_name delivered t d =
     (case build_payload cn worker_id tailscale_ip dns_name of
        None \<Rightarrow> None
      | Some payload \<Rightarrow>
        if \<not> delivered then Some (False, d)
        else (case upsert_worker t payload d of Inl _ \<Rightarrow> Some (False, d) | Inr (v, d') \<Rightarrow> Some (True, d')))"

section \<open>Properties\<close>

text \<open>The accumulated usage, by rows.\<close>

definition ignored_memory :: "(string \<times> string \<times> int) list \<Rightarrow> string \<Rightarrow> int" where
  "ignored_memory rows gpu_uuid = sum_list (map (\<lambda>(g, n, mb). if g = gpu_uuid \<and> ignored_process n mb then mb else 0) rows)"

definition has_workload :: "(string \<times> string \<times> int) list \<Rightarrow> string \<Rightarrow> bool" where
  "has_workload rows gpu_uuid = list_ex (\<lambda>(g, n, mb). g = gpu_uuid \<and> \<not> ignored_process n mb) rows"

definition lookup0 :: "(string \<times> int) list \<Rightarrow> string \<Rightarrow> int" where
  "lookup0 m k = (case map_of m k of None \<Rightarrow> 0 | Some n \<Rightarrow> n)"

lemma count_process_step:
  "gpu_uuid \<in> set (fst (count_process row acc)) \<longleftrightarrow> gpu_uuid \<in> set (fst acc) \<or> has_workload [row] gpu_uuid"
  "lookup0 (snd (count_process row acc)) gpu_uuid = lookup0 (snd acc) gpu_uuid + ignored_memory [row] gpu_uuid"
  by (cases row; cases acc; auto simp: count_process_def has_workload_def ignored_memory_def lookup0_def update_conv')+

lemma rows_Cons:
  "has_workload (row # rows) g \<longleftrightarrow> has_workload [row] g \<or> has_workload rows g"
  "ignored_memory (row # rows) g = ignored_memory [row] g + ignored_memory rows g"
  by (simp_all add: has_workload_def ignored_memory_def)

lemma count_process_result:
  "gpu_uuid \<in> set (fst (fold count_process rows acc)) \<longleftrightarrow> gpu_uuid \<in> set (fst acc) \<or> has_workload rows gpu_uuid"
  "lookup0 (snd (fold count_process rows acc)) gpu_uuid = lookup0 (snd acc) gpu_uuid + ignored_memory rows gpu_uuid"
proof (induction rows arbitrary: acc)
  case (Cons row rows)
  { case 1 show ?case using Cons.IH(1) by (simp add: count_process_step rows_Cons(1) [of row rows]) }
  { case 2 show ?case using Cons.IH(2) by (simp add: count_process_step rows_Cons(2) [of row rows]) }
qed (simp_all add: has_workload_def ignored_memory_def)

text \<open>A GPU can take work: no process on it counts as a workload, and what is used beyond the ignored
  processes is at most a tenth of the memory, or 512 MB.\<close>

definition can_take_work :: "(string \<times> string \<times> int) list \<Rightarrow> int \<times> string \<times> string \<times> int \<times> int \<Rightarrow> bool" where
  "can_take_work rows gpu = (case gpu of (i, gpu_uuid, name, t, u) \<Rightarrow>
     \<not> has_workload rows gpu_uuid \<and> u - ignored_memory rows gpu_uuid \<le> mostly_free_limit t)"

lemma busy_iff: "g_busy (gpu_entry (fold count_process rows ([], [])) gpu) = Some (\<not> can_take_work rows gpu)"
proof -
  obtain i g n t u where gpu: "gpu = (i, g, n, t, u)" by (metis prod_cases5)
  obtain s m where f: "fold count_process rows ([], []) = (s, m)" by (cases "fold count_process rows ([], [])")
  have "g \<in> set s \<longleftrightarrow> has_workload rows g" "lookup0 m g = ignored_memory rows g"
    using count_process_result [where gpu_uuid = g and rows = rows and acc = "([], [])"] f by (simp_all add: lookup0_def)
  moreover have "0 \<le> mostly_free_limit t" by (simp add: mostly_free_limit_def GPU_PROCESS_IGNORE_MB_def)
  ultimately show ?thesis
    by (auto simp: gpu gpu_entry_def gpu_busy_def can_take_work_def f Let_def lookup0_def split: option.splits)
qed

lemma gpu_free_iff:
  assumes "w_gpu_busy v = map g_busy (map (gpu_entry (fold count_process rows ([], []))) gpus)" "k < length gpus"
  shows "gpu_is_free v k \<longleftrightarrow> can_take_work rows (gpus ! k)"
  using assms by (simp add: gpu_is_free_def busy_iff)

text \<open>
  C29.  The dispatcher hands out exactly the GPUs the worker has measured to be free.  When a heartbeat
  with a readable GPU inventory reaches the service, it is accepted, the worker is online with the
  GPUs it has found and the directories it offers, and the GPUs the dispatcher will use are those
  without a significant process whose memory, less that of the ignored processes, is within a tenth.
\<close>

theorem heartbeat_drives_dispatch:
  assumes "find_smi cn [''nvidia-smi'', ''/usr/bin/nvidia-smi'', ''/usr/local/nvidia/bin/nvidia-smi''] = Some (Some (command, out))"
    and "cn_run cn [command, ''--query-compute-apps=gpu_uuid,process_name,used_gpu_memory'', ''--format=csv,noheader,nounits''] = Printed apps"
    and "gpu_rows (splitlines (strip out)) = Some gpus" and "get_data_paths cn = Some paths"
  shows "\<exists>d' v. send_heartbeat cn i ip dns True t d = Some (True, d') \<and> get_worker i d' = Some v \<and> w_status v = ONLINE \<and>
    w_heartbeat v = t \<and> w_gpu_count v = int (length gpus) \<and> t_jobs d' = t_jobs d \<and>
    free_gpu_indices v = map int (filter (\<lambda>k. can_take_work (process_rows apps) (gpus ! k)) [0..<length gpus])"
proof -
  define entries where "entries = map (gpu_entry (fold count_process (process_rows apps) ([], []))) gpus"
  have info: "get_gpu_info cn = entries"
    using assms(1-3) by (simp add: get_gpu_info_def gpu_process_usage_def entries_def)
  obtain reg where p: "build_payload cn i ip dns = Some reg" and reg: "r_worker_id reg = i" "r_gpus reg = entries" "r_gpu_count reg = int (length gpus)"
    using assms(4) by (auto simp: build_payload_def Let_def info) (simp add: entries_def)
  obtain v d' where u: "upsert_worker t reg d = Inr (v, d')" and g: "\<And>k. get_worker k d' = (if k = r_worker_id reg then Some v else get_worker k d)"
    and v: "w_status v = ONLINE" "w_heartbeat v = t" "w_gpu_count v = r_gpu_count reg" "w_gpu_busy v = map g_busy (r_gpus reg)" "t_jobs d' = t_jobs d"
    by (rule upsert_worker_spec [of t reg d]) blast
  have "filter (gpu_is_free v) [0..<length gpus] = filter (\<lambda>k. can_take_work (process_rows apps) (gpus ! k)) [0..<length gpus]"
    using gpu_free_iff [of v "process_rows apps" gpus] v(4) by (intro filter_cong) (simp_all add: reg entries_def)
  then have "free_gpu_indices v = map int (filter (\<lambda>k. can_take_work (process_rows apps) (gpus ! k)) [0..<length gpus])"
    using v(1,3) by (simp add: free_gpu_indices_def reg)
  then show ?thesis using p u g v reg by (simp add: send_heartbeat_def)
qed

definition demo_container :: container where
  "demo_container = \<lparr>cn_env = (\<lambda>k. None),
     cn_run = (\<lambda>c. if c = [''nvidia-smi'', ''--query-gpu=index,uuid,name,memory.total,memory.used'', ''--format=csv,noheader,nounits'']
         then Printed (''0, u0, A, 40000, 900'' @ nl @ ''1, u1, B, 40000, 9000'' @ nl)
       else if c = [''nvidia-smi'', ''--query-compute-apps=gpu_uuid,process_name,used_gpu_memory'', ''--format=csv,noheader,nounits'']
         then Printed (''u0, /usr/bin/Xorg, 800'' @ nl @ ''u1, python, 8000'' @ nl) else Absent),
     cn_parse = (\<lambda>s. None), cn_manifest = Some (JObj [(''paths'', JArr [JStr ''/data/''])]),
     cn_children = (\<lambda>d. if d = ''/data'' then Some [(''set'', False, True), (''link'', True, True)] else None),
     cn_login = None, cn_home = ''/home/u'', cn_hostname = ''box'', cn_physical_cores = Some 8, cn_logical_cores = 16,
     cn_memory = (1024, 512), cn_disk = (1024, 512)\<rparr>"

theorem heartbeat_drives_dispatch_witness:
  "\<exists>d' v. send_heartbeat demo_container ''w'' ''ip'' '''' True 9 empty_db = Some (True, d') \<and> get_worker ''w'' d' = Some v \<and> free_gpu_indices v = [0]"
proof -
  let ?out = "''0, u0, A, 40000, 900'' @ nl @ ''1, u1, B, 40000, 9000'' @ nl"
  let ?apps = "''u0, /usr/bin/Xorg, 800'' @ nl @ ''u1, python, 8000'' @ nl"
  let ?gpus = "[(0, ''u0'', ''A'', 40000, 900), (1, ''u1'', ''B'', 40000, 9000)]"
  have 1: "find_smi demo_container [''nvidia-smi'', ''/usr/bin/nvidia-smi'', ''/usr/local/nvidia/bin/nvidia-smi''] = Some (Some (''nvidia-smi'', ?out))"
    by (simp add: demo_container_def)
  have 2: "cn_run demo_container [''nvidia-smi'', ''--query-compute-apps=gpu_uuid,process_name,used_gpu_memory'', ''--format=csv,noheader,nounits''] = Printed ?apps"
    by (simp add: demo_container_def)
  have 3: "gpu_rows (splitlines (strip ?out)) = Some ?gpus" by code_simp
  have 4: "get_data_paths demo_container = Some [''/data/set'']" by code_simp
  have 5: "map int (filter (\<lambda>k. can_take_work (process_rows ?apps) (?gpus ! k)) [0..<length ?gpus]) = [0]" by code_simp
  from heartbeat_drives_dispatch [OF 1 2 3 4, of "''w''" "''ip''" "''''" 9 empty_db] show ?thesis unfolding 5 by blast
qed

section \<open>What is offered can be copied\<close>

lemma split_on_at: "split_on c (x @ c # s) = split_on c x @ split_on c s"
proof (induction x)
  case (Cons a x)
  then show ?case by (cases "split_on c x") auto
qed simp

lemma split_on_replicate: "split_on c (x @ replicate n c) = split_on c x @ replicate n ''''"
proof (induction n)
  case (Suc n)
  have "split_on c (x @ replicate (Suc n) c) = split_on c ((x @ replicate n c) @ c # [])"
    by (simp add: replicate_append_same)
  also have "\<dots> = split_on c (x @ replicate n c) @ ['''']" by (simp only: split_on_at split_on.simps)
  finally show ?case using Suc by (simp add: replicate_append_same)
qed simp

lemma rstrip_char_split: "\<exists>n. s = rstrip_char c s @ replicate n c"
proof -
  have "rev s = takeWhile (\<lambda>x. x = c) (rev s) @ dropWhile (\<lambda>x. x = c) (rev s)" by simp
  then have "s = rev (dropWhile (\<lambda>x. x = c) (rev s)) @ rev (takeWhile (\<lambda>x. x = c) (rev s))" by (metis rev_append rev_rev_ident)
  moreover have "takeWhile (\<lambda>x. x = c) (rev s) = replicate (length (takeWhile (\<lambda>x. x = c) (rev s))) c"
    by (rule sym, rule replicate_length_same) (auto dest: set_takeWhileD)
  ultimately show ?thesis unfolding rstrip_char_def by (metis rev_replicate)
qed

text \<open>The names of a directory are single components, as \<open>iterdir\<close> guarantees.\<close>

definition proper_listing :: "container \<Rightarrow> bool" where
  "proper_listing cn = (\<forall>dir children. cn_children cn dir = Some children \<longrightarrow> list_all (\<lambda>c. component (fst c)) children)"

lemma child_path_valid:
  assumes root: "usable_root v = Some dir" "dir \<noteq> ''''" and name: "component name"
  shows "validate_data_path (child_path dir name) = Inr (child_path dir name)"
proof -
  obtain s where s: "v = JStr s" "startswith ''/'' s" "''..'' \<notin> set (split_on (CHR ''/'') s)" "dir = rstrip_char (CHR ''/'') s"
    using root(1) by (auto simp: usable_root_def split: json.splits if_splits)
  obtain n where n: "s = dir @ replicate n (CHR ''/'')" using rstrip_char_split [of s "CHR ''/''"] s(4) by blast
  obtain t where t: "s = CHR ''/'' # t" using s(2) startswith_iff [of "''/''" s] by auto
  obtain a rest where dir: "dir = a # rest" using root(2) by (cases dir) auto
  have "a = CHR ''/''" using n unfolding t dir by simp
  then have abs: "startswith ''/'' dir" using startswith_append [of "''/''" rest] by (simp add: dir)
  have dots: "''..'' \<notin> set (split_on (CHR ''/'') dir)" using s(3) unfolding n split_on_replicate by simp
  define names where "names = path_names dir @ [name]"
  have pieces: "set (path_names dir) \<subseteq> set (split_on (CHR ''/'') dir)" unfolding path_names_def posix_path_def by simp
  have comp: "component x" if "x \<in> set (path_names dir)" for x
    using path_names_ok [OF that] pieces that dots unfolding component_def by blast
  have comps: "list_all component names"
    using name comp by (simp add: names_def list_all_iff)
  have ne: "names \<noteq> []" by (simp add: names_def)
  have c: "child_path dir name = pp_root (posix_path dir) @ join ''/'' names"
    using abs_root [OF abs] by (auto simp: child_path_def sub_path_def Let_def path_str_def names_def path_names_def)
  have p: "posix_path (child_path dir name) = \<lparr>pp_root = pp_root (posix_path dir), pp_names = names\<rparr>"
    unfolding c by (rule posix_path_of_str [OF comps ne abs_root [OF abs]])
  have str: "path_str (posix_path (child_path dir name)) = child_path dir name"
    unfolding p using abs_root [OF abs] by (auto simp: path_str_def c)
  obtain a r where j: "join ''/'' names = a # r" "a \<noteq> CHR ''/''"
    using join_first [of names "CHR ''/''" "''/''"] comps ne by (auto simp: list_all_iff component_def)
  have "child_path dir name = ''/'' @ tl (pp_root (posix_path dir)) @ a # r"
    unfolding c j(1) using abs_root [OF abs] by (elim disjE) simp_all
  then have "startswith ''/'' (child_path dir name)" "child_path dir name \<noteq> ''/''"
    using startswith_append [of "''/''" "tl (pp_root (posix_path dir)) @ a # r"] by simp_all
  moreover have "''..'' \<notin> set (path_names (child_path dir name))"
    using comps by (auto simp: path_names_def p list_all_iff component_def)
  ultimately show ?thesis by (simp add: validate_Inr str)
qed

text \<open>
  Every directory a worker offers can be copied.  The paths in a heartbeat are sorted, without
  duplicates and normalized, and the control plane accepts each of them as a path the worker
  advertises, so long as directory listings name single components and no root of the manifest
  consists of slashes alone.
\<close>

theorem offered_paths_copyable:
  assumes "manifest_roots (cn_manifest cn) = Some roots" and "get_data_paths cn = Some paths"
    and "proper_listing cn" and "list_all (\<lambda>v. usable_root v \<noteq> Some '''') roots"
  shows "sorted paths \<and> distinct paths \<and>
    list_all (\<lambda>p. validate_data_path p = Inr p \<and> is_advertised_data_path p paths = Inr True) paths"
proof -
  have paths: "paths = sort (remdups (concat (map (shareable_children cn) (List.map_filter usable_root roots))))"
    using assms(1,2) by (simp add: get_data_paths_def)
  have valid: "validate_data_path p = Inr p" if p: "p \<in> set paths" for p
  proof -
    obtain dir where d: "dir \<in> set (List.map_filter usable_root roots)" "p \<in> set (shareable_children cn dir)" using p by (auto simp: paths)
    then obtain v where v: "v \<in> set roots" "usable_root v = Some dir" by (auto simp: List.map_filter_def)
    then have ne: "dir \<noteq> ''''" using assms(4) by (auto simp: list_all_iff)
    obtain children where ch: "cn_children cn (path_str (posix_path dir)) = Some children"
      and "p \<in> set (List.map_filter (\<lambda>(name, is_symlink, is_dir). if is_symlink \<or> \<not> is_dir then None else Some (child_path dir name)) children)"
      using d(2) that by (cases "cn_children cn (path_str (posix_path dir))") (auto simp: shareable_children_def)
    then obtain name a b where n: "(name, a, b) \<in> set children" "p = child_path dir name"
      by (auto simp: List.map_filter_def split: if_splits)
    have "component name" using assms(3) ch n(1) unfolding proper_listing_def list_all_iff by fastforce
    then show ?thesis unfolding n(2) by (rule child_path_valid [OF v(2) ne])
  qed
  have "is_advertised_data_path p paths = Inr True" if p: "p \<in> set paths" for p
    using valid [OF p] p by (auto simp: is_advertised_data_path_def advertised_by_iff)
  moreover have "sorted paths" "distinct paths" by (simp_all add: paths)
  ultimately show ?thesis using valid by (simp add: list_all_iff)
qed

theorem offered_paths_copyable_witness:
  "get_data_paths demo_container = Some [''/data/set''] \<and> is_advertised_data_path ''/data/set'' [''/data/set''] = Inr True"
proof -
  have 1: "manifest_roots (cn_manifest demo_container) = Some [JStr ''/data/'']" by code_simp
  have 2: "get_data_paths demo_container = Some [''/data/set'']" by code_simp
  have 3: "proper_listing demo_container"
    by (auto simp: proper_listing_def demo_container_def component_def split: if_splits)
  have 4: "list_all (\<lambda>v. usable_root v \<noteq> Some '''') [JStr ''/data/'']" by code_simp
  from offered_paths_copyable [OF 1 2 3 4] 2 show ?thesis by simp
qed

text \<open>A root of slashes alone other than the root itself is not refused: it turns into the daemon's
  working directory, whose children are offered under relative names.\<close>

lemma slashes_offer_working_directory: "usable_root (JStr ''//'') = Some '''' \<and> child_path '''' ''x'' = ''x''"
  by code_simp

text \<open>A home directory that is nested or written with a final slash gives a user name with a slash.\<close>

lemma nested_home_as_user:
  "detect_ssh_user (demo_container\<lparr>cn_env := (\<lambda>k. if k = ''HOME'' then Some ''/home/lab/ann'' else None)\<rparr>) = ''lab/ann''"
  by code_simp

text \<open>One unreadable figure hides every GPU of the worker.\<close>

lemma one_bad_gpu_hides_all:
  "gpu_line line = None \<Longrightarrow> line \<noteq> '''' \<Longrightarrow> gpu_rows (xs @ line # ys) = None"
  by (induction xs) (auto split: option.splits)

end
