(* ===== verification/Membership.thy ===== *)
theory Membership
  imports Worker_Daemon Url
begin

text \<open>
  The life of a worker daemon from \<open>main\<close> to its last heartbeat, and the fleet it belongs to: the registration service
  lists a worker from its heartbeat on, and the sweep of \<open>orchestrator.py\<close> removes it when heartbeats stay out.
\<close>

section \<open>The start of the daemon\<close>

text \<open>\<open>ParseResult.hostname\<close> and \<open>port\<close>: after the last \<open>@\<close>, with the brackets of an IPv6 address.\<close>

definition host_info :: "string \<Rightarrow> string \<times> string" where
  "host_info netloc =
     (let info = last (split_on (CHR ''@'') netloc)
      in case partition_char (CHR ''['') info of
           (_, bracket, bracketed) \<Rightarrow>
             if bracket \<noteq> '''' then (case partition_char (CHR '']'') bracketed of (host, _, rest) \<Rightarrow>
               case partition_char (CHR '':'') rest of (_, _, port) \<Rightarrow> (host, port))
             else (case partition_char (CHR '':'') info of (host, _, port) \<Rightarrow> (host, port)))"

definition url_port :: "string \<Rightarrow> int option res" where
  "url_port port =
     (if port = '''' then Inr None
      else if \<not> list_all (\<lambda>c. c \<in> set ''0123456789'') port then Inl (ValueErr ''Port could not be cast to integer value'')
      else (case py_int port of None \<Rightarrow> Inl (ValueErr ''Port could not be cast to integer value'')
        | Some n \<Rightarrow> if 0 \<le> n \<and> n \<le> 65535 then Inr (Some n) else Inl (ValueErr ''Port out of range 0-65535'')))"

definition validate_proxy :: "string \<Rightarrow> string res" where
  "validate_proxy proxy = (case urlsplit proxy of
     Inl err \<Rightarrow> Inl err
   | Inr parsed \<Rightarrow> (case host_info (us_netloc parsed) of (host, port) \<Rightarrow>
       if us_scheme parsed \<notin> {''socks5'', ''socks5h'', ''http'', ''https''} then Inl (ValueErr ''WH_PROXY must use socks5/socks5h/http/https scheme'')
       else if host = '''' then Inl (ValueErr ''WH_PROXY must include a host'')
       else (case url_port port of
           Inl err \<Rightarrow> Inl err
         | Inr None \<Rightarrow> Inl (ValueErr ''WH_PROXY must include a port'')
         | Inr (Some _) \<Rightarrow> Inr proxy)))"

text \<open>The proxy of the client: the environment's own proxy settings are ignored.\<close>

definition build_http_client :: "container \<Rightarrow> string option res" where
  "build_http_client cn =
     (let proxy = strip (env_or cn ''WH_PROXY'' '''')
      in if proxy = '''' then Inr None else (case validate_proxy proxy of Inl err \<Rightarrow> Inl err | Inr p \<Rightarrow> Inr (Some p)))"

text \<open>One pass of the loop: whether the stop event is set when the wait ends, the container as it is then, whether the request
  reaches the service, and the time there.\<close>

record wake =
  wk_stop :: bool
  wk_container :: container
  wk_delivered :: bool
  wk_time :: int

definition beat :: "(json \<Rightarrow> string) \<Rightarrow> string \<Rightarrow> wake \<Rightarrow> database \<Rightarrow> (bool \<times> database) option" where
  "beat repr worker_id k d = (case get_tailscale_identity (wk_container k) repr of (ip, dns) \<Rightarrow>
     send_heartbeat (wk_container k) worker_id ip dns (wk_delivered k) (wk_time k) d)"

fun heartbeats :: "(json \<Rightarrow> string) \<Rightarrow> string \<Rightarrow> wake list \<Rightarrow> database \<Rightarrow> database option" where
  "heartbeats repr worker_id [] d = Some d"
| "heartbeats repr worker_id (k # ks) d =
     (if wk_stop k then Some d
      else (case beat repr worker_id k d of None \<Rightarrow> None | Some (_, d') \<Rightarrow> heartbeats repr worker_id ks d'))"

text \<open>\<open>main\<close>: the exit code, or the tables once the loop has ended; None inside is an exception that ends the daemon.\<close>

definition daemon_main :: "(json \<Rightarrow> string) \<Rightarrow> string \<Rightarrow> string option \<Rightarrow> wake \<Rightarrow> wake list \<Rightarrow> database \<Rightarrow> nat + database option" where
  "daemon_main repr fresh_uuid id_file first ks d =
     (let cn = wk_container first in
      if env_or cn ''ORCHESTRATOR_HOST'' '''' = '''' then Inl 1
      else (case build_http_client cn of
        Inl _ \<Rightarrow> Inl 1
      | Inr _ \<Rightarrow> Inr (case beat repr (fst (get_worker_id fresh_uuid id_file)) first d of
          None \<Rightarrow> None | Some (_, d') \<Rightarrow> heartbeats repr (fst (get_worker_id fresh_uuid id_file)) ks d')))"

section \<open>The fleet\<close>

text \<open>What happens to the list of workers: heartbeats of their daemons and sweeps at a time with a cutoff.\<close>

datatype fleet_event = Beat "json \<Rightarrow> string" string wake | Sweep int int

fun fleet_step :: "fleet_event \<Rightarrow> database \<Rightarrow> database" where
  "fleet_step (Beat repr i k) d = (case beat repr i k d of None \<Rightarrow> d | Some (_, d') \<Rightarrow> d')"
| "fleet_step (Sweep t cutoff) d = snd (prune_stale_workers_once cutoff t d)"

definition fleet_run :: "fleet_event list \<Rightarrow> database \<Rightarrow> database" where
  "fleet_run es d = fold fleet_step es d"

text \<open>The specification: a worker is listed with the time of its last heartbeat.\<close>

definition seen :: "database \<Rightarrow> string \<Rightarrow> int option" where
  "seen d i = map_option w_heartbeat (get_worker i d)"

definition arrives :: "fleet_event \<Rightarrow> (string \<times> int) option" where
  "arrives e = (case e of
     Beat repr i k \<Rightarrow> (case get_tailscale_identity (wk_container k) repr of (ip, dns) \<Rightarrow>
       if wk_delivered k \<and> build_payload (wk_container k) i ip dns \<noteq> None then Some (i, wk_time k) else None)
   | Sweep _ _ \<Rightarrow> None)"

definition outlives :: "int \<Rightarrow> fleet_event \<Rightarrow> bool" where
  "outlives t e = (case e of Sweep s cutoff \<Rightarrow> s \<le> t + cutoff | Beat _ _ _ \<Rightarrow> True)"

definition fleet_spec :: "fleet_event \<Rightarrow> (string \<Rightarrow> int option) \<Rightarrow> string \<Rightarrow> int option" where
  "fleet_spec e m i = (case arrives e of
     Some (k, t) \<Rightarrow> if i = k then Some t else m i
   | None \<Rightarrow> (case m i of None \<Rightarrow> None | Some t \<Rightarrow> if outlives t e then Some t else None))"

lemma payload_id: "build_payload cn i ip dns = Some reg \<Longrightarrow> r_worker_id reg = i"
  by (auto simp: build_payload_def Let_def split: option.splits)

lemma seen_prune:
  assumes "pk_ok w_id (t_workers d)"
  shows "seen (snd (prune_stale_workers_once cutoff t d)) i =
    (case seen d i of None \<Rightarrow> None | Some b \<Rightarrow> if t \<le> b + cutoff then Some b else None)"
proof (cases "get_worker i d")
  case None
  then have "tbl_get w_id i (tbl_del (\<lambda>w. w_heartbeat w < t - cutoff) (t_workers d)) = None"
    by (auto simp: get_worker_def tbl_get_None_iff tbl_del_def)
  with None show ?thesis by (simp add: seen_def prune_stale_workers_once_def prune_workers_def get_worker_def)
next
  case (Some w)
  then have w: "w \<in> set (t_workers d)" "w_id w = i" by (auto simp: get_worker_def dest: tbl_get_in tbl_get_key)
  have uniq: "v = w" if "v \<in> set (t_workers d)" "w_id v = i" for v
    using pk_ok_unique [OF assms that(1) w(1)] that(2) w(2) by simp
  let ?kept = "tbl_del (\<lambda>w. w_heartbeat w < t - cutoff) (t_workers d)"
  have kept: "tbl_get w_id i ?kept = (if t \<le> w_heartbeat w + cutoff then Some w else None)"
  proof (cases "t \<le> w_heartbeat w + cutoff")
    case True
    then have "w \<in> set ?kept" using w(1) by (simp add: tbl_del_def)
    with pk_ok_get [OF pk_ok_del [OF assms], of w "\<lambda>w. w_heartbeat w < t - cutoff"] w(2) True show ?thesis by simp
  next
    case False
    then have "i \<notin> w_id ` set ?kept" using uniq by (auto simp: tbl_del_def)
    with False show ?thesis by (simp add: tbl_get_None_iff)
  qed
  then show ?thesis
    using Some by (simp add: seen_def prune_stale_workers_once_def prune_workers_def get_worker_def)
qed

lemma upsert_pk:
  assumes "upsert_worker t reg d = Inr (v, d')" "pk_ok w_id (t_workers d)"
  shows "pk_ok w_id (t_workers d')"
  using assms
  by (auto simp: upsert_worker_def Let_def insert_worker_def update_worker_def tbl_simps pk_ok_ins split: option.splits sum.splits)

lemma beat_effect:
  "(case arrives (Beat repr i k) of
      None \<Rightarrow> fleet_step (Beat repr i k) d = d
    | Some _ \<Rightarrow> (\<exists>reg v. upsert_worker (wk_time k) reg d = Inr (v, fleet_step (Beat repr i k) d) \<and> r_worker_id reg = i))"
proof -
  obtain ip dns where n: "get_tailscale_identity (wk_container k) repr = (ip, dns)" by force
  show ?thesis
  proof (cases "build_payload (wk_container k) i ip dns")
    case (Some reg)
    obtain v d' where u: "upsert_worker (wk_time k) reg d = Inr (v, d')" using upsert_worker_total by blast
    show ?thesis
      using Some u payload_id [OF Some] by (cases "wk_delivered k") (auto simp: arrives_def beat_def n send_heartbeat_def)
  qed (simp add: arrives_def beat_def n send_heartbeat_def)
qed

text \<open>Every event does to the tables what the specification says, and touches nothing but the list of workers.\<close>

lemma fleet_step_spec:
  assumes "pk_ok w_id (t_workers d)"
  shows "seen (fleet_step e d) = fleet_spec e (seen d)" "pk_ok w_id (t_workers (fleet_step e d))"
    "t_jobs (fleet_step e d) = t_jobs d"
proof -
  have "seen (fleet_step e d) i = fleet_spec e (seen d) i \<and> pk_ok w_id (t_workers (fleet_step e d)) \<and> t_jobs (fleet_step e d) = t_jobs d" for i
  proof (cases e)
    case (Sweep t cutoff)
    then show ?thesis
      using assms seen_prune [OF assms, of cutoff t i]
      by (simp add: fleet_spec_def arrives_def outlives_def prune_stale_workers_once_def prune_workers_def pk_ok_del split: option.splits)
  next
    case (Beat repr k w)
    show ?thesis
    proof (cases "arrives e")
      case None
      with beat_effect [of repr k w d] Beat have "fleet_step e d = d" by simp
      with assms None show ?thesis unfolding Beat by (auto simp: fleet_spec_def outlives_def split: option.split)
    next
      case (Some a)
      with Beat have a: "a = (k, wk_time w)" by (auto simp: arrives_def split: if_splits prod.splits)
      from beat_effect [of repr k w d] Some Beat obtain reg v
        where u: "upsert_worker (wk_time w) reg d = Inr (v, fleet_step e d)" "r_worker_id reg = k" by auto
      obtain v' d' where s: "upsert_worker (wk_time w) reg d = Inr (v', d')"
          "\<And>j. get_worker j d' = (if j = r_worker_id reg then Some v' else get_worker j d)" "w_heartbeat v' = wk_time w" "t_jobs d' = t_jobs d"
        by (rule upsert_worker_spec) blast
      with u have "d' = fleet_step e d" "v' = v" by simp_all
      with s u(2) upsert_pk [OF u(1) assms] Some a show ?thesis unfolding fleet_spec_def seen_def by simp
    qed
  qed
  then show "seen (fleet_step e d) = fleet_spec e (seen d)" "pk_ok w_id (t_workers (fleet_step e d))"
    "t_jobs (fleet_step e d) = t_jobs d" by auto
qed

lemma fleet_run_spec:
  assumes "pk_ok w_id (t_workers d)"
  shows "seen (fleet_run es d) = fold fleet_spec es (seen d) \<and> pk_ok w_id (t_workers (fleet_run es d)) \<and> t_jobs (fleet_run es d) = t_jobs d"
  using assms by (induction es arbitrary: d) (simp_all add: fleet_run_def fleet_step_spec)

lemma silent_spec:
  assumes "list_all (\<lambda>e. map_option fst (arrives e) \<noteq> Some i) es"
  shows "fold fleet_spec es m i = (case m i of None \<Rightarrow> None | Some t \<Rightarrow> if list_all (outlives t) es then Some t else None)"
  using assms
proof (induction es arbitrary: m)
  case (Cons e es)
  then have "fleet_spec e m i = (case m i of None \<Rightarrow> None | Some t \<Rightarrow> if outlives t e then Some t else None)"
    by (auto simp: fleet_spec_def outlives_def arrives_def split: option.splits fleet_event.splits if_splits prod.splits)
  with Cons show ?case by (auto split: option.splits)
qed (simp split: option.split)


definition first_beat :: fleet_event where
  "first_beat = Beat (\<lambda>_. '''') ''w'' \<lparr>wk_stop = False, wk_container = demo_container, wk_delivered = True, wk_time = 9\<rparr>"


text \<open>The loop of a daemon is a sequence of heartbeats of the fleet, up to the stop.\<close>

lemma heartbeats_are_events:
  "heartbeats repr i ks d = Some d' \<Longrightarrow> d' = fleet_run (map (Beat repr i) (takeWhile (\<lambda>k. \<not> wk_stop k) ks)) d"
  by (induction ks arbitrary: d) (auto simp: fleet_run_def split: if_splits option.splits)

lemma daemon_main_events:
  assumes "daemon_main repr u file first ks d = Inr (Some d')"
  shows "d' = fleet_run (map (Beat repr (fst (get_worker_id u file))) (first # takeWhile (\<lambda>k. \<not> wk_stop k) ks)) d"
  using assms heartbeats_are_events [of repr "fst (get_worker_id u file)" ks]
  by (fastforce simp: daemon_main_def Let_def fleet_run_def split: if_splits sum.splits option.splits)

section \<open>Findings\<close>

text \<open>A heartbeat builds its payload outside the \<open>try\<close>: a manifest of data paths that cannot be iterated ends the daemon.\<close>

lemma bad_manifest_ends_daemon:
  assumes "manifest_roots (cn_manifest (wk_container k)) = None" "\<not> wk_stop k"
  shows "heartbeats repr i (k # ks) d = None"
proof -
  obtain ip dns where "get_tailscale_identity (wk_container k) repr = (ip, dns)" by force
  with assms show ?thesis by (simp add: beat_def send_heartbeat_def build_payload_def get_data_paths_def)
qed

text \<open>An identity file that was created but not written leaves the worker with the empty ID for good.\<close>

lemma empty_identity_stays: "get_worker_id u (Some '''') = ('''', Some '''')"
  by code_simp

end
