(* ===== verification/History.thy ===== *)
theory History
  imports Host_Runtime
begin

text \<open>
  Access to the history of local sessions in \<open>pi_history.py\<close>: which programs the helper is run with, the checks before it
  runs and those on its answer.  The helper is a program of its own; its end is an argument.
\<close>

section \<open>Programs\<close>

definition local_runtime :: "host \<Rightarrow> fs \<Rightarrow> host_runtime option res" where
  "local_runtime hs fs = (case load_host_runtime hs fs False (default_manifest_path hs) of
     Inl (RuntimeErr s) \<Rightarrow> Inl (RuntimeErr (''host runtime manifest is invalid: '' @ s)) | r \<Rightarrow> r)"

definition or_next :: "string option \<Rightarrow> string option \<Rightarrow> string option" where
  "or_next v w = (case v of None \<Rightarrow> w | Some s \<Rightarrow> if s = '''' then w else Some s)"

definition is_file :: "fs \<Rightarrow> string \<Rightarrow> bool" where
  "is_file fs p = (case stat fs p of None \<Rightarrow> False | Some nd \<Rightarrow> nd_kind nd = Regular)"

text \<open>\<open>Path.resolve\<close>: None when the path does not exist.\<close>

definition real_path :: "host \<Rightarrow> fs \<Rightarrow> string \<Rightarrow> string option" where
  "real_path hs fs p = map_option normpath (resolve 41 fs (abspath (hs_cwd hs) p))"

definition user_path :: "host \<Rightarrow> string \<Rightarrow> string" where
  "user_path hs s = path_str (posix_path (expand_user (hs_home hs) s))"

definition locate :: "host \<Rightarrow> fs \<Rightarrow> string \<Rightarrow> string \<Rightarrow> string res" where
  "locate hs fs name variable = (case local_runtime hs fs of
     Inl err \<Rightarrow> Inl err
   | Inr runtime \<Rightarrow>
     let value = or_next (hs_env hs variable) (or_next (case runtime of None \<Rightarrow> None | Some rt \<Rightarrow> executable rt name) (which hs fs name))
     in (case value of
           None \<Rightarrow> Inl (RuntimeErr (name @ '' is required for Pi history; run `wh host setup` from a prepared shell''))
         | Some v \<Rightarrow> if v = '''' then Inl (RuntimeErr (name @ '' is required for Pi history; run `wh host setup` from a prepared shell''))
           else let path = user_path hs v
             in if \<not> is_file fs path \<or> \<not> hs_access hs path then Inl (RuntimeErr (name @ '' executable is invalid: '' @ path))
                else Inr (case real_path hs fs path of None \<Rightarrow> abspath (hs_cwd hs) path | Some p \<Rightarrow> p)))"

definition path_name :: "string \<Rightarrow> string" where
  "path_name p = (let ns = pp_names (posix_path p) in if ns = [] then '''' else last ns)"

definition pi_package_root :: "fs \<Rightarrow> string \<Rightarrow> string res" where
  "pi_package_root fs cli =
     (if path_name cli \<notin> {''cli.js'', ''cli.mjs''} \<or> path_name (parent_dir cli) \<noteq> ''dist''
      then Inl (RuntimeErr ''installed Pi layout cannot provide SessionManager.list(); install the >=0.83.0 package distribution'')
      else let root_dir = parent_dir (parent_dir cli)
        in if \<not> is_file fs (path_join root_dir ''package.json'') \<or> \<not> is_file fs (path_join root_dir ''dist/index.js'')
           then Inl (RuntimeErr ''installed Pi package is incomplete'') else Inr root_dir)"

section \<open>The helper\<close>

text \<open>How the helper ended: not started or timed out, or an exit code with its output.  \<open>helper\<close> is the path of the script
  beside the module, \<open>parse\<close> decodes JSON.\<close>

datatype helper_end = HelperFails string | HelperExit int string string

record history_host =
  hh_host :: host
  hh_helper :: string
  hh_run :: "string list \<Rightarrow> (string \<Rightarrow> string option) \<Rightarrow> helper_end"
  hh_parse :: "string \<Rightarrow> json option"
  hh_repr :: "json \<Rightarrow> string"

definition valid_session_id :: "string option \<Rightarrow> bool" where
  "valid_session_id i = (case i of None \<Rightarrow> True
   | Some s \<Rightarrow> s \<noteq> '''' \<and> char_of (0 :: nat) \<notin> set s \<and> CHR 13 \<notin> set s \<and> CHR 10 \<notin> set s)"

definition history_cwd :: "host \<Rightarrow> fs \<Rightarrow> string \<Rightarrow> string res" where
  "history_cwd hs fs cwd =
     (let path = user_path hs cwd
      in if \<not> isabs path then Inl (RuntimeErr ''Pi history cwd must be absolute'')
         else (case real_path hs fs path of
           None \<Rightarrow> Inl (OSErr ''FileNotFoundError'')
         | Some p \<Rightarrow> if \<not> is_dir fs p then Inl (RuntimeErr ''Pi history cwd must be a directory'') else Inr p))"

definition last_chars :: "nat \<Rightarrow> string \<Rightarrow> string" where
  "last_chars n s = drop (length s - n) s"

definition detail_of :: "string \<Rightarrow> string \<Rightarrow> string" where
  "detail_of out err = last_chars 2000 (if strip err \<noteq> '''' then strip err else if strip out \<noteq> '''' then strip out else ''unknown helper failure'')"

definition helper_answer :: "history_host \<Rightarrow> helper_end \<Rightarrow> json res" where
  "helper_answer hh r = (case r of
     HelperFails s \<Rightarrow> Inl (RuntimeErr (''could not inspect Pi history: '' @ s))
   | HelperExit rc out err \<Rightarrow>
     if rc \<noteq> 0 then Inl (RuntimeErr (''could not inspect Pi history: '' @ detail_of out err))
     else (case hh_parse hh out of None \<Rightarrow> Inl (RuntimeErr ''Pi history helper returned malformed JSON'') | Some v \<Rightarrow> Inr v))"

text \<open>The command and environment of a run, or the error before it.\<close>

definition helper_command :: "history_host \<Rightarrow> fs \<Rightarrow> string \<Rightarrow> string option \<Rightarrow> (string list \<times> (string \<Rightarrow> string option)) res" where
  "helper_command hh fs cwd session =
     (let hs = hh_host hh in
      case history_cwd hs fs cwd of Inl err \<Rightarrow> Inl err | Inr path \<Rightarrow>
      if \<not> valid_session_id session then Inl (RuntimeErr ''exact Pi session ID is invalid'')
      else (case locate hs fs ''bun'' ''WH_BUN_EXECUTABLE'' of Inl err \<Rightarrow> Inl err | Inr bun \<Rightarrow>
        case locate hs fs ''pi'' ''WH_PI_EXECUTABLE'' of Inl err \<Rightarrow> Inl err | Inr cli \<Rightarrow>
        case pi_package_root fs cli of Inl err \<Rightarrow> Inl err | Inr root_dir \<Rightarrow>
        if \<not> is_file fs (hh_helper hh) then Inl (RuntimeErr ''Worker Harness Pi history helper is missing'')
        else (case local_runtime hs fs of Inl err \<Rightarrow> Inl err | Inr runtime \<Rightarrow>
          Inr ([bun, hh_helper hh, if session \<noteq> None then ''resolve'' else ''list'', root_dir, path] @
                 (case session of None \<Rightarrow> [] | Some i \<Rightarrow> [i]),
               case runtime of None \<Rightarrow> hs_env hs | Some rt \<Rightarrow> environment rt (hs_env hs)))))"

definition run_helper :: "history_host \<Rightarrow> fs \<Rightarrow> string \<Rightarrow> string option \<Rightarrow> json res" where
  "run_helper hh fs cwd session = (case helper_command hh fs cwd session of
     Inl err \<Rightarrow> Inl err | Inr (command, env) \<Rightarrow> helper_answer hh (hh_run hh command env))"

definition is_object :: "json \<Rightarrow> bool" where
  "is_object v = (case v of JObj _ \<Rightarrow> True | _ \<Rightarrow> False)"

definition list_session_history :: "history_host \<Rightarrow> fs \<Rightarrow> string \<Rightarrow> json list res" where
  "list_session_history hh fs cwd = (case run_helper hh fs cwd None of
     Inl err \<Rightarrow> Inl err
   | Inr (JArr rows) \<Rightarrow> if list_all is_object rows then Inr rows else Inl (RuntimeErr ''Pi history helper returned an invalid session list'')
   | Inr _ \<Rightarrow> Inl (RuntimeErr ''Pi history helper returned an invalid session list''))"

definition resolve_session_history :: "history_host \<Rightarrow> fs \<Rightarrow> string \<Rightarrow> string \<Rightarrow> (string \<times> json) list res" where
  "resolve_session_history hh fs cwd session = (case run_helper hh fs cwd (Some session) of
     Inl err \<Rightarrow> Inl err
   | Inr (JObj row) \<Rightarrow>
     if py_str (hh_repr hh) (json_or (json_get row ''id'' JNull) (JStr '''')) = session then Inr row
     else Inl (RuntimeErr ''Pi history helper did not resolve the exact session ID'')
   | Inr _ \<Rightarrow> Inl (RuntimeErr ''Pi history helper did not resolve the exact session ID''))"

section \<open>What is resumed\<close>

lemma history_cwd_ok:
  assumes "history_cwd hs fs cwd = Inr path"
  shows "is_dir fs path \<and> isabs (user_path hs cwd)"
  using assms by (auto simp: history_cwd_def Let_def split: if_splits option.splits)

lemma command_shape:
  assumes "helper_command hh fs cwd session = Inr (command, env)"
  obtains bun root_dir path where "command = [bun, hh_helper hh, if session \<noteq> None then ''resolve'' else ''list'', root_dir, path] @
      (case session of None \<Rightarrow> [] | Some i \<Rightarrow> [i])"
    and "valid_session_id session" "is_dir fs path" "is_file fs (hh_helper hh)"
    and "is_file fs (path_join root_dir ''package.json'')" "is_file fs (path_join root_dir ''dist/index.js'')"
  using assms history_cwd_ok [of "hh_host hh" fs cwd]
  by (fastforce simp: helper_command_def pi_package_root_def Let_def split: sum.splits if_splits)

text \<open>
  A session is resumed under exactly the ID that was asked for: the helper ran in an existing directory of a complete package
  with that ID as one argument without line breaks, succeeded, and named that ID itself.  Otherwise there is an error.
\<close>

theorem resumed_session_is_exact:
  assumes "resolve_session_history hh fs cwd session = Inr row"
  shows "session \<noteq> '''' \<and> py_str (hh_repr hh) (json_or (json_get row ''id'' JNull) (JStr '''')) = session \<and>
    (\<exists>bun root_dir path env out err. is_dir fs path \<and> is_file fs (path_join root_dir ''package.json'') \<and>
      hh_run hh [bun, hh_helper hh, ''resolve'', root_dir, path, session] env = HelperExit 0 out err \<and> hh_parse hh out = Some (JObj row))"
proof -
  obtain command env out err where c: "helper_command hh fs cwd (Some session) = Inr (command, env)"
    and r: "hh_run hh command env = HelperExit 0 out err" "hh_parse hh out = Some (JObj row)"
    and i: "py_str (hh_repr hh) (json_or (json_get row ''id'' JNull) (JStr '''')) = session"
    using assms
    by (auto simp: resolve_session_history_def run_helper_def helper_answer_def
        split: sum.splits json.splits if_splits helper_end.splits option.splits)
  from c obtain bun root_dir path where s: "command = [bun, hh_helper hh, ''resolve'', root_dir, path, session]"
    "valid_session_id (Some session)" "is_dir fs path" "is_file fs (path_join root_dir ''package.json'')"
    by (rule command_shape) auto
  then have "session \<noteq> ''''" by (simp add: valid_session_id_def)
  moreover from r(1) s(1) have "hh_run hh [bun, hh_helper hh, ''resolve'', root_dir, path, session] env = HelperExit 0 out err" by simp
  ultimately show ?thesis using i r(2) s(3,4) by blast
qed

end
