(* ===== verification/Processes.thy ===== *)
theory Processes
  imports Metrics Remote
begin

text \<open>
  The processes behind remote calls in \<open>ssh.py\<close>: signalling a process group, waiting for it to disappear,
  the escalation from \<open>SIGTERM\<close> to \<open>SIGKILL\<close>, the executor of one call with its lane, timeout and
  cancellation, and the start of a port forward.  The system says when a group is alive and when its
  leader has been reaped, given the signals sent so far; every suspension can take longer than asked
  for, and a cancellation can strike at any of them.  Times are seconds as rationals.
\<close>

section \<open>Groups and signals\<close>

datatype sig = SIGTERM | SIGKILL

record proc_os =
  po_alive :: "(sig \<times> rat) list \<Rightarrow> rat \<Rightarrow> bool"
  po_reaped :: "(sig \<times> rat) list \<Rightarrow> rat \<Rightarrow> bool"
  po_delay :: "nat \<Rightarrow> rat"
  po_cancel :: "nat \<Rightarrow> bool"

datatype proc_event = Acquired | Spawned | Gone rat | Survived rat | Released

record proc_state =
  px_time :: rat
  px_awaits :: nat
  px_sigs :: "(sig \<times> rat) list"
  px_trace :: "proc_event list"
  px_metrics :: metrics

definition happens :: "proc_event \<Rightarrow> proc_state \<Rightarrow> proc_state" where
  "happens ev s = s\<lparr>px_trace := px_trace s @ [ev]\<rparr>"

definition signal_process_group :: "sig \<Rightarrow> proc_state \<Rightarrow> proc_state" where
  "signal_process_group sg s = s\<lparr>px_sigs := px_sigs s @ [(sg, px_time s)]\<rparr>"

definition process_group_exists :: "proc_os \<Rightarrow> proc_state \<Rightarrow> bool" where
  "process_group_exists po s = po_alive po (px_sigs s) (px_time s)"

definition leader_reaped :: "proc_os \<Rightarrow> proc_state \<Rightarrow> bool" where
  "leader_reaped po s = po_reaped po (px_sigs s) (px_time s)"

text \<open>A suspension of at least \<open>d\<close> seconds, and whether the task is cancelled in it.\<close>

definition suspend :: "proc_os \<Rightarrow> rat \<Rightarrow> proc_state \<Rightarrow> bool \<times> proc_state" where
  "suspend po d s = (po_cancel po (px_awaits s),
     s\<lparr>px_time := px_time s + max 0 d + max 0 (po_delay po (px_awaits s)), px_awaits := Suc (px_awaits s)\<rparr>)"

section \<open>Waiting for a group\<close>

lemma poll_decreases:
  fixes deadline t t1 t2 :: rat
  assumes "t \<le> t1" "t1 + min (1 / 20) (deadline - t1) \<le> t2" "\<not> deadline - t1 \<le> 0"
  shows "nat \<lceil>(deadline - t2) * 20\<rceil> < nat \<lceil>(deadline - t) * 20\<rceil>"
proof -
  have pos: "0 < \<lceil>(deadline - t) * 20\<rceil>" using assms by simp
  have "(deadline - t2) * 20 \<le> (deadline - t) * 20 - 1 \<or> (deadline - t2) * 20 \<le> 0"
    using assms by (cases "1 / 20 \<le> deadline - t1") (simp_all add: min_def)
  moreover have "\<lceil>(deadline - t2) * 20\<rceil> \<le> \<lceil>(deadline - t) * 20\<rceil> - 1" if "(deadline - t2) * 20 \<le> (deadline - t) * 20 - 1"
    using that by (metis ceiling_diff_one ceiling_mono)
  moreover have "\<lceil>(deadline - t2) * 20\<rceil> \<le> 0" if "(deadline - t2) * 20 \<le> 0" using that by simp
  ultimately have "\<lceil>(deadline - t2) * 20\<rceil> < \<lceil>(deadline - t) * 20\<rceil>" using pos by linarith
  with pos show ?thesis by simp
qed

text \<open>\<open>_wait_for_async_process_group\<close>: whether the group is gone, None when the wait is cancelled.\<close>

function wait_async :: "proc_os \<Rightarrow> rat \<Rightarrow> proc_state \<Rightarrow> bool option \<times> proc_state" where
  "wait_async po deadline s =
     (if \<not> process_group_exists po s then
        (case suspend po 0 (happens (Gone (px_time s)) s) of (cancelled, s') \<Rightarrow> (if cancelled then None else Some True, s'))
      else (case (if leader_reaped po s then (False, s) else suspend po 0 s) of (c1, s1) \<Rightarrow>
        if c1 then (None, s1)
        else let remaining = deadline - px_time s1
             in if remaining \<le> 0 then (Some False, s1)
                else (case suspend po (min (1 / 20) remaining) s1 of (c2, s2) \<Rightarrow>
                  if c2 then (None, s2) else wait_async po deadline s2)))"
  by pat_completeness auto
termination
proof (relation "measure (\<lambda>(po, deadline, s). nat \<lceil>(deadline - px_time s) * 20\<rceil>)")
  fix po :: proc_os and deadline :: rat and s s1 s2 :: proc_state and c1 c2 :: bool and remaining :: rat
  assume x: "(c1, s1) = (if leader_reaped po s then (False, s) else suspend po 0 s)"
    and r: "remaining = deadline - px_time s1" "\<not> remaining \<le> 0"
    and y: "(c2, s2) = suspend po (min (1 / 20) remaining) s1"
  have 1: "px_time s \<le> px_time s1" using x by (auto simp: suspend_def split: if_splits)
  have 2: "px_time s1 + min (1 / 20) (deadline - px_time s1) \<le> px_time s2" using y r by (simp add: suspend_def)
  show "((po, deadline, s2), po, deadline, s) \<in> measure (\<lambda>(po, deadline, s). nat \<lceil>(deadline - px_time s) * 20\<rceil>)"
    using poll_decreases [OF 1 2] r by simp
qed auto

declare wait_async.simps [simp del]

text \<open>\<open>_wait_for_popen_process_group\<close>: it polls the leader and sleeps in the thread, so nothing cancels it.\<close>

function wait_popen :: "proc_os \<Rightarrow> rat \<Rightarrow> proc_state \<Rightarrow> bool \<times> proc_state" where
  "wait_popen po deadline s =
     (if \<not> process_group_exists po s then (True, happens (Gone (px_time s)) s)
      else let remaining = deadline - px_time s
           in if remaining \<le> 0 then (False, s) else wait_popen po deadline (snd (suspend po (min (1 / 20) remaining) s)))"
  by pat_completeness auto
termination
proof (relation "measure (\<lambda>(po, deadline, s). nat \<lceil>(deadline - px_time s) * 20\<rceil>)")
  fix po :: proc_os and deadline remaining :: rat and s :: proc_state
  assume r: "remaining = deadline - px_time s" "\<not> remaining \<le> 0"
  have 2: "px_time s + min (1 / 20) (deadline - px_time s) \<le> px_time (snd (suspend po (min (1 / 20) remaining) s))"
    using r by (simp add: suspend_def)
  show "((po, deadline, snd (suspend po (min (1 / 20) remaining) s)), po, deadline, s)
      \<in> measure (\<lambda>(po, deadline, s). nat \<lceil>(deadline - px_time s) * 20\<rceil>)"
    using poll_decreases [OF order.refl 2] r by simp
qed auto

declare wait_popen.simps [simp del]

section \<open>Escalation\<close>

text \<open>\<open>_terminate_async_process\<close>: whether it was cancelled on the way.  The last wait for the leader takes
  half a second at most.\<close>

definition reap_leader :: "proc_os \<Rightarrow> bool \<Rightarrow> proc_state \<Rightarrow> bool \<times> proc_state" where
  "reap_leader po group_gone s =
     (case (if leader_reaped po s then (False, s) else suspend po (1 / 2) s) of (cancelled, s') \<Rightarrow>
        (cancelled, if \<not> cancelled \<and> \<not> group_gone then happens (Survived (px_time s')) s' else s'))"

definition terminate_async :: "proc_os \<Rightarrow> rat \<Rightarrow> proc_state \<Rightarrow> bool \<times> proc_state" where
  "terminate_async po grace s =
     (let s1 = signal_process_group SIGTERM s
      in case wait_async po (px_time s1 + grace) s1 of
           (None, s2) \<Rightarrow> (True, s2)
         | (Some True, s2) \<Rightarrow> reap_leader po True s2
         | (Some False, s2) \<Rightarrow>
           let s3 = signal_process_group SIGKILL s2
           in (case wait_async po (px_time s3 + 1) s3 of
                 (None, s4) \<Rightarrow> (True, s4)
               | (Some gone, s4) \<Rightarrow> reap_leader po gone s4))"

definition terminate_popen :: "proc_os \<Rightarrow> rat \<Rightarrow> proc_state \<Rightarrow> proc_state" where
  "terminate_popen po grace s =
     (let s1 = signal_process_group SIGTERM s
      in case wait_popen po (px_time s1 + grace) s1 of
           (True, s2) \<Rightarrow> snd (reap_leader (po\<lparr>po_cancel := (\<lambda>_. False)\<rparr>) True s2)
         | (False, s2) \<Rightarrow>
           let s3 = signal_process_group SIGKILL s2
           in (case wait_popen po (px_time s3 + 1) s3 of
                 (gone, s4) \<Rightarrow> snd (reap_leader (po\<lparr>po_cancel := (\<lambda>_. False)\<rparr>) gone s4)))"

section \<open>One remote call\<close>

text \<open>How the subprocess starts, and how \<open>communicate\<close> under \<open>wait_for\<close> ends after some time.\<close>

datatype spawn = NoCommand | SpawnFails error | Spawns

datatype communicated = Finished string string int | TimedOut | Interrupted | Broken error

definition observed :: "string \<Rightarrow> rat \<Rightarrow> proc_state \<Rightarrow> proc_state" where
  "observed op started s = s\<lparr>px_metrics := observe_ssh op ((px_time s - started) * 1000) (px_metrics s)\<rparr>"

definition answer :: "string \<Rightarrow> int \<Rightarrow> ssh_result" where
  "answer err rc = \<lparr>sr_out = '''', sr_err = err, sr_rc = rc\<rparr>"

definition run_communicate :: "proc_os \<Rightarrow> string \<Rightarrow> string \<Rightarrow> rat \<Rightarrow> communicated \<Rightarrow> proc_state \<Rightarrow> (string \<times> ssh_result) res \<times> proc_state" where
  "run_communicate po op timeout_text started com s = (case com of
     Finished out err rc \<Rightarrow> (Inr (out, answer err rc), observed op started s)
   | TimedOut \<Rightarrow> (case terminate_async po 2 s of (cancelled, s') \<Rightarrow>
       if cancelled then (Inl CancelledErr, s')
       else (Inr ('''', answer (''Command timed out after '' @ timeout_text @ ''s'') (- 1)), observed op started s'))
   | Interrupted \<Rightarrow> (Inl CancelledErr, snd (terminate_async po 2 s))
   | Broken err \<Rightarrow> (Inl err, s))"

definition run_admitted :: "proc_os \<Rightarrow> string \<Rightarrow> string \<Rightarrow> rat \<Rightarrow> spawn \<Rightarrow> rat \<Rightarrow> communicated \<Rightarrow> proc_state \<Rightarrow>
    (string \<times> ssh_result) res \<times> proc_state" where
  "run_admitted po op timeout_text started sp duration com s = (case sp of
     NoCommand \<Rightarrow> (Inr ('''', answer ''ssh command not found'' 127), observed op started s)
   | SpawnFails err \<Rightarrow> (Inl err, s)
   | Spawns \<Rightarrow>
     let s0 = happens Spawned s
     in (case run_communicate po op timeout_text started com (s0\<lparr>px_time := px_time s0 + max 0 duration\<rparr>) of (r, s1) \<Rightarrow>
           if leader_reaped po s1 then (r, s1)
           else (case terminate_async po 2 s1 of (cancelled, s2) \<Rightarrow> (if cancelled then Inl CancelledErr else r, s2))))"

definition exec_ssh_bytes :: "proc_os \<Rightarrow> string \<Rightarrow> string \<Rightarrow> unit res \<Rightarrow> spawn \<Rightarrow> rat \<Rightarrow> communicated \<Rightarrow> proc_state \<Rightarrow>
    (string \<times> ssh_result) res \<times> proc_state" where
  "exec_ssh_bytes po op timeout_text admission sp duration com s = (case admission of
     Inl err \<Rightarrow> (Inl err, s)
   | Inr _ \<Rightarrow> (case run_admitted po op timeout_text (px_time s) sp duration com (happens Acquired s) of (r, s') \<Rightarrow> (r, happens Released s')))"

text \<open>The text adapter; decoding with replacement keeps the bytes of the model.\<close>

definition exec_ssh :: "proc_os \<Rightarrow> string \<Rightarrow> string \<Rightarrow> unit res \<Rightarrow> spawn \<Rightarrow> rat \<Rightarrow> communicated \<Rightarrow> proc_state \<Rightarrow> ssh_result res \<times> proc_state" where
  "exec_ssh po op timeout_text admission sp duration com s =
     (case exec_ssh_bytes po op timeout_text admission sp duration com s of
        (Inl err, s') \<Rightarrow> (Inl err, s') | (Inr (out, result), s') \<Rightarrow> (Inr (result\<lparr>sr_out := out\<rparr>), s'))"

section \<open>The start of a port forward\<close>

text \<open>Up to ten polls of the leader, each followed by a sleep: whether the start was cancelled.\<close>

fun handshake :: "proc_os \<Rightarrow> nat \<Rightarrow> proc_state \<Rightarrow> bool \<times> proc_state" where
  "handshake po 0 s = (False, s)"
| "handshake po (Suc n) s =
     (if leader_reaped po s then (False, s)
      else (case suspend po (1 / 20) s of (cancelled, s') \<Rightarrow> if cancelled then (True, s') else handshake po n s'))"

text \<open>A start that is admitted returns the process, which keeps running, or raises.\<close>

definition ssh_port_forward :: "proc_os \<Rightarrow> unit res \<Rightarrow> unit res \<Rightarrow> proc_state \<Rightarrow> unit res \<times> proc_state" where
  "ssh_port_forward po admission popen s = (case admission of
     Inl err \<Rightarrow> (Inl err, s)
   | Inr _ \<Rightarrow> (case popen of
       Inl err \<Rightarrow> (Inl err, happens Released (happens Acquired s))
     | Inr _ \<Rightarrow> (case handshake po 10 (happens Spawned (happens Acquired s)) of
         (True, s1) \<Rightarrow> (Inl CancelledErr, happens Released (terminate_popen po 2 s1))
       | (False, s1) \<Rightarrow> (Inr (), happens Released (observed ''ssh_port_forward'' (px_time s) s1)))))"

section \<open>No process outlives its call\<close>

text \<open>The time asked for, without what the suspensions took longer.\<close>

definition asked :: "proc_os \<Rightarrow> proc_state \<Rightarrow> rat" where
  "asked po s = px_time s - (\<Sum>n<px_awaits s. max 0 (po_delay po n))"

lemma asked_suspend [simp]: "asked po (snd (suspend po d s)) = asked po s + max 0 d"
  by (simp add: asked_def suspend_def)

lemma suspend_sigs [simp]: "px_sigs (snd (suspend po d s)) = px_sigs s" "px_trace (snd (suspend po d s)) = px_trace s"
    "px_metrics (snd (suspend po d s)) = px_metrics s" "fst (suspend po d s) = po_cancel po (px_awaits s)"
  by (simp_all add: suspend_def)

lemma suspend_time: "px_time s + max 0 d \<le> px_time (snd (suspend po d s))"
  by (simp add: suspend_def)

lemma happens_simps [simp]: "px_sigs (happens ev s) = px_sigs s" "px_trace (happens ev s) = px_trace s @ [ev]"
    "px_time (happens ev s) = px_time s" "asked po (happens ev s) = asked po s" "px_metrics (happens ev s) = px_metrics s"
  by (simp_all add: happens_def asked_def)

lemma signal_simps [simp]: "px_sigs (signal_process_group sg s) = px_sigs s @ [(sg, px_time s)]"
    "px_trace (signal_process_group sg s) = px_trace s" "px_time (signal_process_group sg s) = px_time s"
    "asked po (signal_process_group sg s) = asked po s" "px_metrics (signal_process_group sg s) = px_metrics s"
  by (simp_all add: signal_process_group_def asked_def)

definition waited :: "proc_os \<Rightarrow> rat \<Rightarrow> proc_state \<Rightarrow> bool \<Rightarrow> proc_state \<Rightarrow> bool" where
  "waited po deadline s gone s' = (px_sigs s' = px_sigs s \<and> px_metrics s' = px_metrics s \<and> px_time s \<le> px_time s' \<and>
    asked po s' \<le> asked po s + max 0 (deadline - px_time s) \<and>
    (if gone then \<exists>t. px_trace s' = px_trace s @ [Gone t] else px_trace s' = px_trace s \<and> deadline \<le> px_time s'))"

lemma waited_step:
  assumes "waited po deadline s2 gone s'" "px_sigs s2 = px_sigs s" "px_metrics s2 = px_metrics s" "px_trace s2 = px_trace s"
    "px_time s \<le> u" "u + m \<le> px_time s2" "asked po s2 = asked po s + m" "0 \<le> m" "m \<le> deadline - u"
  shows "waited po deadline s gone s'"
  using assms unfolding waited_def by (auto simp: max_def split: if_splits)

lemma wait_async_result:
  "(\<forall>n. \<not> po_cancel po n) \<Longrightarrow> \<exists>gone s'. wait_async po deadline s = (Some gone, s') \<and> waited po deadline s gone s'"
proof (induction po deadline s rule: wait_async.induct)
  case (1 po deadline s)
  have nc: "\<not> fst (suspend po d x)" for d x using "1.prems" by simp
  show ?case
  proof (cases "process_group_exists po s")
    case False
    define s1 where "s1 = snd (suspend po 0 (happens (Gone (px_time s)) s))"
    have "wait_async po deadline s = (Some True, s1)"
      by (subst wait_async.simps) (use False nc in \<open>simp add: s1_def case_prod_unfold\<close>)
    moreover have "waited po deadline s True s1"
      using suspend_time [of "happens (Gone (px_time s)) s" 0 po] by (simp add: waited_def s1_def)
    ultimately show ?thesis by blast
  next
    case True
    define s1 where "s1 = (if leader_reaped po s then s else snd (suspend po 0 s))"
    have first: "(if leader_reaped po s then (False, s) else suspend po 0 s) = (False, s1)"
      using nc [of 0 s] by (auto simp: s1_def prod_eq_iff)
    have same: "px_sigs s1 = px_sigs s" "px_metrics s1 = px_metrics s" "px_trace s1 = px_trace s" "px_time s \<le> px_time s1" "asked po s1 = asked po s"
      using suspend_time [of s 0 po] by (simp_all add: s1_def)
    define s2 where "s2 = snd (suspend po (min (1 / 20) (deadline - px_time s1)) s1)"
    have w: "wait_async po deadline s = (if deadline - px_time s1 \<le> 0 then (Some False, s1) else wait_async po deadline s2)"
      by (subst wait_async.simps) (use True first nc in \<open>simp add: Let_def s2_def case_prod_unfold\<close>)
    show ?thesis
    proof (cases "deadline - px_time s1 \<le> 0")
      case le: True
      then show ?thesis using w same by (auto simp: waited_def)
    next
      case False
      have m: "max 0 (min (1 / 20) (deadline - px_time s1)) = min (1 / 20) (deadline - px_time s1)" using False by simp
      have second: "suspend po (min (1 / 20) (deadline - px_time s1)) s1 = (False, s2)" using nc by (simp add: s2_def prod_eq_iff)
      obtain gone s' where r: "wait_async po deadline s2 = (Some gone, s')" "waited po deadline s2 gone s'"
        using "1.IH" [OF _ first [symmetric] _ refl False second [symmetric] _ "1.prems"] True by auto
      have "waited po deadline s gone s'"
        by (rule waited_step [OF r(2), where u = "px_time s1" and m = "min (1 / 20) (deadline - px_time s1)"])
          (use same m False suspend_time [of s1 "min (1 / 20) (deadline - px_time s1)" po] in \<open>simp_all add: s2_def\<close>)
      then show ?thesis using w False r(1) by auto
    qed
  qed
qed

lemma wait_popen_result: "\<exists>gone s'. wait_popen po deadline s = (gone, s') \<and> waited po deadline s gone s'"
proof (induction po deadline s rule: wait_popen.induct)
  case (1 po deadline s)
  show ?case
  proof (cases "process_group_exists po s")
    case False
    then have "wait_popen po deadline s = (True, happens (Gone (px_time s)) s)" by (subst wait_popen.simps) simp
    then show ?thesis by (auto simp: waited_def)
  next
    case True
    show ?thesis
    proof (cases "deadline - px_time s \<le> 0")
      case le: True
      then have "wait_popen po deadline s = (False, s)" by (subst wait_popen.simps) (use True in simp)
      then show ?thesis using le by (auto simp: waited_def)
    next
      case False
      define s2 where "s2 = snd (suspend po (min (1 / 20) (deadline - px_time s)) s)"
      have w: "wait_popen po deadline s = wait_popen po deadline s2"
        by (subst wait_popen.simps) (use True False in \<open>simp add: Let_def s2_def\<close>)
      obtain gone s' where r: "wait_popen po deadline s2 = (gone, s')" "waited po deadline s2 gone s'"
        using "1.IH" [OF _ refl False] True by (auto simp: s2_def)
      have m: "max 0 (min (1 / 20) (deadline - px_time s)) = min (1 / 20) (deadline - px_time s)" using False by simp
      have "waited po deadline s gone s'"
        by (rule waited_step [OF r(2), where u = "px_time s" and m = "min (1 / 20) (deadline - px_time s)"])
          (use m False suspend_time [of s "min (1 / 20) (deadline - px_time s)" po] in \<open>simp_all add: s2_def\<close>)
      then show ?thesis using w r(1) by auto
    qed
  qed
qed

text \<open>Accounted for: the group was seen gone, or it was seen alive a second after \<open>SIGKILL\<close>.  Patient: every
  \<open>SIGKILL\<close> comes two seconds or more after a \<open>SIGTERM\<close>.\<close>

definition accounted_for :: "proc_state \<Rightarrow> bool" where
  "accounted_for s = list_ex (\<lambda>ev. case ev of
     Gone _ \<Rightarrow> True | Survived t \<Rightarrow> list_ex (\<lambda>g. fst g = SIGKILL \<and> snd g + 1 \<le> t) (px_sigs s) | _ \<Rightarrow> False) (px_trace s)"

definition patient :: "(sig \<times> rat) list \<Rightarrow> bool" where
  "patient gs = list_all (\<lambda>g. fst g = SIGKILL \<longrightarrow> list_ex (\<lambda>g'. fst g' = SIGTERM \<and> snd g' + 2 \<le> snd g) gs) gs"

definition terminated :: "proc_os \<Rightarrow> proc_state \<Rightarrow> proc_state \<Rightarrow> bool" where
  "terminated po s s' = (accounted_for s' \<and> (patient (px_sigs s) \<longrightarrow> patient (px_sigs s')) \<and>
     asked po s' \<le> asked po s + 7 / 2 \<and> px_time s \<le> px_time s' \<and>
     (\<exists>evs. px_trace s' = px_trace s @ evs \<and> list_all (\<lambda>ev. case ev of Gone _ \<Rightarrow> True | Survived _ \<Rightarrow> True | _ \<Rightarrow> False) evs))"

definition reaped_to :: "proc_os \<Rightarrow> bool \<Rightarrow> proc_state \<Rightarrow> proc_state \<Rightarrow> bool" where
  "reaped_to po gone s s' = (px_sigs s' = px_sigs s \<and> px_metrics s' = px_metrics s \<and> px_time s \<le> px_time s' \<and>
     asked po s' \<le> asked po s + 1 / 2 \<and> px_trace s' = px_trace s @ (if gone then [] else [Survived (px_time s')]))"

lemma reap_leader_result:
  assumes "\<not> po_cancel po (px_awaits s)"
  shows "\<exists>s'. reap_leader po gone s = (False, s') \<and> reaped_to po gone s s'"
proof -
  define s1 where "s1 = (if leader_reaped po s then s else snd (suspend po (1 / 2) s))"
  have "(if leader_reaped po s then (False, s) else suspend po (1 / 2) s) = (False, s1)"
    using assms by (auto simp: s1_def prod_eq_iff)
  then have "reap_leader po gone s = (False, if gone then s1 else happens (Survived (px_time s1)) s1)"
    by (simp add: reap_leader_def)
  moreover have "px_sigs s1 = px_sigs s" "px_metrics s1 = px_metrics s" "px_time s \<le> px_time s1" "asked po s1 \<le> asked po s + 1 / 2" "px_trace s1 = px_trace s"
    using suspend_time [of s "1 / 2" po] by (simp_all add: s1_def)
  ultimately show ?thesis by (cases gone) (auto simp: reaped_to_def)
qed

lemma patient_step:
  assumes "patient gs" "\<not> (fst g = SIGKILL) \<or> list_ex (\<lambda>g'. fst g' = SIGTERM \<and> snd g' + 2 \<le> snd g) gs"
  shows "patient (gs @ [g])"
  using assms by (auto simp: patient_def list_all_iff list_ex_iff)

lemma terminated_early:
  assumes "waited po (px_time s + 2) (signal_process_group SIGTERM s) True s2" "reaped_to po True s2 s'"
  shows "terminated po s s'"
proof -
  obtain t where t: "px_trace s2 = px_trace s @ [Gone t]" using assms(1) by (auto simp: waited_def)
  have "patient (px_sigs s) \<Longrightarrow> patient (px_sigs s')" using assms patient_step [of "px_sigs s" "(SIGTERM, px_time s)"] by (simp add: waited_def reaped_to_def)
  then show ?thesis using assms t by (auto simp: terminated_def accounted_for_def waited_def reaped_to_def max_def)
qed

lemma terminated_late:
  assumes w: "waited po (px_time s + 2) (signal_process_group SIGTERM s) False s2"
    and k: "waited po (px_time s2 + 1) (signal_process_group SIGKILL s2) gone s4" and r: "reaped_to po gone s4 s'"
  shows "terminated po s s'"
proof -
  have s2: "px_sigs s2 = px_sigs s @ [(SIGTERM, px_time s)]" "px_time s + 2 \<le> px_time s2" "px_trace s2 = px_trace s" "px_metrics s2 = px_metrics s"
    "asked po s2 \<le> asked po s + 2" "px_time s \<le> px_time s2" using w by (simp_all add: waited_def)
  have s4: "px_sigs s' = px_sigs s2 @ [(SIGKILL, px_time s2)]" "px_metrics s' = px_metrics s2" "asked po s' \<le> asked po s2 + 1 + 1 / 2" "px_time s2 \<le> px_time s'"
    using k r by (auto simp: waited_def reaped_to_def)
  have tr: "(gone \<and> (\<exists>t. px_trace s' = px_trace s2 @ [Gone t])) \<or> (\<not> gone \<and> px_trace s' = px_trace s2 @ [Survived (px_time s')] \<and> px_time s2 + 1 \<le> px_time s')"
    using k r by (cases gone) (auto simp: waited_def reaped_to_def)
  have "patient (px_sigs s')" if "patient (px_sigs s)"
    unfolding s4(1) s2(1) using s2(2) by (intro patient_step that) simp_all
  moreover have "accounted_for s'" using tr by (auto simp: accounted_for_def s4(1))
  ultimately show ?thesis using s2 s4 tr by (auto simp: terminated_def)
qed

lemma terminate_async_result:
  assumes "\<forall>n. \<not> po_cancel po n"
  shows "\<exists>s'. terminate_async po 2 s = (False, s') \<and> terminated po s s'"
proof -
  obtain gone s2 where w: "wait_async po (px_time s + 2) (signal_process_group SIGTERM s) = (Some gone, s2)"
    "waited po (px_time s + 2) (signal_process_group SIGTERM s) gone s2" using wait_async_result [OF assms] by blast
  show ?thesis
  proof (cases gone)
    case True
    obtain s' where "reap_leader po True s2 = (False, s')" "reaped_to po True s2 s'" using reap_leader_result assms by blast
    then show ?thesis using w True terminated_early by (auto simp: terminate_async_def Let_def)
  next
    case False
    obtain gone2 s4 where k: "wait_async po (px_time s2 + 1) (signal_process_group SIGKILL s2) = (Some gone2, s4)"
      "waited po (px_time s2 + 1) (signal_process_group SIGKILL s2) gone2 s4" using wait_async_result [OF assms] by blast
    obtain s' where "reap_leader po gone2 s4 = (False, s')" "reaped_to po gone2 s4 s'" using reap_leader_result assms by blast
    then show ?thesis using w k False terminated_late by (auto simp: terminate_async_def Let_def)
  qed
qed

lemma terminate_popen_result: "terminated po s (terminate_popen po 2 s)"
proof -
  define po' where "po' = po\<lparr>po_cancel := (\<lambda>_. False)\<rparr>"
  have same: "reaped_to po' = reaped_to po" by (simp add: po'_def reaped_to_def asked_def fun_eq_iff)
  obtain gone s2 where w: "wait_popen po (px_time s + 2) (signal_process_group SIGTERM s) = (gone, s2)"
    "waited po (px_time s + 2) (signal_process_group SIGTERM s) gone s2" using wait_popen_result by blast
  show ?thesis
  proof (cases gone)
    case True
    obtain s' where "reap_leader po' True s2 = (False, s')" "reaped_to po' True s2 s'"
      using reap_leader_result [of po' s2 True] by (auto simp: po'_def)
    then show ?thesis using w True terminated_early same by (simp add: terminate_popen_def Let_def flip: po'_def)
  next
    case False
    obtain gone2 s4 where k: "wait_popen po (px_time s2 + 1) (signal_process_group SIGKILL s2) = (gone2, s4)"
      "waited po (px_time s2 + 1) (signal_process_group SIGKILL s2) gone2 s4" using wait_popen_result by blast
    obtain s' where "reap_leader po' gone2 s4 = (False, s')" "reaped_to po' gone2 s4 s'"
      using reap_leader_result [of po' s4 gone2] by (auto simp: po'_def)
    then show ?thesis using w k False terminated_late same by (simp add: terminate_popen_def Let_def flip: po'_def)
  qed
qed

lemma observed_simps [simp]: "px_sigs (observed op st s) = px_sigs s" "px_trace (observed op st s) = px_trace s"
    "asked po (observed op st s) = asked po s" "leader_reaped po (observed op st s) = leader_reaped po s"
  by (simp_all add: observed_def asked_def leader_reaped_def)

lemma accounted_for_observed [simp]: "accounted_for (observed op st s) = accounted_for s"
  by (simp only: accounted_for_def observed_simps)

text \<open>What a call does after its subprocess has started: nothing, one termination or two.\<close>

definition wound_up :: "proc_os \<Rightarrow> proc_state \<Rightarrow> proc_state \<Rightarrow> bool" where
  "wound_up po s s' = (accounted_for s' \<and> (patient (px_sigs s) \<longrightarrow> patient (px_sigs s')) \<and> asked po s' \<le> asked po s + 7 \<and>
     (\<exists>evs. px_trace s' = px_trace s @ evs \<and> list_all (\<lambda>ev. case ev of Gone _ \<Rightarrow> True | Survived _ \<Rightarrow> True | _ \<Rightarrow> False) evs))"

lemma wound_up_once: "terminated po s s' \<Longrightarrow> wound_up po s (observed op st s')" "terminated po s s' \<Longrightarrow> wound_up po s s'"
  by (auto simp: terminated_def wound_up_def)

lemma wound_up_twice:
  assumes "terminated po s s1" "px_sigs s2 = px_sigs s1" "px_trace s2 = px_trace s1" "asked po s2 = asked po s1" "terminated po s2 s'"
  shows "wound_up po s s'"
proof -
  obtain e1 e2 where e: "px_trace s1 = px_trace s @ e1" "px_trace s' = px_trace s1 @ e2"
    "list_all (\<lambda>ev. case ev of Gone _ \<Rightarrow> True | Survived _ \<Rightarrow> True | _ \<Rightarrow> False) (e1 @ e2)"
    using assms by (auto simp: terminated_def)
  then show ?thesis using assms unfolding terminated_def wound_up_def by (auto intro!: exI [of _ "e1 @ e2"])
qed

lemma final_check:
  assumes "\<forall>n. \<not> po_cancel po n"
  obtains s2 where "(if leader_reaped po s1 then (r, s1)
      else (case terminate_async po 2 s1 of (cancelled, s2) \<Rightarrow> (if cancelled then Inl CancelledErr else r, s2))) = (r, s2)"
    "leader_reaped po s1 \<and> s2 = s1 \<or> terminated po s1 s2"
  using terminate_async_result [OF assms, of s1] by (cases "leader_reaped po s1") auto

lemma run_admitted_result:
  assumes nc: "\<forall>n. \<not> po_cancel po n" and s0: "s0 = (happens Spawned s)\<lparr>px_time := px_time s + max 0 duration\<rparr>"
  shows "\<exists>r s'. run_admitted po op tt started Spawns duration com s = (r, s') \<and>
    (case com of
       TimedOut \<Rightarrow> r = Inr ('''', answer (''Command timed out after '' @ tt @ ''s'') (- 1)) \<and> wound_up po s0 s'
     | Interrupted \<Rightarrow> r = Inl CancelledErr \<and> wound_up po s0 s'
     | Broken err \<Rightarrow> r = Inl err \<and> (s' = s0 \<and> leader_reaped po s0 \<or> wound_up po s0 s')
     | Finished out err rc \<Rightarrow> r = Inr (out, answer err rc) \<and> (s' = observed op started s0 \<and> leader_reaped po s0 \<or> wound_up po s0 s'))"
proof -
  obtain r1 s1 where c: "run_communicate po op tt started com s0 = (r1, s1)" by fastforce
  obtain s2 where f: "(if leader_reaped po s1 then (r1, s1)
      else (case terminate_async po 2 s1 of (cancelled, s2) \<Rightarrow> (if cancelled then Inl CancelledErr else r1, s2))) = (r1, s2)"
    "leader_reaped po s1 \<and> s2 = s1 \<or> terminated po s1 s2" by (rule final_check [OF nc])
  have run: "run_admitted po op tt started Spawns duration com s = (r1, s2)"
    using c f(1) by (simp add: run_admitted_def s0 Let_def)
  obtain s3 where t: "terminate_async po 2 s0 = (False, s3)" "terminated po s0 s3" using terminate_async_result [OF nc] by blast
  show ?thesis
  proof (cases com)
    case (Finished out err rc)
    then have "r1 = Inr (out, answer err rc)" "s1 = observed op started s0" using c by (simp_all add: run_communicate_def)
    moreover have "terminated po (observed op started s0) s2 \<Longrightarrow> wound_up po s0 s2" by (auto simp: terminated_def wound_up_def)
    ultimately show ?thesis using run f(2) Finished by auto
  next
    case TimedOut
    then have "r1 = Inr ('''', answer (''Command timed out after '' @ tt @ ''s'') (- 1))" "s1 = observed op started s3"
      using c t(1) by (simp_all add: run_communicate_def)
    moreover have "wound_up po s0 s2" using f(2) calculation(2) t(2) wound_up_once wound_up_twice [OF t(2), of s1 s2] by auto
    ultimately show ?thesis using run TimedOut by auto
  next
    case Interrupted
    then have "r1 = Inl CancelledErr" "s1 = s3" using c t(1) by (simp_all add: run_communicate_def)
    moreover have "wound_up po s0 s2" using f(2) calculation(2) t(2) wound_up_once wound_up_twice [OF t(2), of s1 s2] by auto
    ultimately show ?thesis using run Interrupted by auto
  next
    case (Broken err)
    then have "r1 = Inl err" "s1 = s0" using c by (simp_all add: run_communicate_def)
    then show ?thesis using run f(2) Broken wound_up_once by auto
  qed
qed


definition stubborn :: proc_os where
  "stubborn = \<lparr>po_alive = (\<lambda>gs t. \<not> list_ex (\<lambda>g. fst g = SIGKILL) gs), po_reaped = (\<lambda>gs t. list_ex (\<lambda>g. fst g = SIGKILL) gs),
     po_delay = (\<lambda>_. 0), po_cancel = (\<lambda>_. False)\<rparr>"

definition fresh_call :: proc_state where
  "fresh_call = \<lparr>px_time = 0, px_awaits = 0, px_sigs = [], px_trace = [], px_metrics = new_metrics 0\<rparr>"


text \<open>Two limits.  A call whose leader has exited is not followed by a look at its group, so a descendant
  that let go of the pipes stays; and a second cancellation ends the cleanup before \<open>SIGKILL\<close>.\<close>

lemma finished_call_keeps_descendants:
  "leader_reaped po ((happens Spawned (happens Acquired s))\<lparr>px_time := px_time s + max 0 duration\<rparr>) \<Longrightarrow>
    px_sigs (snd (exec_ssh_bytes po op timeout_text (Inr ()) Spawns duration (Finished out err rc) s)) = px_sigs s"
  by (simp add: exec_ssh_bytes_def run_admitted_def run_communicate_def Let_def)

lemma second_cancellation_abandons_group:
  assumes "po_cancel po = (\<lambda>_. True)" "po_alive po = (\<lambda>_ _. True)" "po_reaped po = (\<lambda>_ _. True)"
  shows "case exec_ssh_bytes po op timeout_text (Inr ()) Spawns duration Interrupted s of (r, s') \<Rightarrow>
    process_group_exists po s' \<and> map fst (px_sigs s') = map fst (px_sigs s) @ [SIGTERM]"
proof -
  have "wait_async po (px_time x + 2) x = (None, snd (suspend po (1 / 20) x))" for x
    using assms by (simp add: wait_async.simps process_group_exists_def leader_reaped_def suspend_def)
  then show ?thesis using assms
    by (simp add: exec_ssh_bytes_def run_admitted_def run_communicate_def terminate_async_def Let_def leader_reaped_def process_group_exists_def)
qed

end
