(* ===== verification/Streams.thy ===== *)
theory Streams
  imports Session_Props Api_Sessions Url
begin

text \<open>
  The endpoint \<open>pi_session_stream\<close> of \<open>heartbeat.py\<close>: who may open a stream, where it starts, and what a browser that loses its
  connection has received once it is connected again.  The loop itself is \<open>stream_pi_session_events\<close> of \<open>Session_Props\<close>.
\<close>

section \<open>The endpoint\<close>

text \<open>\<open>ds\<close> are the states the polls of the stream find until the client is gone.\<close>

definition pi_session_stream :: "string \<Rightarrow> int \<Rightarrow> string \<Rightarrow> caller \<Rightarrow> database list \<Rightarrow> (pi_event list \<times> int) act" where
  "pi_session_stream session_id after last_event_id caller ds =
     (if after < 0 then raise_err (HTTPErr 422 ''after'')
      else bnd (readable_session session_id caller) (\<lambda>_.
        ret (stream_pi_session_events session_id (stream_start after last_event_id) ds)))"

section \<open>Reconnecting\<close>

text \<open>What a browser sends as \<open>Last-Event-ID\<close>: the ID of the last event it has received.\<close>

definition last_event_id :: "pi_event list \<Rightarrow> string" where
  "last_event_id es = (if es = [] then '''' else int_to_string (e_sequence (last es)))"

lemma poll_log_append:
  "poll_log page seqno c (xs @ ys) =
     (case poll_log page seqno c xs of (es, c') \<Rightarrow> case poll_log page seqno c' ys of (es', c'') \<Rightarrow> (es @ es', c''))"
  by (induction xs arbitrary: c) (auto simp: Let_def split: prod.splits)

lemma poll_log_cursor:
  "poll_log page seqno c ds = (es, c') \<Longrightarrow> c' = (if es = [] then c else seqno (last es))"
proof (induction ds arbitrary: c es)
  case (Cons d ds)
  obtain rest where rest: "poll_log page seqno (if page c d = [] then c else seqno (last (page c d))) ds = (rest, c')" "es = page c d @ rest"
    using Cons.prems by (auto simp: Let_def split: prod.splits)
  show ?case using Cons.IH [OF rest(1)] rest(2) by auto
qed simp

lemma digits_of_nat: "0 \<le> i \<Longrightarrow> int_to_string i \<noteq> '''' \<and> list_all is_digit (int_to_string i)"
  using digits_char [of _ "nat i"] nat_to_string_ne [of "nat i"] by (auto simp: int_to_string_def list_all_iff)

lemma stream_start_resumes:
  assumes "0 \<le> after" "after \<le> n"
  shows "stream_start after (int_to_string n) = n" "stream_start after '''' = after"
  using assms digits_of_nat [of n] by (simp_all add: stream_start_def py_int_int_to_string)



section \<open>Who may open a stream\<close>

lemma stream_needs_readable_session:
  assumes "pi_session_stream sid after lid caller ds env w = Some (Inr r, w')"
  shows "\<exists>s. readable_session sid caller env w = Some (Inr s, w') \<and> 0 \<le> after"
  using assms by (auto simp: pi_session_stream_def bnd_def ret_def raise_err_def split: if_splits option.splits sum.splits prod.splits)

end
