(* ===== verification/Zellij.thy ===== *)
theory Zellij
  imports Models
begin

text \<open>
  The local shortcut of the terminal client in \<open>pi_terminal.py\<close>: a session that runs in a pane of the user's own Zellij is
  focused there instead of being streamed.  The environment, the socket of the host's relay with the parser of its answer,
  and the process that runs a command are arguments.
\<close>

section \<open>The relay of the host\<close>

text \<open>The exceptions, as far as the handlers tell them apart; \<open>Unhandled\<close> is any other, such as that of a line too long for the
  reader, of bytes that are not UTF-8 or of an answer that is no object.\<close>

datatype relay_error = Unreachable string | Relay_Timeout | Relay_Refused string | Malformed string | Unhandled string

text \<open>What a request meets: an exception of the socket, or a line (empty when the relay closed).\<close>

datatype relay_event = Broken relay_error | Line string

definition relay_socket_path :: "(string \<Rightarrow> string option) \<Rightarrow> nat \<Rightarrow> string" where
  "relay_socket_path env uid =
     (case env ''WH_PI_HOST_RELAY_SOCKET'' of
        Some (c # cs) \<Rightarrow> path_str (posix_path (c # cs))
      | _ \<Rightarrow>
        (let runtime = (case env ''XDG_RUNTIME_DIR'' of Some (c # cs) \<Rightarrow> c # cs | _ \<Rightarrow> ''/tmp/worker-harness-'' @ nat_to_string uid)
         in path_str (posix_path (runtime @ ''/worker-harness/pi-host-relay.sock''))))"

definition relay_request :: "(string \<Rightarrow> relay_error + json) \<Rightarrow> (json \<Rightarrow> string) \<Rightarrow> relay_event \<Rightarrow> relay_error + (string \<times> json) list" where
  "relay_request parse repr ev = (case ev of
     Broken err \<Rightarrow> Inl err
   | Line raw \<Rightarrow>
       if raw = '''' then Inl (Relay_Refused ''local Pi host relay closed without a response'')
       else (case parse raw of
         Inl err \<Rightarrow> Inl err
       | Inr (JObj response) \<Rightarrow>
           if json_truthy (json_get response ''ok'' JNull) then Inr response
           else Inl (Relay_Refused (py_str repr (json_or (json_get response ''error'' JNull) (JStr ''local Pi session is unavailable''))))
       | Inr _ \<Rightarrow> Inl (Unhandled ''object has no attribute get'')))"

section \<open>Focusing a pane\<close>

record desk =
  dk_env :: "string \<Rightarrow> string option"
  dk_relay :: "json \<Rightarrow> relay_event"
  dk_parse :: "string \<Rightarrow> relay_error + json"
  dk_repr :: "json \<Rightarrow> string"
  dk_run :: "string list \<Rightarrow> relay_error + (int \<times> string)"

definition handled :: "relay_error \<Rightarrow> bool" where
  "handled err = (case err of Unhandled _ \<Rightarrow> False | _ \<Rightarrow> True)"

definition env_text :: "desk \<Rightarrow> string \<Rightarrow> string" where
  "env_text dk name = (case dk_env dk name of None \<Rightarrow> '''' | Some s \<Rightarrow> s)"

definition route_text :: "desk \<Rightarrow> (string \<times> json) list \<Rightarrow> string \<Rightarrow> string" where
  "route_text dk route key = py_str (dk_repr dk) (json_or (json_get route key JNull) (JStr ''''))"

definition describe :: "string \<Rightarrow> json" where
  "describe session_id = JObj [(''action'', JStr ''describe''), (''session_id'', JStr session_id)]"

definition zellij_command :: "string \<Rightarrow> string \<Rightarrow> string \<Rightarrow> string list" where
  "zellij_command current target_session target_pane =
     [''zellij'', ''action''] @
     (if target_session = current then [''focus-pane-id'', target_pane]
      else [''switch-session'', target_session, ''--pane-id'', target_pane])"

text \<open>The commands that were run, and the answer.\<close>

definition focus_local_zellij_session :: "desk \<Rightarrow> string \<Rightarrow> string list list \<times> (relay_error + bool)" where
  "focus_local_zellij_session dk session_id =
     (let current_tmux = hd (split_on (CHR '','') (env_text dk ''TMUX''));
          current_zellij = env_text dk ''ZELLIJ_SESSION_NAME''
      in if current_tmux \<noteq> '''' \<or> current_zellij = '''' then ([], Inr False)
      else (case relay_request (dk_parse dk) (dk_repr dk) (dk_relay dk (describe session_id)) of
        Inl err \<Rightarrow> ([], if handled err then Inr False else Inl err)
      | Inr route \<Rightarrow>
          if route_text dk route ''multiplexer'' \<noteq> ''zellij'' then ([], Inr False)
          else (let target_session = route_text dk route ''zellij_session_name''; target_pane = route_text dk route ''zellij_pane_id''
            in if target_session = '''' \<or> \<not> startswith ''terminal_'' target_pane then ([], Inr False)
            else (let command = zellij_command current_zellij target_session target_pane
              in ([command], case dk_run dk command of
                   Inl err \<Rightarrow> Inl err
                 | Inr (code, err) \<Rightarrow>
                     if code \<noteq> 0 then Inl (Relay_Refused (''could not focus local Zellij pane: '' @ strip err)) else Inr True)))))"

section \<open>Only the pane of the session\<close>

text \<open>
  The user's Zellij is touched only from a pane of it that holds no tmux, by one command, which names the pane the relay
  gives for this very session; the caller is told that the session is focused exactly when that command succeeded.
  A relay that is absent, slow, refuses or answers no JSON is never an error: the session is then streamed.
\<close>

theorem focus_is_exact:
  assumes "focus_local_zellij_session dk session_id = (commands, r)"
  shows "commands = [] \<and> r \<noteq> Inr True \<or>
    (\<exists>route pane target. relay_request (dk_parse dk) (dk_repr dk) (dk_relay dk (describe session_id)) = Inr route \<and>
       hd (split_on (CHR '','') (env_text dk ''TMUX'')) = '''' \<and> env_text dk ''ZELLIJ_SESSION_NAME'' \<noteq> '''' \<and>
       route_text dk route ''multiplexer'' = ''zellij'' \<and> route_text dk route ''zellij_session_name'' = target \<and> target \<noteq> '''' \<and>
       route_text dk route ''zellij_pane_id'' = ''terminal_'' @ pane \<and>
       commands = [zellij_command (env_text dk ''ZELLIJ_SESSION_NAME'') target (''terminal_'' @ pane)] \<and>
       (r = Inr True \<longleftrightarrow> (\<exists>err. dk_run dk (hd commands) = Inr (0, err))))"
proof (cases "commands = []")
  case True
  with assms show ?thesis by (auto simp: focus_local_zellij_session_def Let_def split: if_splits sum.splits)
next
  case False
  with assms show ?thesis
    by (auto simp: focus_local_zellij_session_def Let_def startswith_iff split: if_splits sum.splits)
qed

lemma silent_relay_streams:
  assumes "dk_relay dk (describe session_id) = Broken err" "handled err"
  shows "focus_local_zellij_session dk session_id = ([], Inr False)"
  using assms by (simp add: focus_local_zellij_session_def relay_request_def Let_def)

end
