(* ===== verification/Spec2Isabelle.thy ===== *)
theory Spec2Isabelle
  imports Session_Props Schema_Props Control Api_Access Pi_Cli Attachment Membership History Processes Streams Zellij
begin

text \<open>
  Worker Harness: a verification library of its control plane, its workers and its clients.  File names below are those of
  \<open>src/src/worker_harness/\<close> unless they start with \<open>src/\<close>.

  THE PROGRAM.  Worker containers run a daemon that measures the machine and sends a heartbeat to the registration
  service.  The control service keeps workers, jobs, agent sessions, port forwards, notebooks and failures in one SQLite
  database, runs commands on workers over SSH, dispatches a FIFO queue of GPU jobs per worker, and coordinates a fleet
  of coding agents: one orchestrator, one manager per project, and tasks in worktrees of their own, each in a pane of the
  terminal multiplexer Herdr of a client machine.  Bridges beside the agents register their session, report events and
  fetch commands.  Users follow the events as a stream, attach a terminal through a gateway, and use the command line
  and a text interface, part of which opens the database itself.

  THE THEORIES, with the code they translate.

  Shared vocabulary: \<open>Prelude\<close> (errors, results, tables with a primary key and their interface \<open>row_store\<close>), \<open>Py_Lib\<close>, \<open>Codec\<close>,
  \<open>Url\<close> and \<open>Paths\<close> (the parts of Python's library the code calls, with the shell's word splitting and Base64), \<open>Models\<close>
  (\<open>models.py\<close>, and JSON values).

  The repository \<open>db.py\<close>: \<open>Db\<close> (workers, forwards, notebooks, failures), \<open>Db_Queue\<close> (jobs), \<open>Db_Sessions\<close> (sessions, events,
  commands), \<open>Rows\<close> (encoding and decoding of rows), \<open>Schema\<close> (\<open>_init_schema\<close> and the upgrades of former databases).  One method
  is one atomic step on the record \<open>database\<close>, because methods whose statements must not interleave hold a lock.

  What the tables promise: \<open>Queue_Refine\<close> and \<open>Queue_Spec\<close> (the locale \<open>fifo_queue\<close>, interpreted on the SQL of \<open>Db_Queue\<close>),
  \<open>Session_Spec\<close> and \<open>Session_Props\<close> (the locale \<open>sequenced_log\<close>, interpreted on the event table; the step relation of all session
  operations), \<open>Schema_Props\<close>, \<open>Streams\<close> (reconnecting clients), \<open>Membership\<close> (which workers are listed).

  Effects: \<open>Remote\<close> defines actions, functions from an environment and the state (tables, trace of remote commands, clock
  readings) to a result or exception and the new state; an action that does not return is None.  \<open>Ssh\<close> (\<open>ssh.py\<close>) has the
  command lines and the reading of answers, \<open>Processes\<close> the life of the process behind a call, \<open>Lanes\<close> (\<open>lanes.py\<close>) the
  admission of calls to a worker, \<open>Metrics\<close>, \<open>Ratelimit\<close> and \<open>Cache\<close> the modules of those names.

  Jobs and workers: \<open>Jobs\<close> (\<open>job.py\<close> and the reconciliation loops), \<open>Data\<close> (\<open>data.py\<close>), \<open>Api_Jobs\<close> (worker, job, file and data
  endpoints of \<open>heartbeat.py\<close>), \<open>Tunnels\<close> (\<open>tunnel_registry.py\<close>, \<open>reaper.py\<close>, the tunnel endpoints), \<open>Notebooks\<close> (\<open>marimo.py\<close> and its
  endpoints), \<open>Worker_Daemon\<close> and \<open>Membership\<close> (\<open>src/worker_container/worker_daemon.py\<close>, the sweep of \<open>orchestrator.py\<close>).

  The fleet: \<open>Fleet\<close> (\<open>machines.py\<close>, \<open>projects.py\<close>, \<open>sandbox.py\<close>), \<open>Herdr\<close> (\<open>herdr_host.py\<close>), \<open>Orchestration\<close> with \<open>Fleet_Props\<close>
  (\<open>orchestration.py\<close>), \<open>Pr\<close> (\<open>pr.py\<close>), \<open>Auth\<close> (callers and roles of \<open>heartbeat.py\<close>), \<open>Api_Sessions\<close> with \<open>Api_Access\<close> (session endpoints).

  Terminals: \<open>Gateway\<close> and \<open>Relay\<close> (attachments in \<open>heartbeat.py\<close>), \<open>Terminal\<close> and \<open>Zellij\<close> (\<open>pi_terminal.py\<close>), \<open>Attachment\<close> (\<open>pi_herdr.py\<close>).

  Clients: \<open>Host_Runtime\<close> (\<open>host_runtime.py\<close>), \<open>Host_Cli\<close> (\<open>cli/host.py\<close>), \<open>Cli\<close> (\<open>cli/jobs.py\<close>, \<open>cli/workers.py\<close>, \<open>cli/agent.py\<close>,
  \<open>cli/tunnels.py\<close>), \<open>Pi_Cli\<close> (\<open>cli/pi.py\<close>, \<open>config.py\<close>, \<open>agents.py\<close>), \<open>Tui\<close> (\<open>tui/app.py\<close>), \<open>History\<close> (\<open>pi_history.py\<close>).

  The whole: \<open>Control\<close> has request bodies and their validation, the cached listings, diagnostics, start and shutdown, and the
  sequences of requests of every client, command line and text interface over which the GPU invariant is stated.

  WHAT THE LEMMAS SHOW.
  The job queue: in every reachable state no GPU is given to two claimed jobs; queues are first in, first out; dispatch is
  work-conserving; a recovered launch returns to its place; all of this for any requests and bodies (\<open>Control\<close>).
  Sessions: events are numbered without gaps and never change; the stream and its reconnections lose and repeat nothing;
  a replaced bridge is fenced; a command is acknowledged once; a blocked task stays so until answered.
  Bounds: lanes, rate limits, attachments, remote calls per Herdr request.  The fleet: what a launch and a teardown can
  destroy, reuse and retirement of managers, the access matrix.  All-or-nothing: notebooks, tunnels, the manifest, the
  processes behind calls.  The schema: upgrades from every former version end in the current one and keep the rows.
  Clients: the relay carries keys unchanged, credentials reach only the gateway, setup and doctor agree.
  Where the code does not do what it means to do, a lemma exhibits the input.

  BOUNDS AND FUEL.  \<open>dispatch_loop\<close> is a partial function whose termination is proved, as each round launches a job or stops.
  Loops of the code with a deadline have as many rounds as their sleep fits into it, and one: \<open>wait_loop\<close> 120 (half a second in
  60), \<open>await_server\<close> 20 probes, \<open>poll_commands\<close> 64 (half a second in 30, and the rounds before and after), \<open>wait_for_job\<close>
  2 * timeout + 1, \<open>watch_copy\<close> one per second of its time to live.  \<open>resolve 41\<close> follows the 40 links Linux follows.  The waits for
  notebooks and processes are functions with termination proofs by the time left, in rounds of 1/4 and 1/20 of a second.

  THE ENVIRONMENT.  Remote commands, clocks, UUIDs, websockets, subprocesses, the file system below the operations used, the
  parser and printer of JSON and TOML, and the events of the loop (time-outs, cancellations) are arguments; the
  properties hold for all of them.  Strings are byte strings, exact on ASCII; floats are rationals.

  NOT MODELLED.  The framing of server-sent events and the raw websocket protocol; FastAPI's routing and pydantic's lenient
  conversions; the parsing of arguments by typer and the layout by rich; Textual's widgets, styles and event delivery;
  raw mode of the user's terminal; the start of the servers and their tasks and signal handlers in \<open>orchestrator.py\<close> and the
  registration of command groups in \<open>cli/app.py\<close>; psutil's figures; the decorator \<open>cached_response\<close>, which nothing uses; the
  JavaScript program behind \<open>pi_history.py\<close> and the web client.
\<close>

end
